(* ===== verification/Prelude.thy ===== *)
theory Prelude
  imports Complex_Main "HOL-Library.AList" "HOL-Library.Word" "HOL-Library.Sublist" "HOL-Library.Char_ord"
begin

text \<open>
  Shared vocabulary of the development: results with errors as values, the
  integer types of the handler (\<open>i64\<close> as bounded integers with the saturating
  and wrapping operations of Rust written out, \<open>u32\<close> as 32-bit words), instants
  and durations in nanoseconds, the string operations the source uses, and the
  keyed stores (\<open>HashMap\<close> or SQLite table) as association lists with their
  lookup laws.
\<close>

section \<open>Lemma collections\<close>

named_theorems store_simps \<open>lookup laws of the keyed stores\<close>
named_theorems i64_simps \<open>facts on saturating 64-bit arithmetic\<close>

section \<open>Integers\<close>

type_synonym i64 = int
type_synonym u32 = "32 word"

definition i64_max :: int where
  "i64_max = 9223372036854775807"

definition i64_min :: int where
  "i64_min = - 9223372036854775808"

definition in_i64 :: "int \<Rightarrow> bool" where
  "in_i64 x \<longleftrightarrow> i64_min \<le> x \<and> x \<le> i64_max"

definition clamp_i64 :: "int \<Rightarrow> int" where
  "clamp_i64 x = (if x < i64_min then i64_min else if i64_max < x then i64_max else x)"

definition sat_add :: "i64 \<Rightarrow> i64 \<Rightarrow> i64" where
  "sat_add a b = clamp_i64 (a + b)"

definition sat_sub :: "i64 \<Rightarrow> i64 \<Rightarrow> i64" where
  "sat_sub a b = clamp_i64 (a - b)"

definition sat_mul :: "i64 \<Rightarrow> i64 \<Rightarrow> i64" where
  "sat_mul a b = clamp_i64 (a * b)"

text \<open>Release builds of the crate have no overflow checks: plain \<open>*\<close> on \<open>i64\<close> wraps.\<close>

definition wrap_i64 :: "int \<Rightarrow> int" where
  "wrap_i64 x = (x + 9223372036854775808) mod 18446744073709551616 - 9223372036854775808"

lemma clamp_i64_in [i64_simps, simp]: "in_i64 (clamp_i64 x)"
  by (simp add: clamp_i64_def in_i64_def i64_min_def i64_max_def)

lemma clamp_i64_id [i64_simps]: "in_i64 x \<Longrightarrow> clamp_i64 x = x"
  by (simp add: clamp_i64_def in_i64_def)

lemma clamp_i64_mono: "x \<le> y \<Longrightarrow> clamp_i64 x \<le> clamp_i64 y"
  by (simp add: clamp_i64_def i64_min_def i64_max_def)

lemma sat_add_in [i64_simps, simp]: "in_i64 (sat_add a b)"
  and sat_sub_in [i64_simps, simp]: "in_i64 (sat_sub a b)"
  and sat_mul_in [i64_simps, simp]: "in_i64 (sat_mul a b)"
  by (simp_all add: sat_add_def sat_sub_def sat_mul_def)

lemma sat_add_id [i64_simps]: "in_i64 (a + b) \<Longrightarrow> sat_add a b = a + b"
  by (simp add: sat_add_def clamp_i64_id)

lemma sat_sub_id [i64_simps]: "in_i64 (a - b) \<Longrightarrow> sat_sub a b = a - b"
  by (simp add: sat_sub_def clamp_i64_id)

lemma sat_mul_id [i64_simps]: "in_i64 (a * b) \<Longrightarrow> sat_mul a b = a * b"
  by (simp add: sat_mul_def clamp_i64_id)

lemma sat_add_nonneg: "0 \<le> a \<Longrightarrow> 0 \<le> b \<Longrightarrow> 0 \<le> sat_add a b"
  by (simp add: sat_add_def clamp_i64_def i64_min_def i64_max_def)

lemma clamp_i64_nonneg: "0 \<le> x \<Longrightarrow> 0 \<le> clamp_i64 x"
  by (simp add: clamp_i64_def i64_min_def i64_max_def)

lemma sat_mul_nonneg: "0 \<le> a \<Longrightarrow> 0 \<le> b \<Longrightarrow> 0 \<le> sat_mul a b"
  by (simp add: sat_mul_def clamp_i64_nonneg)

lemma sat_add_eq_min: "0 \<le> a \<Longrightarrow> 0 \<le> b \<Longrightarrow> sat_add a b = min i64_max (a + b)"
  by (simp add: sat_add_def clamp_i64_def i64_min_def i64_max_def min_def)

lemma sat_mul_eq_min: "0 \<le> a \<Longrightarrow> 0 \<le> b \<Longrightarrow> sat_mul a b = min i64_max (a * b)"
proof -
  assume "0 \<le> a" "0 \<le> b"
  then have "0 \<le> a * b" by simp
  then show ?thesis
    by (simp add: sat_mul_def clamp_i64_def i64_min_def i64_max_def min_def)
qed

text \<open>\<open>u32::saturating_add(1)\<close>.\<close>

definition sat_inc_u32 :: "u32 \<Rightarrow> u32" where
  "sat_inc_u32 n = (if n = - 1 then - 1 else n + 1)"

lemma unat_max_u32: "unat (- 1 :: u32) = 4294967295"
proof -
  have "- 1 = (4294967295 :: u32)" by simp
  then show ?thesis by (simp only: unat_numeral) simp
qed

lemma unat_sat_inc_u32: "unat (sat_inc_u32 n) = min (2 ^ 32 - 1) (Suc (unat n))"
proof (cases "n = - 1")
  case True
  then show ?thesis by (simp add: sat_inc_u32_def unat_max_u32)
next
  case False
  then have "unat (n + 1) = Suc (unat n)"
    using unatSuc [of n] by (metis add.commute add_eq_0_iff)
  moreover have "unat (n + 1) < 2 ^ 32"
    using unsigned_less [of "n + 1"] by simp
  ultimately show ?thesis
    using False by (simp add: sat_inc_u32_def min_def)
qed

section \<open>Instants and durations\<close>

text \<open>
  An instant of the clock (\<open>DateTime<Utc>\<close>) and a duration are integers counting
  nanoseconds. The chrono operations that can fail or print are parameters.
\<close>

type_synonym time = int
type_synonym duration = int

definition secs :: "int \<Rightarrow> duration" where
  "secs n = n * 1000000000"

definition hours :: "int \<Rightarrow> duration" where
  "hours n = secs (n * 3600)"

definition days :: "int \<Rightarrow> duration" where
  "days n = secs (n * 86400)"

text \<open>
  The chrono operations the code calls, as parameters: constructing a duration of so many
  seconds (\<open>None\<close> where \<open>Duration::days\<close> and its kin panic because the duration is
  out of bounds), an instant from a Unix timestamp, adding calendar months, and the RFC 3339
  text of an instant and its parser.
\<close>

record chrono =
  ch_duration_secs :: "int \<Rightarrow> duration option"
  ch_from_timestamp :: "int \<Rightarrow> time option"
  ch_add_months :: "time \<Rightarrow> nat \<Rightarrow> time option"
  ch_to_rfc3339 :: "time \<Rightarrow> string"
  ch_parse_rfc3339 :: "string \<Rightarrow> time option"

text \<open>Documented: parsing the text of an instant gives the instant back.\<close>

definition rfc3339_roundtrip :: "chrono \<Rightarrow> bool" where
  "rfc3339_roundtrip C \<longleftrightarrow> (\<forall>t. ch_parse_rfc3339 C (ch_to_rfc3339 C t) = Some t)"

text \<open>
  Documented: the texts are ordered as the instants (the fields go from the year down, with a
  fixed width). SQLite compares texts byte by byte.
\<close>

fun text_less :: "string \<Rightarrow> string \<Rightarrow> bool" where
  "text_less [] ys = (ys \<noteq> [])"
| "text_less (x # xs) [] = False"
| "text_less (x # xs) (y # ys) = (if x = y then text_less xs ys else (of_char x :: nat) < of_char y)"

definition rfc3339_ordered :: "chrono \<Rightarrow> bool" where
  "rfc3339_ordered C \<longleftrightarrow> (\<forall>s t. text_less (ch_to_rfc3339 C s) (ch_to_rfc3339 C t) \<longleftrightarrow> s < t)"

text \<open>Documented: a constructed duration has the requested length.\<close>

definition durations_exact :: "chrono \<Rightarrow> bool" where
  "durations_exact C \<longleftrightarrow> (\<forall>s d. ch_duration_secs C s = Some d \<longrightarrow> d = secs s)"

text \<open>
  A concrete instance for evaluation: durations within the documented bound of
  \<open>i64::MAX\<close> milliseconds, timestamps in seconds, months of thirty days, and decimal
  text for instants.
\<close>

definition chrono_demo :: chrono where
  "chrono_demo = \<lparr>
     ch_duration_secs = (\<lambda>s. if \<bar>s\<bar> \<le> 9223372036854775 then Some (secs s) else None),
     ch_from_timestamp = (\<lambda>s. Some (secs s)),
     ch_add_months = (\<lambda>t n. Some (t + days (30 * int n))),
     ch_to_rfc3339 = (\<lambda>t. if t < 0 then CHR ''-'' # replicate (nat (- t)) CHR ''0'' @ [CHR ''1'']
                           else CHR ''0'' # replicate (nat t) CHR ''0''),
     ch_parse_rfc3339 = (\<lambda>s. case s of
         [] \<Rightarrow> None
       | c # cs \<Rightarrow> if c = CHR ''-'' then Some (1 - int (length cs)) else Some (int (length cs)))\<rparr>"

lemma text_less_zeros:
  "text_less (replicate m CHR ''0'') (replicate n CHR ''0'') \<longleftrightarrow> m < n"
  "text_less (replicate m CHR ''0'' @ [CHR ''1'']) (replicate n CHR ''0'' @ [CHR ''1'']) \<longleftrightarrow> n < m"
proof -
  show "text_less (replicate m CHR ''0'') (replicate n CHR ''0'') \<longleftrightarrow> m < n"
  proof (induction m arbitrary: n)
    case (Suc m)
    then show ?case by (cases n) simp_all
  qed simp
  show "text_less (replicate m CHR ''0'' @ [CHR ''1'']) (replicate n CHR ''0'' @ [CHR ''1'']) \<longleftrightarrow> n < m"
  proof (induction m arbitrary: n)
    case 0
    then show ?case by (cases n) simp_all
  next
    case (Suc m)
    then show ?case by (cases n) simp_all
  qed
qed

lemma chrono_demo_ok:
  "rfc3339_roundtrip chrono_demo" "durations_exact chrono_demo" "rfc3339_ordered chrono_demo"
proof -
  show "rfc3339_roundtrip chrono_demo"
    by (simp add: rfc3339_roundtrip_def chrono_demo_def)
  show "durations_exact chrono_demo"
    by (simp add: durations_exact_def chrono_demo_def)
  have "text_less (ch_to_rfc3339 chrono_demo s) (ch_to_rfc3339 chrono_demo t) \<longleftrightarrow> s < t" for s t
    by (cases "s < 0"; cases "t < 0") (auto simp: chrono_demo_def text_less_zeros)
  then show "rfc3339_ordered chrono_demo" by (simp add: rfc3339_ordered_def)
qed

section \<open>Strings\<close>

text \<open>
  A Rust string is its list of UTF-8 bytes. \<open>trim\<close> removes the Unicode
  \<open>White_Space\<close> characters, whose encodings are listed.
\<close>

definition lower_char :: "char \<Rightarrow> char" where
  "lower_char c = (let n = (of_char c :: nat) in if 65 \<le> n \<and> n \<le> 90 then char_of (n + 32) else c)"

definition upper_char :: "char \<Rightarrow> char" where
  "upper_char c = (let n = (of_char c :: nat) in if 97 \<le> n \<and> n \<le> 122 then char_of (n - 32) else c)"

definition eq_ignore_ascii_case :: "string \<Rightarrow> string \<Rightarrow> bool" where
  "eq_ignore_ascii_case a b \<longleftrightarrow> map lower_char a = map lower_char b"

definition to_ascii_uppercase :: "string \<Rightarrow> string" where
  "to_ascii_uppercase s = map upper_char s"

definition to_ascii_lowercase :: "string \<Rightarrow> string" where
  "to_ascii_lowercase s = map lower_char s"

definition bytes :: "nat list \<Rightarrow> string" where
  "bytes ns = map char_of ns"

definition white_space :: "string list" where
  "white_space = map bytes
     ([[9], [10], [11], [12], [13], [32], [194, 133], [194, 160], [225, 154, 128],
       [226, 128, 168], [226, 128, 169], [226, 128, 175], [226, 129, 159], [227, 128, 128]]
      @ map (\<lambda>k. [226, 128, 128 + k]) [0, 1, 2, 3, 4, 5, 6, 7, 8, 9, 10])"

fun find_prefix :: "string list \<Rightarrow> string \<Rightarrow> nat" where
  "find_prefix [] s = 0"
| "find_prefix (w # ws) s = (if w \<noteq> [] \<and> prefix w s then length w else find_prefix ws s)"

lemma find_prefix_le: "find_prefix ws s \<le> length s"
  by (induction ws) (auto dest: prefix_length_le)

function strip_words :: "string list \<Rightarrow> string \<Rightarrow> string" where
  "strip_words ws s =
     (let n = find_prefix ws s in if n = 0 then s else strip_words ws (drop n s))"
  by pat_completeness auto
termination
proof (relation "measure (\<lambda>(ws, s). length s)", goal_cases)
  case (2 ws s n)
  then show ?case using find_prefix_le [of ws s] by auto
qed simp

declare strip_words.simps [simp del]

definition trim_start :: "string \<Rightarrow> string" where
  "trim_start s = strip_words white_space s"

definition trim_end :: "string \<Rightarrow> string" where
  "trim_end s = rev (strip_words (map rev white_space) (rev s))"

definition trim :: "string \<Rightarrow> string" where
  "trim s = trim_end (trim_start s)"

text \<open>A string that starts and ends with a printable ASCII byte is its own trim.\<close>

definition graphic :: "char \<Rightarrow> bool" where
  "graphic c \<longleftrightarrow> 33 \<le> (of_char c :: nat) \<and> (of_char c :: nat) < 127"

lemma white_space_not_graphic:
  "w \<in> set white_space \<Longrightarrow> w \<noteq> [] \<and> \<not> graphic (hd w) \<and> \<not> graphic (last w)"
  by (auto simp: white_space_def bytes_def graphic_def)

lemma find_prefix_0:
  "\<forall>w \<in> set ws. w \<noteq> [] \<and> hd w \<noteq> hd s \<Longrightarrow> find_prefix ws s = 0"
  by (induction ws) (auto simp: prefix_def)

lemma trim_graphic:
  assumes "s \<noteq> []" "graphic (hd s)" "graphic (last s)"
  shows "trim s = s"
proof -
  have "find_prefix white_space s = 0"
    using assms white_space_not_graphic by (intro find_prefix_0 ballI) metis
  then have start: "trim_start s = s"
    by (simp add: trim_start_def strip_words.simps)
  have "find_prefix (map rev white_space) (rev s) = 0"
  proof (rule find_prefix_0, rule ballI)
    fix w assume "w \<in> set (map rev white_space)"
    then obtain v where v: "v \<in> set white_space" "w = rev v" by auto
    then show "w \<noteq> [] \<and> hd w \<noteq> hd (rev s)"
      using white_space_not_graphic [OF v(1)] assms by (auto simp: hd_rev)
  qed
  then show ?thesis
    by (simp add: trim_def start trim_end_def strip_words.simps)
qed

definition strip_prefix :: "string \<Rightarrow> string \<Rightarrow> string option" where
  "strip_prefix p s = (if prefix p s then Some (drop (length p) s) else None)"

lemma strip_prefix_Some: "strip_prefix p s = Some n \<longleftrightarrow> s = p @ n"
  by (auto simp: strip_prefix_def prefix_def)

lemma strip_prefix_None: "strip_prefix p s = None \<longleftrightarrow> (\<forall>n. s \<noteq> p @ n)"
  by (auto simp: strip_prefix_def prefix_def)

definition strip_suffix :: "string \<Rightarrow> string \<Rightarrow> string option" where
  "strip_suffix p s = (if suffix p s then Some (take (length s - length p) s) else None)"

fun split_once :: "char \<Rightarrow> string \<Rightarrow> (string \<times> string) option" where
  "split_once c [] = None"
| "split_once c (x # xs) =
     (if x = c then Some ([], xs)
      else map_option (\<lambda>(a, b). (x # a, b)) (split_once c xs))"

text \<open>\<open>str::split(c)\<close>: always at least one piece.\<close>

fun split_on :: "char \<Rightarrow> string \<Rightarrow> string list" where
  "split_on c [] = [[]]"
| "split_on c (x # xs) =
     (if x = c then [] # split_on c xs
      else case split_on c xs of [] \<Rightarrow> [[x]] | p # ps \<Rightarrow> (x # p) # ps)"

lemma split_on_nonempty [simp]: "split_on c s \<noteq> []"
  by (induction s) (auto split: list.splits)

lemma split_on_free: "c \<notin> set s \<Longrightarrow> split_on c s = [s]"
  by (induction s) auto

lemma split_on_append: "c \<notin> set s \<Longrightarrow> split_on c (s @ c # t) = s # split_on c t"
  by (induction s) auto

lemma split_once_append: "c \<notin> set s \<Longrightarrow> split_once c (s @ c # t) = Some (s, t)"
  by (induction s) auto

lemma split_once_None: "split_once c s = None \<longleftrightarrow> c \<notin> set s"
  by (induction s) auto

subsection \<open>Decimal numerals\<close>

definition digit :: "nat \<Rightarrow> char" where
  "digit d = char_of (48 + d)"

fun show_nat :: "nat \<Rightarrow> string" where
  "show_nat n = (if n < 10 then [digit n] else show_nat (n div 10) @ [digit (n mod 10)])"

declare show_nat.simps [simp del]

definition show_int :: "int \<Rightarrow> string" where
  "show_int i = (if i < 0 then ''-'' @ show_nat (nat (- i)) else show_nat (nat i))"

text \<open>\<open>format!("{:0w}")\<close> on an unsigned number.\<close>

definition pad_nat :: "nat \<Rightarrow> nat \<Rightarrow> string" where
  "pad_nat w n = replicate (w - length (show_nat n)) CHR ''0'' @ show_nat n"

definition digit_val :: "char \<Rightarrow> nat" where
  "digit_val c = of_char c - 48"

definition is_digit :: "char \<Rightarrow> bool" where
  "is_digit c \<longleftrightarrow> 48 \<le> (of_char c :: nat) \<and> (of_char c :: nat) \<le> 57"

definition digits_val :: "string \<Rightarrow> nat" where
  "digits_val s = foldl (\<lambda>a c. 10 * a + digit_val c) 0 s"

lemma digit_val_digit [simp]: "d < 10 \<Longrightarrow> digit_val (digit d) = d"
  by (simp add: digit_val_def digit_def)

lemma is_digit_digit [simp]: "d < 10 \<Longrightarrow> is_digit (digit d)"
  by (simp add: is_digit_def digit_def)

lemma digits_val_snoc: "digits_val (s @ [c]) = 10 * digits_val s + digit_val c"
  by (simp add: digits_val_def)

lemma digits_val_zeros: "digits_val (replicate k CHR ''0'' @ s) = digits_val s"
  by (induction k) (simp_all add: digits_val_def digit_val_def)

lemma digits_val_show_nat: "digits_val (show_nat n) = n"
proof (induction n rule: show_nat.induct)
  case (1 n)
  show ?case
  proof (cases "n < 10")
    case True
    then show ?thesis by (simp add: show_nat.simps [of n] digits_val_def)
  next
    case False
    with 1 show ?thesis by (simp add: show_nat.simps [of n] digits_val_snoc)
  qed
qed

lemma digits_val_pad_nat [simp]: "digits_val (pad_nat w n) = n"
  by (simp add: pad_nat_def digits_val_zeros digits_val_show_nat)

lemma pad_nat_inject: "pad_nat w m = pad_nat w n \<longleftrightarrow> m = n"
  by (metis digits_val_pad_nat)

lemma show_nat_inject: "show_nat m = show_nat n \<longleftrightarrow> m = n"
  by (metis digits_val_show_nat)

lemma show_nat_digits: "c \<in> set (show_nat n) \<Longrightarrow> is_digit c"
proof (induction n rule: show_nat.induct)
  case (1 n)
  then show ?case by (cases "n < 10") (auto simp: show_nat.simps [of n])
qed

lemma show_nat_nonempty: "show_nat n \<noteq> []"
  by (simp add: show_nat.simps [of n])

text \<open>\<open>str::parse::<i64>()\<close>: an optional sign, at least one digit, no overflow.\<close>

definition parse_i64 :: "string \<Rightarrow> int option" where
  "parse_i64 s =
     (let (neg, ds) = (case s of
          [] \<Rightarrow> (False, s)
        | c # cs \<Rightarrow> if c = CHR ''+'' then (False, cs)
                    else if c = CHR ''-'' then (True, cs) else (False, s))
      in if ds = [] \<or> \<not> list_all is_digit ds then None
         else let v = (if neg then - int (digits_val ds) else int (digits_val ds))
              in if in_i64 v then Some v else None)"

lemma parse_i64_in: "parse_i64 s = Some v \<Longrightarrow> in_i64 v"
  by (auto simp: parse_i64_def Let_def split: prod.splits if_splits)

section \<open>Errors as values\<close>

text \<open>The \<open>?\<close> operator on a pure result.\<close>

definition bind_result :: "'e + 'a \<Rightarrow> ('a \<Rightarrow> 'e + 'b) \<Rightarrow> 'e + 'b" where
  "bind_result r f = (case r of Inl e \<Rightarrow> Inl e | Inr x \<Rightarrow> f x)"

lemma bind_result_simps [simp]:
  "bind_result (Inl e) f = Inl e"
  "bind_result (Inr x) f = f x"
  by (simp_all add: bind_result_def)

lemma bind_result_Inr_iff:
  "bind_result r f = Inr y \<longleftrightarrow> (\<exists>x. r = Inr x \<and> f x = Inr y)"
  by (cases r) simp_all

section \<open>Keyed stores\<close>

text \<open>
  A \<open>HashMap\<close> and a SQLite table keyed by id are association lists with distinct
  keys: an upsert replaces in place or appends. The order of the list is the order
  in which the code iterates over the values (unspecified for a \<open>HashMap\<close>, the
  row order for a table).
\<close>

type_synonym ('k, 'v) store = "('k \<times> 'v) list"

definition st_get :: "('k, 'v) store \<Rightarrow> 'k \<Rightarrow> 'v option" where
  "st_get s k = map_of s k"

definition st_put :: "'k \<Rightarrow> 'v \<Rightarrow> ('k, 'v) store \<Rightarrow> ('k, 'v) store" where
  "st_put k v s = AList.update k v s"

definition st_remove :: "'k \<Rightarrow> ('k, 'v) store \<Rightarrow> ('k, 'v) store" where
  "st_remove k s = AList.delete k s"

definition st_values :: "('k, 'v) store \<Rightarrow> 'v list" where
  "st_values s = map snd s"

definition st_ok :: "('k, 'v) store \<Rightarrow> bool" where
  "st_ok s \<longleftrightarrow> distinct (map fst s)"

lemma st_get_put [store_simps, simp]:
  "st_get (st_put k v s) k' = (if k' = k then Some v else st_get s k')"
  by (simp add: st_get_def st_put_def update_conv')

lemma st_get_remove [store_simps, simp]:
  "st_get (st_remove k s) k' = (if k' = k then None else st_get s k')"
  by (simp add: st_get_def st_remove_def delete_conv')

lemma st_get_Nil [store_simps, simp]: "st_get [] k = None"
  by (simp add: st_get_def)

lemma st_ok_Nil [simp]: "st_ok []"
  by (simp add: st_ok_def)

lemma st_ok_put [simp]: "st_ok s \<Longrightarrow> st_ok (st_put k v s)"
  by (simp add: st_ok_def st_put_def distinct_update)

lemma st_ok_remove [simp]: "st_ok s \<Longrightarrow> st_ok (st_remove k s)"
  by (simp add: st_ok_def st_remove_def distinct_delete)

lemma st_values_get: "st_ok s \<Longrightarrow> v \<in> set (st_values s) \<longleftrightarrow> (\<exists>k. st_get s k = Some v)"
  by (force simp: st_ok_def st_values_def st_get_def)

lemma st_get_values: "st_get s k = Some v \<Longrightarrow> v \<in> set (st_values s)"
  by (auto simp: st_values_def st_get_def dest: map_of_SomeD intro: rev_image_eqI)

lemma st_get_filter:
  "st_ok s \<Longrightarrow> st_get (filter (\<lambda>(k, v). P k v) s) k =
     (case st_get s k of Some v \<Rightarrow> if P k v then Some v else None | None \<Rightarrow> None)"
proof (induction s)
  case (Cons p s)
  obtain k' v where p: "p = (k', v)" by (cases p)
  have "st_get s k' = None" using Cons.prems p by (simp add: st_ok_def st_get_def map_of_eq_None_iff)
  then show ?case
    using Cons p by (auto simp: st_ok_def st_get_def split: option.splits)
qed simp

lemma st_ok_filter: "st_ok s \<Longrightarrow> st_ok (filter P s)"
  by (simp add: st_ok_def distinct_map_filter)

text \<open>Values whose key is one of their fields, as in every store of the handler.\<close>

definition keyed_by :: "('v \<Rightarrow> 'k) \<Rightarrow> ('k, 'v) store \<Rightarrow> bool" where
  "keyed_by key s \<longleftrightarrow> (\<forall>k v. st_get s k = Some v \<longrightarrow> key v = k)"

lemma keyed_by_Nil [simp]: "keyed_by key []"
  by (simp add: keyed_by_def)

lemma keyed_by_put [simp]: "keyed_by key s \<Longrightarrow> key v = k \<Longrightarrow> keyed_by key (st_put k v s)"
  by (simp add: keyed_by_def)

lemma keyed_by_remove [simp]: "keyed_by key s \<Longrightarrow> keyed_by key (st_remove k s)"
  by (simp add: keyed_by_def)

lemma keyed_byD: "keyed_by key s \<Longrightarrow> st_get s k = Some v \<Longrightarrow> key v = k"
  by (simp add: keyed_by_def)

section \<open>Database failures\<close>

text \<open>Which database call fails: acquiring a connection, begin, read, write, commit.\<close>

record db_faults =
  f_pool :: bool
  f_begin :: bool
  f_read :: bool
  f_write :: bool
  f_commit :: bool

definition no_faults :: db_faults where
  "no_faults = \<lparr>f_pool = False, f_begin = False, f_read = False, f_write = False, f_commit = False\<rparr>"

end
