(* ===== verification/Errors.thy ===== *)
theory Errors
  imports Prelude
begin

text \<open>
  The error taxonomy of the protocol (\<open>src/errors.rs\<close>): the enum
  \<open>ApiError\<close>, its wire code and HTTP status, and the error body built from it.
\<close>

section \<open>The error enum\<close>

datatype api_error =
    InvalidRequest string
  | AuthenticationFailed string
  | MandateInvalid string
  | MandateOutOfScope string
  | MandateBudgetExceeded string
  | IntentNotSupported string
  | ResourceNotFound string
  | Conflict string
  | IdempotencyConflict string
  | PreconditionFailed string
  | RateLimited
  | EngineUnavailable string
  | ProcessingError string

type_synonym 'a result = "api_error + 'a"

text \<open>\<open>code_and_status\<close>: the category, the code and the HTTP status.\<close>

fun code_and_status :: "api_error \<Rightarrow> string \<times> string \<times> nat" where
  "code_and_status (InvalidRequest _) = (''invalid_request'', ''invalid_request'', 400)"
| "code_and_status (AuthenticationFailed _) =
     (''authentication_failed'', ''authentication_failed'', 401)"
| "code_and_status (MandateInvalid _) = (''mandate_invalid'', ''mandate_invalid'', 401)"
| "code_and_status (MandateOutOfScope _) =
     (''mandate_out_of_scope'', ''mandate_out_of_scope'', 403)"
| "code_and_status (MandateBudgetExceeded _) =
     (''mandate_budget_exceeded'', ''mandate_budget_exceeded'', 402)"
| "code_and_status (IntentNotSupported _) =
     (''intent_not_supported'', ''intent_not_supported'', 404)"
| "code_and_status (ResourceNotFound _) =
     (''resource_not_found'', ''resource_not_found'', 404)"
| "code_and_status (Conflict _) = (''conflict'', ''conflict'', 409)"
| "code_and_status (IdempotencyConflict _) = (''conflict'', ''idempotency_conflict'', 409)"
| "code_and_status (PreconditionFailed _) =
     (''precondition_failed'', ''precondition_failed'', 412)"
| "code_and_status RateLimited = (''rate_limited'', ''rate_limited'', 429)"
| "code_and_status (EngineUnavailable _) =
     (''engine_unavailable'', ''engine_unavailable'', 503)"
| "code_and_status (ProcessingError _) = (''processing_error'', ''processing_error'', 500)"

fun error_message :: "api_error \<Rightarrow> string" where
  "error_message (InvalidRequest m) = m"
| "error_message (AuthenticationFailed m) = m"
| "error_message (MandateInvalid m) = m"
| "error_message (MandateOutOfScope m) = m"
| "error_message (MandateBudgetExceeded m) = m"
| "error_message (IntentNotSupported m) = m"
| "error_message (ResourceNotFound m) = m"
| "error_message (Conflict m) = m"
| "error_message (IdempotencyConflict m) = m"
| "error_message (PreconditionFailed m) = m"
| "error_message (EngineUnavailable m) = m"
| "error_message (ProcessingError m) = m"
| "error_message RateLimited = ''Rate limit exceeded.''"

text \<open>
  \<open>Display\<close>, from the \<open>#[error("...: {0}")]\<close> attributes: the prefix is the
  machine code except for \<open>IdempotencyConflict\<close>, whose code is the same word too.
\<close>

definition display_error :: "api_error \<Rightarrow> string" where
  "display_error e =
     (case e of RateLimited \<Rightarrow> ''rate_limited''
      | _ \<Rightarrow> fst (snd (code_and_status e)) @ '': '' @ error_message e)"

fun retriable :: "api_error \<Rightarrow> bool" where
  "retriable RateLimited = True"
| "retriable (EngineUnavailable _) = True"
| "retriable _ = False"

text \<open>
  What a handler call ends in besides a value: an \<open>ApiError\<close> returned to the caller,
  or a panic, which aborts the process (the release profile sets \<open>panic = "abort"\<close>).
\<close>

datatype fault = Fail api_error | Panic

type_synonym 'a exec = "fault + 'a"

definition lift_result :: "'a result \<Rightarrow> 'a exec" where
  "lift_result r = (case r of Inl e \<Rightarrow> Inl (Fail e) | Inr x \<Rightarrow> Inr x)"

lemma lift_result_simps [simp]:
  "lift_result (Inl e) = Inl (Fail e)"
  "lift_result (Inr x) = Inr x"
  by (simp_all add: lift_result_def)

lemma lift_result_iff [simp]:
  "lift_result r = Inr x \<longleftrightarrow> r = Inr x"
  "lift_result r = Inl (Fail e) \<longleftrightarrow> r = Inl e"
  "lift_result r \<noteq> Inl Panic"
  by (cases r; simp)+

section \<open>The error body\<close>

record api_error_payload =
  ep_type :: string
  ep_code :: string
  ep_message :: string
  ep_param :: "string option"
  ep_intent_id :: "string option"
  ep_retriable :: bool
  ep_docs_url :: "string option"

definition into_body :: "api_error \<Rightarrow> nat \<times> api_error_payload" where
  "into_body e =
     (let (ty, code, status) = code_and_status e
      in (status,
          \<lparr>ep_type = ty, ep_code = code, ep_message = error_message e, ep_param = None,
           ep_intent_id = None, ep_retriable = retriable e,
           ep_docs_url = Some (''https://docs.stateset.com/icp/errors/'' @ code)\<rparr>))"

definition into_body_with_intent_id ::
  "api_error \<Rightarrow> string option \<Rightarrow> nat \<times> api_error_payload" where
  "into_body_with_intent_id e intent_id =
     (let (status, body) = into_body e
      in (status,
          body\<lparr>ep_intent_id :=
            (case intent_id of Some s \<Rightarrow> if s = [] then None else Some s | None \<Rightarrow> None)\<rparr>))"

section \<open>Properties\<close>

text \<open>An error is never reported with a success or redirect status.\<close>

lemma status_is_error: "400 \<le> snd (snd (code_and_status e)) \<and> snd (snd (code_and_status e)) < 600"
  by (cases e) simp_all

text \<open>The wire code determines the variant of the error (its retriability and status).\<close>

lemma code_determines_class:
  "fst (snd (code_and_status e)) = fst (snd (code_and_status e')) \<Longrightarrow>
   code_and_status e = code_and_status e' \<and> retriable e = retriable e'"
  by (cases e; cases e') simp_all

lemma retriable_iff_status:
  "retriable e \<longleftrightarrow> snd (snd (code_and_status e)) \<in> {429, 503}"
  by (cases e) simp_all

end
