(* ===== verification/Ledger.thy ===== *)
theory Ledger
  imports Errors
begin

text \<open>
  The mandate usage ledger (\<open>MandateLedger\<close> in \<open>src/mandate.rs\<close>): what has been spent
  against each mandate in its current budget window, and the tenant that owns the readable
  view. Both backends are modelled: the map behind a lock, and the SQLite table with the
  failures of the connection pool, of the transaction and of each statement. The interface
  \<open>spend_ledger\<close> states what a budget gate promises; the budget bound is proved from it
  once and holds for both backends.
\<close>

section \<open>Usage and limits\<close>

record mandate_usage =
  spent_minor :: i64
  window_start :: "time option"
  usage_tenant_id :: string

definition usage_default :: mandate_usage where
  "usage_default = \<lparr>spent_minor = 0, window_start = None, usage_tenant_id = []\<rparr>"

record spend_limits =
  budget_minor :: i64
  per_transaction :: "i64 option"
  window :: duration

definition ledger_unavailable :: api_error where
  "ledger_unavailable = EngineUnavailable ''mandate ledger unavailable''"

definition window_elapsed :: "mandate_usage \<Rightarrow> time \<Rightarrow> duration \<Rightarrow> bool" where
  "window_elapsed u now w =
     (case window_start u of None \<Rightarrow> True | Some start \<Rightarrow> w < now - start)"

text \<open>
  The read-side reset shared by both backends: an elapsed (or absent) window restarts now
  with nothing spent, and an unowned row is claimed by the tenant.
\<close>

definition refresh_usage :: "mandate_usage \<Rightarrow> string \<Rightarrow> time \<Rightarrow> duration \<Rightarrow> mandate_usage" where
  "refresh_usage u tenant now w =
     (let u1 = (if window_elapsed u now w then u\<lparr>spent_minor := 0, window_start := Some now\<rparr> else u)
      in if usage_tenant_id u1 = [] then u1\<lparr>usage_tenant_id := tenant\<rparr> else u1)"

text \<open>The guards of \<open>try_record_spend_checked\<close> that do not look at the ledger.\<close>

definition spend_guard :: "i64 \<Rightarrow> spend_limits \<Rightarrow> api_error option" where
  "spend_guard amount L =
     (if budget_minor L < 0 then
        Some (MandateBudgetExceeded (''mandate budget '' @ show_int (budget_minor L) @ '' is negative''))
      else case per_transaction L of
        Some per_txn \<Rightarrow>
          if per_txn < amount then
            Some (MandateBudgetExceeded (''intent amount '' @ show_int amount
              @ '' exceeds per-transaction cap '' @ show_int per_txn))
          else None
      | None \<Rightarrow> None)"

definition over_budget :: "i64 \<Rightarrow> i64 \<Rightarrow> api_error" where
  "over_budget amount remaining =
     MandateBudgetExceeded (''intent amount '' @ show_int amount
       @ '' would exceed remaining budget '' @ show_int remaining)"

section \<open>The in-memory backend\<close>

type_synonym ledger = "(string, mandate_usage) store"

definition mem_usage :: "ledger \<Rightarrow> string \<Rightarrow> mandate_usage" where
  "mem_usage l jti = (case st_get l jti of Some u \<Rightarrow> u | None \<Rightarrow> usage_default)"

definition try_usage_for_tenant :: "mandate_usage \<Rightarrow> string \<Rightarrow> mandate_usage option" where
  "try_usage_for_tenant usage tenant_id =
     (if window_start usage = None \<and> spent_minor usage = 0 \<and> usage_tenant_id usage = [] then None
      else if usage_tenant_id usage = tenant_id then Some usage else None)"

definition mem_record_spend :: "ledger \<Rightarrow> string \<Rightarrow> string \<Rightarrow> i64 \<Rightarrow> time \<Rightarrow> ledger" where
  "mem_record_spend l jti tenant amount now =
     (let e = mem_usage l jti;
          e1 = (if window_start e = None then e\<lparr>window_start := Some now\<rparr> else e);
          e2 = (if usage_tenant_id e1 = [] then e1\<lparr>usage_tenant_id := tenant\<rparr> else e1)
      in st_put jti (e2\<lparr>spent_minor := sat_add (spent_minor e2) amount\<rparr>) l)"

text \<open>
  \<open>try_record_spend_checked\<close> on the map. The entry is created and reset in place before the
  budget test, so a refused spend leaves the refreshed entry behind.
\<close>

definition mem_spend_checked ::
  "ledger \<Rightarrow> string \<Rightarrow> string \<Rightarrow> i64 \<Rightarrow> time \<Rightarrow> spend_limits \<Rightarrow> unit result \<times> ledger" where
  "mem_spend_checked l jti tenant amount now L =
     (if amount \<le> 0 then (Inr (), l)
      else case spend_guard amount L of
        Some e \<Rightarrow> (Inl e, l)
      | None \<Rightarrow>
        let entry = refresh_usage (mem_usage l jti) tenant now (window L);
            remaining = sat_sub (budget_minor L) (spent_minor entry)
        in if remaining < amount then (Inl (over_budget amount remaining), st_put jti entry l)
           else (Inr (), st_put jti (entry\<lparr>spent_minor := sat_add (spent_minor entry) amount\<rparr>) l))"

section \<open>The SQLite backend\<close>

record usage_row =
  row_spent :: i64
  row_window :: "string option"
  row_tenant :: "string option"

type_synonym usage_table = "(string, usage_row) store"

definition usage_of_row :: "chrono \<Rightarrow> usage_row \<Rightarrow> mandate_usage" where
  "usage_of_row C r =
     \<lparr>spent_minor = row_spent r,
      window_start = (case row_window r of Some s \<Rightarrow> ch_parse_rfc3339 C s | None \<Rightarrow> None),
      usage_tenant_id = (case row_tenant r of Some t \<Rightarrow> t | None \<Rightarrow> [])\<rparr>"

definition sql_usage_row :: "chrono \<Rightarrow> usage_table \<Rightarrow> string \<Rightarrow> mandate_usage" where
  "sql_usage_row C tab jti =
     (case st_get tab jti of Some r \<Rightarrow> usage_of_row C r | None \<Rightarrow> usage_default)"

definition sql_try_usage :: "db_faults \<Rightarrow> chrono \<Rightarrow> usage_table \<Rightarrow> string \<Rightarrow> mandate_usage result" where
  "sql_try_usage F C tab jti =
     (if f_pool F then Inl ledger_unavailable
      else if f_read F then Inl ledger_unavailable
      else Inr (sql_usage_row C tab jti))"

text \<open>\<open>COALESCE(NULLIF(old, ''), new)\<close>.\<close>

definition sticky_tenant :: "string option \<Rightarrow> string \<Rightarrow> string option" where
  "sticky_tenant old new = (case old of Some t \<Rightarrow> if t = [] then Some new else Some t | None \<Rightarrow> Some new)"

text \<open>
  The upsert of \<open>try_record_spend\<close>. A 64-bit overflow of the SQL sum turns it into a real
  number, of which \<open>MIN\<close> takes the integer bound.
\<close>

definition sql_record_spend ::
  "db_faults \<Rightarrow> chrono \<Rightarrow> usage_table \<Rightarrow> string \<Rightarrow> string \<Rightarrow> i64 \<Rightarrow> time \<Rightarrow> unit result \<times> usage_table" where
  "sql_record_spend F C tab jti tenant amount now =
     (if f_pool F \<or> f_write F then (Inl ledger_unavailable, tab)
      else (Inr (),
        (case st_get tab jti of
           None \<Rightarrow> st_put jti \<lparr>row_spent = amount, row_window = Some (ch_to_rfc3339 C now),
                    row_tenant = Some tenant\<rparr> tab
         | Some r \<Rightarrow> st_put jti (r\<lparr>row_spent := min i64_max (row_spent r + amount),
                      row_tenant := sticky_tenant (row_tenant r) tenant\<rparr>) tab)))"

definition sql_spend_checked ::
  "db_faults \<Rightarrow> chrono \<Rightarrow> usage_table \<Rightarrow> string \<Rightarrow> string \<Rightarrow> i64 \<Rightarrow> time \<Rightarrow> spend_limits
     \<Rightarrow> unit result \<times> usage_table" where
  "sql_spend_checked F C tab jti tenant amount now L =
     (if amount \<le> 0 then (Inr (), tab)
      else case spend_guard amount L of
        Some e \<Rightarrow> (Inl e, tab)
      | None \<Rightarrow>
        if f_pool F \<or> f_begin F \<or> f_read F then (Inl ledger_unavailable, tab)
        else
          let usage = refresh_usage (sql_usage_row C tab jti) tenant now (window L);
              remaining = sat_sub (budget_minor L) (spent_minor usage)
          in if remaining < amount then (Inl (over_budget amount remaining), tab)
             else
               let row = \<lparr>row_spent = sat_add (spent_minor usage) amount,
                          row_window = map_option (ch_to_rfc3339 C) (window_start usage),
                          row_tenant = (case st_get tab jti of
                              Some old \<Rightarrow> sticky_tenant (row_tenant old) (usage_tenant_id usage)
                            | None \<Rightarrow> Some (usage_tenant_id usage))\<rparr>
               in if f_write F \<or> f_commit F then (Inl ledger_unavailable, tab)
                  else (Inr (), st_put jti row tab))"

section \<open>The interface of a budget gate\<close>

text \<open>
  What a caller relies on: an accepted spend fits what the (refreshed) usage leaves of the
  budget and is added to it, a refused one changes the usage of its mandate at most by the
  refresh, and no call touches another mandate.
\<close>

locale spend_ledger =
  fixes usage :: "'s \<Rightarrow> string \<Rightarrow> mandate_usage"
    and spend :: "'s \<Rightarrow> string \<Rightarrow> string \<Rightarrow> i64 \<Rightarrow> time \<Rightarrow> spend_limits \<Rightarrow> unit result \<times> 's"
  assumes accepted:
    "spend s jti tenant a now L = (Inr (), s') \<Longrightarrow> 0 < a \<Longrightarrow>
       0 \<le> budget_minor L \<and>
       (let u = refresh_usage (usage s jti) tenant now (window L)
        in a \<le> sat_sub (budget_minor L) (spent_minor u) \<and>
           usage s' jti = u\<lparr>spent_minor := sat_add (spent_minor u) a\<rparr>)"
  and refused:
    "spend s jti tenant a now L = (Inl e, s') \<Longrightarrow>
       usage s' jti = usage s jti \<or>
       usage s' jti = refresh_usage (usage s jti) tenant now (window L)"
  and nothing_spent: "a \<le> 0 \<Longrightarrow> spend s jti tenant a now L = (Inr (), s)"
  and other_mandates: "spend s jti tenant a now L = (r, s') \<Longrightarrow> jti' \<noteq> jti \<Longrightarrow> usage s' jti' = usage s jti'"

text \<open>
  A run of spend requests \<open>(tenant, amount, time)\<close> against one mandate with fixed limits,
  and the accepted ones, each with the budget window it was charged to.
\<close>

fun spend_run ::
  "('s \<Rightarrow> string \<Rightarrow> mandate_usage)
   \<Rightarrow> ('s \<Rightarrow> string \<Rightarrow> string \<Rightarrow> i64 \<Rightarrow> time \<Rightarrow> spend_limits \<Rightarrow> unit result \<times> 's)
   \<Rightarrow> string \<Rightarrow> spend_limits \<Rightarrow> 's \<Rightarrow> (string \<times> i64 \<times> time) list \<Rightarrow> (time option \<times> i64) list \<times> 's" where
  "spend_run usage spend jti L s [] = ([], s)"
| "spend_run usage spend jti L s ((tenant, a, now) # reqs) =
     (case spend s jti tenant a now L of
        (r, s') \<Rightarrow>
          let (acc, s'') = spend_run usage spend jti L s' reqs
          in ((if r = Inr () \<and> 0 < a then [(window_start (usage s' jti), a)] else []) @ acc, s''))"

definition charged_in :: "time option \<Rightarrow> (time option \<times> i64) list \<Rightarrow> int" where
  "charged_in w acc = (\<Sum>(w', a) \<leftarrow> acc. if w' = w then a else 0)"

lemma charged_in_simps [simp]:
  "charged_in w [] = 0"
  "charged_in w ((w', a) # acc) = (if w' = w then a else 0) + charged_in w acc"
  "charged_in w (acc @ acc') = charged_in w acc + charged_in w acc'"
  by (simp_all add: charged_in_def)

text \<open>
  The accounting invariant relates the usage in the ledger to the spends accepted so far:
  no window is overdrawn, the current window records at least what was charged to it, and
  every earlier window started before the current one.
\<close>

definition accounts :: "spend_limits \<Rightarrow> mandate_usage \<Rightarrow> (time option \<times> i64) list \<Rightarrow> bool" where
  "accounts L u past \<longleftrightarrow>
     (\<forall>w. charged_in w past \<le> max 0 (budget_minor L)) \<and>
     (\<forall>(w, a) \<in> set past. \<exists>t. w = Some t \<and> (\<exists>t'. window_start u = Some t' \<and> t \<le> t')) \<and>
     (window_start u = None \<or> 0 \<le> spent_minor u) \<and>
     (window_start u \<noteq> None \<longrightarrow> charged_in (window_start u) past \<le> spent_minor u)"

lemma charged_in_later:
  "\<forall>(w, a) \<in> set past. \<exists>t. w = Some t \<and> t < now \<Longrightarrow> charged_in (Some now) past = 0"
  by (induction past) auto

lemma accounts_refresh:
  assumes "accounts L u past" "0 \<le> window L"
  shows "accounts L (refresh_usage u tenant now (window L)) past"
proof (cases "window_elapsed u now (window L)")
  case True
  have "\<forall>(w, a) \<in> set past. \<exists>t. w = Some t \<and> t < now"
    using assms True by (fastforce simp: accounts_def window_elapsed_def)
  moreover from this have "charged_in (Some now) past = 0"
    by (rule charged_in_later)
  ultimately show ?thesis
    using True assms by (fastforce simp: accounts_def refresh_usage_def Let_def)
next
  case False
  then show ?thesis
    using assms by (simp add: accounts_def refresh_usage_def Let_def)
qed

lemma refresh_window: "window_start (refresh_usage u tenant now w) \<noteq> None"
  by (auto simp: refresh_usage_def window_elapsed_def Let_def split: option.splits)

lemma accounts_charge:
  assumes "accounts L u past" "window_start u = Some t" "0 < a" "0 \<le> budget_minor L"
    "budget_minor L \<le> i64_max" "a \<le> sat_sub (budget_minor L) (spent_minor u)"
  shows "accounts L (u\<lparr>spent_minor := sat_add (spent_minor u) a\<rparr>) (past @ [(Some t, a)])"
proof -
  have spent: "0 \<le> spent_minor u" "charged_in (Some t) past \<le> spent_minor u"
    using assms(1,2) by (auto simp: accounts_def)
  then have fits: "spent_minor u + a \<le> budget_minor L"
    using assms(3-6) by (auto simp: sat_sub_def clamp_i64_def i64_max_def i64_min_def split: if_splits)
  then have "sat_add (spent_minor u) a = spent_minor u + a"
    using spent assms(3,5) by (intro sat_add_id) (simp add: in_i64_def i64_min_def)
  then show ?thesis
    using assms spent fits by (auto simp: accounts_def)
qed

context spend_ledger
begin

lemma step_accounts:
  assumes "accounts L (usage s jti) past" "0 \<le> window L" "budget_minor L \<le> i64_max"
    and "spend s jti tenant a now L = (r, s')"
  shows "accounts L (usage s' jti)
    (past @ (if r = Inr () \<and> 0 < a then [(window_start (usage s' jti), a)] else []))"
proof -
  let ?u = "refresh_usage (usage s jti) tenant now (window L)"
  have ref: "accounts L ?u past"
    using accounts_refresh [OF assms(1,2)] .
  show ?thesis
  proof (cases r)
    case (Inl e)
    then show ?thesis
      using refused [of s jti tenant a now L e s'] assms ref by auto
  next
    case (Inr x)
    show ?thesis
    proof (cases "0 < a")
      case True
      obtain t where t: "window_start ?u = Some t" using refresh_window by blast
      from accepted [of s jti tenant a now L s'] True Inr assms(4)
      have "0 \<le> budget_minor L" "a \<le> sat_sub (budget_minor L) (spent_minor ?u)"
        and u': "usage s' jti = ?u\<lparr>spent_minor := sat_add (spent_minor ?u) a\<rparr>"
        by (auto simp: Let_def)
      then show ?thesis
        using accounts_charge [OF ref t True] assms(3) t Inr True by simp
    next
      case False
      then show ?thesis
        using nothing_spent [of a s jti tenant now L] assms(1,4) Inr by simp
    qed
  qed
qed

lemma run_accounts:
  assumes "accounts L (usage s jti) past" "0 \<le> window L" "budget_minor L \<le> i64_max"
    and "spend_run usage spend jti L s reqs = (acc, s')"
  shows "accounts L (usage s' jti) (past @ acc)"
  using assms(1,4)
proof (induction reqs arbitrary: s past acc)
  case Nil
  then show ?case by simp
next
  case (Cons req reqs)
  obtain tenant a now where req: "req = (tenant, a, now)" by (cases req)
  obtain r s1 where sp: "spend s jti tenant a now L = (r, s1)" by fastforce
  obtain acc1 where run: "spend_run usage spend jti L s1 reqs = (acc1, s')"
    and acc: "acc = (if r = Inr () \<and> 0 < a then [(window_start (usage s1 jti), a)] else []) @ acc1"
    using Cons.prems(2) by (auto simp: req sp split: prod.splits)
  from Cons.IH [OF step_accounts [OF Cons.prems(1) assms(2,3) sp] run] show ?case
    by (simp add: acc)
qed

lemma no_window_overdrawn:
  assumes "window_start (usage s jti) = None \<or> 0 \<le> spent_minor (usage s jti)"
    and "0 \<le> window L" "budget_minor L \<le> i64_max"
    and "spend_run usage spend jti L s reqs = (acc, s')"
  shows "charged_in w acc \<le> max 0 (budget_minor L)"
proof -
  have "accounts L (usage s jti) []"
    using assms(1) by (auto simp: accounts_def)
  from run_accounts [OF this assms(2-4)] show ?thesis
    by (simp add: accounts_def)
qed

end

section \<open>Both backends are budget gates\<close>

interpretation mem: spend_ledger mem_usage mem_spend_checked
proof
  fix l :: ledger and jti tenant a now L l'
  assume "mem_spend_checked l jti tenant a now L = (Inr (), l')" "0 < a"
  then show "0 \<le> budget_minor L \<and>
       (let u = refresh_usage (mem_usage l jti) tenant now (window L)
        in a \<le> sat_sub (budget_minor L) (spent_minor u) \<and>
           mem_usage l' jti = u\<lparr>spent_minor := sat_add (spent_minor u) a\<rparr>)"
    by (auto simp: mem_spend_checked_def spend_guard_def Let_def mem_usage_def
        split: option.splits if_splits)
next
  fix l :: ledger and jti tenant a now L e l'
  assume "mem_spend_checked l jti tenant a now L = (Inl e, l')"
  then show "mem_usage l' jti = mem_usage l jti \<or>
      mem_usage l' jti = refresh_usage (mem_usage l jti) tenant now (window L)"
    by (auto simp: mem_spend_checked_def Let_def mem_usage_def split: option.splits if_splits)
next
  fix l :: ledger and jti tenant a now L r l' jti'
  assume "mem_spend_checked l jti tenant a now L = (r, l')" "jti' \<noteq> jti"
  then show "mem_usage l' jti' = mem_usage l jti'"
    by (auto simp: mem_spend_checked_def Let_def mem_usage_def split: option.splits if_splits)
qed (simp add: mem_spend_checked_def)

text \<open>Reading back a written row gives the usage that was written.\<close>

definition sql_row_of ::
  "chrono \<Rightarrow> usage_table \<Rightarrow> string \<Rightarrow> mandate_usage \<Rightarrow> usage_row" where
  "sql_row_of C tab jti u =
     \<lparr>row_spent = spent_minor u, row_window = map_option (ch_to_rfc3339 C) (window_start u),
      row_tenant = (case st_get tab jti of
          Some old \<Rightarrow> sticky_tenant (row_tenant old) (usage_tenant_id u)
        | None \<Rightarrow> Some (usage_tenant_id u))\<rparr>"

lemma refresh_tenant:
  "usage_tenant_id (refresh_usage u tenant now w) =
     (if usage_tenant_id u = [] then tenant else usage_tenant_id u)"
  by (simp add: refresh_usage_def Let_def)

lemma usage_of_written_row:
  assumes "rfc3339_roundtrip C"
    and "u = refresh_usage (sql_usage_row C tab jti) tenant now w"
  shows "usage_of_row C (sql_row_of C tab jti (u\<lparr>spent_minor := n\<rparr>)) = u\<lparr>spent_minor := n\<rparr>"
proof -
  have "usage_tenant_id u = (case st_get tab jti of
      Some old \<Rightarrow> (case row_tenant old of Some t \<Rightarrow> if t = [] then tenant else t | None \<Rightarrow> tenant)
    | None \<Rightarrow> tenant)"
    by (simp add: assms(2) refresh_tenant sql_usage_row_def usage_of_row_def usage_default_def
        split: option.splits)
  then show ?thesis
    using assms(1)
    by (auto simp: usage_of_row_def sql_row_of_def sticky_tenant_def rfc3339_roundtrip_def
        split: option.splits)
qed

lemma sql_spend_checked_eq:
  "sql_spend_checked F C tab jti tenant a now L =
     (if a \<le> 0 then (Inr (), tab)
      else case spend_guard a L of
        Some e \<Rightarrow> (Inl e, tab)
      | None \<Rightarrow>
        if f_pool F \<or> f_begin F \<or> f_read F then (Inl ledger_unavailable, tab)
        else
          let u = refresh_usage (sql_usage_row C tab jti) tenant now (window L);
              remaining = sat_sub (budget_minor L) (spent_minor u)
          in if remaining < a then (Inl (over_budget a remaining), tab)
             else if f_write F \<or> f_commit F then (Inl ledger_unavailable, tab)
             else (Inr (),
               st_put jti (sql_row_of C tab jti (u\<lparr>spent_minor := sat_add (spent_minor u) a\<rparr>)) tab))"
  by (cases "spend_guard a L"; cases "st_get tab jti")
    (simp_all add: sql_spend_checked_def sql_row_of_def Let_def)

lemma sql_spend_ledger:
  assumes "rfc3339_roundtrip C"
  shows "spend_ledger (sql_usage_row C) (sql_spend_checked F C)"
proof
  fix tab :: usage_table and jti tenant a now L tab'
  assume ok: "sql_spend_checked F C tab jti tenant a now L = (Inr (), tab')" "0 < a"
  let ?u = "refresh_usage (sql_usage_row C tab jti) tenant now (window L)"
  have "tab' = st_put jti (sql_row_of C tab jti (?u\<lparr>spent_minor := sat_add (spent_minor ?u) a\<rparr>)) tab"
    "0 \<le> budget_minor L" "a \<le> sat_sub (budget_minor L) (spent_minor ?u)"
    using ok by (auto simp: sql_spend_checked_eq spend_guard_def Let_def split: option.splits if_splits)
  then show "0 \<le> budget_minor L \<and>
       (let u = ?u in a \<le> sat_sub (budget_minor L) (spent_minor u) \<and>
           sql_usage_row C tab' jti = u\<lparr>spent_minor := sat_add (spent_minor u) a\<rparr>)"
    using usage_of_written_row [OF assms, of ?u tab jti tenant now "window L"]
    by (simp add: sql_usage_row_def [of C "st_put _ _ _"] Let_def)
next
  fix tab :: usage_table and jti tenant a now L e tab'
  assume "sql_spend_checked F C tab jti tenant a now L = (Inl e, tab')"
  then have "tab' = tab"
    by (auto simp: sql_spend_checked_eq Let_def split: option.splits if_splits)
  then show "sql_usage_row C tab' jti = sql_usage_row C tab jti \<or>
      sql_usage_row C tab' jti = refresh_usage (sql_usage_row C tab jti) tenant now (window L)"
    by simp
next
  fix tab :: usage_table and jti tenant a now L r tab' jti'
  assume "sql_spend_checked F C tab jti tenant a now L = (r, tab')" "jti' \<noteq> jti"
  then show "sql_usage_row C tab' jti' = sql_usage_row C tab jti'"
    by (auto simp: sql_spend_checked_eq sql_usage_row_def Let_def split: option.splits if_splits)
qed (simp add: sql_spend_checked_eq)

text \<open>
  The table with a script of the failures of its next calls: whatever fails, it is a budget gate.
\<close>

fun sql_spend_script ::
  "chrono \<Rightarrow> usage_table \<times> db_faults list \<Rightarrow> string \<Rightarrow> string \<Rightarrow> i64 \<Rightarrow> time \<Rightarrow> spend_limits
     \<Rightarrow> unit result \<times> usage_table \<times> db_faults list" where
  "sql_spend_script C (tab, Fs) jti tenant a now L =
     (if a \<le> 0 then (Inr (), tab, Fs)
      else case sql_spend_checked (case Fs of [] \<Rightarrow> no_faults | F # _ \<Rightarrow> F) C tab jti tenant a now L of
        (r, tab') \<Rightarrow> (r, tab', tl Fs))"

definition sql_usage :: "chrono \<Rightarrow> usage_table \<times> db_faults list \<Rightarrow> string \<Rightarrow> mandate_usage" where
  "sql_usage C s jti = sql_usage_row C (fst s) jti"

lemma sql_script_ledger:
  assumes "rfc3339_roundtrip C"
  shows "spend_ledger (sql_usage C) (sql_spend_script C)"
proof
  fix s s' :: "usage_table \<times> db_faults list" and jti tenant a now L
  assume ok: "sql_spend_script C s jti tenant a now L = (Inr (), s')" "0 < a"
  then obtain F where "sql_spend_checked F C (fst s) jti tenant a now L = (Inr (), fst s')"
    by (cases s) (auto split: prod.splits)
  from spend_ledger.accepted [OF sql_spend_ledger [OF assms] this ok(2)]
  show "0 \<le> budget_minor L \<and>
       (let u = refresh_usage (sql_usage C s jti) tenant now (window L)
        in a \<le> sat_sub (budget_minor L) (spent_minor u) \<and>
           sql_usage C s' jti = u\<lparr>spent_minor := sat_add (spent_minor u) a\<rparr>)"
    by (simp add: sql_usage_def)
next
  fix s s' :: "usage_table \<times> db_faults list" and jti tenant a now L e
  assume "sql_spend_script C s jti tenant a now L = (Inl e, s')"
  then obtain F where "sql_spend_checked F C (fst s) jti tenant a now L = (Inl e, fst s')"
    by (cases s) (auto split: prod.splits if_splits)
  from spend_ledger.refused [OF sql_spend_ledger [OF assms] this]
  show "sql_usage C s' jti = sql_usage C s jti \<or>
      sql_usage C s' jti = refresh_usage (sql_usage C s jti) tenant now (window L)"
    by (simp add: sql_usage_def)
next
  fix s s' :: "usage_table \<times> db_faults list" and jti tenant a now L r jti'
  assume step: "sql_spend_script C s jti tenant a now L = (r, s')" and other: "jti' \<noteq> jti"
  show "sql_usage C s' jti' = sql_usage C s jti'"
  proof (cases "a \<le> 0")
    case True
    then show ?thesis using step by (cases s) simp
  next
    case False
    then obtain F where "sql_spend_checked F C (fst s) jti tenant a now L = (r, fst s')"
      using step by (cases s) (auto split: prod.splits)
    from spend_ledger.other_mandates [OF sql_spend_ledger [OF assms] this other]
    show ?thesis by (simp add: sql_usage_def)
  qed
next
  fix s :: "usage_table \<times> db_faults list" and jti tenant a now L
  assume "a \<le> (0 :: int)"
  then show "sql_spend_script C s jti tenant a now L = (Inr (), s)" by (cases s) simp
qed

interpretation sql: spend_ledger "sql_usage chrono_demo" "sql_spend_script chrono_demo"
  by (rule sql_script_ledger) (rule chrono_demo_ok)

section \<open>Properties\<close>

text \<open>C5 (safety). No budget window is overdrawn, on either backend, whatever database calls
  fail: in any sequence of spend requests against a fresh mandate, with a period that is not
  negative, the accepted amounts charged to one budget window never exceed the mandate's
  budget.\<close>

theorem budget_never_overdrawn:
  assumes "rfc3339_roundtrip C" and "0 \<le> window L" and "budget_minor L \<le> i64_max"
  shows "charged_in w (fst (spend_run mem_usage mem_spend_checked jti L [] reqs))
           \<le> max 0 (budget_minor L) \<and>
    charged_in w (fst (spend_run (sql_usage C) (sql_spend_script C) jti L ([], Fs) reqs))
           \<le> max 0 (budget_minor L)"
proof
  obtain acc l where run: "spend_run mem_usage mem_spend_checked jti L [] reqs = (acc, l)"
    by fastforce
  have "window_start (mem_usage [] jti) = None"
    by (simp add: mem_usage_def usage_default_def)
  then show "charged_in w (fst (spend_run mem_usage mem_spend_checked jti L [] reqs))
           \<le> max 0 (budget_minor L)"
    using mem.no_window_overdrawn [OF _ assms(2,3) run] run by simp
next
  obtain acc s where run: "spend_run (sql_usage C) (sql_spend_script C) jti L ([], Fs) reqs = (acc, s)"
    using prod.exhaust by blast
  have "window_start (sql_usage C ([], Fs) jti) = None"
    by (simp add: sql_usage_def sql_usage_row_def usage_default_def)
  then show "charged_in w (fst (spend_run (sql_usage C) (sql_spend_script C) jti L ([], Fs) reqs))
           \<le> max 0 (budget_minor L)"
    using spend_ledger.no_window_overdrawn [OF sql_script_ledger [OF assms(1)] _ assms(2,3) run] run
    by simp
qed

text \<open>Two spends of 60 and one of 40 against a daily budget of 100: the second is refused.\<close>

definition demo_limits :: spend_limits where
  "demo_limits = \<lparr>budget_minor = 100, per_transaction = Some 80, window = days 1\<rparr>"

definition demo_spends :: "(string \<times> i64 \<times> time) list" where
  "demo_spends = [(''shop'', 60, 0), (''shop'', 60, 1), (''shop'', 40, 2)]"

lemmas ledger_eval = demo_limits_def demo_spends_def mem_spend_checked_def mem_usage_def
  spend_guard_def refresh_usage_def window_elapsed_def usage_default_def sat_sub_def sat_add_def
  clamp_i64_def i64_max_def i64_min_def days_def secs_def Let_def

theorem budget_never_overdrawn_witness:
  "fst (spend_run mem_usage mem_spend_checked ''m'' demo_limits [] demo_spends)
     = [(Some 0, 60), (Some 0, 40)] \<and>
   charged_in (Some 0) (fst (spend_run mem_usage mem_spend_checked ''m'' demo_limits [] demo_spends))
     \<le> max 0 (budget_minor demo_limits)"
proof
  show "fst (spend_run mem_usage mem_spend_checked ''m'' demo_limits [] demo_spends)
     = [(Some 0, 60), (Some 0, 40)]"
    by (simp add: ledger_eval)
  have "0 \<le> window demo_limits" "budget_minor demo_limits \<le> i64_max"
    by (simp_all add: demo_limits_def days_def secs_def i64_max_def)
  from budget_never_overdrawn [OF chrono_demo_ok(1) this, of "Some 0" "''m''" demo_spends "[]"]
  show "charged_in (Some 0) (fst (spend_run mem_usage mem_spend_checked ''m'' demo_limits [] demo_spends))
     \<le> max 0 (budget_minor demo_limits)"
    by simp
qed

section \<open>Sequences of spends on both backends\<close>

text \<open>One checked spend of the SQLite ledger beside the in-memory one, from tables that agree.\<close>

lemma sql_spend_step:
  assumes "rfc3339_roundtrip C"
    and "\<forall>j. sql_usage_row C tab j = mem_usage l j"
    and "mem_spend_checked l jti tenant a now L = (r, l')"
    and "sql_spend_checked F C tab jti tenant a now L = (r', tab')"
  shows "(r' = Inl ledger_unavailable \<and> tab' = tab) \<or>
    (r' = r \<and> (if r = Inr () then \<forall>j. sql_usage_row C tab' j = mem_usage l' j else tab' = tab))"
proof (cases "r' = Inl ledger_unavailable \<and> tab' = tab")
  case False
  have same: "r' = r" and kept: "r \<noteq> Inr () \<longrightarrow> tab' = tab"
    using assms(2-4) False
    by (auto simp: mem_spend_checked_def sql_spend_checked_eq Let_def
        split: option.splits if_splits)
  have "sql_usage_row C tab' j = mem_usage l' j" if "r = Inr ()" for j
  proof (cases "j = jti \<and> 0 < a")
    case True
    then show ?thesis
      using spend_ledger.accepted [OF sql_spend_ledger [OF assms(1)], of F tab jti tenant a now L tab']
        mem.accepted [of l jti tenant a now L l'] assms(2-4) same that
      by (simp add: Let_def)
  next
    case other: False
    show ?thesis
    proof (cases "0 < a")
      case True
      then show ?thesis
        using other spend_ledger.other_mandates [OF sql_spend_ledger [OF assms(1)] assms(4)]
          mem.other_mandates [OF assms(3)] assms(2) by simp
    next
      case False
      then show ?thesis using assms(2-4) by (simp add: mem_spend_checked_def sql_spend_checked_def)
    qed
  qed
  then show ?thesis using same kept by simp
qed simp

text \<open>A request: the mandate, the tenant, the amount, the time and the limits; for SQLite, what fails as well.\<close>

type_synonym spend_request = "string \<times> string \<times> i64 \<times> time \<times> spend_limits"

fun mem_run :: "ledger \<Rightarrow> spend_request list \<Rightarrow> unit result list \<times> ledger" where
  "mem_run l [] = ([], l)"
| "mem_run l ((jti, tenant, a, now, L) # reqs) =
     (case mem_spend_checked l jti tenant a now L of (r, l1) \<Rightarrow> apfst (Cons r) (mem_run l1 reqs))"

fun sql_run :: "chrono \<Rightarrow> usage_table \<Rightarrow> (db_faults \<times> spend_request) list \<Rightarrow> unit result list \<times> usage_table" where
  "sql_run C tab [] = ([], tab)"
| "sql_run C tab ((F, jti, tenant, a, now, L) # reqs) =
     (case sql_spend_checked F C tab jti tenant a now L of (r, tab1) \<Rightarrow> apfst (Cons r) (sql_run C tab1 reqs))"

text \<open>The requests to which SQLite does not answer that the ledger is unavailable.\<close>

definition answered :: "unit result list \<Rightarrow> (db_faults \<times> spend_request) list \<Rightarrow> spend_request list" where
  "answered rs reqs = map (snd \<circ> snd) (filter (\<lambda>(r, _). r \<noteq> Inl ledger_unavailable) (zip rs reqs))"

lemma answered_simps [simp]:
  "answered [] [] = []"
  "answered (r # rs) ((F, q) # reqs) = (if r = Inl ledger_unavailable then answered rs reqs else q # answered rs reqs)"
  by (simp_all add: answered_def)

text \<open>A table of the ledger in which every open window has an owner.\<close>

definition owned_windows :: "ledger \<Rightarrow> bool" where
  "owned_windows l \<longleftrightarrow> (\<forall>j. window_start (mem_usage l j) \<noteq> None \<longrightarrow> usage_tenant_id (mem_usage l j) \<noteq> [])"

text \<open>A request within the whole budget is refused only inside an open window, which the refusal leaves as it is.\<close>

lemma refused_keeps_usage:
  assumes "mem_spend_checked l jti tenant a now L = (Inl e, l')" "owned_windows l"
    and "a \<le> budget_minor L" "budget_minor L \<le> i64_max"
  shows "mem_usage l' j = mem_usage l j"
proof (cases "j = jti")
  case True
  have pos: "0 < a" using assms(1) by (auto simp: mem_spend_checked_def split: if_splits)
  show ?thesis
  proof (cases "spend_guard a L")
    case None
    let ?u = "mem_usage l jti"
    have over: "sat_sub (budget_minor L) (spent_minor (refresh_usage ?u tenant now (window L))) < a"
      and l': "l' = st_put jti (refresh_usage ?u tenant now (window L)) l"
      using assms(1) pos None by (auto simp: mem_spend_checked_def Let_def split: if_splits)
    have "\<not> window_elapsed ?u now (window L)"
      using over assms(3,4) pos
      by (auto simp: refresh_usage_def Let_def sat_sub_def clamp_i64_def i64_max_def i64_min_def split: if_splits)
    moreover from this have "window_start ?u \<noteq> None"
      by (auto simp: window_elapsed_def split: option.splits)
    ultimately have "refresh_usage ?u tenant now (window L) = ?u"
      using assms(2) by (auto simp: refresh_usage_def Let_def owned_windows_def)
    then show ?thesis by (simp add: True l' mem_usage_def)
  qed (use assms(1) pos in \<open>simp add: mem_spend_checked_def\<close>)
qed (use mem.other_mandates [OF assms(1)] in simp)

lemma owned_windows_spend:
  assumes "mem_spend_checked l jti tenant a now L = (r, l')" "owned_windows l" "tenant \<noteq> []"
  shows "owned_windows l'"
  unfolding owned_windows_def
proof (intro allI)
  fix j
  show "window_start (mem_usage l' j) \<noteq> None \<longrightarrow> usage_tenant_id (mem_usage l' j) \<noteq> []"
  proof (cases "j = jti \<and> \<not> a \<le> 0")
    case True
    then have "mem_usage l' jti = mem_usage l jti \<or>
        (\<exists>n. mem_usage l' jti = (refresh_usage (mem_usage l jti) tenant now (window L))\<lparr>spent_minor := n\<rparr>)"
      using mem.accepted [of l jti tenant a now L l'] mem.refused [of l jti tenant a now L _ l'] assms(1)
      by (cases r) (auto simp: Let_def, metis mandate_usage.surjective mandate_usage.update_convs(1))
    then show ?thesis
      using True assms(2,3) by (auto simp: owned_windows_def refresh_tenant split: if_splits)
  next
    case False
    then have "mem_usage l' j = mem_usage l j"
      using mem.other_mandates [OF assms(1)] assms(1) by (auto simp: mem_spend_checked_def)
    then show ?thesis using assms(2) by (simp add: owned_windows_def)
  qed
qed

text \<open>C6 (refinement). The SQLite ledger refines the in-memory one over any sequence of checked spends, against any
  mandates, by any tenants, at any times and limits, each with its own failures of the pool and the database: take away
  the requests that SQLite answers with an unavailable ledger, and the in-memory ledger answers the others one by one
  exactly as SQLite did, and both end with the same usage of every mandate. This holds from tables that agree, with an
  owner for every open window, as the empty ones; for tenants that have a name; and where no request asks for more than
  the whole budget of its mandate: \<open>oversized_request_diverges\<close> is the case in which the two backends differ.\<close>

theorem sql_ledger_refines_memory:
  assumes "rfc3339_roundtrip C"
    and "\<forall>j. sql_usage_row C tab j = mem_usage l j"
    and "\<forall>j. window_start (mem_usage l j) \<noteq> None \<longrightarrow> usage_tenant_id (mem_usage l j) \<noteq> []"
    and "\<forall>(F, jti, tenant, a, now, L) \<in> set reqs. tenant \<noteq> [] \<and> a \<le> budget_minor L \<and> budget_minor L \<le> i64_max"
    and "sql_run C tab reqs = (rs, tab')"
  shows "\<exists>l'. mem_run l (answered rs reqs) = (filter (\<lambda>r. r \<noteq> Inl ledger_unavailable) rs, l') \<and>
    (\<forall>j. sql_usage_row C tab' j = mem_usage l' j)"
  using assms(2-5)
proof (induction reqs arbitrary: tab l rs)
  case (Cons q reqs)
  obtain F jti tenant a now L where q: "q = (F, jti, tenant, a, now, L)" by (cases q)
  obtain r' tab1 where sql: "sql_spend_checked F C tab jti tenant a now L = (r', tab1)" by (rule prod.exhaust)
  obtain r l1 where mem: "mem_spend_checked l jti tenant a now L = (r, l1)" by (rule prod.exhaust)
  obtain rs1 where rs: "rs = r' # rs1" and rest: "sql_run C tab1 reqs = (rs1, tab')"
    using Cons.prems(4) by (cases "sql_run C tab1 reqs") (simp add: q sql)
  have limits: "tenant \<noteq> []" "a \<le> budget_minor L" "budget_minor L \<le> i64_max"
    using Cons.prems(3) by (simp_all add: q)
  have owned: "owned_windows l" using Cons.prems(2) by (simp add: owned_windows_def)
  note step = sql_spend_step [OF assms(1) Cons.prems(1) mem sql]
  show ?case
  proof (cases "r' = Inl ledger_unavailable")
    case True
    have "tab1 = tab" using True sql by (auto simp: sql_spend_checked_eq Let_def split: option.splits if_splits)
    then show ?thesis
      using Cons.IH [of tab l rs1] Cons.prems(1-3) rest True by (simp add: rs q)
  next
    case False
    then have same: "r' = r" using step by blast
    have agree: "\<forall>j. sql_usage_row C tab1 j = mem_usage l1 j"
    proof (cases r)
      case (Inl e)
      then show ?thesis
        using step False refused_keeps_usage [OF mem [unfolded Inl] owned limits(2,3)] Cons.prems(1) by simp
    next
      case (Inr u)
      then show ?thesis using step False by simp
    qed
    have "owned_windows l1" by (rule owned_windows_spend [OF mem owned limits(1)])
    then obtain l' where "mem_run l1 (answered rs1 reqs) = (filter (\<lambda>r. r \<noteq> Inl ledger_unavailable) rs1, l')"
        "\<forall>j. sql_usage_row C tab' j = mem_usage l' j"
      using Cons.IH [OF agree _ _ rest] Cons.prems(3) unfolding owned_windows_def by (auto simp: q)
    then show ?thesis using False by (simp add: rs q same mem)
  qed
qed (simp add: answered_def)

text \<open>Three spends of a daily budget of 100, the second refused, the fourth cut off by the database.\<close>

definition demo_requests :: "(db_faults \<times> spend_request) list" where
  "demo_requests =
     [(no_faults, ''m'', ''shop'', 60, 0, demo_limits), (no_faults, ''m'', ''shop'', 60, 1, demo_limits),
      (no_faults, ''m'', ''shop'', 40, 2, demo_limits),
      (no_faults\<lparr>f_commit := True\<rparr>, ''n'', ''shop'', 10, 3, demo_limits)]"

theorem sql_ledger_refines_memory_witness:
  "\<exists>rs tab' l'. sql_run chrono_demo [] demo_requests = (rs, tab') \<and>
     mem_run [] (answered rs demo_requests) = (filter (\<lambda>r. r \<noteq> Inl ledger_unavailable) rs, l') \<and>
     (\<forall>j. sql_usage_row chrono_demo tab' j = mem_usage l' j)"
proof -
  obtain rs tab' where run: "sql_run chrono_demo [] demo_requests = (rs, tab')" by (rule prod.exhaust)
  have "\<forall>j. sql_usage_row chrono_demo [] j = mem_usage [] j" "\<forall>j. window_start (mem_usage [] j) = None"
    by (simp_all add: sql_usage_row_def mem_usage_def usage_default_def)
  moreover have "\<forall>(F, jti, tenant, a, now, L) \<in> set demo_requests.
      tenant \<noteq> [] \<and> a \<le> budget_minor L \<and> budget_minor L \<le> i64_max"
    by (simp add: demo_requests_def demo_limits_def i64_max_def)
  ultimately show ?thesis
    using sql_ledger_refines_memory [OF chrono_demo_ok(1) _ _ _ run, of "[]"] run by auto
qed

text \<open>
  The bound on the amounts is needed. The in-memory ledger keeps the entry it created for a spend it then refused, so the
  mandate becomes readable for that tenant, where the SQLite table has no row.
\<close>

lemma refused_spend_claims_memory_entry:
  "case mem_spend_checked [] ''m'' ''shop'' 101 7 \<lparr>budget_minor = 100, per_transaction = None, window = days 1\<rparr> of
     (r, l) \<Rightarrow> r \<noteq> Inr () \<and> try_usage_for_tenant (mem_usage l ''m'') ''shop'' \<noteq> None \<and>
       (case sql_spend_checked no_faults C [] ''m'' ''shop'' 101 7
               \<lparr>budget_minor = 100, per_transaction = None, window = days 1\<rparr> of
          (r', tab) \<Rightarrow> r' = r \<and> tab = [])"
  by (simp add: ledger_eval sql_spend_checked_def sql_usage_row_def no_faults_def try_usage_for_tenant_def)

text \<open>
  And the window it opened there goes on counting: of a daily budget of 100, after a refused request of 101 at midnight,
  60 at noon and 60 in the first hour of the next day are both accepted in memory, in two windows, while in SQLite
  the second of them falls into the window that the first one opened, and is refused.
\<close>

lemma oversized_request_diverges:
  defines "L \<equiv> \<lparr>budget_minor = 100, per_transaction = None, window = days 1\<rparr>"
  defines "reqs \<equiv> [(''m'', ''shop'', 101, 0, L), (''m'', ''shop'', 60, secs (12 * 3600), L), (''m'', ''shop'', 60, secs (25 * 3600), L)]"
  shows "fst (mem_run [] reqs) = [Inl (over_budget 101 100), Inr (), Inr ()]"
    and "fst (sql_run chrono_demo [] (map (Pair no_faults) reqs)) = [Inl (over_budget 101 100), Inr (), Inl (over_budget 60 40)]"
  by (simp_all add: L_def reqs_def ledger_eval sql_spend_checked_def sql_usage_row_def no_faults_def usage_of_row_def
      chrono_demo_def)

text \<open>
  The hypothesis on the window in C5 is needed: with a negative period (which \<open>parse_period\<close>
  accepts, as \<open>P-1D\<close>) every spend opens a new window, and the same instant can be charged
  the whole budget again and again.
\<close>

lemma negative_window_disables_budget:
  "charged_in (Some 7) (fst (spend_run mem_usage mem_spend_checked ''m''
     \<lparr>budget_minor = 100, per_transaction = None, window = days (- 1)\<rparr> []
     [(''shop'', 100, 7), (''shop'', 100, 7)])) = 200"
  by (simp add: ledger_eval)

end
