(* ===== verification/Models.thy ===== *)
theory Models
  imports Errors
begin

text \<open>
  The data model of the protocol (\<open>src/models.rs\<close>) and the tenant and agent
  identities (\<open>src/agent.rs\<close>): one record per struct, one datatype per enum, with
  the field names of the source behind a short prefix. JSON values are the tree of
  \<open>serde_json::Value\<close>.
\<close>

section \<open>JSON values\<close>

text \<open>Numbers are integers (\<open>u64\<close> or \<open>i64\<close>) or finite doubles.\<close>

datatype json =
    JNull
  | JBool bool
  | JInt int
  | JFloat rat
  | JStr string
  | JArr "json list"
  | JObj "(string \<times> json) list"

definition json_get :: "json \<Rightarrow> string \<Rightarrow> json option" where
  "json_get v k = (case v of JObj kvs \<Rightarrow> map_of kvs k | _ \<Rightarrow> None)"

definition json_as_i64 :: "json \<Rightarrow> i64 option" where
  "json_as_i64 v = (case v of JInt n \<Rightarrow> if in_i64 n then Some n else None | _ \<Rightarrow> None)"

definition json_as_str :: "json \<Rightarrow> string option" where
  "json_as_str v = (case v of JStr s \<Rightarrow> Some s | _ \<Rightarrow> None)"

definition json_as_array :: "json \<Rightarrow> json list option" where
  "json_as_array v = (case v of JArr xs \<Rightarrow> Some xs | _ \<Rightarrow> None)"

section \<open>Envelope, money, parties\<close>

record response_envelope =
  re_icp_version :: string
  re_request_id :: string
  re_trace_id :: "string option"
  re_issued_at :: time

record money =
  amount_minor :: i64
  amount_display :: "string option"
  money_currency :: string

definition money_new :: "i64 \<Rightarrow> string \<Rightarrow> money" where
  "money_new a c = \<lparr>amount_minor = a, amount_display = None, money_currency = c\<rparr>"

lemma money_new_simps [simp]:
  "amount_minor (money_new a c) = a"
  "money_currency (money_new a c) = c"
  by (simp_all add: money_new_def)

record address =
  ad_name :: "string option"
  ad_line_one :: "string option"
  ad_line_two :: "string option"
  ad_city :: "string option"
  ad_state :: "string option"
  ad_postal_code :: "string option"
  ad_country :: "string option"
  ad_phone_number :: "string option"
  ad_email :: "string option"

record buyer =
  by_first_name :: "string option"
  by_last_name :: "string option"
  by_email :: "string option"
  by_phone_number :: "string option"
  by_principal_did :: "string option"

definition buyer_default :: buyer where
  "buyer_default = \<lparr>by_first_name = None, by_last_name = None, by_email = None,
     by_phone_number = None, by_principal_did = None\<rparr>"

section \<open>Intent envelope\<close>

record intent_context =
  cx_locale :: "string option"
  cx_jurisdiction :: "string option"
  cx_currency :: "string option"
  cx_channel :: "string option"
  cx_session_hint :: "string option"

definition intent_context_default :: intent_context where
  "intent_context_default = \<lparr>cx_locale = None, cx_jurisdiction = None, cx_currency = None,
     cx_channel = None, cx_session_hint = None\<rparr>"

record intent_envelope =
  en_intent :: string
  en_intent_id :: "string option"
  en_transaction_id :: "string option"
  en_agent_id :: string
  en_mandate_jti :: "string option"
  en_params :: json
  en_context :: intent_context

section \<open>Transactions\<close>

datatype transaction_state =
  Draft | Quoted | Authorized | Captured | Fulfilled | Completed | Reversed | Canceled | Expired

definition transaction_is_terminal :: "transaction_state \<Rightarrow> bool" where
  "transaction_is_terminal s \<longleftrightarrow> s \<in> {Completed, Reversed, Canceled, Expired}"

fun transaction_state_wire_name :: "transaction_state \<Rightarrow> string" where
  "transaction_state_wire_name Draft = ''draft''"
| "transaction_state_wire_name Quoted = ''quoted''"
| "transaction_state_wire_name Authorized = ''authorized''"
| "transaction_state_wire_name Captured = ''captured''"
| "transaction_state_wire_name Fulfilled = ''fulfilled''"
| "transaction_state_wire_name Completed = ''completed''"
| "transaction_state_wire_name Reversed = ''reversed''"
| "transaction_state_wire_name Canceled = ''canceled''"
| "transaction_state_wire_name Expired = ''expired''"

text \<open>The derived \<open>Debug\<close> rendering, used in error messages.\<close>

fun debug_transaction_state :: "transaction_state \<Rightarrow> string" where
  "debug_transaction_state Draft = ''Draft''"
| "debug_transaction_state Quoted = ''Quoted''"
| "debug_transaction_state Authorized = ''Authorized''"
| "debug_transaction_state Captured = ''Captured''"
| "debug_transaction_state Fulfilled = ''Fulfilled''"
| "debug_transaction_state Completed = ''Completed''"
| "debug_transaction_state Reversed = ''Reversed''"
| "debug_transaction_state Canceled = ''Canceled''"
| "debug_transaction_state Expired = ''Expired''"

record line_item =
  li_id :: string
  li_sku :: string
  li_name :: string
  li_quantity :: i64
  li_unit_price :: money
  li_subtotal :: money
  li_tax :: "money option"
  li_total :: money

record totals =
  to_subtotal :: "money option"
  to_discount :: "money option"
  to_shipping :: "money option"
  to_tax :: "money option"
  to_total :: "money option"

definition totals_default :: totals where
  "totals_default = \<lparr>to_subtotal = None, to_discount = None, to_shipping = None,
     to_tax = None, to_total = None\<rparr>"

record transaction =
  txn_id :: string
  txn_state :: transaction_state
  txn_agent_id :: string
  txn_tenant_id :: string
  txn_mandate_jti :: "string option"
  txn_currency :: string
  txn_jurisdiction :: "string option"
  txn_buyer :: buyer
  txn_ship_to :: "address option"
  txn_bill_to :: "address option"
  txn_line_items :: "line_item list"
  txn_totals :: totals
  txn_order_id :: "string option"
  txn_quote_expires_at :: "time option"
  txn_created_at :: time
  txn_updated_at :: time
  txn_external_refs :: "(string, string) store"

section \<open>Payment instruments and intent parameters\<close>

datatype payment_instrument =
    Card "string option" "string option" "string option"
      \<comment> \<open>token, last digits, brand\<close>
  | DelegatedVault string "string option"
      \<comment> \<open>token, provider\<close>
  | Stablecoin string string string "string option"
      \<comment> \<open>asset, chain, from, network memo\<close>
  | A2A string "string option"
      \<comment> \<open>peer agent id, memo\<close>
  | ExternalAuthorization string string "string option"
      \<comment> \<open>provider, authorization id, instrument hint\<close>

record request_item =
  ri_sku :: string
  ri_quantity :: i64
  ri_unit_price_hint :: "money option"

record quote_params =
  qp_items :: "request_item list"
  qp_buyer :: "buyer option"
  qp_ship_to :: "address option"
  qp_discount_codes :: "string list"

record authorize_params =
  ap_transaction_id :: string
  ap_buyer :: "buyer option"
  ap_ship_to :: "address option"
  ap_bill_to :: "address option"

record buy_params =
  bp_transaction_id :: string
  bp_payment :: payment_instrument

section \<open>Subscriptions\<close>

datatype subscription_status = Trialing | Active | Paused | SubCanceled | PastDue

fun subscription_status_wire_name :: "subscription_status \<Rightarrow> string" where
  "subscription_status_wire_name Trialing = ''trialing''"
| "subscription_status_wire_name Active = ''active''"
| "subscription_status_wire_name Paused = ''paused''"
| "subscription_status_wire_name SubCanceled = ''canceled''"
| "subscription_status_wire_name PastDue = ''past_due''"

fun debug_subscription_status :: "subscription_status \<Rightarrow> string" where
  "debug_subscription_status Trialing = ''Trialing''"
| "debug_subscription_status Active = ''Active''"
| "debug_subscription_status Paused = ''Paused''"
| "debug_subscription_status SubCanceled = ''Canceled''"
| "debug_subscription_status PastDue = ''PastDue''"

definition subscription_is_terminal :: "subscription_status \<Rightarrow> bool" where
  "subscription_is_terminal s \<longleftrightarrow> s = SubCanceled"

datatype billing_cadence = Weekly | Monthly | Annual

record subscription =
  sub_id :: string
  sub_status :: subscription_status
  sub_agent_id :: string
  sub_tenant_id :: string
  sub_mandate_jti :: "string option"
  sub_buyer :: buyer
  sub_ship_to :: "address option"
  sub_items :: "request_item list"
  sub_currency :: string
  sub_cadence :: billing_cadence
  sub_current_period_start :: time
  sub_current_period_end :: time
  sub_next_charge_at :: time
  sub_charges_completed :: u32
  sub_last_transaction_id :: "string option"
  sub_payment_instrument :: "payment_instrument option"
  sub_created_at :: time
  sub_updated_at :: time
  sub_canceled_at :: "time option"
  sub_paused_at :: "time option"
  sub_failed_renewal_attempts :: u32
  sub_trial_end :: "time option"

record subscribe_params =
  sp_items :: "request_item list"
  sp_buyer :: "buyer option"
  sp_ship_to :: "address option"
  sp_cadence :: billing_cadence
  sp_payment :: payment_instrument
  sp_trial_days :: "u32 option"

record renew_params =
  np_subscription_id :: string
  np_payment :: payment_instrument

record subscription_ref_params =
  sr_subscription_id :: string

section \<open>Peer commerce\<close>

datatype peer_quote_status = Pending | PqQuoted | Accepted | PqExpired | Rejected

fun peer_quote_status_wire_name :: "peer_quote_status \<Rightarrow> string" where
  "peer_quote_status_wire_name Pending = ''pending''"
| "peer_quote_status_wire_name PqQuoted = ''quoted''"
| "peer_quote_status_wire_name Accepted = ''accepted''"
| "peer_quote_status_wire_name PqExpired = ''expired''"
| "peer_quote_status_wire_name Rejected = ''rejected''"

definition peer_quote_is_terminal :: "peer_quote_status \<Rightarrow> bool" where
  "peer_quote_is_terminal s \<longleftrightarrow> s \<in> {Accepted, PqExpired, Rejected}"

datatype a2a_service_kind = Compute | DataFeed | ImageGeneration | AdHoc

fun a2a_service_kind_wire_name :: "a2a_service_kind \<Rightarrow> string" where
  "a2a_service_kind_wire_name Compute = ''compute''"
| "a2a_service_kind_wire_name DataFeed = ''data_feed''"
| "a2a_service_kind_wire_name ImageGeneration = ''image_generation''"
| "a2a_service_kind_wire_name AdHoc = ''ad_hoc''"

record a2a_service_spec =
  as_kind :: a2a_service_kind
  as_description :: string
  as_params :: json

record peer_quote =
  pq_id :: string
  pq_status :: peer_quote_status
  pq_tenant_id :: string
  pq_requester_agent_id :: string
  pq_peer_agent_id :: string
  pq_service :: a2a_service_spec
  pq_price :: "money option"
  pq_created_at :: time
  pq_updated_at :: time
  pq_expires_at :: time
  pq_accepted_at :: "time option"
  pq_charge_transaction_id :: "string option"
  pq_mandate_jti :: "string option"
  pq_reference_id :: "string option"

record a2a_quote_params =
  aq_peer_agent_id :: string
  aq_service :: a2a_service_spec
  aq_price_hint :: "money option"
  aq_expires_in_seconds :: "nat option"
  aq_reference_id :: "string option"

text \<open>\<open>discount_pct\<close> is a finite double: JSON has no other.\<close>

record negotiate_params =
  gp_transaction_id :: string
  gp_proposed_total :: "money option"
  gp_discount_pct :: "rat option"
  gp_message :: "string option"

record confirm_receipt_params =
  cp_transaction_id :: string
  cp_note :: "string option"

record a2a_pay_params =
  pp_peer_quote_id :: "string option"
  pp_peer_agent_id :: "string option"
  pp_amount :: "money option"
  pp_from :: string
  pp_payment :: "payment_instrument option"
  pp_memo :: "string option"

section \<open>Responses\<close>

record order_summary =
  os_id :: string
  os_order_number :: string
  os_status :: string
  os_permalink_url :: "string option"
  os_total :: money

record receipt_stub =
  rs_jti :: string
  rs_kid :: string
  rs_jws :: string
  rs_body_digest :: string

record intent_response_body =
  rb_intent :: string
  rb_intent_id :: string
  rb_transaction :: transaction
  rb_order :: "order_summary option"
  rb_subscription :: "subscription option"
  rb_peer_quote :: "peer_quote option"
  rb_receipt :: receipt_stub
  rb_envelope :: response_envelope

section \<open>Tenant and agent identities\<close>

record api_key_info =
  ak_key :: string
  ak_tenant_id :: string
  ak_name :: string
  ak_rate_limit_per_minute :: "u32 option"
  ak_allowed_agents :: "string list option"
  ak_expires_at :: "time option"

datatype agent_id_kind = DidStateset | DidKey | DidWeb | HttpsProfile | Opaque

record agent_identifier =
  ag_raw :: string
  ag_kind :: agent_id_kind

section \<open>Wire names are unambiguous\<close>

lemma transaction_state_wire_name_inject:
  "transaction_state_wire_name s = transaction_state_wire_name t \<longleftrightarrow> s = t"
  by (cases s; cases t) simp_all

lemma subscription_status_wire_name_inject:
  "subscription_status_wire_name s = subscription_status_wire_name t \<longleftrightarrow> s = t"
  by (cases s; cases t) simp_all

lemma peer_quote_status_wire_name_inject:
  "peer_quote_status_wire_name s = peer_quote_status_wire_name t \<longleftrightarrow> s = t"
  by (cases s; cases t) simp_all

text \<open>
  The status enums are finite, so statements about all statuses can be evaluated.
\<close>

instantiation transaction_state :: enum
begin

definition enum_transaction_state :: "transaction_state list" where
  "enum_transaction_state =
     [Draft, Quoted, Authorized, Captured, Fulfilled, Completed, Reversed, Canceled, Expired]"

definition enum_all_transaction_state :: "(transaction_state \<Rightarrow> bool) \<Rightarrow> bool" where
  "enum_all_transaction_state P \<longleftrightarrow> list_all P enum_class.enum"

definition enum_ex_transaction_state :: "(transaction_state \<Rightarrow> bool) \<Rightarrow> bool" where
  "enum_ex_transaction_state P \<longleftrightarrow> list_ex P enum_class.enum"

instance
proof
  show univ: "(UNIV :: transaction_state set) = set enum_class.enum"
    unfolding enum_transaction_state_def using transaction_state.exhaust by auto
  show "distinct (enum_class.enum :: transaction_state list)"
    by (simp add: enum_transaction_state_def)
  fix P :: "transaction_state \<Rightarrow> bool"
  show "enum_class.enum_all P \<longleftrightarrow> Ball UNIV P"
    by (simp add: enum_all_transaction_state_def list_all_iff univ)
  show "enum_class.enum_ex P \<longleftrightarrow> Bex UNIV P"
    by (simp add: enum_ex_transaction_state_def list_ex_iff univ)
qed

end

end
