(* ===== verification/Pricing.thy ===== *)
theory Pricing
  imports Models
begin

text \<open>
  The pure helpers shared by the intent families (the free functions of
  \<open>src/service/helpers.rs\<close> and the pricing helpers of \<open>src/models.rs\<close>):
  validation of payment instruments, pricing of a basket with saturating 64-bit
  arithmetic, tax and discount, the pre-execution estimate of an intent, and the
  advance of a billing period.
\<close>

section \<open>Validation\<close>

definition require_non_empty :: "string option \<Rightarrow> string \<Rightarrow> unit result" where
  "require_non_empty value field =
     (case value of
        Some v \<Rightarrow> if trim v \<noteq> [] then Inr () else Inl (InvalidRequest (field @ '' must be non-empty''))
      | None \<Rightarrow> Inl (InvalidRequest (field @ '' must be non-empty'')))"

fun instrument_fields :: "payment_instrument \<Rightarrow> unit result" where
  "instrument_fields (Card token _ _) = require_non_empty token ''payment.card.token''"
| "instrument_fields (DelegatedVault token provider) =
     bind_result (require_non_empty (Some token) ''payment.delegated_vault.token'') (\<lambda>_.
       case provider of
         Some p \<Rightarrow> require_non_empty (Some p) ''payment.delegated_vault.provider''
       | None \<Rightarrow> Inr ())"
| "instrument_fields (Stablecoin asset chain src _) =
     bind_result (require_non_empty (Some asset) ''payment.stablecoin.asset'') (\<lambda>_.
     bind_result (require_non_empty (Some chain) ''payment.stablecoin.chain'') (\<lambda>_.
       require_non_empty (Some src) ''payment.stablecoin.from''))"
| "instrument_fields (A2A peer _) = require_non_empty (Some peer) ''payment.a2a.peer_agent_id''"
| "instrument_fields (ExternalAuthorization provider auth _) =
     bind_result (require_non_empty (Some provider) ''payment.external_authorization.provider'') (\<lambda>_.
       require_non_empty (Some auth) ''payment.external_authorization.authorization_id'')"

fun is_external :: "payment_instrument \<Rightarrow> bool" where
  "is_external (ExternalAuthorization _ _ _) = True"
| "is_external _ = False"

definition validate_payment_instrument :: "payment_instrument \<Rightarrow> string \<Rightarrow> unit result" where
  "validate_payment_instrument payment execution_mode =
     bind_result (instrument_fields payment) (\<lambda>_.
       if execution_mode = ''external_required'' \<and> \<not> is_external payment
       then Inl (PreconditionFailed ''external payment authorization required by this handler'')
       else Inr ())"

section \<open>Tax and discount\<close>

text \<open>The quotient of two Rust integers truncates: the magnitudes divide, the signs decide.\<close>

definition trunc_div :: "int \<Rightarrow> int \<Rightarrow> int" where
  "trunc_div numer denom =
     (let q = \<bar>numer\<bar> div \<bar>denom\<bar> in if (numer < 0) = (denom < 0) then q else - q)"

lemma trunc_div_nonneg: "0 \<le> a \<Longrightarrow> 0 < b \<Longrightarrow> trunc_div a b = a div b"
  by (simp add: trunc_div_def)

definition flat_tax_minor :: "i64 \<Rightarrow> i64" where
  "flat_tax_minor subtotal_minor = wrap_i64 (trunc_div (subtotal_minor * 875) 10000)"

lemma wrap_i64_id: "in_i64 x \<Longrightarrow> wrap_i64 x = x"
  by (simp add: wrap_i64_def in_i64_def i64_min_def i64_max_def)

lemma flat_tax_nonneg:
  assumes "0 \<le> s" "s \<le> i64_max"
  shows "flat_tax_minor s = s * 875 div 10000"
proof -
  have "0 \<le> s * 875 div 10000" "s * 875 div 10000 \<le> s"
    using assms by simp_all
  then have "in_i64 (s * 875 div 10000)"
    using assms by (simp add: in_i64_def i64_min_def i64_max_def)
  then show ?thesis
    using assms by (simp add: flat_tax_minor_def trunc_div_nonneg wrap_i64_id)
qed

lemma sat_add_tax: "0 \<le> s \<Longrightarrow> s \<le> i64_max \<Longrightarrow>
    sat_add s (s * 875 div 10000) = min i64_max (s + s * 875 div 10000)"
  by (rule sat_add_eq_min) simp_all

definition money_amount_or :: "i64 \<Rightarrow> money option \<Rightarrow> i64" where
  "money_amount_or d m = (case m of Some x \<Rightarrow> amount_minor x | None \<Rightarrow> d)"

text \<open>
  \<open>apply_discount_to_totals\<close>: \<open>i64::clamp(0, subtotal)\<close> panics when the
  subtotal is negative; that is \<open>None\<close>.
\<close>

definition apply_discount_to_totals :: "totals \<Rightarrow> i64 \<Rightarrow> string \<Rightarrow> totals option" where
  "apply_discount_to_totals t discount_minor currency =
     (let subtotal = money_amount_or 0 (to_subtotal t)
      in if subtotal < 0 then None
         else let discount = max 0 (min discount_minor subtotal);
                  discounted = subtotal - discount;
                  tax = flat_tax_minor discounted
              in Some (t\<lparr>to_discount := Some (money_new discount currency),
                         to_tax := Some (money_new tax currency),
                         to_total := Some (money_new (sat_add discounted tax) currency)\<rparr>))"

definition total_amount_minor :: "totals \<Rightarrow> i64" where
  "total_amount_minor t = money_amount_or 0 (to_total t)"

section \<open>Pricing a basket\<close>

fun price_items :: "string \<Rightarrow> string \<Rightarrow> nat \<Rightarrow> request_item list \<Rightarrow> i64 \<Rightarrow> line_item list
    \<Rightarrow> (line_item list \<times> i64) result" where
  "price_items field_prefix currency idx [] subtotal lines = Inr (lines, subtotal)"
| "price_items field_prefix currency idx (req # reqs) subtotal lines =
     (if ri_quantity req \<le> 0 then
        Inl (InvalidRequest (field_prefix @ ''['' @ show_nat idx @ ''].quantity must be positive''))
      else
        let unit_minor = money_amount_or 1000 (ri_unit_price_hint req) in
        if unit_minor < 0 then
          Inl (InvalidRequest (field_prefix @ ''['' @ show_nat idx
                 @ ''].unit_price_hint.amount_minor must be non-negative''))
        else
          let line_subtotal = sat_mul unit_minor (ri_quantity req) in
          price_items field_prefix currency (Suc idx) reqs (sat_add subtotal line_subtotal)
            (lines @ [\<lparr>li_id = ''li_'' @ pad_nat 6 idx, li_sku = ri_sku req, li_name = ri_sku req,
                       li_quantity = ri_quantity req,
                       li_unit_price = money_new unit_minor currency,
                       li_subtotal = money_new line_subtotal currency, li_tax = None,
                       li_total = money_new line_subtotal currency\<rparr>]))"

definition price_request_items ::
  "request_item list \<Rightarrow> string \<Rightarrow> string \<Rightarrow> (line_item list \<times> totals) result" where
  "price_request_items items currency field_prefix =
     bind_result (price_items field_prefix currency 0 items 0 []) (\<lambda>(lines, subtotal_minor).
       let tax_minor = flat_tax_minor subtotal_minor;
           total_minor = sat_add subtotal_minor tax_minor
       in Inr (lines,
               \<lparr>to_subtotal = Some (money_new subtotal_minor currency), to_discount = None,
                to_shipping = None, to_tax = Some (money_new tax_minor currency),
                to_total = Some (money_new total_minor currency)\<rparr>))"

text \<open>The estimate used for the mandate check before an intent executes.\<close>

fun estimate_items :: "json list \<Rightarrow> i64 \<Rightarrow> i64" where
  "estimate_items [] acc = acc"
| "estimate_items (item # items) acc =
     (let qty = (case json_get item ''quantity'' of
                   Some v \<Rightarrow> (case json_as_i64 v of Some n \<Rightarrow> n | None \<Rightarrow> 0) | None \<Rightarrow> 0);
          unit_price = (case json_get item ''unit_price_hint'' of
                    Some p \<Rightarrow> (case json_get p ''amount_minor'' of
                                Some v \<Rightarrow> (case json_as_i64 v of Some n \<Rightarrow> n | None \<Rightarrow> 1000)
                              | None \<Rightarrow> 1000)
                  | None \<Rightarrow> 1000)
      in estimate_items items (sat_add acc (sat_mul qty unit_price)))"

definition estimate_intent_amount_minor :: "intent_envelope \<Rightarrow> i64" where
  "estimate_intent_amount_minor envelope =
     (case json_get (en_params envelope) ''items'' of
        Some v \<Rightarrow> (case json_as_array v of Some items \<Rightarrow> estimate_items items 0 | None \<Rightarrow> 0)
      | None \<Rightarrow> 0)"

definition minor_unit_scale :: "string \<Rightarrow> i64" where
  "minor_unit_scale currency =
     (let c = to_ascii_uppercase currency
      in if c \<in> {''JPY'', ''KRW'', ''VND''} then 1
         else if c \<in> {''BHD'', ''IQD'', ''JOD'', ''KWD'', ''LYD'', ''OMR'', ''TND''} then 1000
         else if c = ''BTC'' then 100000000
         else if c \<in> {''USDC'', ''USDT'', ''DAI'', ''SSUSD''} then 1000000
         else 100)"

section \<open>Billing periods\<close>

text \<open>
  \<open>add_months\<close> stands for chrono's \<open>DateTime::checked_add_months\<close>.
\<close>

fun period_advance :: "(time \<Rightarrow> nat \<Rightarrow> time option) \<Rightarrow> time \<Rightarrow> billing_cadence \<Rightarrow> time" where
  "period_advance add_months start Weekly = start + days 7"
| "period_advance add_months start Monthly =
     (case add_months start 1 of Some t \<Rightarrow> t | None \<Rightarrow> start + days 30)"
| "period_advance add_months start Annual =
     (case add_months start 12 of Some t \<Rightarrow> t | None \<Rightarrow> start + days 365)"

section \<open>Reference pricing\<close>

text \<open>
  The mathematical value of a basket, without saturation, and the closed form of the
  priced lines.
\<close>

definition item_unit :: "request_item \<Rightarrow> i64" where
  "item_unit r = money_amount_or 1000 (ri_unit_price_hint r)"

definition valid_item :: "request_item \<Rightarrow> bool" where
  "valid_item r \<longleftrightarrow> 0 < ri_quantity r \<and> 0 \<le> item_unit r"

definition basket_value :: "request_item list \<Rightarrow> int" where
  "basket_value items = (\<Sum>r \<leftarrow> items. item_unit r * ri_quantity r)"

definition priced_line :: "string \<Rightarrow> nat \<Rightarrow> request_item \<Rightarrow> line_item" where
  "priced_line currency idx r =
     (let m = money_new (sat_mul (item_unit r) (ri_quantity r)) currency
      in \<lparr>li_id = ''li_'' @ pad_nat 6 idx, li_sku = ri_sku r, li_name = ri_sku r,
          li_quantity = ri_quantity r, li_unit_price = money_new (item_unit r) currency,
          li_subtotal = m, li_tax = None, li_total = m\<rparr>)"

lemma basket_value_nonneg: "list_all valid_item items \<Longrightarrow> 0 \<le> basket_value items"
  by (induction items) (simp_all add: basket_value_def valid_item_def)

lemma min_sat_step:
  "0 \<le> s \<Longrightarrow> 0 \<le> (x::int) \<Longrightarrow> 0 \<le> y \<Longrightarrow>
   min i64_max (sat_add s (min i64_max x) + y) = min i64_max (s + (x + y))"
  by (simp add: sat_add_eq_min min_def i64_max_def)

lemma price_items_valid:
  assumes "list_all valid_item items" "0 \<le> s" "s \<le> i64_max"
  shows "price_items p c idx items s ls =
    Inr (ls @ map2 (priced_line c) [idx ..< idx + length items] items,
         min i64_max (s + basket_value items))"
  using assms
proof (induction items arbitrary: idx s ls)
  case Nil
  then show ?case by (simp add: basket_value_def)
next
  case (Cons r rs)
  let ?l = "sat_mul (item_unit r) (ri_quantity r)"
  have v: "0 < ri_quantity r" "0 \<le> item_unit r" "list_all valid_item rs"
    using Cons.prems(1) by (simp_all add: valid_item_def [of r])
  then have l: "?l = min i64_max (item_unit r * ri_quantity r)" "0 \<le> item_unit r * ri_quantity r"
    by (simp_all add: sat_mul_eq_min)
  have s': "0 \<le> sat_add s ?l" "sat_add s ?l \<le> i64_max"
    using Cons.prems l by (simp_all add: sat_add_eq_min min_def i64_max_def)
  have "price_items p c idx (r # rs) s ls =
      price_items p c (Suc idx) rs (sat_add s ?l) (ls @ [priced_line c idx r])"
    using v by (simp add: item_unit_def [symmetric] priced_line_def Let_def)
  also have "\<dots> = Inr ((ls @ [priced_line c idx r])
        @ map2 (priced_line c) [Suc idx ..< Suc idx + length rs] rs,
      min i64_max (sat_add s ?l + basket_value rs))"
    using Cons.IH [OF v(3) s'] .
  finally have "price_items p c idx (r # rs) s ls =
      Inr ((ls @ [priced_line c idx r]) @ map2 (priced_line c) [Suc idx ..< Suc idx + length rs] rs,
        min i64_max (sat_add s ?l + basket_value rs))" .
  moreover have "min i64_max (sat_add s ?l + basket_value rs) = min i64_max (s + basket_value (r # rs))"
    using min_sat_step [OF Cons.prems(2) l(2) basket_value_nonneg [OF v(3)]] l(1)
    by (simp add: basket_value_def)
  moreover have "[idx ..< idx + length (r # rs)] = idx # [Suc idx ..< Suc idx + length rs]"
    by (simp add: upt_conv_Cons del: upt_Suc)
  ultimately show ?case
    by (simp only: list.map zip_Cons_Cons prod.case append.simps append_assoc)
qed

text \<open>The message of the first offending item.\<close>

fun item_complaint :: "string \<Rightarrow> nat \<Rightarrow> request_item list \<Rightarrow> string" where
  "item_complaint p idx [] = []"
| "item_complaint p idx (r # rs) =
     (if valid_item r then item_complaint p (Suc idx) rs
      else p @ ''['' @ show_nat idx @
        (if ri_quantity r \<le> 0 then ''].quantity must be positive''
         else ''].unit_price_hint.amount_minor must be non-negative''))"

lemma price_items_invalid:
  "\<not> list_all valid_item items \<Longrightarrow>
   price_items p c idx items s ls = Inl (InvalidRequest (item_complaint p idx items))"
  by (induction items arbitrary: idx s ls)
    (auto simp: valid_item_def item_unit_def [symmetric] Let_def not_le not_less)

lemma price_request_items_eq:
  "price_request_items items c p =
     (if list_all valid_item items then
        let sub = min i64_max (basket_value items); tax = sub * 875 div 10000
        in Inr (map2 (priced_line c) [0 ..< length items] items,
             \<lparr>to_subtotal = Some (money_new sub c), to_discount = None, to_shipping = None,
              to_tax = Some (money_new tax c),
              to_total = Some (money_new (min i64_max (sub + tax)) c)\<rparr>)
      else Inl (InvalidRequest (item_complaint p 0 items)))"
proof (cases "list_all valid_item items")
  case True
  let ?s = "min i64_max (basket_value items)"
  have s: "0 \<le> ?s" "?s \<le> i64_max"
    using basket_value_nonneg [OF True] by (simp_all add: i64_max_def)
  then have tax: "sat_add ?s (?s * 875 div 10000) = min i64_max (?s + ?s * 875 div 10000)"
    "flat_tax_minor ?s = ?s * 875 div 10000"
    by (rule sat_add_tax, rule flat_tax_nonneg)
  have "price_items p c 0 items 0 [] =
      Inr (map2 (priced_line c) [0 ..< length items] items, ?s)"
    using price_items_valid [OF True, of 0 p c 0 "[]"] by (simp add: i64_max_def)
  then show ?thesis
    using True by (simp only: price_request_items_def bind_result_simps prod.case Let_def tax if_True)
next
  case False
  then show ?thesis
    by (simp add: price_request_items_def price_items_invalid)
qed

text \<open>C2 (functional). Pricing a basket: it fails with \<open>invalid_request\<close> exactly when some
  quantity is not positive or some unit price hint is negative, naming the first such item.
  Otherwise there is one line per item, in order; the subtotal is the sum of unit price times
  quantity, saturated at the largest 64-bit integer; the tax is 8.75 percent of it rounded
  down; the total is their saturated sum.\<close>

theorem price_request_items_spec:
  "price_request_items items c p =
     (if list_all valid_item items then
        let sub = min i64_max (basket_value items); tax = sub * 875 div 10000
        in Inr (map2 (priced_line c) [0 ..< length items] items,
             \<lparr>to_subtotal = Some (money_new sub c), to_discount = None, to_shipping = None,
              to_tax = Some (money_new tax c),
              to_total = Some (money_new (min i64_max (sub + tax)) c)\<rparr>)
      else Inl (InvalidRequest (item_complaint p 0 items)))"
  by (rule price_request_items_eq)

lemma price_request_items_valid:
  "price_request_items items c p = Inr (ls, t) \<Longrightarrow> list_all valid_item items"
  by (simp add: price_request_items_eq split: if_splits)

lemma price_request_items_total:
  "price_request_items items c p = Inr (ls, t) \<Longrightarrow>
     to_subtotal t = Some (money_new (min i64_max (basket_value items)) c) \<and>
     total_amount_minor t =
       min i64_max (min i64_max (basket_value items) + min i64_max (basket_value items) * 875 div 10000)"
  by (auto simp: price_request_items_eq Let_def total_amount_minor_def money_amount_or_def
      simp del: of_nat_Suc split: if_splits)

lemma price_request_items_nonneg:
  assumes "price_request_items items c p = Inr (ls, t)"
  shows "0 \<le> total_amount_minor t" "min i64_max (basket_value items) \<le> total_amount_minor t"
proof -
  let ?s = "min i64_max (basket_value items)"
  have "0 \<le> ?s" "?s \<le> i64_max"
    using basket_value_nonneg [OF price_request_items_valid [OF assms]] by (simp_all add: i64_max_def)
  moreover have "0 \<le> s * 875 div 10000" if "0 \<le> s" for s :: int
    using that by simp
  ultimately show "?s \<le> total_amount_minor t"
    using price_request_items_total [OF assms] by (simp only: min_def) (simp split: if_splits)
  with \<open>0 \<le> ?s\<close> show "0 \<le> total_amount_minor t" by linarith
qed

subsection \<open>The estimate against the charge\<close>

text \<open>The JSON a client sends for an item, as the derived serialiser writes it.\<close>

definition money_json :: "money \<Rightarrow> json" where
  "money_json m = JObj
     ([(''amount_minor'', JInt (amount_minor m))]
      @ (case amount_display m of Some d \<Rightarrow> [(''amount_display'', JStr d)] | None \<Rightarrow> [])
      @ [(''currency'', JStr (money_currency m))])"

definition item_json :: "request_item \<Rightarrow> json" where
  "item_json r = JObj
     ([(''sku'', JStr (ri_sku r)), (''quantity'', JInt (ri_quantity r))]
      @ (case ri_unit_price_hint r of Some m \<Rightarrow> [(''unit_price_hint'', money_json m)] | None \<Rightarrow> []))"

definition item_in_i64 :: "request_item \<Rightarrow> bool" where
  "item_in_i64 r \<longleftrightarrow> in_i64 (ri_quantity r) \<and> in_i64 (item_unit r)"

lemma estimate_items_step:
  assumes "item_in_i64 r"
  shows "estimate_items (item_json r # js) acc =
    estimate_items js (sat_add acc (sat_mul (ri_quantity r) (item_unit r)))"
  using assms
  by (cases "ri_unit_price_hint r")
    (simp_all add: item_json_def money_json_def json_get_def json_as_i64_def item_in_i64_def
      item_unit_def money_amount_or_def)

lemma estimate_items_value:
  assumes "list_all valid_item items" "list_all item_in_i64 items" "0 \<le> acc" "acc \<le> i64_max"
  shows "estimate_items (map item_json items) acc = min i64_max (acc + basket_value items)"
  using assms
proof (induction items arbitrary: acc)
  case Nil
  then show ?case by (simp add: basket_value_def)
next
  case (Cons r rs)
  let ?l = "sat_mul (ri_quantity r) (item_unit r)"
  have v: "0 < ri_quantity r" "0 \<le> item_unit r" "list_all valid_item rs"
      "item_in_i64 r" "list_all item_in_i64 rs"
    using Cons.prems(1,2) by (simp_all add: valid_item_def [of r])
  then have l: "?l = min i64_max (item_unit r * ri_quantity r)" "0 \<le> item_unit r * ri_quantity r"
    by (simp_all add: sat_mul_eq_min mult.commute)
  have "0 \<le> sat_add acc ?l" "sat_add acc ?l \<le> i64_max"
    using Cons.prems l by (simp_all add: sat_add_eq_min min_def i64_max_def)
  then have "estimate_items (map item_json (r # rs)) acc =
      min i64_max (sat_add acc ?l + basket_value rs)"
    using Cons.IH v by (simp only: list.map estimate_items_step)
  then show ?case
    using min_sat_step [OF Cons.prems(3) l(2) basket_value_nonneg [OF v(3)]] l(1)
    by (simp add: basket_value_def)
qed

text \<open>The mandate check before execution never asks for more than the charge
  that follows: for a basket that prices successfully, the estimate computed from its JSON is
  the saturated subtotal, so it is at most the total (which adds the tax) and never
  negative.\<close>

theorem estimate_below_charge:
  assumes "price_request_items items c p = Inr (ls, t)"
    and "list_all item_in_i64 items"
    and "en_params e = JObj [(''items'', JArr (map item_json items))]"
  shows "estimate_intent_amount_minor e = money_amount_or 0 (to_subtotal t) \<and>
    0 \<le> estimate_intent_amount_minor e \<and>
    estimate_intent_amount_minor e \<le> total_amount_minor t"
proof -
  note v = price_request_items_valid [OF assms(1)]
  have "estimate_intent_amount_minor e = min i64_max (basket_value items)"
    using estimate_items_value [OF v assms(2), of 0] assms(3)
    by (simp add: estimate_intent_amount_minor_def json_get_def json_as_array_def i64_max_def)
  moreover have "0 \<le> min i64_max (basket_value items)"
    using basket_value_nonneg [OF v] by (simp add: i64_max_def)
  ultimately show ?thesis
    using price_request_items_total [OF assms(1)] price_request_items_nonneg [OF assms(1)]
    by (simp add: money_amount_or_def)
qed

text \<open>A basket of two units at 29.99: subtotal 59.98, tax 5.24, total 65.22.\<close>

definition sample_item :: request_item where
  "sample_item = \<lparr>ri_sku = ''SKU'', ri_quantity = 2,
     ri_unit_price_hint = Some (money_new 2999 ''USD'')\<rparr>"

definition sample_envelope :: intent_envelope where
  "sample_envelope = \<lparr>en_intent = ''intent.subscribe'', en_intent_id = None,
     en_transaction_id = None, en_agent_id = ''agent'', en_mandate_jti = None,
     en_params = JObj [(''items'', JArr (map item_json [sample_item]))],
     en_context = intent_context_default\<rparr>"

definition sample_priced :: "line_item list \<times> totals" where
  "sample_priced =
     (map2 (priced_line ''USD'') [0 ..< 1] [sample_item],
      \<lparr>to_subtotal = Some (money_new 5998 ''USD''), to_discount = None, to_shipping = None,
       to_tax = Some (money_new 524 ''USD''), to_total = Some (money_new 6522 ''USD'')\<rparr>)"

lemma sample_pricing: "price_request_items [sample_item] ''USD'' p = Inr sample_priced"
  by (simp add: price_request_items_eq sample_priced_def sample_item_def valid_item_def
      item_unit_def money_amount_or_def basket_value_def i64_max_def)

lemma sample_item_in: "list_all item_in_i64 [sample_item]"
  by (simp add: item_in_i64_def sample_item_def item_unit_def money_amount_or_def in_i64_def
      i64_min_def i64_max_def)

theorem estimate_below_charge_witness:
  "estimate_intent_amount_minor sample_envelope = 5998 \<and>
   estimate_intent_amount_minor sample_envelope \<le> total_amount_minor (snd sample_priced)"
  using estimate_below_charge [of "[sample_item]" "''USD''" "[]" "fst sample_priced"
      "snd sample_priced" sample_envelope] sample_item_in
  by (simp add: sample_pricing sample_priced_def sample_envelope_def money_amount_or_def)

subsection \<open>Discounts\<close>

lemma apply_discount_bounded:
  assumes "to_subtotal t = Some m" and "0 \<le> amount_minor m" and "amount_minor m \<le> i64_max"
    and "apply_discount_to_totals t d c = Some t'"
  shows "let left = amount_minor m - max 0 (min d (amount_minor m)) in
      to_subtotal t' = to_subtotal t \<and> to_shipping t' = to_shipping t \<and>
      total_amount_minor t' = min i64_max (left + left * 875 div 10000) \<and>
      0 \<le> total_amount_minor t' \<and>
      total_amount_minor t' \<le> sat_add (amount_minor m) (flat_tax_minor (amount_minor m))"
proof -
  let ?s = "amount_minor m"
  define left where "left = ?s - max 0 (min d ?s)"
  have left: "0 \<le> left" "left \<le> ?s" "left \<le> i64_max"
    using assms(2,3) by (auto simp: left_def)
  have tax: "flat_tax_minor left = left * 875 div 10000"
    using left by (simp only: flat_tax_nonneg)
  then have sum: "sat_add left (flat_tax_minor left) = min i64_max (left + left * 875 div 10000)"
    using left by (simp only: sat_add_tax)
  have "\<not> ?s < 0" using assms(2) by simp
  then have t': "t' = t\<lparr>to_discount := Some (money_new (max 0 (min d ?s)) c),
      to_tax := Some (money_new (flat_tax_minor left) c),
      to_total := Some (money_new (sat_add left (flat_tax_minor left)) c)\<rparr>"
    using assms(1,4)
    by (simp add: apply_discount_to_totals_def money_amount_or_def Let_def left_def [symmetric])
  have "left * 875 div 10000 \<le> ?s * 875 div 10000" "0 \<le> left * 875 div 10000"
    using left by (auto intro: zdiv_mono1)
  moreover have "sat_add ?s (flat_tax_minor ?s) = min i64_max (?s + ?s * 875 div 10000)"
    using assms(2,3) by (simp only: flat_tax_nonneg sat_add_tax)
  ultimately have "min i64_max (left + left * 875 div 10000) \<le> sat_add ?s (flat_tax_minor ?s)"
    using left by (simp only: min_def) (simp split: if_splits)
  moreover have "0 \<le> min i64_max (left + left * 875 div 10000)"
    using left by (simp add: i64_max_def)
  ultimately show ?thesis
    by (simp only: Let_def left_def [symmetric])
      (simp add: t' sum total_amount_minor_def money_amount_or_def)
qed

text \<open>A discount never makes a basket more expensive or its total negative: it
  is clamped to the subtotal, the tax is recomputed on what is left, the new total lies
  between zero and the undiscounted total, and nothing but the discount, tax and total
  changes.\<close>

theorem apply_discount_bounds:
  assumes "to_subtotal t = Some m" and "0 \<le> amount_minor m" and "amount_minor m \<le> i64_max"
    and "apply_discount_to_totals t d c = Some t'"
  shows "let left = amount_minor m - max 0 (min d (amount_minor m)) in
      to_subtotal t' = to_subtotal t \<and> to_shipping t' = to_shipping t \<and>
      total_amount_minor t' = min i64_max (left + left * 875 div 10000) \<and>
      0 \<le> total_amount_minor t' \<and>
      total_amount_minor t' \<le> sat_add (amount_minor m) (flat_tax_minor (amount_minor m))"
  using assms by (rule apply_discount_bounded)

theorem apply_discount_bounds_witness:
  "map_option total_amount_minor
     (apply_discount_to_totals (snd sample_priced) 998 ''USD'') = Some 5437"
proof -
  obtain t where t: "apply_discount_to_totals (snd sample_priced) 998 ''USD'' = Some t"
    by (auto simp: apply_discount_to_totals_def sample_priced_def money_amount_or_def Let_def)
  then show ?thesis
    using apply_discount_bounds [of "snd sample_priced" "money_new 5998 ''USD''" 998 "''USD''" t]
    by (simp add: sample_priced_def i64_max_def Let_def)
qed

end
