(* ===== verification/Mandate.thy ===== *)
theory Mandate
  imports Ledger Pricing
begin

text \<open>
  Mandates (\<open>src/mandate.rs\<close>): the signed authorisation of a principal for an agent to
  spend. The payload and its terms, the structural decoding and the signature check of the
  compact JWS, the ISO 8601 period parser, the evaluation of a mandate against an intent, and
  the reservation of the charge against its budget. Base64, JSON parsing, Ed25519 and DID
  resolution are parameters (\<open>crypto\<close>); the ledger of what has been spent is in \<open>Ledger\<close>.
\<close>

section \<open>Payload\<close>

record mandate_budget =
  mb_currency :: string
  mb_amount_minor :: i64
  mb_per_transaction :: "i64 option"
  mb_period :: "string option"

record mandate_policies =
  mp_require_receipt :: bool
  mp_require_shipping_address_confirmation :: bool
  mp_prohibit_subscriptions :: bool

record mandate_terms =
  mt_version :: string
  mt_scope :: "string list"
  mt_budget :: mandate_budget
  mt_merchants :: "string list"
  mt_categories :: "string list"
  mt_jurisdictions :: "string list"
  mt_policies :: mandate_policies
  mt_linked_payment_methods :: "string list"

record mandate_payload =
  md_iss :: string
  md_sub :: string
  md_iat :: i64
  md_nbf :: i64
  md_exp :: i64
  md_jti :: string
  md_icp :: mandate_terms

record mandate_evaluation =
  ev_payload :: mandate_payload
  ev_compact_jws :: string
  ev_spend_room_minor :: i64
  ev_signature_verified :: bool

record jws_header =
  jh_alg :: string
  jh_kid :: "string option"

record verifying_key =
  vk_kid :: "string option"
  vk_key :: string

record crypto =
  cr_b64_decode :: "string \<Rightarrow> string option"
  cr_payload_json :: "string \<Rightarrow> string + mandate_payload"
  cr_header_json :: "string \<Rightarrow> string + jws_header"
  cr_resolve :: "string \<Rightarrow> string + verifying_key list"
  cr_verify :: "string \<Rightarrow> string \<Rightarrow> string \<Rightarrow> bool"
    \<comment> \<open>key, message, signature\<close>

section \<open>Decoding and signature\<close>

definition split_compact :: "string \<Rightarrow> (string \<times> string \<times> string) result" where
  "split_compact jws =
     (case split_on CHR ''.'' jws of
        [] \<Rightarrow> Inl (MandateInvalid ''mandate: missing header segment'')
      | [h] \<Rightarrow> Inl (MandateInvalid ''mandate: missing payload segment'')
      | [h, p] \<Rightarrow> Inl (MandateInvalid ''mandate: missing signature segment'')
      | [h, p, s] \<Rightarrow> Inr (h, p, s)
      | _ \<Rightarrow> Inl (MandateInvalid ''mandate: unexpected extra segments''))"

definition decode_unverified :: "crypto \<Rightarrow> string \<Rightarrow> mandate_payload result" where
  "decode_unverified K jws =
     bind_result (split_compact jws) (\<lambda>(h, p, s).
       case cr_b64_decode K p of
         None \<Rightarrow> Inl (MandateInvalid ''mandate: payload not base64url'')
       | Some payload_bytes \<Rightarrow>
           (case cr_payload_json K payload_bytes of
              Inl e \<Rightarrow> Inl (MandateInvalid (''mandate: '' @ e))
            | Inr payload \<Rightarrow> Inr payload))"

text \<open>The keys in the order they are tried: those with the header's \<open>kid\<close> first.\<close>

definition candidate_keys :: "string option \<Rightarrow> verifying_key list \<Rightarrow> verifying_key list" where
  "candidate_keys kid keys =
     (case kid of
        Some k \<Rightarrow> filter (\<lambda>x. vk_kid x = Some k) keys @ filter (\<lambda>x. vk_kid x \<noteq> Some k) keys
      | None \<Rightarrow> keys)"

fun try_keys :: "crypto \<Rightarrow> string \<Rightarrow> string \<Rightarrow> verifying_key list \<Rightarrow> bool" where
  "try_keys K msg sig [] = False"
| "try_keys K msg sig (k # ks) = (if cr_verify K (vk_key k) msg sig then True else try_keys K msg sig ks)"

definition verify_signature :: "crypto \<Rightarrow> string \<Rightarrow> string \<Rightarrow> unit result" where
  "verify_signature K jws issuer_did =
     bind_result (split_compact jws) (\<lambda>(header_b64, payload_b64, sig_b64).
     case cr_b64_decode K header_b64 of
       None \<Rightarrow> Inl (MandateInvalid ''mandate: header not base64url'')
     | Some header_bytes \<Rightarrow>
     (case cr_header_json K header_bytes of
        Inl e \<Rightarrow> Inl (MandateInvalid (''mandate: header JSON: '' @ e))
      | Inr header \<Rightarrow>
        if jh_alg header = ''none'' then
          Inl (MandateInvalid
            ''mandate: `alg:none` rejected when signature verification is enabled'')
        else if jh_alg header \<noteq> ''EdDSA'' then
          Inl (MandateInvalid (''mandate: unsupported alg `'' @ jh_alg header
            @ ''` (only EdDSA accepted)''))
        else
        (case cr_b64_decode K sig_b64 of
           None \<Rightarrow> Inl (MandateInvalid ''mandate: signature not base64url'')
         | Some sig_bytes \<Rightarrow>
           if length sig_bytes \<noteq> 64 then
             Inl (MandateInvalid (''mandate: Ed25519 signature must be 64 bytes, got ''
               @ show_nat (length sig_bytes)))
           else
           (case cr_resolve K issuer_did of
              Inl e \<Rightarrow> Inl (MandateInvalid (''principal resolve: '' @ e))
            | Inr keys \<Rightarrow>
              let candidates = candidate_keys (jh_kid header) keys;
                  signing_input = header_b64 @ ''.'' @ payload_b64
              in if candidates = [] then
                   Inl (MandateInvalid ''principal advertises no verifying keys'')
                 else if try_keys K signing_input sig_bytes candidates then Inr ()
                 else Inl (MandateInvalid
                   ''mandate: signature did not verify against principal keyset'')))))"

section \<open>Periods and jurisdictions\<close>

text \<open>
  The outcome of \<open>parse_period\<close>: no period, a panic of chrono's constructor, or a duration.
  The multiplications by 7 and 30 are plain \<open>i64\<close> products and wrap.
\<close>

datatype period = NoPeriod | PeriodPanic | Period duration

definition period_of :: "chrono \<Rightarrow> (i64 \<Rightarrow> int) \<Rightarrow> string \<Rightarrow> period" where
  "period_of C to_secs num =
     (case parse_i64 num of
        None \<Rightarrow> NoPeriod
      | Some n \<Rightarrow> (case ch_duration_secs C (to_secs n) of None \<Rightarrow> PeriodPanic | Some d \<Rightarrow> Period d))"

definition parse_period :: "chrono \<Rightarrow> string option \<Rightarrow> period" where
  "parse_period C s =
     (case s of None \<Rightarrow> NoPeriod | Some s \<Rightarrow>
     (case strip_prefix ''P'' s of None \<Rightarrow> NoPeriod | Some inner \<Rightarrow>
     (case strip_prefix ''T'' inner of
        Some rest \<Rightarrow>
          (case strip_suffix ''H'' rest of
             Some h \<Rightarrow> period_of C (\<lambda>n. n * 3600) h
           | None \<Rightarrow> NoPeriod)
      | None \<Rightarrow>
          (case strip_suffix ''D'' inner of
             Some d \<Rightarrow> period_of C (\<lambda>n. n * 86400) d
           | None \<Rightarrow>
          (case strip_suffix ''W'' inner of
             Some w \<Rightarrow> period_of C (\<lambda>n. wrap_i64 (n * 7) * 86400) w
           | None \<Rightarrow>
          (case strip_suffix ''M'' inner of
             Some m \<Rightarrow> period_of C (\<lambda>n. wrap_i64 (n * 30) * 86400) m
           | None \<Rightarrow> NoPeriod))))))"

text \<open>\<open>parse_period(..).unwrap_or(Duration::days(1))\<close>.\<close>

definition budget_window :: "chrono \<Rightarrow> string option \<Rightarrow> duration exec" where
  "budget_window C s =
     (case parse_period C s of
        NoPeriod \<Rightarrow> Inr (days 1) | PeriodPanic \<Rightarrow> Inl Panic | Period d \<Rightarrow> Inr d)"

definition jurisdiction_authorizes :: "string \<Rightarrow> string \<Rightarrow> bool" where
  "jurisdiction_authorizes allowed actual =
     (if eq_ignore_ascii_case allowed actual then True
      else case split_once CHR ''-'' actual of
             Some (country, _) \<Rightarrow> eq_ignore_ascii_case allowed country
           | None \<Rightarrow> False)"

section \<open>Evaluation\<close>

definition ensure :: "bool \<Rightarrow> api_error \<Rightarrow> unit result" where
  "ensure b e = (if b then Inr () else Inl e)"

lemma ensure_Inr [simp]: "ensure b e = Inr u \<longleftrightarrow> b"
  by (simp add: ensure_def)

lemma ensure_simps [simp]: "ensure True e = Inr ()" "ensure False e = Inl e"
  by (simp_all add: ensure_def)

text \<open>Step 1: the validity window.\<close>

definition check_validity :: "chrono \<Rightarrow> mandate_payload \<Rightarrow> time \<Rightarrow> unit result" where
  "check_validity C p now =
     (case ch_from_timestamp C (md_nbf p) of
        None \<Rightarrow> Inl (MandateInvalid ''mandate: invalid `nbf`'')
      | Some nbf \<Rightarrow>
     (case ch_from_timestamp C (md_exp p) of
        None \<Rightarrow> Inl (MandateInvalid ''mandate: invalid `exp`'')
      | Some expires \<Rightarrow>
          if now < nbf then Inl (MandateInvalid ''mandate not yet valid'')
          else if expires < now then Inl (MandateInvalid ''mandate expired'')
          else Inr ()))"

text \<open>Step 5: jurisdictions.\<close>

definition check_jurisdiction :: "string list \<Rightarrow> string option \<Rightarrow> unit result" where
  "check_jurisdiction jurisdictions jurisdiction =
     (if jurisdictions = [] \<or> list_ex (\<lambda>j. j = ''*'') jurisdictions then Inr ()
      else case jurisdiction of
        Some j \<Rightarrow>
          if list_ex (\<lambda>allowed. jurisdiction_authorizes allowed j) jurisdictions then Inr ()
          else Inl (MandateOutOfScope (''mandate does not authorize jurisdiction `'' @ j @ ''`''))
      | None \<Rightarrow> Inl (MandateOutOfScope
          ''mandate constrains jurisdictions but the intent declares none''))"

text \<open>Steps 2 to 7, up to the read of the ledger.\<close>

definition check_terms ::
  "mandate_terms \<Rightarrow> string \<Rightarrow> i64 \<Rightarrow> string \<Rightarrow> string option \<Rightarrow> unit result" where
  "check_terms t intent_scope amount tenant_id jurisdiction =
     bind_result (ensure (mt_version t \<noteq> []) (MandateInvalid ''mandate: missing icp.version'')) (\<lambda>_.
     bind_result (ensure (intent_scope \<in> set (mt_scope t))
       (MandateOutOfScope (''mandate does not authorize scope `'' @ intent_scope @ ''`''))) (\<lambda>_.
     bind_result (ensure (mt_merchants t = [] \<or> list_ex (\<lambda>m. m = ''*'' \<or> m = tenant_id) (mt_merchants t))
       (MandateOutOfScope (''mandate does not authorize merchant `'' @ tenant_id @ ''`''))) (\<lambda>_.
     bind_result (check_jurisdiction (mt_jurisdictions t) jurisdiction) (\<lambda>_.
     bind_result (ensure (\<not> (mp_prohibit_subscriptions (mt_policies t) \<and> intent_scope = ''subscribe''))
       (MandateOutOfScope ''mandate policy prohibits subscriptions'')) (\<lambda>_.
       case mb_per_transaction (mt_budget t) of
         Some per_txn \<Rightarrow> ensure (amount \<le> per_txn)
           (MandateBudgetExceeded (''intent amount '' @ show_int amount
             @ '' exceeds per-transaction cap '' @ show_int per_txn))
       | None \<Rightarrow> Inr ())))))"

definition effective_spent :: "mandate_usage \<Rightarrow> time \<Rightarrow> duration \<Rightarrow> i64" where
  "effective_spent usage now w =
     (case window_start usage of
        Some start \<Rightarrow> if w < now - start then 0 else spent_minor usage
      | None \<Rightarrow> spent_minor usage)"

text \<open>
  \<open>lookup\<close> is the ledger's \<open>try_usage\<close>; \<open>verify\<close> says whether a resolver was passed.
  The signature is checked last.
\<close>

definition evaluate ::
  "chrono \<Rightarrow> crypto \<Rightarrow> (string \<Rightarrow> mandate_usage result) \<Rightarrow> bool \<Rightarrow> string \<Rightarrow> string \<Rightarrow> i64 \<Rightarrow> time
    \<Rightarrow> string \<Rightarrow> string option \<Rightarrow> mandate_evaluation exec" where
  "evaluate C K lookup verify compact_jws intent_scope amount now tenant_id jurisdiction =
     bind_result (lift_result (decode_unverified K compact_jws)) (\<lambda>payload.
     bind_result (lift_result (check_validity C payload now)) (\<lambda>_.
     bind_result (lift_result (check_terms (md_icp payload) intent_scope amount tenant_id jurisdiction)) (\<lambda>_.
     bind_result (lift_result (lookup (md_jti payload))) (\<lambda>usage.
     bind_result (budget_window C (mb_period (mt_budget (md_icp payload)))) (\<lambda>w.
     let remaining = sat_sub (mb_amount_minor (mt_budget (md_icp payload))) (effective_spent usage now w)
     in
     bind_result (lift_result (ensure (amount \<le> remaining) (over_budget amount remaining))) (\<lambda>_.
     bind_result (if verify then lift_result (verify_signature K compact_jws (md_iss payload)) else Inr ()) (\<lambda>_.
       Inr \<lparr>ev_payload = payload, ev_compact_jws = compact_jws, ev_spend_room_minor = remaining,
            ev_signature_verified = verify\<rparr>)))))))"

text \<open>\<open>reserve_mandate_spend\<close>: the window of the budget and the limits of a reservation.\<close>

definition spend_limits_of :: "mandate_budget \<Rightarrow> duration \<Rightarrow> spend_limits" where
  "spend_limits_of b w =
     \<lparr>budget_minor = mb_amount_minor b, per_transaction = mb_per_transaction b, window = w\<rparr>"

section \<open>Properties\<close>

subsection \<open>Jurisdictions and periods\<close>

lemma jurisdiction_authorizes_subdivision:
  "CHR ''-'' \<notin> set country \<Longrightarrow>
   jurisdiction_authorizes country (country @ ''-'' @ region)"
proof -
  assume "CHR ''-'' \<notin> set country"
  then have "split_once CHR ''-'' (country @ ''-'' @ region) = Some (country, region)"
    using split_once_append [of "CHR ''-''" country region] by simp
  then show ?thesis
    unfolding jurisdiction_authorizes_def by (simp only: option.case prod.case) (simp add: eq_ignore_ascii_case_def)
qed

lemma lower_dash: "lower_char c = CHR ''-'' \<longleftrightarrow> c = CHR ''-''"
proof
  assume h: "lower_char c = CHR ''-''"
  show "c = CHR ''-''"
  proof (cases "65 \<le> (of_char c :: nat) \<and> (of_char c :: nat) \<le> 90")
    case True
    then have "(of_char (lower_char c) :: nat) = of_char c + 32"
      by (simp add: lower_char_def)
    moreover have "(of_char (lower_char c) :: nat) = 45" by (simp only: h) simp
    ultimately show ?thesis using True by simp
  qed (use h in \<open>auto simp: lower_char_def Let_def split: if_splits\<close>)
qed (simp add: lower_char_def)

lemma dash_in_lower: "CHR ''-'' \<in> set (map lower_char s) \<longleftrightarrow> CHR ''-'' \<in> set s"
  unfolding set_map image_iff by (metis lower_dash)

text \<open>A listing narrower than the intent's jurisdiction never authorises it.\<close>

lemma jurisdiction_not_widened:
  assumes "CHR ''-'' \<in> set allowed" and "CHR ''-'' \<notin> set actual"
  shows "\<not> jurisdiction_authorizes allowed actual"
proof -
  have "\<not> eq_ignore_ascii_case allowed actual"
    using assms dash_in_lower unfolding eq_ignore_ascii_case_def by metis
  moreover have "split_once CHR ''-'' actual = None"
    using assms(2) by (simp add: split_once_None)
  ultimately show ?thesis by (simp add: jurisdiction_authorizes_def)
qed

subsection \<open>What an accepted mandate guarantees\<close>

lemma split_on_join: "split_on c s = x # xs \<Longrightarrow> s = x @ concat (map ((#) c) xs)"
proof (induction s arbitrary: x xs)
  case (Cons a s)
  obtain y ys where eq: "split_on c s = y # ys" by (cases "split_on c s") simp_all
  from Cons.IH [OF eq] have "y @ concat (map ((#) c) ys) = s" ..
  then show ?case using Cons.prems by (auto simp: eq split: if_splits)
qed simp

lemma split_compact_join: "split_compact jws = Inr (h, p, s) \<Longrightarrow> jws = h @ ''.'' @ p @ ''.'' @ s"
  by (auto simp: split_compact_def dest: split_on_join split: list.splits)

lemma try_keys_iff: "try_keys K msg sig ks \<longleftrightarrow> (\<exists>k \<in> set ks. cr_verify K (vk_key k) msg sig)"
  by (induction ks) auto

lemma set_candidate_keys: "set (candidate_keys kid keys) = set keys"
  by (auto simp: candidate_keys_def split: option.splits)

lemma verify_signature_iff:
  "verify_signature K jws iss = Inr u \<longleftrightarrow>
     (\<exists>h p s hb header sig keys.
        split_compact jws = Inr (h, p, s) \<and> cr_b64_decode K h = Some hb \<and>
        cr_header_json K hb = Inr header \<and> jh_alg header = ''EdDSA'' \<and>
        cr_b64_decode K s = Some sig \<and> length sig = 64 \<and> cr_resolve K iss = Inr keys \<and>
        (\<exists>k \<in> set keys. cr_verify K (vk_key k) (h @ ''.'' @ p) sig))"
proof (cases "split_compact jws")
  case (Inr hps)
  obtain h p s where hps: "hps = (h, p, s)" by (cases hps)
  have cands: "candidate_keys kid keys = [] \<longleftrightarrow> keys = []" for kid keys
    using set_candidate_keys [of kid keys] by (metis set_empty)
  show ?thesis
    by (simp add: verify_signature_def Inr hps Let_def try_keys_iff set_candidate_keys cands
        split: option.split sum.split)
qed (simp add: verify_signature_def)

lemma evaluate_iff:
  "evaluate C K lookup verify jws intent_scope amount now tenant jur = Inr ev \<longleftrightarrow>
     (\<exists>payload usage w.
        decode_unverified K jws = Inr payload \<and> check_validity C payload now = Inr () \<and>
        check_terms (md_icp payload) intent_scope amount tenant jur = Inr () \<and>
        lookup (md_jti payload) = Inr usage \<and>
        budget_window C (mb_period (mt_budget (md_icp payload))) = Inr w \<and>
        amount \<le> sat_sub (mb_amount_minor (mt_budget (md_icp payload))) (effective_spent usage now w) \<and>
        (verify \<longrightarrow> verify_signature K jws (md_iss payload) = Inr ()) \<and>
        ev = \<lparr>ev_payload = payload, ev_compact_jws = jws,
              ev_spend_room_minor =
                sat_sub (mb_amount_minor (mt_budget (md_icp payload))) (effective_spent usage now w),
              ev_signature_verified = verify\<rparr>)"
  by (auto simp: evaluate_def bind_result_Inr_iff Let_def)

lemma check_validity_iff:
  "check_validity C p now = Inr () \<longleftrightarrow>
     (\<exists>nbf expires. ch_from_timestamp C (md_nbf p) = Some nbf \<and>
        ch_from_timestamp C (md_exp p) = Some expires \<and> nbf \<le> now \<and> now \<le> expires)"
  by (auto simp: check_validity_def split: option.splits)

text \<open>The codes a jurisdiction listing covers: itself, and the subdivisions of a country.\<close>

definition covers :: "string \<Rightarrow> string \<Rightarrow> bool" where
  "covers allowed actual \<longleftrightarrow>
     eq_ignore_ascii_case allowed actual \<or>
     (\<exists>country region. actual = country @ CHR ''-'' # region \<and> CHR ''-'' \<notin> set country \<and>
        eq_ignore_ascii_case allowed country)"

lemma split_once_Some:
  "split_once c s = Some (a, b) \<longleftrightarrow> s = a @ c # b \<and> c \<notin> set a"
proof
  show "split_once c s = Some (a, b) \<Longrightarrow> s = a @ c # b \<and> c \<notin> set a"
    by (induction s arbitrary: a) (auto split: if_splits)
  show "s = a @ c # b \<and> c \<notin> set a \<Longrightarrow> split_once c s = Some (a, b)"
    by (simp add: split_once_append)
qed

lemma jurisdiction_authorizes_iff: "jurisdiction_authorizes allowed actual \<longleftrightarrow> covers allowed actual"
proof -
  have "(\<exists>country region. actual = country @ CHR ''-'' # region \<and> CHR ''-'' \<notin> set country \<and>
          eq_ignore_ascii_case allowed country) \<longleftrightarrow>
        (\<exists>country region. split_once CHR ''-'' actual = Some (country, region) \<and>
          eq_ignore_ascii_case allowed country)"
    by (simp only: split_once_Some) blast
  then show ?thesis
    by (simp add: jurisdiction_authorizes_def covers_def split: option.split)
qed

text \<open>What the terms of a mandate allow.\<close>

definition terms_allow ::
  "mandate_terms \<Rightarrow> string \<Rightarrow> i64 \<Rightarrow> string \<Rightarrow> string option \<Rightarrow> bool" where
  "terms_allow t intent_scope amount tenant jur \<longleftrightarrow>
     mt_version t \<noteq> [] \<and> intent_scope \<in> set (mt_scope t) \<and>
     (mt_merchants t = [] \<or> ''*'' \<in> set (mt_merchants t) \<or> tenant \<in> set (mt_merchants t)) \<and>
     (mt_jurisdictions t = [] \<or> ''*'' \<in> set (mt_jurisdictions t) \<or>
        (\<exists>j. jur = Some j \<and> (\<exists>a \<in> set (mt_jurisdictions t). covers a j))) \<and>
     (mp_prohibit_subscriptions (mt_policies t) \<longrightarrow> intent_scope \<noteq> ''subscribe'') \<and>
     (\<forall>cap. mb_per_transaction (mt_budget t) = Some cap \<longrightarrow> amount \<le> cap)"

lemma check_jurisdiction_iff:
  "check_jurisdiction js jur = Inr () \<longleftrightarrow>
     js = [] \<or> ''*'' \<in> set js \<or> (\<exists>j. jur = Some j \<and> (\<exists>a \<in> set js. covers a j))"
  by (auto simp: check_jurisdiction_def list_ex_iff jurisdiction_authorizes_iff split: option.splits)

lemma check_terms_iff:
  "check_terms t intent_scope amount tenant jur = Inr () \<longleftrightarrow>
   terms_allow t intent_scope amount tenant jur"
  by (auto simp: check_terms_def terms_allow_def bind_result_Inr_iff check_jurisdiction_iff
      list_ex_iff split: option.splits)

text \<open>A mandate and keys for evaluation: identity base64, one key, one accepted signature.\<close>

definition demo_payload :: mandate_payload where
  "demo_payload = \<lparr>md_iss = ''did:key:alice'', md_sub = ''agent'', md_iat = 0, md_nbf = 0, md_exp = 100,
     md_jti = ''m'',
     md_icp = \<lparr>mt_version = ''2026-04-21'', mt_scope = [''buy''],
       mt_budget = \<lparr>mb_currency = ''USD'', mb_amount_minor = 100, mb_per_transaction = Some 80,
                    mb_period = None\<rparr>,
       mt_merchants = [''*''], mt_categories = [], mt_jurisdictions = [''US''],
       mt_policies = \<lparr>mp_require_receipt = False, mp_require_shipping_address_confirmation = False,
                      mp_prohibit_subscriptions = True\<rparr>,
       mt_linked_payment_methods = []\<rparr>\<rparr>"

definition demo_crypto :: crypto where
  "demo_crypto = \<lparr>cr_b64_decode = Some, cr_payload_json = (\<lambda>_. Inr demo_payload),
     cr_header_json = (\<lambda>_. Inr \<lparr>jh_alg = ''EdDSA'', jh_kid = None\<rparr>),
     cr_resolve = (\<lambda>_. Inr [\<lparr>vk_kid = None, vk_key = ''k''\<rparr>]),
     cr_verify = (\<lambda>k m s. k = ''k'' \<and> m = ''h.p'')\<rparr>"

definition demo_jws :: string where
  "demo_jws = ''h.p.'' @ replicate 64 CHR ''s''"

definition demo_evaluation :: "bool \<Rightarrow> mandate_evaluation" where
  "demo_evaluation v = \<lparr>ev_payload = demo_payload, ev_compact_jws = demo_jws,
     ev_spend_room_minor = 100, ev_signature_verified = v\<rparr>"

lemma demo_split: "split_compact demo_jws = Inr (''h'', ''p'', replicate 64 CHR ''s'')"
  by (simp add: split_compact_def demo_jws_def split_on_free)

lemma demo_evaluates:
  "evaluate chrono_demo demo_crypto (\<lambda>j. Inr (mem_usage [] j)) v demo_jws ''buy'' 60 7 ''shop''
     (Some ''US-CA'') = Inr (demo_evaluation v)"
proof -
  have "decode_unverified demo_crypto demo_jws = Inr demo_payload"
    by (simp add: decode_unverified_def demo_split demo_crypto_def)
  moreover have "check_validity chrono_demo demo_payload 7 = Inr ()"
    by (simp add: check_validity_def demo_payload_def chrono_demo_def secs_def)
  moreover have "covers ''US'' ''US-CA''"
    unfolding covers_def eq_ignore_ascii_case_def
    by (intro disjI2 exI [of _ "''US''"] exI [of _ "''CA''"]) simp
  then have "check_terms (md_icp demo_payload) ''buy'' 60 ''shop'' (Some ''US-CA'') = Inr ()"
    by (simp add: check_terms_iff terms_allow_def demo_payload_def)
  moreover have "budget_window chrono_demo (mb_period (mt_budget (md_icp demo_payload))) = Inr (days 1)"
    by (simp add: budget_window_def parse_period_def demo_payload_def)
  moreover have "verify_signature demo_crypto demo_jws (md_iss demo_payload) = Inr ()"
    by (simp add: verify_signature_iff demo_split) (simp add: demo_crypto_def)
  ultimately show ?thesis
    unfolding evaluate_iff
    by (intro exI [of _ demo_payload] exI [of _ usage_default] exI [of _ "days 1"])
      (simp add: demo_evaluation_def mem_usage_def usage_default_def effective_spent_def
        demo_payload_def sat_sub_def clamp_i64_def i64_max_def i64_min_def)
qed

text \<open>C7 (safety). With verification on, an accepted mandate is authentic: its payload was
  decoded from the payload segment of the token, and the token carries a 64-byte EdDSA
  signature over exactly that header and payload segment which verifies under one of the
  keys the issuer named in that payload resolves to. A token with any other algorithm
  (\<open>none\<close> in particular) is never accepted.\<close>

theorem evaluate_authentic:
  assumes "evaluate C K lookup True jws intent_scope amount now tenant jur = Inr ev"
  shows "ev_signature_verified ev \<and>
    (\<exists>h p s header_bytes header payload_bytes sig keys k.
       jws = h @ ''.'' @ p @ ''.'' @ s \<and>
       cr_b64_decode K p = Some payload_bytes \<and> cr_payload_json K payload_bytes = Inr (ev_payload ev) \<and>
       cr_b64_decode K h = Some header_bytes \<and> cr_header_json K header_bytes = Inr header \<and>
       jh_alg header = ''EdDSA'' \<and>
       cr_b64_decode K s = Some sig \<and> length sig = 64 \<and>
       cr_resolve K (md_iss (ev_payload ev)) = Inr keys \<and> k \<in> set keys \<and>
       cr_verify K (vk_key k) (h @ ''.'' @ p) sig)"
proof -
  obtain payload where dec: "decode_unverified K jws = Inr payload"
    and ver: "verify_signature K jws (md_iss payload) = Inr ()"
    and ev: "ev_payload ev = payload" "ev_signature_verified ev"
    using assms by (auto simp: evaluate_iff)
  from ver obtain h p s hb header sig keys k where sig:
    "split_compact jws = Inr (h, p, s)" "cr_b64_decode K h = Some hb" "cr_header_json K hb = Inr header"
    "jh_alg header = ''EdDSA''" "cr_b64_decode K s = Some sig" "length sig = 64"
    "cr_resolve K (md_iss payload) = Inr keys" "k \<in> set keys"
    "cr_verify K (vk_key k) (h @ ''.'' @ p) sig"
    by (auto simp: verify_signature_iff)
  moreover obtain payload_bytes where "cr_b64_decode K p = Some payload_bytes"
      "cr_payload_json K payload_bytes = Inr payload"
    using dec sig(1) by (auto simp: decode_unverified_def split: option.splits sum.splits)
  ultimately show ?thesis
    using ev split_compact_join [OF sig(1)] by blast
qed

theorem evaluate_authentic_witness:
  "ev_signature_verified (demo_evaluation True) \<and>
   (\<exists>p b. cr_b64_decode demo_crypto p = Some b \<and>
     cr_payload_json demo_crypto b = Inr (ev_payload (demo_evaluation True)))"
  using evaluate_authentic [OF demo_evaluates [of True]] by blast

text \<open>Without verification a mandate is accepted exactly when its payload
  decodes, the clock is within its validity window, its terms allow the intent (scope,
  merchant, jurisdiction, subscription policy, per-transaction cap), the ledger can be read,
  its period does not overflow a duration, and the amount fits what the current window leaves
  of the budget; the room reported is that remainder.\<close>

lemma evaluate_accepts_iff:
  "evaluate C K lookup False jws intent_scope amount now tenant jur = Inr ev \<longleftrightarrow>
     (\<exists>p nbf expires usage w.
        decode_unverified K jws = Inr p \<and>
        ch_from_timestamp C (md_nbf p) = Some nbf \<and> ch_from_timestamp C (md_exp p) = Some expires \<and>
        nbf \<le> now \<and> now \<le> expires \<and>
        terms_allow (md_icp p) intent_scope amount tenant jur \<and>
        lookup (md_jti p) = Inr usage \<and>
        budget_window C (mb_period (mt_budget (md_icp p))) = Inr w \<and>
        amount \<le> ev_spend_room_minor ev \<and>
        ev = \<lparr>ev_payload = p, ev_compact_jws = jws,
              ev_spend_room_minor =
                sat_sub (mb_amount_minor (mt_budget (md_icp p))) (effective_spent usage now w),
              ev_signature_verified = False\<rparr>)"
  by (simp add: evaluate_iff check_validity_iff check_terms_iff) auto

text \<open>C9 (equivalence). The check before execution and the write-side gate agree: if a mandate
  was accepted for an amount against the ledger, then reserving that amount (or any smaller
  positive one) at that time succeeds, so no intent fails at the reservation for the amount
  it was admitted with.\<close>

theorem reserve_agrees_with_evaluate:
  assumes "evaluate C K (\<lambda>j. Inr (mem_usage l j)) v jws intent_scope amount now tenant jur = Inr ev"
    and "budget_window C (mb_period (mt_budget (md_icp (ev_payload ev)))) = Inr w"
    and "0 \<le> mb_amount_minor (mt_budget (md_icp (ev_payload ev)))"
    and "mb_amount_minor (mt_budget (md_icp (ev_payload ev))) \<le> i64_max"
    and "0 \<le> spent_minor (mem_usage l (md_jti (ev_payload ev)))"
    and "0 < a" and "a \<le> amount"
  shows "fst (mem_spend_checked l (md_jti (ev_payload ev)) tenant a now
    (spend_limits_of (mt_budget (md_icp (ev_payload ev))) w)) = Inr ()"
proof -
  let ?b = "mt_budget (md_icp (ev_payload ev))" and ?u = "mem_usage l (md_jti (ev_payload ev))"
  have "amount \<le> sat_sub (mb_amount_minor ?b) (effective_spent ?u now w)"
    and "terms_allow (md_icp (ev_payload ev)) intent_scope amount tenant jur"
    using assms(1,2) by (auto simp: evaluate_iff check_terms_iff)
  then have room: "a \<le> sat_sub (mb_amount_minor ?b) (effective_spent ?u now w)"
    and cap: "\<forall>c. mb_per_transaction ?b = Some c \<longrightarrow> a \<le> c"
    using assms(7) by (auto simp: terms_allow_def)
  have "spent_minor (refresh_usage ?u tenant now w) \<le> effective_spent ?u now w"
    using assms(5) by (auto simp: refresh_usage_def effective_spent_def window_elapsed_def Let_def
        split: option.splits)
  then have "sat_sub (mb_amount_minor ?b) (effective_spent ?u now w)
      \<le> sat_sub (mb_amount_minor ?b) (spent_minor (refresh_usage ?u tenant now w))"
    by (simp add: sat_sub_def clamp_i64_mono)
  with room show ?thesis
    using assms(3,6) cap
    by (auto simp: mem_spend_checked_def spend_guard_def spend_limits_of_def Let_def
        split: option.splits)
qed

theorem reserve_agrees_with_evaluate_witness:
  "fst (mem_spend_checked [] ''m'' ''shop'' 60 7
     (spend_limits_of (mt_budget (md_icp demo_payload)) (days 1))) = Inr ()"
  using reserve_agrees_with_evaluate [OF demo_evaluates [of False], of "days 1" 60]
  by (simp add: demo_evaluation_def budget_window_def parse_period_def demo_payload_def
      mem_usage_def usage_default_def i64_max_def)

text \<open>
  The period is parsed, and its duration constructed, before the signature is looked at: a
  token nobody signed aborts the process when its period overflows chrono's bound.
\<close>

lemma unsigned_period_panics:
  "evaluate chrono_demo
     (demo_crypto\<lparr>cr_verify := \<lambda>k m s. False,
        cr_payload_json := \<lambda>_. Inr (demo_payload\<lparr>md_icp := (md_icp demo_payload)\<lparr>mt_budget :=
          (mt_budget (md_icp demo_payload))\<lparr>mb_period := Some ''P9223372036854775807D''\<rparr>\<rparr>\<rparr>)\<rparr>)
     (\<lambda>j. Inr (mem_usage [] j)) True demo_jws ''buy'' 60 7 ''shop'' (Some ''US'') = Inl Panic"
proof -
  have "parse_period chrono_demo (Some ''P9223372036854775807D'') = PeriodPanic"
    by (simp add: parse_period_def strip_prefix_def strip_suffix_def period_of_def parse_i64_def
        is_digit_def digits_val_def digit_val_def in_i64_def i64_max_def i64_min_def chrono_demo_def
        suffix_def prefix_def Let_def)
  then show ?thesis
    by (simp add: evaluate_def decode_unverified_def demo_split check_validity_def check_terms_def
        check_jurisdiction_def jurisdiction_authorizes_def eq_ignore_ascii_case_def budget_window_def
        demo_crypto_def demo_payload_def chrono_demo_def secs_def)
qed

end
