(* ===== verification/Webhook.thy ===== *)
theory Webhook
  imports Models
begin

text \<open>
  Outbound webhooks (\<open>src/webhook/\<close>): the delivery record and its status machine
  (\<open>types.rs\<close>), the durable outbox (\<open>outbox.rs\<close>), the backoff schedule, the retention
  sweep and the drain pass of the worker (\<open>worker.rs\<close>), and the subscriber registry
  (\<open>subscribers.rs\<close>). What the network answers to one delivery is a parameter of the drain
  pass.
\<close>

section \<open>Deliveries\<close>

datatype delivery_status = DsPending | InFlight | Delivered | Failed | DeadLettered

fun delivery_status_wire_name :: "delivery_status \<Rightarrow> string" where
  "delivery_status_wire_name DsPending = ''pending''"
| "delivery_status_wire_name InFlight = ''in_flight''"
| "delivery_status_wire_name Delivered = ''delivered''"
| "delivery_status_wire_name Failed = ''failed''"
| "delivery_status_wire_name DeadLettered = ''dead_lettered''"

definition delivery_status_names :: "(string \<times> delivery_status) list" where
  "delivery_status_names =
     [(''pending'', DsPending), (''in_flight'', InFlight), (''delivered'', Delivered),
      (''failed'', Failed), (''dead_lettered'', DeadLettered)]"

definition delivery_status_parse :: "string \<Rightarrow> delivery_status" where
  "delivery_status_parse s =
     (case map_of delivery_status_names s of Some d \<Rightarrow> d | None \<Rightarrow> DsPending)"

datatype retry_error = RetryNotFound | AlreadyPending | RetryInFlight | AlreadyDelivered

fun retry_message :: "retry_error \<Rightarrow> string" where
  "retry_message RetryNotFound = ''webhook delivery not found''"
| "retry_message AlreadyPending = ''delivery is already pending; no retry needed''"
| "retry_message RetryInFlight =
     ''delivery is in flight; retry after the current attempt completes''"
| "retry_message AlreadyDelivered = ''delivery already succeeded; nothing to retry''"

record webhook_delivery =
  dl_id :: string
  dl_event_id :: string
  dl_event_type :: string
  dl_url :: string
  dl_payload_json :: string
  dl_status :: delivery_status
  dl_attempts :: u32
  dl_max_attempts :: u32
  dl_next_attempt_at :: time
  dl_last_status_code :: "nat option"
  dl_last_error :: "string option"
  dl_created_at :: time
  dl_updated_at :: time
  dl_delivered_at :: "time option"
  dl_tenant_id :: string

record prune_report =
  pr_delivered :: nat
  pr_dead_lettered :: nat

record tick_report =
  tk_due :: nat
  tk_delivered :: nat
  tk_failed :: nat
  tk_dead_lettered :: nat

record status_counts =
  sc_pending :: nat
  sc_in_flight :: nat
  sc_delivered :: nat
  sc_failed :: nat
  sc_dead_lettered :: nat

definition default_max_attempts :: u32 where
  "default_max_attempts = 5"

text \<open>\<open>attempts * attempts\<close> seconds, at most one hour.\<close>

definition backoff_for :: "u32 \<Rightarrow> duration" where
  "backoff_for attempts = secs (min (sat_mul (uint attempts) (uint attempts)) 3600)"

section \<open>The outbox\<close>

type_synonym outbox = "(string, webhook_delivery) store"

text \<open>The map replaces a delivery with the same id; the table keeps the first
  (\<open>ON CONFLICT DO NOTHING\<close>).\<close>

definition ob_enqueue :: "webhook_delivery \<Rightarrow> outbox \<Rightarrow> outbox" where
  "ob_enqueue d ob = st_put (dl_id d) d ob"

definition sql_ob_enqueue :: "webhook_delivery \<Rightarrow> outbox \<Rightarrow> outbox" where
  "sql_ob_enqueue d ob = (case st_get ob (dl_id d) of None \<Rightarrow> st_put (dl_id d) d ob | Some _ \<Rightarrow> ob)"

definition ob_is_due :: "time \<Rightarrow> webhook_delivery \<Rightarrow> bool" where
  "ob_is_due now d \<longleftrightarrow> (dl_status d = DsPending \<or> dl_status d = Failed) \<and> dl_next_attempt_at d \<le> now"

definition ob_list_due :: "time \<Rightarrow> nat \<Rightarrow> outbox \<Rightarrow> webhook_delivery list" where
  "ob_list_due now limit ob =
     take limit (sort_key dl_next_attempt_at (filter (ob_is_due now) (st_values ob)))"

definition ob_list_recent :: "nat \<Rightarrow> outbox \<Rightarrow> webhook_delivery list" where
  "ob_list_recent limit ob = take limit (sort_key (\<lambda>d. - dl_created_at d) (st_values ob))"

definition ob_list_recent_for_tenant ::
  "string \<Rightarrow> nat \<Rightarrow> delivery_status option \<Rightarrow> outbox \<Rightarrow> webhook_delivery list" where
  "ob_list_recent_for_tenant tenant_id limit status ob =
     take limit (sort_key (\<lambda>d. - dl_created_at d)
       (filter (\<lambda>d. case status of None \<Rightarrow> True | Some s \<Rightarrow> dl_status d = s)
         (filter (\<lambda>d. dl_tenant_id d = tenant_id) (st_values ob))))"

definition ob_get_for_tenant :: "string \<Rightarrow> string \<Rightarrow> outbox \<Rightarrow> webhook_delivery option" where
  "ob_get_for_tenant did tenant_id ob =
     (case st_get ob did of
        Some d \<Rightarrow> if dl_tenant_id d = tenant_id then Some d else None
      | None \<Rightarrow> None)"

definition ob_update :: "string \<Rightarrow> (webhook_delivery \<Rightarrow> webhook_delivery) \<Rightarrow> outbox \<Rightarrow> outbox" where
  "ob_update did f ob = (case st_get ob did of Some d \<Rightarrow> st_put did (f d) ob | None \<Rightarrow> ob)"

definition mark_in_flight :: "string \<Rightarrow> time \<Rightarrow> outbox \<Rightarrow> outbox" where
  "mark_in_flight did now = ob_update did (\<lambda>d. d\<lparr>dl_status := InFlight, dl_updated_at := now\<rparr>)"

definition mark_delivered :: "string \<Rightarrow> nat \<Rightarrow> time \<Rightarrow> outbox \<Rightarrow> outbox" where
  "mark_delivered did status_code now = ob_update did
     (\<lambda>d. d\<lparr>dl_status := Delivered, dl_last_status_code := Some status_code, dl_last_error := None,
            dl_delivered_at := Some now, dl_updated_at := now,
            dl_attempts := sat_inc_u32 (dl_attempts d)\<rparr>)"

definition fail_delivery ::
  "nat option \<Rightarrow> string option \<Rightarrow> time \<Rightarrow> webhook_delivery \<Rightarrow> webhook_delivery" where
  "fail_delivery status_code error now d =
     (let n = sat_inc_u32 (dl_attempts d);
          d1 = d\<lparr>dl_attempts := n, dl_last_status_code := status_code, dl_last_error := error,
                 dl_updated_at := now\<rparr>
      in if dl_max_attempts d \<le> n then d1\<lparr>dl_status := DeadLettered\<rparr>
         else d1\<lparr>dl_status := Failed, dl_next_attempt_at := now + backoff_for n\<rparr>)"

definition bump_failure ::
  "string \<Rightarrow> nat option \<Rightarrow> string option \<Rightarrow> time \<Rightarrow> outbox \<Rightarrow> outbox" where
  "bump_failure did status_code error now = ob_update did (fail_delivery status_code error now)"

definition reset_delivery :: "time \<Rightarrow> webhook_delivery \<Rightarrow> webhook_delivery" where
  "reset_delivery now d = d\<lparr>dl_status := DsPending, dl_attempts := 0, dl_last_status_code := None,
     dl_last_error := None, dl_delivered_at := None, dl_next_attempt_at := now, dl_updated_at := now\<rparr>"

definition reset_for_retry ::
  "string \<Rightarrow> time \<Rightarrow> outbox \<Rightarrow> (retry_error + webhook_delivery) \<times> outbox" where
  "reset_for_retry did now ob =
     (case st_get ob did of
        None \<Rightarrow> (Inl RetryNotFound, ob)
      | Some current \<Rightarrow>
         (case dl_status current of
            DsPending \<Rightarrow> (Inl AlreadyPending, ob)
          | InFlight \<Rightarrow> (Inl RetryInFlight, ob)
          | Delivered \<Rightarrow> (Inl AlreadyDelivered, ob)
          | _ \<Rightarrow>
              let ob' = ob_update did (reset_delivery now) ob
              in (case st_get ob' did of Some d \<Rightarrow> Inr d | None \<Rightarrow> Inl RetryNotFound, ob')))"

definition reset_for_retry_for_tenant ::
  "string \<Rightarrow> string \<Rightarrow> time \<Rightarrow> outbox \<Rightarrow> (retry_error + webhook_delivery) \<times> outbox" where
  "reset_for_retry_for_tenant did tenant_id now ob =
     (case st_get ob did of
        Some d \<Rightarrow> if dl_tenant_id d = tenant_id then reset_for_retry did now ob
                  else (Inl RetryNotFound, ob)
      | None \<Rightarrow> (Inl RetryNotFound, ob))"

definition reclaim_delivery :: "time \<Rightarrow> webhook_delivery \<Rightarrow> webhook_delivery" where
  "reclaim_delivery now d =
     (if dl_status d = InFlight
      then d\<lparr>dl_status := DsPending, dl_next_attempt_at := now, dl_updated_at := now\<rparr> else d)"

definition reclaim_in_flight :: "time \<Rightarrow> outbox \<Rightarrow> nat \<times> outbox" where
  "reclaim_in_flight now ob =
     (length (filter (\<lambda>d. dl_status d = InFlight) (st_values ob)),
      map (\<lambda>(k, d). (k, reclaim_delivery now d)) ob)"

definition ob_status_counts :: "outbox \<Rightarrow> status_counts" where
  "ob_status_counts ob =
     (let count = (\<lambda>s. length (filter (\<lambda>d. dl_status d = s) (st_values ob)))
      in \<lparr>sc_pending = count DsPending, sc_in_flight = count InFlight,
          sc_delivered = count Delivered, sc_failed = count Failed,
          sc_dead_lettered = count DeadLettered\<rparr>)"

definition older_than :: "time option \<Rightarrow> webhook_delivery \<Rightarrow> bool" where
  "older_than cutoff d = (case cutoff of Some c \<Rightarrow> dl_created_at d < c | None \<Rightarrow> False)"

definition prune :: "time option \<Rightarrow> time option \<Rightarrow> outbox \<Rightarrow> prune_report \<times> outbox" where
  "prune delivered_cutoff dead_lettered_cutoff ob =
     (let drop_delivered = (\<lambda>d. dl_status d = Delivered \<and> older_than delivered_cutoff d);
          drop_dead = (\<lambda>d. dl_status d = DeadLettered \<and> older_than dead_lettered_cutoff d)
      in (\<lparr>pr_delivered = length (filter drop_delivered (st_values ob)),
           pr_dead_lettered = length (filter drop_dead (st_values ob))\<rparr>,
          filter (\<lambda>(k, d). \<not> (drop_delivered d \<or> drop_dead d)) ob))"

section \<open>Subscribers\<close>

record webhook_subscriber =
  ws_id :: string
  ws_tenant_id :: string
  ws_url :: string
  ws_secret :: "string option"
  ws_active :: bool
  ws_created_at :: time
  ws_updated_at :: time

type_synonym subscribers = "(string, webhook_subscriber) store"

definition ws_insert :: "webhook_subscriber \<Rightarrow> subscribers \<Rightarrow> subscribers" where
  "ws_insert s subs = st_put (ws_id s) s subs"

definition ws_list_for_tenant :: "string \<Rightarrow> subscribers \<Rightarrow> webhook_subscriber list" where
  "ws_list_for_tenant tenant_id subs = filter (\<lambda>s. ws_tenant_id s = tenant_id) (st_values subs)"

definition ws_list_active_for_tenant :: "string \<Rightarrow> subscribers \<Rightarrow> webhook_subscriber list" where
  "ws_list_active_for_tenant tenant_id subs = filter ws_active (ws_list_for_tenant tenant_id subs)"

definition ws_set_active ::
  "string \<Rightarrow> bool \<Rightarrow> time \<Rightarrow> subscribers \<Rightarrow> webhook_subscriber option \<times> subscribers" where
  "ws_set_active did active now subs =
     (case st_get subs did of
        None \<Rightarrow> (None, subs)
      | Some s \<Rightarrow> let s' = s\<lparr>ws_active := active, ws_updated_at := now\<rparr>
                  in (Some s', st_put did s' subs))"

definition ws_patch ::
  "string \<Rightarrow> string option \<Rightarrow> string option \<Rightarrow> time \<Rightarrow> subscribers
     \<Rightarrow> webhook_subscriber option \<times> subscribers" where
  "ws_patch did url secret now subs =
     (case st_get subs did of
        None \<Rightarrow> (None, subs)
      | Some s \<Rightarrow>
          let s1 = (case url of Some u \<Rightarrow> s\<lparr>ws_url := u\<rparr> | None \<Rightarrow> s);
              s2 = (case secret of Some sec \<Rightarrow> s1\<lparr>ws_secret := Some sec\<rparr> | None \<Rightarrow> s1);
              s' = s2\<lparr>ws_updated_at := now\<rparr>
          in (Some s', st_put did s' subs))"

definition ws_delete :: "string \<Rightarrow> subscribers \<Rightarrow> bool \<times> subscribers" where
  "ws_delete did subs = (st_get subs did \<noteq> None, st_remove did subs)"

section \<open>The worker\<close>

definition secret_for_delivery ::
  "subscribers option \<Rightarrow> string option \<Rightarrow> webhook_delivery \<Rightarrow> string option" where
  "secret_for_delivery subs global_secret d =
     (case (if dl_tenant_id d \<noteq> [] then
              (case subs of
                 Some ss \<Rightarrow>
                   (case find (\<lambda>s. ws_url s = dl_url d) (ws_list_active_for_tenant (dl_tenant_id d) ss) of
                      Some s \<Rightarrow> ws_secret s | None \<Rightarrow> None)
               | None \<Rightarrow> None)
            else None) of
        Some secret \<Rightarrow> Some secret
      | None \<Rightarrow> global_secret)"

text \<open>
  The drain pass. \<open>send\<close> is the outcome of \<open>send_one\<close> on the \<open>i\<close>-th due delivery (an error
  text or an HTTP status) and \<open>clock i\<close> the instant read after it.
\<close>

definition settle :: "(string + nat) \<Rightarrow> string \<Rightarrow> time \<Rightarrow> outbox \<Rightarrow> outbox" where
  "settle outcome did after ob =
     (case outcome of
        Inr status \<Rightarrow>
          if 200 \<le> status \<and> status < 300 then mark_delivered did status after ob
          else bump_failure did (Some status) (Some (''HTTP '' @ show_nat status)) after ob
      | Inl e \<Rightarrow> bump_failure did None (Some e) after ob)"

definition count_outcome :: "(string + nat) \<Rightarrow> webhook_delivery option \<Rightarrow> tick_report \<Rightarrow> tick_report" where
  "count_outcome outcome d r =
     (if (case outcome of Inr status \<Rightarrow> 200 \<le> status \<and> status < 300 | Inl _ \<Rightarrow> False)
      then r\<lparr>tk_delivered := tk_delivered r + 1\<rparr>
      else case d of
        Some x \<Rightarrow> if dl_status x = DeadLettered then r\<lparr>tk_dead_lettered := tk_dead_lettered r + 1\<rparr>
                  else r\<lparr>tk_failed := tk_failed r + 1\<rparr>
      | None \<Rightarrow> r)"

fun drain ::
  "(nat \<Rightarrow> webhook_delivery \<Rightarrow> string + nat) \<Rightarrow> (nat \<Rightarrow> time) \<Rightarrow> time \<Rightarrow> nat \<Rightarrow> webhook_delivery list
     \<Rightarrow> tick_report \<Rightarrow> outbox \<Rightarrow> tick_report \<times> outbox" where
  "drain send clock now i [] r ob = (r, ob)"
| "drain send clock now i (d # ds) r ob =
     (let ob1 = mark_in_flight (dl_id d) now ob;
          outcome = send i d;
          ob2 = settle outcome (dl_id d) (clock i) ob1
      in drain send clock now (Suc i) ds (count_outcome outcome (st_get ob2 (dl_id d)) r) ob2)"

definition worker_tick ::
  "(nat \<Rightarrow> webhook_delivery \<Rightarrow> string + nat) \<Rightarrow> (nat \<Rightarrow> time) \<Rightarrow> time \<Rightarrow> outbox \<Rightarrow> tick_report \<times> outbox" where
  "worker_tick send clock now ob =
     (let due = ob_list_due now 50 ob
      in drain send clock now 0 due
           \<lparr>tk_due = length due, tk_delivered = 0, tk_failed = 0, tk_dead_lettered = 0\<rparr> ob)"

definition prune_now :: "duration option \<Rightarrow> duration option \<Rightarrow> time \<Rightarrow> outbox \<Rightarrow> prune_report \<times> outbox" where
  "prune_now retain_delivered retain_dead_lettered now ob =
     (let delivered_cutoff = map_option (\<lambda>d. now - d) retain_delivered;
          dead_cutoff = map_option (\<lambda>d. now - d) retain_dead_lettered
      in if delivered_cutoff = None \<and> dead_cutoff = None
         then (\<lparr>pr_delivered = 0, pr_dead_lettered = 0\<rparr>, ob)
         else prune delivered_cutoff dead_cutoff ob)"

definition retention :: "u32 \<Rightarrow> duration option" where
  "retention n = (if 0 < n then Some (days (uint n)) else None)"

section \<open>The status machine\<close>

text \<open>
  What the operations keep: a delivery that is still to be sent has attempts left, a
  dead-lettered one has used all of them, a delivered one at least one, and none more than
  its maximum.
\<close>

definition delivery_ok :: "webhook_delivery \<Rightarrow> bool" where
  "delivery_ok d \<longleftrightarrow>
     (case dl_status d of
        Delivered \<Rightarrow> 0 < dl_attempts d \<and> dl_attempts d \<le> dl_max_attempts d
      | DeadLettered \<Rightarrow> 0 < dl_max_attempts d \<and> dl_attempts d = dl_max_attempts d
      | _ \<Rightarrow> dl_attempts d < dl_max_attempts d)"

definition outbox_ok :: "outbox \<Rightarrow> bool" where
  "outbox_ok ob \<longleftrightarrow> st_ok ob \<and> keyed_by dl_id ob \<and> (\<forall>d \<in> set (st_values ob). delivery_ok d)"

text \<open>One operation of the handler, the worker or an operator on the outbox.\<close>

inductive outbox_step :: "outbox \<Rightarrow> outbox \<Rightarrow> bool" where
  enqueue: "dl_status d = DsPending \<Longrightarrow> dl_attempts d = 0 \<Longrightarrow> 0 < dl_max_attempts d \<Longrightarrow>
      outbox_step ob (ob_enqueue d ob)"
| pick_up: "d \<in> set (ob_list_due now limit ob) \<Longrightarrow> outbox_step ob (mark_in_flight (dl_id d) now ob)"
| settle: "st_get ob did = Some d \<Longrightarrow> dl_status d = InFlight \<Longrightarrow> outbox_step ob (settle outcome did now ob)"
| retry: "outbox_step ob (snd (reset_for_retry_for_tenant did tenant now ob))"
| restart: "outbox_step ob (snd (reclaim_in_flight now ob))"
| retention: "outbox_step ob (snd (prune c1 c2 ob))"

inductive outbox_reachable :: "outbox \<Rightarrow> bool" where
  start: "outbox_reachable []"
| step: "outbox_reachable ob \<Longrightarrow> outbox_step ob ob' \<Longrightarrow> outbox_reachable ob'"

inductive_cases outbox_stepE: "outbox_step ob ob'"

lemma sat_inc_u32_le: "a < m \<Longrightarrow> 0 < sat_inc_u32 a \<and> sat_inc_u32 a \<le> m"
proof -
  assume "a < m"
  then have lt: "unat a < unat m" by (simp add: word_less_nat_alt)
  then have "unat a < 2 ^ 32 - 1" using unsigned_less [of m, where ?'a = nat] by simp
  then have "unat (sat_inc_u32 a) = Suc (unat a)" by (simp add: unat_sat_inc_u32)
  then show ?thesis using lt by (simp add: word_less_nat_alt word_le_nat_alt)
qed

lemma delivery_ok_fail: "dl_attempts d < dl_max_attempts d \<Longrightarrow> delivery_ok (fail_delivery c e now d)"
  using sat_inc_u32_le [of "dl_attempts d" "dl_max_attempts d"]
  by (auto simp: fail_delivery_def delivery_ok_def Let_def not_le word_neq_0_conv)

lemma outbox_ok_Nil: "outbox_ok []"
  by (simp add: outbox_ok_def st_values_def)

lemma outbox_ok_get: "outbox_ok ob \<Longrightarrow> st_get ob did = Some d \<Longrightarrow> dl_id d = did \<and> delivery_ok d"
  using st_get_values by (fastforce simp: outbox_ok_def keyed_by_def)

lemma outbox_ok_put: "outbox_ok ob \<Longrightarrow> dl_id d = did \<Longrightarrow> delivery_ok d \<Longrightarrow> outbox_ok (st_put did d ob)"
proof -
  assume "outbox_ok ob" "dl_id d = did" "delivery_ok d"
  moreover from this have "st_ok (st_put did d ob)" by (simp add: outbox_ok_def)
  ultimately show ?thesis
    by (auto simp: outbox_ok_def st_values_get split: if_splits)
qed

lemma outbox_ok_update:
  assumes "outbox_ok ob"
    and "\<And>d. st_get ob did = Some d \<Longrightarrow> delivery_ok d \<Longrightarrow> dl_id (f d) = dl_id d \<and> delivery_ok (f d)"
  shows "outbox_ok (ob_update did f ob)"
  using assms outbox_ok_get [OF assms(1)] by (auto simp: ob_update_def outbox_ok_put split: option.split)

lemma fail_delivery_id [simp]: "dl_id (fail_delivery c e now d) = dl_id d"
  by (simp add: fail_delivery_def Let_def)

lemma outbox_ok_settle:
  assumes "outbox_ok ob" "\<And>d. st_get ob did = Some d \<Longrightarrow> dl_attempts d < dl_max_attempts d"
  shows "outbox_ok (settle outcome did now ob)"
  using assms(2) delivery_ok_fail sat_inc_u32_le
  by (cases outcome)
    (auto simp: settle_def mark_delivered_def bump_failure_def delivery_ok_def
      intro!: outbox_ok_update [OF assms(1)])

lemma word_less_pos: "a < b \<Longrightarrow> 0 < (b :: u32)"
  by (simp add: word_less_nat_alt)

lemma outbox_ok_reset: "outbox_ok ob \<Longrightarrow> outbox_ok (snd (reset_for_retry did now ob))"
proof -
  assume ok: "outbox_ok ob"
  have "outbox_ok (ob_update did (reset_delivery now) ob)"
    if "st_get ob did = Some d" "dl_status d = Failed \<or> dl_status d = DeadLettered" for d
  proof (rule outbox_ok_update [OF ok])
    fix e assume "st_get ob did = Some e" "delivery_ok e"
    then show "dl_id (reset_delivery now e) = dl_id e \<and> delivery_ok (reset_delivery now e)"
      using that by (auto simp: delivery_ok_def reset_delivery_def word_less_pos)
  qed
  then show ?thesis
    using ok by (auto simp: reset_for_retry_def Let_def split: option.split delivery_status.split)
qed

lemma st_values_map: "st_values (map (\<lambda>(k, d). (k, f d)) ob) = map f (st_values ob)"
  by (simp add: st_values_def case_prod_unfold)

lemma st_get_map: "st_get (map (\<lambda>(k, d). (k, f d)) ob) k = map_option f (st_get ob k)"
  by (induction ob) (auto simp: st_get_def)

lemma outbox_ok_map:
  assumes "outbox_ok ob" "\<And>d. dl_id (f d) = dl_id d" "\<And>d. delivery_ok d \<Longrightarrow> delivery_ok (f d)"
  shows "outbox_ok (map (\<lambda>(k, d). (k, f d)) ob)"
proof -
  have "map fst (map (\<lambda>(k, d). (k, f d)) ob) = map fst ob" by auto
  then have "st_ok (map (\<lambda>(k, d). (k, f d)) ob)"
    using assms(1) by (simp only: outbox_ok_def st_ok_def)
  then show ?thesis
    using assms by (auto simp: outbox_ok_def st_values_map st_get_map keyed_by_def)
qed

lemma outbox_ok_reclaim: "outbox_ok ob \<Longrightarrow> outbox_ok (snd (reclaim_in_flight now ob))"
  unfolding reclaim_in_flight_def snd_conv
  by (rule outbox_ok_map) (auto simp: reclaim_delivery_def delivery_ok_def)

lemma outbox_ok_prune: "outbox_ok ob \<Longrightarrow> outbox_ok (snd (prune c1 c2 ob))"
proof -
  let ?P = "\<lambda>d. \<not> (dl_status d = Delivered \<and> older_than c1 d \<or> dl_status d = DeadLettered \<and> older_than c2 d)"
  assume ok: "outbox_ok ob"
  have "snd (prune c1 c2 ob) = filter (\<lambda>(k, d). ?P d) ob" by (simp add: prune_def Let_def)
  moreover have "outbox_ok (filter (\<lambda>(k, d). ?P d) ob)"
    using ok st_get_filter [of ob "\<lambda>_. ?P"]
    by (auto simp: outbox_ok_def keyed_by_def st_ok_def st_values_def distinct_map_filter
        split: option.splits if_splits)
  ultimately show ?thesis by simp
qed

lemma outbox_ok_step: "outbox_step ob ob' \<Longrightarrow> outbox_ok ob \<Longrightarrow> outbox_ok ob'"
proof (induction rule: outbox_step.induct)
  case (enqueue d ob)
  then show ?case by (simp add: ob_enqueue_def outbox_ok_put delivery_ok_def)
next
  case (pick_up d now limit ob)
  from pick_up.hyps have "d \<in> set (st_values ob)" "ob_is_due now d"
    by (auto simp: ob_list_due_def dest: in_set_takeD)
  moreover from this pick_up.prems have "st_get ob (dl_id d) = Some d"
    using st_values_get outbox_ok_get by (metis outbox_ok_def)
  ultimately show ?case
    unfolding mark_in_flight_def
    by (intro outbox_ok_update [OF pick_up.prems]) (auto simp: ob_is_due_def delivery_ok_def)
next
  case (settle ob did d outcome now)
  then show ?case
    using outbox_ok_get [OF settle.prems settle.hyps(1)]
    by (intro outbox_ok_settle) (auto simp: delivery_ok_def)
next
  case (retry ob did tenant now)
  then show ?case
    by (auto simp: reset_for_retry_for_tenant_def outbox_ok_reset split: option.split)
qed (simp_all add: outbox_ok_reclaim outbox_ok_prune)

lemma outbox_reachable_ok: "outbox_reachable ob \<Longrightarrow> outbox_ok ob"
  by (induction rule: outbox_reachable.induct) (auto intro: outbox_ok_Nil outbox_ok_step)

section \<open>Properties\<close>

text \<open>C10 (invariant). Whatever the handler, the worker, a restart, the operators and the
  retention sweep do to the outbox, no delivery is ever attempted more than its maximum; a
  delivery still to be sent has attempts left, and one is dead-lettered only with all of them
  used up.\<close>

theorem deliveries_bounded:
  assumes "outbox_reachable ob" and "st_get ob did = Some d"
  shows "dl_attempts d \<le> dl_max_attempts d \<and>
    (dl_attempts d = dl_max_attempts d \<longrightarrow> dl_status d = Delivered \<or> dl_status d = DeadLettered) \<and>
    (dl_status d = DeadLettered \<longrightarrow> dl_attempts d = dl_max_attempts d)"
  using outbox_ok_get [OF outbox_reachable_ok [OF assms(1)] assms(2)]
  by (cases "dl_status d") (auto simp: delivery_ok_def)

definition demo_delivery :: webhook_delivery where
  "demo_delivery = \<lparr>dl_id = ''del'', dl_event_id = ''evt'', dl_event_type = ''transaction.completed'',
     dl_url = ''https://hooks.example'', dl_payload_json = [], dl_status = DsPending, dl_attempts = 0,
     dl_max_attempts = default_max_attempts, dl_next_attempt_at = 0, dl_last_status_code = None,
     dl_last_error = None, dl_created_at = 0, dl_updated_at = 0, dl_delivered_at = None,
     dl_tenant_id = ''shop''\<rparr>"

lemma demo_delivery_id: "dl_id demo_delivery = ''del''"
  by (simp add: demo_delivery_def)

lemma demo_outbox_reachable: "outbox_reachable [(''del'', demo_delivery)]"
proof -
  have "outbox_step [] (ob_enqueue demo_delivery [])"
    by (rule outbox_step.enqueue) (simp_all add: demo_delivery_def default_max_attempts_def)
  then have "outbox_reachable (ob_enqueue demo_delivery [])"
    using outbox_reachable.start outbox_reachable.step by blast
  then show ?thesis by (simp add: ob_enqueue_def st_put_def demo_delivery_def)
qed

theorem deliveries_bounded_witness: "dl_attempts demo_delivery \<le> dl_max_attempts demo_delivery"
  using deliveries_bounded [OF demo_outbox_reachable, of "''del''" demo_delivery]
  by (simp add: st_get_def)

subsection \<open>The drain pass\<close>

text \<open>The fate of a due delivery.\<close>

definition accepted_by :: "(string + nat) \<Rightarrow> bool" where
  "accepted_by outcome = (case outcome of Inr status \<Rightarrow> 200 \<le> status \<and> status < 300 | Inl _ \<Rightarrow> False)"

definition settled :: "(string + nat) \<Rightarrow> time \<Rightarrow> webhook_delivery \<Rightarrow> webhook_delivery" where
  "settled outcome after d =
     (case outcome of
        Inr status \<Rightarrow>
          if accepted_by outcome
          then d\<lparr>dl_status := Delivered, dl_last_status_code := Some status, dl_last_error := None,
                 dl_delivered_at := Some after, dl_updated_at := after,
                 dl_attempts := sat_inc_u32 (dl_attempts d)\<rparr>
          else fail_delivery (Some status) (Some (''HTTP '' @ show_nat status)) after d
      | Inl e \<Rightarrow> fail_delivery None (Some e) after d)"

lemma settled_in_flight: "settled outcome after (d\<lparr>dl_status := InFlight, dl_updated_at := now\<rparr>) = settled outcome after d"
  by (cases outcome) (simp_all add: settled_def fail_delivery_def Let_def)

lemma settle_get:
  "st_get (settle outcome did after ob) k =
     (if k = did then map_option (settled outcome after) (st_get ob k) else st_get ob k)"
  by (auto simp: settle_def settled_def accepted_by_def mark_delivered_def bump_failure_def ob_update_def
      split: sum.split option.split)

lemma mark_settle_get:
  "st_get (settle outcome did after (mark_in_flight did now ob)) k =
     (if k = did then map_option (settled outcome after) (st_get ob k) else st_get ob k)"
  by (auto simp: settle_get mark_in_flight_def ob_update_def settled_in_flight split: option.split)

lemma drain_rest:
  assumes "distinct (map dl_id (d # ds))" "\<forall>e \<in> set (d # ds). st_get ob (dl_id e) = Some e"
  shows "\<forall>e \<in> set ds.
    st_get (settle outcome (dl_id d) after (mark_in_flight (dl_id d) now ob)) (dl_id e) = Some e"
proof
  fix e assume e: "e \<in> set ds"
  then have "dl_id e \<noteq> dl_id d" using assms(1) by (metis distinct.simps(2) image_eqI list.set_map list.simps(9))
  then have "st_get (settle outcome (dl_id d) after (mark_in_flight (dl_id d) now ob)) (dl_id e)
      = st_get ob (dl_id e)"
    by (simp only: mark_settle_get if_False)
  also have "\<dots> = Some e" using assms(2) e by (meson list.set_intros(2))
  finally show "st_get (settle outcome (dl_id d) after (mark_in_flight (dl_id d) now ob)) (dl_id e) = Some e" .
qed

lemma drain_get:
  assumes "distinct (map dl_id ds)" "\<forall>d \<in> set ds. st_get ob (dl_id d) = Some d"
  shows "st_get (snd (drain send clock now i ds r ob)) k =
     (case find (\<lambda>j. dl_id (ds ! j) = k) [0 ..< length ds] of
        Some j \<Rightarrow> Some (settled (send (i + j) (ds ! j)) (clock (i + j)) (ds ! j))
      | None \<Rightarrow> st_get ob k)"
  using assms
proof (induction ds arbitrary: i r ob)
  case Nil
  then show ?case by simp
next
  case (Cons d ds)
  let ?ob2 = "settle (send i d) (dl_id d) (clock i) (mark_in_flight (dl_id d) now ob)"
  have rest: "\<forall>e \<in> set ds. st_get ?ob2 (dl_id e) = Some e"
    using drain_rest [OF Cons.prems] .
  have idx: "[0 ..< length (d # ds)] = 0 # map Suc [0 ..< length ds]"
    by (simp add: upt_conv_Cons map_Suc_upt del: upt_Suc)
  have shift: "find (\<lambda>j. dl_id ((d # ds) ! j) = k) (map Suc js)
      = map_option Suc (find (\<lambda>j. dl_id (ds ! j) = k) js)" for js
    by (induction js) auto
  have fresh: "find (\<lambda>j. dl_id (ds ! j) = dl_id d) [0 ..< length ds] = None"
  proof -
    have "dl_id (ds ! j) \<noteq> dl_id d" if "j < length ds" for j
      using Cons.prems(1) nth_mem [OF that] by (metis distinct.simps(2) image_eqI list.set_map list.simps(9))
    then show ?thesis by (simp add: find_None_iff)
  qed
  have found: "find (\<lambda>j. dl_id ((d # ds) ! j) = k) [0 ..< length (d # ds)] =
      (if dl_id d = k then Some 0 else map_option Suc (find (\<lambda>j. dl_id (ds ! j) = k) [0 ..< length ds]))"
    unfolding idx by (simp add: shift)
  have "distinct (map dl_id ds)" "st_get ob (dl_id d) = Some d"
    using Cons.prems by simp_all
  then show ?case
    unfolding found using Cons.IH [OF _ rest, of "Suc i"] fresh
    by (auto simp: Let_def mark_settle_get split: option.split)
qed

lemma drain_report:
  assumes "distinct (map dl_id ds)" "\<forall>d \<in> set ds. st_get ob (dl_id d) = Some d"
  shows "(let r' = fst (drain send clock now i ds r ob) in
      tk_due r' = tk_due r \<and>
      tk_delivered r' + tk_failed r' + tk_dead_lettered r' =
        tk_delivered r + tk_failed r + tk_dead_lettered r + length ds)"
  using assms
proof (induction ds arbitrary: i r ob)
  case Nil
  then show ?case by simp
next
  case (Cons d ds)
  let ?ob2 = "settle (send i d) (dl_id d) (clock i) (mark_in_flight (dl_id d) now ob)"
  have rest: "\<forall>e \<in> set ds. st_get ?ob2 (dl_id e) = Some e"
    using drain_rest [OF Cons.prems] .
  have d: "st_get ob (dl_id d) = Some d" using Cons.prems(2) by simp
  have "st_get ?ob2 (dl_id d) \<noteq> None" by (simp add: mark_settle_get d)
  then show ?case
    using Cons.IH [OF _ rest, of "Suc i" "count_outcome (send i d) (st_get ?ob2 (dl_id d)) r"] Cons.prems(1)
    by (auto simp: Let_def count_outcome_def)
qed

lemma due_distinct:
  assumes "outbox_ok ob"
  shows "distinct (map dl_id (ob_list_due now limit ob))"
    "\<forall>d \<in> set (ob_list_due now limit ob). st_get ob (dl_id d) = Some d"
proof -
  have id_key: "dl_id d = k" if "(k, d) \<in> set ob" for k d
    using assms that by (auto simp: outbox_ok_def keyed_by_def st_ok_def st_get_def)
  then have "map dl_id (st_values ob) = map fst ob"
    by (auto simp: st_values_def)
  then have dist: "distinct (map dl_id (st_values ob))"
    using assms by (simp add: outbox_ok_def st_ok_def)
  then have "distinct (map dl_id (sort_key dl_next_attempt_at (filter (ob_is_due now) (st_values ob))))"
    by (simp add: distinct_map inj_on_def)
  then show "distinct (map dl_id (ob_list_due now limit ob))"
    by (simp add: ob_list_due_def take_map [symmetric])
  show "\<forall>d \<in> set (ob_list_due now limit ob). st_get ob (dl_id d) = Some d"
  proof
    fix d assume "d \<in> set (ob_list_due now limit ob)"
    then have "d \<in> set (st_values ob)" by (auto simp: ob_list_due_def dest: in_set_takeD)
    then obtain k where "(k, d) \<in> set ob" by (auto simp: st_values_def)
    then show "st_get ob (dl_id d) = Some d"
      using id_key assms by (auto simp: outbox_ok_def st_ok_def st_get_def)
  qed
qed

text \<open>C11 (functional). One pass of the worker settles exactly the due deliveries (the first
  fifty by due time), each by the answer it got: accepted answers make it delivered, any other
  counts an attempt and either schedules the retry at the backoff or dead-letters it; no
  delivery stays in flight because of the pass, every other row is untouched, and the report
  adds up.\<close>

theorem worker_tick_settles:
  assumes "outbox_ok ob" and "worker_tick send clock now ob = (r, ob')"
  shows "let due = ob_list_due now 50 ob in
    (\<forall>j < length due. st_get ob' (dl_id (due ! j)) =
       Some (settled (send j (due ! j)) (clock j) (due ! j)) \<and>
       dl_status (settled (send j (due ! j)) (clock j) (due ! j)) \<noteq> InFlight) \<and>
    (\<forall>k. (\<forall>d \<in> set due. dl_id d \<noteq> k) \<longrightarrow> st_get ob' k = st_get ob k) \<and>
    tk_due r = length due \<and> tk_delivered r + tk_failed r + tk_dead_lettered r = length due"
proof -
  let ?due = "ob_list_due now 50 ob"
  note due = due_distinct [OF assms(1), of now 50]
  have ob': "ob' = snd (drain send clock now 0 ?due
      \<lparr>tk_due = length ?due, tk_delivered = 0, tk_failed = 0, tk_dead_lettered = 0\<rparr> ob)"
    and r: "r = fst (drain send clock now 0 ?due
      \<lparr>tk_due = length ?due, tk_delivered = 0, tk_failed = 0, tk_dead_lettered = 0\<rparr> ob)"
    using assms(2) by (simp_all add: worker_tick_def Let_def)
  have "find (\<lambda>i. dl_id (?due ! i) = dl_id (?due ! j)) [0 ..< length ?due] = Some j"
    if "j < length ?due" for j
    using that due(1)
    by (auto simp: find_Some_iff distinct_conv_nth intro!: exI [of _ j])
  then have "\<forall>j < length ?due. st_get ob' (dl_id (?due ! j)) =
       Some (settled (send j (?due ! j)) (clock j) (?due ! j))"
    unfolding ob' by (simp add: drain_get [OF due])
  moreover have "dl_status (settled outcome t d) \<noteq> InFlight" for outcome t d
    by (auto simp: settled_def fail_delivery_def Let_def split: sum.split)
  moreover have "st_get ob' k = st_get ob k" if "\<forall>d \<in> set ?due. dl_id d \<noteq> k" for k
  proof -
    have "find (\<lambda>i. dl_id (?due ! i) = k) [0 ..< length ?due] = None"
      using that by (auto simp: find_None_iff)
    then show ?thesis unfolding ob' by (simp add: drain_get [OF due])
  qed
  ultimately show ?thesis
    using drain_report [OF due, of send clock now 0] by (simp add: r Let_def)
qed

text \<open>A pass over the one demo delivery, which the receiver accepts.\<close>

theorem worker_tick_settles_witness:
  "worker_tick (\<lambda>_ _. Inr 204) (\<lambda>_. 9) 5 [(''del'', demo_delivery)] =
     (\<lparr>tk_due = 1, tk_delivered = 1, tk_failed = 0, tk_dead_lettered = 0\<rparr>,
      [(''del'', settled (Inr 204) 9 demo_delivery)]) \<and>
   st_get [(''del'', settled (Inr 204) 9 demo_delivery)] ''del'' =
     Some (settled (Inr 204) 9 demo_delivery)"
proof
  show tick: "worker_tick (\<lambda>_ _. Inr 204) (\<lambda>_. 9) 5 [(''del'', demo_delivery)] =
     (\<lparr>tk_due = 1, tk_delivered = 1, tk_failed = 0, tk_dead_lettered = 0\<rparr>,
      [(''del'', settled (Inr 204) 9 demo_delivery)])"
    by (simp add: worker_tick_def ob_list_due_def ob_is_due_def st_values_def demo_delivery_def
        settle_def mark_in_flight_def mark_delivered_def ob_update_def st_get_def st_put_def
        count_outcome_def settled_def accepted_by_def Let_def)
  have due: "ob_list_due 5 50 [(''del'', demo_delivery)] = [demo_delivery]"
    by (simp add: ob_list_due_def ob_is_due_def st_values_def demo_delivery_def)
  show "st_get [(''del'', settled (Inr 204) 9 demo_delivery)] ''del'' =
     Some (settled (Inr 204) 9 demo_delivery)"
    using worker_tick_settles [OF outbox_reachable_ok [OF demo_outbox_reachable] tick]
    by (simp add: due Let_def demo_delivery_id)
qed

subsection \<open>Retention, restarts and exhaustion\<close>

text \<open>C12 (safety). No delivery still to be sent is ever lost: the retention sweep removes only
  delivered and dead-lettered rows and reports exactly how many, and a restart puts every
  delivery caught in flight back to pending, due at once and with its attempts unchanged, so
  that afterwards none is in flight and all others are as they were.\<close>

theorem no_delivery_lost:
  assumes "outbox_ok ob"
  shows "(case prune c1 c2 ob of (rep, ob') \<Rightarrow>
      (\<forall>k d. st_get ob k = Some d \<longrightarrow> dl_status d \<notin> {Delivered, DeadLettered} \<longrightarrow> st_get ob' k = Some d) \<and>
      (\<forall>k d. st_get ob' k = Some d \<longrightarrow> st_get ob k = Some d) \<and>
      length ob = length ob' + pr_delivered rep + pr_dead_lettered rep) \<and>
    (case reclaim_in_flight now ob of (n, ob') \<Rightarrow>
      (\<forall>k. st_get ob' k = map_option (reclaim_delivery now) (st_get ob k)) \<and>
      (\<forall>d \<in> set (st_values ob'). dl_status d \<noteq> InFlight) \<and>
      (\<forall>d. dl_status d = InFlight \<longrightarrow>
         ob_is_due now (reclaim_delivery now d) \<and> dl_attempts (reclaim_delivery now d) = dl_attempts d) \<and>
      (\<forall>d. dl_status d \<noteq> InFlight \<longrightarrow> reclaim_delivery now d = d))"
proof
  let ?dv = "\<lambda>d. dl_status d = Delivered \<and> older_than c1 d"
  let ?dd = "\<lambda>d. dl_status d = DeadLettered \<and> older_than c2 d"
  let ?ob' = "filter (\<lambda>(k, d). \<not> (?dv d \<or> ?dd d)) ob"
  have len: "length xs = length (filter (\<lambda>(k, d). \<not> (?dv d \<or> ?dd d)) xs)
      + length (filter ?dv (map snd xs)) + length (filter ?dd (map snd xs))"
    for xs :: "(string \<times> webhook_delivery) list"
    by (induction xs) auto
  have "length ob = length ?ob' + length (filter ?dv (st_values ob)) + length (filter ?dd (st_values ob))"
    unfolding st_values_def by (rule len)
  moreover have "st_ok ob" using assms by (simp add: outbox_ok_def)
  note st_get_filter [OF this, of "\<lambda>_ d. \<not> (?dv d \<or> ?dd d)"]
  ultimately show "case prune c1 c2 ob of (rep, ob') \<Rightarrow>
      (\<forall>k d. st_get ob k = Some d \<longrightarrow> dl_status d \<notin> {Delivered, DeadLettered} \<longrightarrow> st_get ob' k = Some d) \<and>
      (\<forall>k d. st_get ob' k = Some d \<longrightarrow> st_get ob k = Some d) \<and>
      length ob = length ob' + pr_delivered rep + pr_dead_lettered rep"
    by (auto simp: prune_def Let_def split: option.splits if_splits)
next
  show "case reclaim_in_flight now ob of (n, ob') \<Rightarrow>
      (\<forall>k. st_get ob' k = map_option (reclaim_delivery now) (st_get ob k)) \<and>
      (\<forall>d \<in> set (st_values ob'). dl_status d \<noteq> InFlight) \<and>
      (\<forall>d. dl_status d = InFlight \<longrightarrow>
         ob_is_due now (reclaim_delivery now d) \<and> dl_attempts (reclaim_delivery now d) = dl_attempts d) \<and>
      (\<forall>d. dl_status d \<noteq> InFlight \<longrightarrow> reclaim_delivery now d = d)"
    by (auto simp: reclaim_in_flight_def st_get_map st_values_map)
      (auto simp: reclaim_delivery_def ob_is_due_def split: if_splits)
qed

theorem no_delivery_lost_witness:
  "st_get (snd (prune (Some 5) (Some 5) [(''del'', demo_delivery)])) ''del'' = Some demo_delivery"
  using no_delivery_lost [OF outbox_reachable_ok [OF demo_outbox_reachable], of "Some 5" "Some 5" 0]
  by (auto simp: st_get_def demo_delivery_def split: prod.splits)

text \<open>A sequence of failed attempts: code, error text and time of each.\<close>

definition fail_all ::
  "(nat option \<times> string option \<times> time) list \<Rightarrow> webhook_delivery \<Rightarrow> webhook_delivery" where
  "fail_all fs d = fold (\<lambda>(c, e, t). fail_delivery c e t) fs d"

lemma fail_all_attempts:
  "unat (dl_attempts d) + length fs \<le> unat (dl_max_attempts d) \<Longrightarrow>
   unat (dl_attempts (fail_all fs d)) = unat (dl_attempts d) + length fs \<and>
   dl_max_attempts (fail_all fs d) = dl_max_attempts d"
proof (induction fs arbitrary: d)
  case Nil
  then show ?case by (simp add: fail_all_def)
next
  case (Cons f fs)
  obtain c e t where f: "f = (c, e, t)" by (cases f)
  have "unat (dl_max_attempts d) \<le> 2 ^ 32 - 1"
    using unsigned_less [of "dl_max_attempts d", where ?'a = nat] by simp
  then have "unat (dl_attempts (fail_delivery c e t d)) = Suc (unat (dl_attempts d))"
    and "dl_max_attempts (fail_delivery c e t d) = dl_max_attempts d"
    using Cons.prems by (auto simp: fail_delivery_def Let_def unat_sat_inc_u32)
  moreover have "fail_all (f # fs) d = fail_all fs (fail_delivery c e t d)"
    by (simp add: fail_all_def f)
  ultimately show ?case using Cons.IH [of "fail_delivery c e t d"] Cons.prems by simp
qed

text \<open>C13 (liveness). A receiver that keeps failing exhausts a delivery in exactly its
  remaining number of attempts: before that it is scheduled for a retry, at the quadratic
  backoff capped at one hour after the last failure, and with the last attempt it is
  dead-lettered.\<close>

theorem failing_receiver_dead_letters:
  assumes "unat (dl_attempts d) + length fs < unat (dl_max_attempts d)"
  shows "let d' = fail_all (fs @ [(c, e, t)]) d; n = unat (dl_attempts d) + length fs + 1 in
    unat (dl_attempts d') = n \<and>
    (dl_status d' = DeadLettered \<longleftrightarrow> n = unat (dl_max_attempts d)) \<and>
    (n < unat (dl_max_attempts d) \<longrightarrow>
       dl_status d' = Failed \<and> dl_next_attempt_at d' = t + secs (min (int n * int n) 3600))"
proof -
  let ?d0 = "fail_all fs d" and ?n = "unat (dl_attempts d) + length fs + 1"
  have d0: "unat (dl_attempts ?d0) = unat (dl_attempts d) + length fs"
    "dl_max_attempts ?d0 = dl_max_attempts d"
    using fail_all_attempts [of d fs] assms by simp_all
  have "unat (dl_max_attempts d) \<le> 2 ^ 32 - 1"
    using unsigned_less [of "dl_max_attempts d", where ?'a = nat] by simp
  then have n: "unat (sat_inc_u32 (dl_attempts ?d0)) = ?n" and n_le: "?n \<le> 2 ^ 32 - 1"
    using assms d0 by (simp_all add: unat_sat_inc_u32)
  have "uint (sat_inc_u32 (dl_attempts ?d0)) = int ?n"
    using n by (metis uint_nat)
  moreover have "min (sat_mul (int ?n) (int ?n)) 3600 = min (int ?n * int ?n) 3600"
  proof -
    have "0 \<le> int ?n * int ?n" by simp
    then show ?thesis by (simp only: sat_mul_eq_min of_nat_0_le_iff) (simp add: i64_max_def min_def)
  qed
  ultimately have backoff: "backoff_for (sat_inc_u32 (dl_attempts ?d0)) = secs (min (int ?n * int ?n) 3600)"
    by (simp only: backoff_for_def)
  have step: "fail_all (fs @ [(c, e, t)]) d = fail_delivery c e t ?d0"
    by (simp add: fail_all_def)
  have exhausted: "dl_max_attempts ?d0 \<le> sat_inc_u32 (dl_attempts ?d0) \<longleftrightarrow> unat (dl_max_attempts d) \<le> ?n"
    by (simp only: word_le_nat_alt n d0(2))
  have "unat (dl_attempts (fail_delivery c e t ?d0)) = ?n"
    using n by (simp add: fail_delivery_def Let_def)
  moreover have "dl_status (fail_delivery c e t ?d0) = DeadLettered \<longleftrightarrow> unat (dl_max_attempts d) \<le> ?n"
    using exhausted by (simp add: fail_delivery_def Let_def)
  moreover have "?n < unat (dl_max_attempts d) \<longrightarrow> dl_status (fail_delivery c e t ?d0) = Failed \<and>
      dl_next_attempt_at (fail_delivery c e t ?d0) = t + secs (min (int ?n * int ?n) 3600)"
    using exhausted backoff by (simp add: fail_delivery_def Let_def)
  ultimately show ?thesis
    unfolding step Let_def using assms by auto
qed

theorem failing_receiver_dead_letters_witness:
  "dl_status (fail_all (replicate 5 (None, None, 7)) demo_delivery) = DeadLettered"
proof -
  have five: "replicate 5 (None, None, 7) = replicate 4 (None, None, 7) @ [(None, None, 7 :: time)]"
    by (simp add: numeral_eq_Suc)
  have "unat (dl_attempts demo_delivery) + length (replicate 4 (None :: nat option, None :: string option, 7 :: time))
      < unat (dl_max_attempts demo_delivery)"
    by (simp add: demo_delivery_def default_max_attempts_def)
  from failing_receiver_dead_letters [OF this, of None None 7] show ?thesis
    by (simp add: five demo_delivery_def default_max_attempts_def Let_def)
qed

end
