(* ===== verification/Receipts.thy ===== *)
theory Receipts
  imports Models
begin

text \<open>
  Signed receipts (\<open>src/signing.rs\<close>) and the store that keeps them (\<open>src/receipts.rs\<close>).
  Base64, the JSON codecs, Ed25519 and SHA-256 are the parameter record \<open>sig_lib\<close>; what the
  documentation of those libraries promises is \<open>sig_lib_ok\<close>.
\<close>

section \<open>Claims\<close>

record receipt_icp =
  ri_version :: string
  ri_intent :: string
  ri_transaction_id :: string
  ri_order_id :: "string option"
  ri_mandate_jti :: "string option"
  ri_body_digest :: string
  ri_body_canonicalization :: string

record receipt_claims =
  rc_iss :: string
  rc_aud :: string
  rc_iat :: i64
  rc_jti :: string
  rc_icp :: receipt_icp

record receipt_header =
  rh_alg :: string
  rh_typ :: string
  rh_kid :: string

record signed_receipt =
  sg_jti :: string
  sg_kid :: string
  sg_jws :: string
  sg_body_digest :: string
  sg_claims :: receipt_claims

datatype signing_error = KeyLoad string | Canonicalization string | SerdeError string

fun display_signing_error :: "signing_error \<Rightarrow> string" where
  "display_signing_error (KeyLoad e) = ''key load failed: '' @ e"
| "display_signing_error (Canonicalization e) = ''canonicalization failed: '' @ e"
| "display_signing_error (SerdeError e) = ''serialization failed: '' @ e"

record sig_lib =
  sl_b64_encode :: "string \<Rightarrow> string"
  sl_b64_decode :: "string \<Rightarrow> string option"
  sl_header_to_json :: "receipt_header \<Rightarrow> string + string"
  sl_header_of_json :: "string \<Rightarrow> string + receipt_header"
  sl_claims_to_jcs :: "receipt_claims \<Rightarrow> string + string"
  sl_claims_of_json :: "string \<Rightarrow> string + receipt_claims"
  sl_sign :: "string \<Rightarrow> string \<Rightarrow> string"
    \<comment> \<open>signing key, message\<close>
  sl_verify :: "string \<Rightarrow> string \<Rightarrow> string \<Rightarrow> bool"
    \<comment> \<open>verifying key, message, signature\<close>
  sl_sha256_hex :: "string \<Rightarrow> string"

record receipt_signer =
  sn_kid :: string
  sn_signing_key :: string
  sn_verifying_key :: string

definition icp_version_const :: string where
  "icp_version_const = ''2026-04-21''"

section \<open>Signing and verification\<close>

text \<open>\<open>iat\<close> is the clock's timestamp and \<open>uuid\<close> the fresh identifier of the call.\<close>

definition sign_receipt ::
  "sig_lib \<Rightarrow> receipt_signer \<Rightarrow> i64 \<Rightarrow> string \<Rightarrow> string \<Rightarrow> string \<Rightarrow> string \<Rightarrow> string \<Rightarrow> string option
    \<Rightarrow> string option \<Rightarrow> string \<Rightarrow> signing_error + signed_receipt" where
  "sign_receipt L signer iat uuid aud_agent_id iss_handler_url intent transaction_id order_id
      mandate_jti body =
     (let body_digest = ''sha256:'' @ sl_sha256_hex L body;
          claims = \<lparr>rc_iss = iss_handler_url, rc_aud = aud_agent_id, rc_iat = iat,
            rc_jti = ''rcpt_'' @ uuid,
            rc_icp = \<lparr>ri_version = icp_version_const, ri_intent = intent,
              ri_transaction_id = transaction_id, ri_order_id = order_id,
              ri_mandate_jti = mandate_jti, ri_body_digest = body_digest,
              ri_body_canonicalization = ''jcs''\<rparr>\<rparr>;
          header = \<lparr>rh_alg = ''EdDSA'', rh_typ = ''JWT'', rh_kid = sn_kid signer\<rparr>
      in case sl_header_to_json L header of
           Inl e \<Rightarrow> Inl (SerdeError e)
         | Inr hj \<Rightarrow>
        (case sl_claims_to_jcs L claims of
           Inl e \<Rightarrow> Inl (Canonicalization e)
         | Inr cj \<Rightarrow>
           let signing_input = sl_b64_encode L hj @ ''.'' @ sl_b64_encode L cj;
               sig = sl_sign L (sn_signing_key signer) signing_input
           in Inr \<lparr>sg_jti = rc_jti claims, sg_kid = sn_kid signer,
                   sg_jws = signing_input @ ''.'' @ sl_b64_encode L sig,
                   sg_body_digest = body_digest, sg_claims = claims\<rparr>))"

definition receipt_segments :: "string \<Rightarrow> string + (string \<times> string \<times> string)" where
  "receipt_segments jws =
     (case split_on CHR ''.'' jws of
        [h] \<Rightarrow> Inl ''receipt: missing payload segment''
      | [h, p] \<Rightarrow> Inl ''receipt: missing signature segment''
      | [h, p, s] \<Rightarrow> Inr (h, p, s)
      | [] \<Rightarrow> Inl ''receipt: missing header segment''
      | _ \<Rightarrow> Inl ''receipt: unexpected extra segments'')"

definition verify_receipt ::
  "sig_lib \<Rightarrow> receipt_signer \<Rightarrow> string \<Rightarrow> string option \<Rightarrow> string + receipt_claims" where
  "verify_receipt L signer jws expected_body =
     bind_result (receipt_segments jws) (\<lambda>(header_b64, payload_b64, sig_b64).
     case sl_b64_decode L header_b64 of
       None \<Rightarrow> Inl ''receipt: header not base64url''
     | Some header_bytes \<Rightarrow>
     (case sl_header_of_json L header_bytes of
        Inl e \<Rightarrow> Inl (''receipt: header JSON: '' @ e)
      | Inr header \<Rightarrow>
        if rh_alg header \<noteq> ''EdDSA'' then
          Inl (''receipt: unsupported alg `'' @ rh_alg header @ ''`'')
        else if rh_kid header \<noteq> sn_kid signer then
          Inl (''receipt: kid `'' @ rh_kid header @ ''` does not match handler key `''
            @ sn_kid signer @ ''`'')
        else
        (case sl_b64_decode L sig_b64 of
           None \<Rightarrow> Inl ''receipt: signature not base64url''
         | Some sig_bytes \<Rightarrow>
           if length sig_bytes \<noteq> 64 then
             Inl (''receipt: Ed25519 signature must be 64 bytes, got '' @ show_nat (length sig_bytes))
           else if \<not> sl_verify L (sn_verifying_key signer) (header_b64 @ ''.'' @ payload_b64) sig_bytes then
             Inl ''receipt: signature did not verify''
           else
           (case sl_b64_decode L payload_b64 of
              None \<Rightarrow> Inl ''receipt: payload not base64url''
            | Some payload_bytes \<Rightarrow>
            (case sl_claims_of_json L payload_bytes of
               Inl e \<Rightarrow> Inl (''receipt: claims JSON: '' @ e)
             | Inr claims \<Rightarrow>
               (case expected_body of
                  Some expected \<Rightarrow>
                    let expected_digest = ''sha256:'' @ sl_sha256_hex L expected in
                    if ri_body_digest (rc_icp claims) \<noteq> expected_digest then
                      Inl (''receipt: body_digest `'' @ ri_body_digest (rc_icp claims)
                        @ ''` does not match expected `'' @ expected_digest @ ''`'')
                    else Inr claims
                | None \<Rightarrow> Inr claims))))))"

section \<open>The store\<close>

record stored_receipt =
  st_jti :: string
  st_kid :: string
  st_jws :: string
  st_body_digest :: string
  st_claims :: receipt_claims

type_synonym receipts = "(string, stored_receipt) store"

definition receipt_insert :: "stored_receipt \<Rightarrow> receipts \<Rightarrow> receipts" where
  "receipt_insert r rs = st_put (st_jti r) r rs"

definition receipt_get :: "string \<Rightarrow> receipts \<Rightarrow> stored_receipt option" where
  "receipt_get jti rs = st_get rs jti"

definition receipt_list_recent :: "nat \<Rightarrow> receipts \<Rightarrow> stored_receipt list" where
  "receipt_list_recent limit rs =
     take limit (sort_key (\<lambda>r. - rc_iat (st_claims r)) (st_values rs))"

definition stored_of :: "signed_receipt \<Rightarrow> stored_receipt" where
  "stored_of s = \<lparr>st_jti = sg_jti s, st_kid = sg_kid s, st_jws = sg_jws s,
     st_body_digest = sg_body_digest s, st_claims = sg_claims s\<rparr>"

section \<open>Properties\<close>

text \<open>
  Documented behaviour of the libraries: decoding inverts encoding, encoded text is free of
  dots, the codecs invert each other, a signature has 64 bytes and verifies under its key.
\<close>

definition sig_lib_ok :: "sig_lib \<Rightarrow> receipt_signer \<Rightarrow> bool" where
  "sig_lib_ok L signer \<longleftrightarrow>
     (\<forall>x. sl_b64_decode L (sl_b64_encode L x) = Some x \<and> CHR ''.'' \<notin> set (sl_b64_encode L x)) \<and>
     (\<forall>h j. sl_header_to_json L h = Inr j \<longrightarrow> sl_header_of_json L j = Inr h) \<and>
     (\<forall>c j. sl_claims_to_jcs L c = Inr j \<longrightarrow> sl_claims_of_json L j = Inr c) \<and>
     (\<forall>m. length (sl_sign L (sn_signing_key signer) m) = 64 \<and>
          sl_verify L (sn_verifying_key signer) m (sl_sign L (sn_signing_key signer) m))"

lemma receipt_segments_join:
  assumes "CHR ''.'' \<notin> set h" "CHR ''.'' \<notin> set p" "CHR ''.'' \<notin> set s"
  shows "receipt_segments (h @ ''.'' @ p @ ''.'' @ s) = Inr (h, p, s)"
  using assms by (simp add: receipt_segments_def split_on_append split_on_free)

lemma sign_verify:
  assumes "sig_lib_ok L signer"
    and "sign_receipt L signer iat uuid aud iss intent txn order jti body = Inr r"
  shows "verify_receipt L signer (sg_jws r) expected =
    (case expected of
       Some b \<Rightarrow>
         if sl_sha256_hex L b = sl_sha256_hex L body then Inr (sg_claims r)
         else Inl (''receipt: body_digest `'' @ sg_body_digest r @ ''` does not match expected `sha256:''
                @ sl_sha256_hex L b @ ''`'')
     | None \<Rightarrow> Inr (sg_claims r))"
proof -
  obtain hj cj where codec: "sl_header_to_json L \<lparr>rh_alg = ''EdDSA'', rh_typ = ''JWT'', rh_kid = sn_kid signer\<rparr> = Inr hj"
      "sl_claims_to_jcs L (sg_claims r) = Inr cj"
    and jws: "sg_jws r = sl_b64_encode L hj @ ''.'' @ sl_b64_encode L cj @ ''.'' @
        sl_b64_encode L (sl_sign L (sn_signing_key signer) (sl_b64_encode L hj @ ''.'' @ sl_b64_encode L cj))"
    and digest: "ri_body_digest (rc_icp (sg_claims r)) = ''sha256:'' @ sl_sha256_hex L body"
      "sg_body_digest r = ''sha256:'' @ sl_sha256_hex L body"
    using assms(2) by (auto simp: sign_receipt_def Let_def split: sum.splits)
  have lib: "\<And>x. sl_b64_decode L (sl_b64_encode L x) = Some x" "\<And>x. CHR ''.'' \<notin> set (sl_b64_encode L x)"
      "sl_header_of_json L hj = Inr \<lparr>rh_alg = ''EdDSA'', rh_typ = ''JWT'', rh_kid = sn_kid signer\<rparr>"
      "sl_claims_of_json L cj = Inr (sg_claims r)"
      "\<And>m. length (sl_sign L (sn_signing_key signer) m) = 64"
      "\<And>m. sl_verify L (sn_verifying_key signer) m (sl_sign L (sn_signing_key signer) m)"
    using assms(1) codec by (auto simp: sig_lib_ok_def)
  show ?thesis
    unfolding verify_receipt_def jws receipt_segments_join [OF lib(2) lib(2) lib(2)]
    by (simp add: lib digest split: option.split)
qed

text \<open>C14 (roundtrip). A receipt the handler issues verifies with the handler's key and gives
  back its claims; against a body it verifies exactly when the digest of that body is the
  digest of the body it was issued for, so a response altered in a way that changes the
  digest is refused.\<close>

theorem issued_receipt_verifies:
  assumes "sig_lib_ok L signer"
    and "sign_receipt L signer iat uuid aud iss intent txn order jti body = Inr r"
  shows "verify_receipt L signer (sg_jws r) None = Inr (sg_claims r) \<and>
    verify_receipt L signer (sg_jws r) (Some body) = Inr (sg_claims r) \<and>
    (sl_sha256_hex L b \<noteq> sl_sha256_hex L body \<longrightarrow>
       (\<exists>e. verify_receipt L signer (sg_jws r) (Some b) = Inl e)) \<and>
    rc_aud (sg_claims r) = aud \<and> ri_intent (rc_icp (sg_claims r)) = intent \<and>
    ri_transaction_id (rc_icp (sg_claims r)) = txn"
proof -
  have "rc_aud (sg_claims r) = aud \<and> ri_intent (rc_icp (sg_claims r)) = intent \<and>
      ri_transaction_id (rc_icp (sg_claims r)) = txn"
    using assms(2) by (auto simp: sign_receipt_def Let_def split: sum.splits)
  then show ?thesis by (simp add: sign_verify [OF assms])
qed

text \<open>A toy instance of the libraries: escaping for base64, one remembered header and claim.\<close>

definition demo_signer :: receipt_signer where
  "demo_signer = \<lparr>sn_kid = ''k'', sn_signing_key = ''s'', sn_verifying_key = ''v''\<rparr>"

definition demo_claims :: receipt_claims where
  "demo_claims = \<lparr>rc_iss = ''h'', rc_aud = ''a'', rc_iat = 7, rc_jti = ''rcpt_u'',
     rc_icp = \<lparr>ri_version = icp_version_const, ri_intent = ''intent.buy'', ri_transaction_id = ''t'',
       ri_order_id = None, ri_mandate_jti = None, ri_body_digest = ''sha256:body'',
       ri_body_canonicalization = ''jcs''\<rparr>\<rparr>"

definition demo_header :: receipt_header where
  "demo_header = \<lparr>rh_alg = ''EdDSA'', rh_typ = ''JWT'', rh_kid = ''k''\<rparr>"

fun escape :: "string \<Rightarrow> string" where
  "escape [] = []"
| "escape (c # cs) =
     (if c = CHR ''.'' then ''_d'' else if c = CHR ''_'' then ''_u'' else [c]) @ escape cs"

fun unescape :: "string \<Rightarrow> string option" where
  "unescape [] = Some []"
| "unescape (c # cs) =
     (if c = CHR ''_'' then
        (case cs of
           [] \<Rightarrow> None
         | d # ds \<Rightarrow> map_option ((#) (if d = CHR ''d'' then CHR ''.'' else CHR ''_'')) (unescape ds))
      else map_option ((#) c) (unescape cs))"

definition demo_sig_lib :: sig_lib where
  "demo_sig_lib = \<lparr>
     sl_b64_encode = escape, sl_b64_decode = unescape,
     sl_header_to_json = (\<lambda>h. if h = demo_header then Inr ''h'' else Inl ''x''),
     sl_header_of_json = (\<lambda>_. Inr demo_header),
     sl_claims_to_jcs = (\<lambda>c. if c = demo_claims then Inr ''c'' else Inl ''x''),
     sl_claims_of_json = (\<lambda>_. Inr demo_claims),
     sl_sign = (\<lambda>k m. replicate 64 CHR ''s''),
     sl_verify = (\<lambda>k m s. k = ''v''), sl_sha256_hex = (\<lambda>x. x)\<rparr>"

lemma unescape_escape: "unescape (escape x) = Some x"
  by (induction x) auto

lemma escape_no_dot: "CHR ''.'' \<notin> set (escape x)"
  by (induction x) auto

lemma demo_sig_lib_ok: "sig_lib_ok demo_sig_lib demo_signer"
  by (simp add: sig_lib_ok_def demo_sig_lib_def demo_signer_def unescape_escape escape_no_dot)

theorem issued_receipt_verifies_witness:
  "\<exists>r. sign_receipt demo_sig_lib demo_signer 7 ''u'' ''a'' ''h'' ''intent.buy'' ''t'' None None ''body'' = Inr r \<and>
     verify_receipt demo_sig_lib demo_signer (sg_jws r) (Some ''body'') = Inr demo_claims \<and>
     (\<exists>e. verify_receipt demo_sig_lib demo_signer (sg_jws r) (Some ''other'') = Inl e)"
proof -
  obtain r where r: "sign_receipt demo_sig_lib demo_signer 7 ''u'' ''a'' ''h'' ''intent.buy'' ''t'' None None ''body''
      = Inr r" "sg_claims r = demo_claims"
    by (simp add: sign_receipt_def demo_sig_lib_def demo_signer_def demo_claims_def demo_header_def Let_def)
  from issued_receipt_verifies [OF demo_sig_lib_ok r(1), of "''other''"] r show ?thesis
    by (auto simp: demo_sig_lib_def)
qed

end
