(* ===== verification/Intent.thy ===== *)
theory Intent
  imports Models
begin

text \<open>
  The intent catalogue (\<open>src/intent.rs\<close>): the enum, its canonical wire names and
  their parser, the mandate scope that gates each intent, and the classification
  into state-changing and read-only intents.
\<close>

section \<open>The catalogue\<close>

datatype intent =
    ISearch
  | IDescribe
  | IQuote
  | INegotiate
  | IAuthorize
  | IBuy
  | IPay
  | ISubscribe
  | IRenew
  | IPause
  | ICancelSubscription
  | ITrack
  | IConfirmReceipt
  | IReturn
  | IRefundRequest
  | IA2aPay
  | IA2aQuote

definition core_intents :: "intent list" where
  "core_intents =
     [ISearch, IDescribe, IQuote, INegotiate, IAuthorize, IBuy,
      IPay, ISubscribe, IRenew, IPause, ICancelSubscription, ITrack,
      IConfirmReceipt, IReturn, IRefundRequest, IA2aPay, IA2aQuote]"

section \<open>Parsing and printing\<close>

text \<open>The arms of the \<open>match\<close> on the name, and its fall-through.\<close>

definition intent_names :: "(string \<times> intent) list" where
  "intent_names =
     [(''search'', ISearch), (''describe'', IDescribe), (''quote'', IQuote),
      (''negotiate'', INegotiate), (''authorize'', IAuthorize), (''buy'', IBuy),
      (''pay'', IPay), (''subscribe'', ISubscribe), (''renew'', IRenew),
      (''pause'', IPause), (''cancel_subscription'', ICancelSubscription), (''track'', ITrack),
      (''confirm_receipt'', IConfirmReceipt), (''return'', IReturn), (''refund_request'', IRefundRequest),
      (''a2a_pay'', IA2aPay), (''a2a_quote'', IA2aQuote)]"

definition intent_of_name :: "string \<Rightarrow> intent result" where
  "intent_of_name name =
     (case map_of intent_names name of
        Some i \<Rightarrow> Inr i
      | None \<Rightarrow> Inl (IntentNotSupported (''unknown intent `intent.'' @ name @ ''`'')))"

definition parse_intent :: "string \<Rightarrow> intent result" where
  "parse_intent s =
     (let trimmed = trim s;
          name = (case strip_prefix ''intent.'' trimmed of Some n \<Rightarrow> n | None \<Rightarrow> trimmed)
      in intent_of_name name)"

fun wire_name :: "intent \<Rightarrow> string" where
  "wire_name ISearch = ''intent.search''"
| "wire_name IDescribe = ''intent.describe''"
| "wire_name IQuote = ''intent.quote''"
| "wire_name INegotiate = ''intent.negotiate''"
| "wire_name IAuthorize = ''intent.authorize''"
| "wire_name IBuy = ''intent.buy''"
| "wire_name IPay = ''intent.pay''"
| "wire_name ISubscribe = ''intent.subscribe''"
| "wire_name IRenew = ''intent.renew''"
| "wire_name IPause = ''intent.pause''"
| "wire_name ICancelSubscription = ''intent.cancel_subscription''"
| "wire_name ITrack = ''intent.track''"
| "wire_name IConfirmReceipt = ''intent.confirm_receipt''"
| "wire_name IReturn = ''intent.return''"
| "wire_name IRefundRequest = ''intent.refund_request''"
| "wire_name IA2aPay = ''intent.a2a_pay''"
| "wire_name IA2aQuote = ''intent.a2a_quote''"

section \<open>Classification\<close>

fun scope :: "intent \<Rightarrow> string option" where
  "scope ISearch = None"
| "scope IDescribe = None"
| "scope IQuote = Some ''quote''"
| "scope INegotiate = Some ''quote''"
| "scope IAuthorize = Some ''buy''"
| "scope IBuy = Some ''buy''"
| "scope IPay = Some ''buy''"
| "scope ISubscribe = Some ''subscribe''"
| "scope IRenew = Some ''subscribe''"
| "scope IPause = Some ''subscribe''"
| "scope ICancelSubscription = Some ''subscribe''"
| "scope ITrack = Some ''fulfill''"
| "scope IConfirmReceipt = Some ''fulfill''"
| "scope IReturn = Some ''return''"
| "scope IRefundRequest = Some ''return''"
| "scope IA2aPay = Some ''pay_peer''"
| "scope IA2aQuote = Some ''pay_peer''"

definition is_state_change :: "intent \<Rightarrow> bool" where
  "is_state_change i \<longleftrightarrow> \<not> (i = ISearch \<or> i = IDescribe \<or> i = ITrack)"

definition is_implemented :: "intent \<Rightarrow> bool" where
  "is_implemented i \<longleftrightarrow> i \<in> {ISearch, IDescribe, IQuote, IAuthorize, IBuy, IPay, ITrack, IReturn, IRefundRequest, ISubscribe, IRenew, IPause, ICancelSubscription, IA2aQuote, IA2aPay, INegotiate, IConfirmReceipt}"

section \<open>Properties\<close>

lemma core_intents_complete: "set core_intents = UNIV" "distinct core_intents"
proof -
  show "set core_intents = UNIV"
    unfolding core_intents_def using intent.exhaust by auto
  show "distinct core_intents" by (simp add: core_intents_def)
qed

lemma all_implemented: "is_implemented i"
  by (cases i) (simp_all add: is_implemented_def)

text \<open>No wire name starts or ends with white space, so trimming keeps it.\<close>

lemma trim_wire_name: "trim (wire_name i) = wire_name i"
  by (rule trim_graphic; cases i) (simp_all add: graphic_def)

lemma intent_names_distinct: "distinct (map fst intent_names)"
  by (simp add: intent_names_def)

lemma intent_names_wire: "(n, i) \<in> set intent_names \<longleftrightarrow> wire_name i = ''intent.'' @ n"
  by (cases i) (auto simp: intent_names_def)

lemma intent_of_name_iff: "intent_of_name n = Inr i \<longleftrightarrow> wire_name i = ''intent.'' @ n"
proof -
  have "intent_of_name n = Inr i \<longleftrightarrow> map_of intent_names n = Some i"
    by (simp add: intent_of_name_def split: option.splits)
  also have "\<dots> \<longleftrightarrow> (n, i) \<in> set intent_names"
    by (rule map_of_eq_Some_iff [OF intent_names_distinct])
  finally show ?thesis by (simp only: intent_names_wire)
qed

text \<open>C1 (roundtrip). Every intent of the catalogue is parsed back from its wire name,
  and the wire name of a parsed intent is the canonical form of the input: the input
  trimmed, with the prefix \<open>intent.\<close> added unless it is there. So exactly the
  seventeen canonical names (with or without the prefix, modulo surrounding white space)
  are accepted.\<close>

theorem parse_intent_roundtrip:
  "parse_intent (wire_name i) = Inr i \<and>
   (parse_intent s = Inr j \<longleftrightarrow>
      wire_name j = trim s \<or>
      (strip_prefix ''intent.'' (trim s) = None \<and> wire_name j = ''intent.'' @ trim s))"
proof
  have parse: "parse_intent t = Inr k \<longleftrightarrow>
      (case strip_prefix ''intent.'' (trim t) of
         Some n \<Rightarrow> trim t = wire_name k
       | None \<Rightarrow> wire_name k = ''intent.'' @ trim t)" for t k
    by (auto simp: parse_intent_def Let_def intent_of_name_iff strip_prefix_Some
          strip_prefix_None simp del: append_Cons split: option.splits)
  have prefixed: "\<exists>n. strip_prefix ''intent.'' (wire_name k) = Some n" for k
    by (cases k) (simp_all add: strip_prefix_Some)
  show "parse_intent (wire_name i) = Inr i"
    using prefixed [of i] by (auto simp: parse trim_wire_name)
  show "parse_intent s = Inr j \<longleftrightarrow>
      wire_name j = trim s \<or>
      (strip_prefix ''intent.'' (trim s) = None \<and> wire_name j = ''intent.'' @ trim s)"
    using prefixed [of j]
    by (auto simp: parse strip_prefix_None strip_prefix_Some simp del: append_Cons
        split: option.splits)
qed

end
