(* ===== verification/Service_State.thy ===== *)
theory Service_State
  imports Mandate Webhook Receipts Intent
begin

text \<open>
  The state of the intent pipeline (\<open>IcpService\<close> in \<open>src/service/mod.rs\<close>) and what every
  intent family shares (\<open>src/service/helpers.rs\<close>): the stores, the ledger, the outbox and the
  event bus in one record; the handler's error-and-state plumbing; tenant-scoped lookups; the
  mandate reservation; the webhook fan-out; a fresh transaction; and the persistence of an
  order. Handlers run under the per-aggregate locks of the service, so one call is one atomic
  step on the state. The clock, the fresh identifiers, the commerce engine and the JSON codecs
  are the environment of a call: the \<open>i\<close>-th use of the clock in a handler reads \<open>e_now E i\<close>.
\<close>

section \<open>Environment\<close>

record config =
  cf_icp_version :: string
  cf_require_mandate :: bool
  cf_verify_mandate_signatures :: bool
  cf_public_base_url :: string
  cf_webhook_url :: "string option"
  cf_webhook_secret :: "string option"
  cf_deployment_env :: string
  cf_payment_execution_mode :: string
  cf_subscription_dunning_schedule_hours :: "u32 list"
  cf_idempotency_lease_secs :: nat

definition is_production :: "config \<Rightarrow> bool" where
  "is_production c = eq_ignore_ascii_case (cf_deployment_env c) ''production''"

record persisted_order =
  po_id :: string
  po_order_number :: string
  po_total :: money

text \<open>What the embedded engine answers to this call (\<open>src/commerce.rs\<close>). The discount is \<open>None\<close> where
  \<open>compute_discount_minor\<close> panics; \<open>Commerce.engine_of\<close> is the record of the adapter's own functions.\<close>

record engine =
  eg_discount :: "request_item list \<Rightarrow> string \<Rightarrow> address option \<Rightarrow> string list \<Rightarrow> i64 option"
  eg_persist :: "buyer \<Rightarrow> string \<Rightarrow> line_item list \<Rightarrow> totals \<Rightarrow> persisted_order option result"

text \<open>The derived deserialisers of the parameters of each intent.\<close>

record parsers =
  pa_quote :: "json \<Rightarrow> string + quote_params"
  pa_authorize :: "json \<Rightarrow> string + authorize_params"
  pa_buy :: "json \<Rightarrow> string + buy_params"
  pa_subscribe :: "json \<Rightarrow> string + subscribe_params"
  pa_renew :: "json \<Rightarrow> string + renew_params"
  pa_subscription_ref :: "json \<Rightarrow> string + subscription_ref_params"
  pa_a2a_quote :: "json \<Rightarrow> string + a2a_quote_params"
  pa_a2a_pay :: "json \<Rightarrow> string + a2a_pay_params"
  pa_negotiate :: "json \<Rightarrow> string + negotiate_params"
  pa_confirm_receipt :: "json \<Rightarrow> string + confirm_receipt_params"

record event =
  et_id :: string
  et_type :: string
  et_transaction_id :: "string option"
  et_order_id :: "string option"
  et_agent_id :: "string option"
  et_occurred_at :: time
  et_payload :: json

record env =
  e_cfg :: config
  e_chrono :: chrono
  e_crypto :: crypto
  e_parse :: parsers
  e_sig_lib :: sig_lib
  e_signer :: receipt_signer
  e_body_jcs :: "intent_response_body \<Rightarrow> string + string"
  e_body_json :: "intent_response_body \<Rightarrow> json"
  e_event_text :: "event \<Rightarrow> string"
  e_json_text :: "json \<Rightarrow> string"
  e_f64_text :: "rat \<Rightarrow> string"
  e_timestamp :: "time \<Rightarrow> i64"
  e_engine :: "engine option"
  e_now :: "nat \<Rightarrow> time"
  e_uuid :: "nat \<Rightarrow> string"

record intent_input =
  in_envelope :: intent_envelope
  in_agent :: agent_identifier
  in_tenant :: api_key_info
  in_mandate_jws :: "string option"
  in_request_id :: string
  in_trace_id :: "string option"
  in_skip_mandate_check :: bool
  in_skip_rate_limit :: bool

definition for_icp ::
  "intent_envelope \<Rightarrow> agent_identifier \<Rightarrow> api_key_info \<Rightarrow> string option \<Rightarrow> string \<Rightarrow> string option
    \<Rightarrow> intent_input" where
  "for_icp envelope agent tenant mandate_jws request_id trace_id =
     \<lparr>in_envelope = envelope, in_agent = agent, in_tenant = tenant, in_mandate_jws = mandate_jws,
      in_request_id = request_id, in_trace_id = trace_id, in_skip_mandate_check = False,
      in_skip_rate_limit = True\<rparr>"

definition for_compat ::
  "intent_envelope \<Rightarrow> agent_identifier \<Rightarrow> api_key_info \<Rightarrow> string \<Rightarrow> string option \<Rightarrow> intent_input" where
  "for_compat envelope agent tenant request_id trace_id =
     \<lparr>in_envelope = envelope, in_agent = agent, in_tenant = tenant, in_mandate_jws = None,
      in_request_id = request_id, in_trace_id = trace_id, in_skip_mandate_check = True,
      in_skip_rate_limit = False\<rparr>"

abbreviation in_tenant_id :: "intent_input \<Rightarrow> string" where
  "in_tenant_id i \<equiv> ak_tenant_id (in_tenant i)"

abbreviation in_agent_raw :: "intent_input \<Rightarrow> string" where
  "in_agent_raw i \<equiv> ag_raw (in_agent i)"

section \<open>State\<close>

record icp =
  ic_txns :: "(string, transaction) store"
  ic_subs :: "(string, subscription) store"
  ic_quotes :: "(string, peer_quote) store"
  ic_ledger :: ledger
  ic_receipts :: receipts
  ic_outbox :: outbox
  ic_subscribers :: subscribers
  ic_bus :: "event list"

type_synonym 'a handler = "icp \<Rightarrow> 'a exec \<times> icp"

record outcome =
  oc_transaction :: transaction
  oc_order :: "order_summary option"
  oc_subscription :: "subscription option"
  oc_peer_quote :: "peer_quote option"

definition txn_outcome :: "transaction \<Rightarrow> outcome" where
  "txn_outcome t = \<lparr>oc_transaction = t, oc_order = None, oc_subscription = None, oc_peer_quote = None\<rparr>"

section \<open>Errors and state\<close>

text \<open>A failing step ends the handler and keeps what was already written.\<close>

definition ret :: "'a \<Rightarrow> 'a handler" where
  "ret x = (\<lambda>s. (Inr x, s))"

definition raise :: "api_error \<Rightarrow> 'a handler" where
  "raise e = (\<lambda>s. (Inl (Fail e), s))"

definition of_exec :: "'a exec \<Rightarrow> 'a handler" where
  "of_exec r = (\<lambda>s. (r, s))"

definition of_result :: "'a result \<Rightarrow> 'a handler" where
  "of_result r = (\<lambda>s. (lift_result r, s))"

definition asks :: "(icp \<Rightarrow> 'a) \<Rightarrow> 'a handler" where
  "asks f = (\<lambda>s. (Inr (f s), s))"

definition modify :: "(icp \<Rightarrow> icp) \<Rightarrow> unit handler" where
  "modify f = (\<lambda>s. (Inr (), f s))"

definition andthen :: "'a handler \<Rightarrow> ('a \<Rightarrow> 'b handler) \<Rightarrow> 'b handler" where
  "andthen m f = (\<lambda>s. case m s of (Inl e, s') \<Rightarrow> (Inl e, s') | (Inr x, s') \<Rightarrow> f x s')"

definition guard :: "bool \<Rightarrow> api_error \<Rightarrow> unit handler" where
  "guard b e = (if b then ret () else raise e)"

text \<open>\<open>Option::ok_or\<close>, and \<open>expect\<close>, which panics.\<close>

definition some_or :: "'a option \<Rightarrow> api_error \<Rightarrow> 'a handler" where
  "some_or x e = (case x of Some v \<Rightarrow> ret v | None \<Rightarrow> raise e)"

definition expect_some :: "'a option \<Rightarrow> 'a handler" where
  "expect_some x = (case x of Some v \<Rightarrow> ret v | None \<Rightarrow> of_exec (Inl Panic))"

text \<open>\<open>serde_json::from_value(..).map_err(|e| InvalidRequest(format!("<what>: {e}")))\<close>.\<close>

definition parsed :: "string + 'a \<Rightarrow> string \<Rightarrow> 'a handler" where
  "parsed r what = (case r of Inr p \<Rightarrow> ret p | Inl e \<Rightarrow> raise (InvalidRequest (what @ '': '' @ e)))"

section \<open>Stores\<close>

definition txn_insert :: "transaction \<Rightarrow> unit handler" where
  "txn_insert t = modify (\<lambda>s. s\<lparr>ic_txns := st_put (txn_id t) t (ic_txns s)\<rparr>)"

definition sub_insert :: "subscription \<Rightarrow> unit handler" where
  "sub_insert x = modify (\<lambda>s. s\<lparr>ic_subs := st_put (sub_id x) x (ic_subs s)\<rparr>)"

definition quote_insert :: "peer_quote \<Rightarrow> unit handler" where
  "quote_insert q = modify (\<lambda>s. s\<lparr>ic_quotes := st_put (pq_id q) q (ic_quotes s)\<rparr>)"

definition txn_update :: "string \<Rightarrow> (transaction \<Rightarrow> transaction) \<Rightarrow> transaction option handler" where
  "txn_update tid f = (\<lambda>s. case st_get (ic_txns s) tid of
      Some t \<Rightarrow> (Inr (Some (f t)), s\<lparr>ic_txns := st_put tid (f t) (ic_txns s)\<rparr>)
    | None \<Rightarrow> (Inr None, s))"

definition sub_update :: "string \<Rightarrow> (subscription \<Rightarrow> subscription) \<Rightarrow> subscription option handler" where
  "sub_update sid f = (\<lambda>s. case st_get (ic_subs s) sid of
      Some x \<Rightarrow> (Inr (Some (f x)), s\<lparr>ic_subs := st_put sid (f x) (ic_subs s)\<rparr>)
    | None \<Rightarrow> (Inr None, s))"

definition quote_update :: "string \<Rightarrow> (peer_quote \<Rightarrow> peer_quote) \<Rightarrow> peer_quote option handler" where
  "quote_update qid f = (\<lambda>s. case st_get (ic_quotes s) qid of
      Some q \<Rightarrow> (Inr (Some (f q)), s\<lparr>ic_quotes := st_put qid (f q) (ic_quotes s)\<rparr>)
    | None \<Rightarrow> (Inr None, s))"

section \<open>Tenant-scoped lookups\<close>

definition transaction_for_input :: "string \<Rightarrow> intent_input \<Rightarrow> transaction handler" where
  "transaction_for_input tid inp = (\<lambda>s. case st_get (ic_txns s) tid of
      None \<Rightarrow> (Inl (Fail (ResourceNotFound (''transaction '' @ tid))), s)
    | Some t \<Rightarrow> if txn_tenant_id t = in_tenant_id inp then (Inr t, s)
                else (Inl (Fail (ResourceNotFound (''transaction '' @ tid))), s))"

definition ensure_transaction_owner :: "string \<Rightarrow> intent_input \<Rightarrow> unit handler" where
  "ensure_transaction_owner tid inp = andthen (transaction_for_input tid inp) (\<lambda>_. ret ())"

definition subscription_for_input :: "string \<Rightarrow> intent_input \<Rightarrow> subscription handler" where
  "subscription_for_input sid inp = (\<lambda>s. case st_get (ic_subs s) sid of
      None \<Rightarrow> (Inl (Fail (ResourceNotFound (''subscription '' @ sid))), s)
    | Some x \<Rightarrow> if sub_tenant_id x = in_tenant_id inp then (Inr x, s)
                else (Inl (Fail (ResourceNotFound (''subscription '' @ sid))), s))"

definition peer_quote_for_input :: "string \<Rightarrow> intent_input \<Rightarrow> peer_quote handler" where
  "peer_quote_for_input qid inp = (\<lambda>s. case st_get (ic_quotes s) qid of
      None \<Rightarrow> (Inl (Fail (ResourceNotFound (''peer_quote '' @ qid))), s)
    | Some q \<Rightarrow> if pq_tenant_id q = in_tenant_id inp then (Inr q, s)
                else (Inl (Fail (ResourceNotFound (''peer_quote '' @ qid))), s))"

section \<open>Shared steps\<close>

definition pre_auth :: "transaction_state \<Rightarrow> bool" where
  "pre_auth st \<longleftrightarrow> st = Draft \<or> st = Quoted"

definition quote_expired :: "transaction \<Rightarrow> time \<Rightarrow> bool" where
  "quote_expired t now = (case txn_quote_expires_at t of Some x \<Rightarrow> x \<le> now | None \<Rightarrow> False)"

definition ensure_quote_open :: "transaction \<Rightarrow> time \<Rightarrow> unit handler" where
  "ensure_quote_open txn now =
     (if quote_expired txn now then
        andthen
          (if pre_auth (txn_state txn) then
             txn_update (txn_id txn) (\<lambda>t.
               if pre_auth (txn_state t) \<and> quote_expired t now
               then t\<lparr>txn_state := Expired, txn_updated_at := now\<rparr> else t)
           else ret None)
          (\<lambda>_. raise (PreconditionFailed (''transaction '' @ txn_id txn @ '' quote has expired'')))
      else ret ())"

definition reserve_mandate_spend ::
  "env \<Rightarrow> time \<Rightarrow> mandate_evaluation option \<Rightarrow> string \<Rightarrow> i64 \<Rightarrow> string \<Rightarrow> unit handler" where
  "reserve_mandate_spend E now mandate tenant_id amount currency =
     (case mandate of
        None \<Rightarrow> ret ()
      | Some ev \<Rightarrow>
        if amount \<le> 0 then ret ()
        else
          let budget = mt_budget (md_icp (ev_payload ev)) in
          if \<not> eq_ignore_ascii_case (mb_currency budget) currency then
            raise (MandateOutOfScope (''mandate budget currency `'' @ mb_currency budget
              @ ''` does not match charge currency `'' @ currency @ ''`''))
          else
            andthen (of_exec (budget_window (e_chrono E) (mb_period budget))) (\<lambda>w s.
              case mem_spend_checked (ic_ledger s) (md_jti (ev_payload ev)) tenant_id amount now
                     (spend_limits_of budget w) of
                (r, l) \<Rightarrow> (lift_result r, s\<lparr>ic_ledger := l\<rparr>)))"

text \<open>The destinations of an event of a tenant.\<close>

definition webhook_destinations :: "config \<Rightarrow> subscribers \<Rightarrow> string option \<Rightarrow> string list" where
  "webhook_destinations c subs tenant_id =
     (let per_tenant = (case tenant_id of
            Some t \<Rightarrow> map ws_url (ws_list_active_for_tenant t subs) | None \<Rightarrow> [])
      in if per_tenant = [] then
           (case (cf_webhook_url c, cf_webhook_secret c) of
              (Some url, Some _) \<Rightarrow> [url] | _ \<Rightarrow> [])
         else per_tenant)"

definition delivery_for ::
  "env \<Rightarrow> time \<Rightarrow> event \<Rightarrow> string option \<Rightarrow> string \<Rightarrow> string \<Rightarrow> webhook_delivery" where
  "delivery_for E now ev tenant_id uuid url =
     \<lparr>dl_id = ''del_'' @ uuid, dl_event_id = et_id ev, dl_event_type = et_type ev, dl_url = url,
      dl_payload_json = e_event_text E ev, dl_status = DsPending, dl_attempts = 0,
      dl_max_attempts = default_max_attempts, dl_next_attempt_at = now, dl_last_status_code = None,
      dl_last_error = None, dl_created_at = now, dl_updated_at = now, dl_delivered_at = None,
      dl_tenant_id = (case tenant_id of Some t \<Rightarrow> t | None \<Rightarrow> [])\<rparr>"

text \<open>\<open>uuids\<close> gives the identifier of each delivery of the fan-out.\<close>

definition enqueue_webhook ::
  "env \<Rightarrow> time \<Rightarrow> (nat \<Rightarrow> string) \<Rightarrow> event \<Rightarrow> string option \<Rightarrow> unit handler" where
  "enqueue_webhook E now uuids ev tenant_id = modify (\<lambda>s.
     let urls = webhook_destinations (e_cfg E) (ic_subscribers s) tenant_id
     in s\<lparr>ic_outbox := fold (\<lambda>(i, url) ob. ob_enqueue (delivery_for E now ev tenant_id (uuids i) url) ob)
            (zip [0 ..< length urls] urls) (ic_outbox s)\<rparr>)"

definition emit :: "event \<Rightarrow> unit handler" where
  "emit ev = modify (\<lambda>s. s\<lparr>ic_bus := ic_bus s @ [ev]\<rparr>)"

definition context_currency :: "intent_input \<Rightarrow> string" where
  "context_currency inp =
     (case cx_currency (en_context (in_envelope inp)) of Some c \<Rightarrow> c | None \<Rightarrow> ''USD'')"

definition fresh_transaction :: "env \<Rightarrow> intent_input \<Rightarrow> transaction_state \<Rightarrow> transaction" where
  "fresh_transaction E inp st =
     \<lparr>txn_id = (case en_transaction_id (in_envelope inp) of
          Some t \<Rightarrow> t | None \<Rightarrow> ''txn_'' @ e_uuid E 0),
      txn_state = st, txn_agent_id = in_agent_raw inp, txn_tenant_id = in_tenant_id inp,
      txn_mandate_jti = en_mandate_jti (in_envelope inp), txn_currency = context_currency inp,
      txn_jurisdiction = cx_jurisdiction (en_context (in_envelope inp)), txn_buyer = buyer_default,
      txn_ship_to = None, txn_bill_to = None, txn_line_items = [], txn_totals = totals_default,
      txn_order_id = None, txn_quote_expires_at = None, txn_created_at = e_now E 0,
      txn_updated_at = e_now E 1, txn_external_refs = []\<rparr>"

definition persist_order_for_transaction :: "env \<Rightarrow> transaction \<Rightarrow> order_summary option exec" where
  "persist_order_for_transaction E txn =
     bind_result
       (case e_engine E of
          Some eg \<Rightarrow>
            (case eg_persist eg (txn_buyer txn) (txn_currency txn) (txn_line_items txn) (txn_totals txn) of
               Inr (Some order) \<Rightarrow> Inr (Some order)
             | Inr None \<Rightarrow>
                 if is_production (e_cfg E) then
                   Inl (Fail (PreconditionFailed ''buyer email is required to persist a production order''))
                 else Inr None
             | Inl err \<Rightarrow> if is_production (e_cfg E) then Inl (Fail err) else Inr None)
        | None \<Rightarrow>
            if is_production (e_cfg E) then Inl (Fail (EngineUnavailable ''iCommerce engine unavailable''))
            else Inr None)
       (\<lambda>order. Inr (map_option (\<lambda>po.
          \<lparr>os_id = po_id po, os_order_number = po_order_number po, os_status = ''created'',
           os_permalink_url = None, os_total = po_total po\<rparr>) order))"

section \<open>Symbolic execution\<close>

text \<open>
  \<open>ends m s Q F\<close>: started in \<open>s\<close>, \<open>m\<close> ends with a value and a state satisfying \<open>Q\<close>, or with
  a fault and a state satisfying \<open>F\<close>. The rules in \<open>wp\<close> compute it for every building block, so
  the properties of a handler follow by simplification over its text.
\<close>

named_theorems wp \<open>what a building block of a handler ends in\<close>

definition ends :: "'a handler \<Rightarrow> icp \<Rightarrow> ('a \<Rightarrow> icp \<Rightarrow> bool) \<Rightarrow> (fault \<Rightarrow> icp \<Rightarrow> bool) \<Rightarrow> bool" where
  "ends m s Q F = (case m s of (Inl e, s') \<Rightarrow> F e s' | (Inr x, s') \<Rightarrow> Q x s')"

lemma ends_result: "ends m s Q F \<Longrightarrow> m s = (r, s') \<Longrightarrow> (case r of Inl e \<Rightarrow> F e s' | Inr x \<Rightarrow> Q x s')"
  by (simp add: ends_def split: sum.splits)

lemma ends_Inr: "ends m s Q F \<Longrightarrow> m s = (Inr x, s') \<Longrightarrow> Q x s'"
  and ends_Inl: "ends m s Q F \<Longrightarrow> m s = (Inl e, s') \<Longrightarrow> F e s'"
  by (simp_all add: ends_def)

lemma ends_mono:
  "ends m s Q F \<Longrightarrow> (\<And>x s'. Q x s' \<Longrightarrow> Q' x s') \<Longrightarrow> (\<And>e s'. F e s' \<Longrightarrow> F' e s') \<Longrightarrow> ends m s Q' F'"
  by (auto simp: ends_def split: prod.splits sum.splits)

lemma ends_conj:
  "ends m s Q F \<Longrightarrow> ends m s Q' F' \<Longrightarrow> ends m s (\<lambda>x s'. Q x s' \<and> Q' x s') (\<lambda>e s'. F e s' \<and> F' e s')"
  by (auto simp: ends_def split: prod.splits sum.splits)

lemma ends_basic [wp]:
  "ends (ret x) s Q F = Q x s"
  "ends (raise e) s Q F = F (Fail e) s"
  "ends (of_exec r) s Q F = (case r of Inl e \<Rightarrow> F e s | Inr v \<Rightarrow> Q v s)"
  "ends (of_result p) s Q F = (case p of Inl e \<Rightarrow> F (Fail e) s | Inr v \<Rightarrow> Q v s)"
  "ends (asks g) s Q F = Q (g s) s"
  by (simp_all add: ends_def ret_def raise_def of_exec_def of_result_def asks_def lift_result_def
      split: sum.split)

lemma ends_modify [wp]: "ends (modify g) s Q F = Q () (g s)"
  by (simp add: ends_def modify_def)

lemma ends_andthen [wp]:
  "ends (andthen m f) s Q F = ends m s (\<lambda>x s'. ends (f x) s' Q F) F"
  by (auto simp: ends_def andthen_def split: prod.splits sum.splits)

lemma ends_options [wp]:
  "ends (guard b e) s Qu F = (if b then Qu () s else F (Fail e) s)"
  "ends (some_or x e) s Q F = (case x of Some v \<Rightarrow> Q v s | None \<Rightarrow> F (Fail e) s)"
  "ends (expect_some x) s Q F = (case x of Some v \<Rightarrow> Q v s | None \<Rightarrow> F Panic s)"
  "ends (parsed r what) s Q F =
     (case r of Inr p \<Rightarrow> Q p s | Inl t \<Rightarrow> F (Fail (InvalidRequest (what @ '': '' @ t))) s)"
  by (simp_all add: guard_def some_or_def expect_some_def parsed_def wp split: option.split sum.split)

lemma ends_stores [wp]:
  "ends (txn_insert t) s Qu F = Qu () (s\<lparr>ic_txns := st_put (txn_id t) t (ic_txns s)\<rparr>)"
  "ends (sub_insert x) s Qu F = Qu () (s\<lparr>ic_subs := st_put (sub_id x) x (ic_subs s)\<rparr>)"
  "ends (quote_insert q) s Qu F = Qu () (s\<lparr>ic_quotes := st_put (pq_id q) q (ic_quotes s)\<rparr>)"
  by (simp_all add: txn_insert_def sub_insert_def quote_insert_def wp)

lemma ends_updates [wp]:
  "ends (txn_update tid ft) s Qt F = (case st_get (ic_txns s) tid of
      Some t \<Rightarrow> Qt (Some (ft t)) (s\<lparr>ic_txns := st_put tid (ft t) (ic_txns s)\<rparr>) | None \<Rightarrow> Qt None s)"
  "ends (sub_update sid fs) s Qs F = (case st_get (ic_subs s) sid of
      Some x \<Rightarrow> Qs (Some (fs x)) (s\<lparr>ic_subs := st_put sid (fs x) (ic_subs s)\<rparr>) | None \<Rightarrow> Qs None s)"
  "ends (quote_update qid fq) s Qq F = (case st_get (ic_quotes s) qid of
      Some q \<Rightarrow> Qq (Some (fq q)) (s\<lparr>ic_quotes := st_put qid (fq q) (ic_quotes s)\<rparr>) | None \<Rightarrow> Qq None s)"
  by (simp_all add: ends_def txn_update_def sub_update_def quote_update_def split: option.split)

lemma ends_lookups [wp]:
  "ends (transaction_for_input tid inp) s Qt F = (case st_get (ic_txns s) tid of
      None \<Rightarrow> F (Fail (ResourceNotFound (''transaction '' @ tid))) s
    | Some t \<Rightarrow> if txn_tenant_id t = in_tenant_id inp then Qt t s
                else F (Fail (ResourceNotFound (''transaction '' @ tid))) s)"
  "ends (subscription_for_input sid inp) s Qs F = (case st_get (ic_subs s) sid of
      None \<Rightarrow> F (Fail (ResourceNotFound (''subscription '' @ sid))) s
    | Some x \<Rightarrow> if sub_tenant_id x = in_tenant_id inp then Qs x s
                else F (Fail (ResourceNotFound (''subscription '' @ sid))) s)"
  "ends (peer_quote_for_input qid inp) s Qq F = (case st_get (ic_quotes s) qid of
      None \<Rightarrow> F (Fail (ResourceNotFound (''peer_quote '' @ qid))) s
    | Some q \<Rightarrow> if pq_tenant_id q = in_tenant_id inp then Qq q s
                else F (Fail (ResourceNotFound (''peer_quote '' @ qid))) s)"
  by (simp_all add: ends_def transaction_for_input_def subscription_for_input_def
      peer_quote_for_input_def split: option.split)

lemma ends_owner [wp]:
  "ends (ensure_transaction_owner tid inp) s Q F =
     ends (transaction_for_input tid inp) s (\<lambda>_. Q ()) F"
  by (simp add: ensure_transaction_owner_def wp)

text \<open>An expired quote is closed, if it is still open, and the intent refused.\<close>

lemma ends_quote_open [wp]:
  "ends (ensure_quote_open txn now) s Qu F =
     (if quote_expired txn now then
        F (Fail (PreconditionFailed (''transaction '' @ txn_id txn @ '' quote has expired'')))
          (if pre_auth (txn_state txn) then
             (case st_get (ic_txns s) (txn_id txn) of
                Some t \<Rightarrow> s\<lparr>ic_txns := st_put (txn_id txn)
                    (if pre_auth (txn_state t) \<and> quote_expired t now
                     then t\<lparr>txn_state := Expired, txn_updated_at := now\<rparr> else t) (ic_txns s)\<rparr>
              | None \<Rightarrow> s)
           else s)
      else Qu () s)"
  by (cases "quote_expired txn now"; cases "pre_auth (txn_state txn)"; cases "st_get (ic_txns s) (txn_id txn)")
    (simp_all add: ensure_quote_open_def wp del: append_Cons split del: if_split)

text \<open>A reservation changes the ledger only, and only on behalf of the tenant.\<close>

definition ledger_step :: "string \<Rightarrow> ledger \<Rightarrow> ledger \<Rightarrow> bool" where
  "ledger_step tenant l l' \<longleftrightarrow>
     l' = l \<or> (\<exists>jti a now L. l' = snd (mem_spend_checked l jti tenant a now L))"

lemma ends_reserve:
  assumes "\<And>l. ledger_step tenant (ic_ledger s) l \<Longrightarrow> Q () (s\<lparr>ic_ledger := l\<rparr>)"
    and "\<And>e l. ledger_step tenant (ic_ledger s) l \<Longrightarrow> (mandate = None \<longrightarrow> False) \<Longrightarrow>
      (e = Panic \<longrightarrow> (\<exists>ev. mandate = Some ev \<and>
          parse_period (e_chrono E) (mb_period (mt_budget (md_icp (ev_payload ev)))) = PeriodPanic)) \<Longrightarrow>
      F e (s\<lparr>ic_ledger := l\<rparr>)"
  shows "ends (reserve_mandate_spend E now mandate tenant amount currency) s Q F"
proof -
  have self: "ledger_step tenant (ic_ledger s) (ic_ledger s)" by (simp add: ledger_step_def)
  have same: "Q () s" using assms(1) [OF self] by simp
  have bad: "F (Fail e) s" if "mandate \<noteq> None" for e
    using assms(2) [OF self, of "Fail e"] that by simp
  have panic: "F Panic s" if "mandate = Some ev"
      "parse_period (e_chrono E) (mb_period (mt_budget (md_icp (ev_payload ev)))) = PeriodPanic" for ev
    using assms(2) [OF self, of Panic] that by simp
  have step: "ledger_step tenant (ic_ledger s) l"
    if "mem_spend_checked (ic_ledger s) jti tenant a now L = (r, l)" for jti a now L r l
    using that unfolding ledger_step_def by (metis snd_conv)
  show ?thesis
  proof (cases mandate)
    case None
    then show ?thesis by (simp add: reserve_mandate_spend_def wp same)
  next
    case (Some ev)
    have "ends (\<lambda>s. case mem_spend_checked (ic_ledger s) jti tenant a now L of
        (r, l) \<Rightarrow> (lift_result r, s\<lparr>ic_ledger := l\<rparr>)) s Q F" for jti a L
    proof -
      obtain r l where spend: "mem_spend_checked (ic_ledger s) jti tenant a now L = (r, l)"
        by (rule prod.exhaust)
      show ?thesis
        using assms(1) [OF step [OF spend]] assms(2) [OF step [OF spend]] Some
        by (cases r) (simp_all add: ends_def spend)
    qed
    then show ?thesis
      using same bad panic Some
      by (auto simp: reserve_mandate_spend_def wp Let_def budget_window_def split: period.split)
  qed
qed

end
