(* ===== verification/Access.thy ===== *)
theory Access
  imports Models Errors
begin

text \<open>
  Who may call, and how often: the fixed-window rate limiters (\<open>src/rate_limit.rs\<close>) with the
  choice between the local and the distributed one (\<open>src/service/mod.rs\<close>), the API keys and
  agent identifiers (\<open>src/agent.rs\<close>), and the checks the transports share
  (\<open>src/auth.rs\<close>, \<open>src/handlers/mod.rs\<close>).
\<close>

section \<open>The local rate limiter\<close>

datatype rate_limit_decision =
    Allowed u32 u32 nat
  | Denied u32 nat

record bucket =
  bk_used :: u32
  bk_window_start :: time

type_synonym buckets = "(string, bucket) store"

record rate_limiter =
  rl_default_capacity :: u32
  rl_window :: duration
  rl_buckets :: buckets

definition per_minute :: "u32 \<Rightarrow> rate_limiter" where
  "per_minute capacity = \<lparr>rl_default_capacity = capacity, rl_window = secs 60, rl_buckets = []\<rparr>"

text \<open>\<open>Duration::as_secs\<close> and \<open>saturating_duration_since\<close>.\<close>

definition as_secs :: "duration \<Rightarrow> nat" where
  "as_secs d = nat (d div 1000000000)"

definition since :: "time \<Rightarrow> time \<Rightarrow> duration" where
  "since now start = max 0 (now - start)"

definition sat_sub_u32 :: "u32 \<Rightarrow> u32 \<Rightarrow> u32" where
  "sat_sub_u32 a b = (if a < b then 0 else a - b)"

text \<open>One request on one bucket.\<close>

definition bucket_step :: "duration \<Rightarrow> u32 \<Rightarrow> time \<Rightarrow> bucket \<Rightarrow> rate_limit_decision \<times> bucket" where
  "bucket_step window capacity now b0 =
     (let b = (if window \<le> since now (bk_window_start b0) then \<lparr>bk_used = 0, bk_window_start = now\<rparr> else b0);
          reset_in_secs = max 1 (as_secs (max 0 (window - since now (bk_window_start b))))
      in if capacity \<le> bk_used b then (Denied capacity reset_in_secs, b)
         else let used = sat_inc_u32 (bk_used b)
              in (Allowed capacity (sat_sub_u32 capacity used) reset_in_secs, b\<lparr>bk_used := used\<rparr>))"

text \<open>A mutex stays poisoned: \<open>into_inner\<close> does not clear it.\<close>

definition check_at ::
  "bool \<Rightarrow> duration \<Rightarrow> string \<Rightarrow> u32 \<Rightarrow> time \<Rightarrow> buckets \<Rightarrow> rate_limit_decision \<times> buckets" where
  "check_at poisoned window tenant_id capacity now bs =
     (if poisoned then (Denied capacity 1, st_remove tenant_id bs)
      else
        let b0 = (case st_get bs tenant_id of Some b \<Rightarrow> b
                  | None \<Rightarrow> \<lparr>bk_used = 0, bk_window_start = now\<rparr>);
            (d, b) = bucket_step window capacity now b0
        in (d, st_put tenant_id b bs))"

definition rl_check ::
  "bool \<Rightarrow> string \<Rightarrow> u32 option \<Rightarrow> time \<Rightarrow> rate_limiter \<Rightarrow> rate_limit_decision \<times> rate_limiter" where
  "rl_check poisoned tenant_id tenant_capacity now rl =
     (let cap = (case tenant_capacity of Some c \<Rightarrow> c | None \<Rightarrow> rl_default_capacity rl)
      in if cap = 0 then (Allowed 0 (- 1) (as_secs (rl_window rl)), rl)
         else case check_at poisoned (rl_window rl) tenant_id cap now (rl_buckets rl) of
           (d, bs) \<Rightarrow> (d, rl\<lparr>rl_buckets := bs\<rparr>))"

definition rl_clear :: "rate_limiter \<Rightarrow> rate_limiter" where
  "rl_clear rl = rl\<lparr>rl_buckets := []\<rparr>"

section \<open>The distributed rate limiter\<close>

text \<open>\<open>sha\<close> is the hexadecimal SHA-256 of the bucket id, \<open>eval\<close> the answer of Redis to the
  increment script on a key with a time to live: the count after the increment, or an error.\<close>

record redis_rate_limiter =
  rr_default_capacity :: u32
  rr_window :: duration
  rr_prefix :: string

definition redis_key :: "(string \<Rightarrow> string) \<Rightarrow> redis_rate_limiter \<Rightarrow> string \<Rightarrow> nat \<Rightarrow> string" where
  "redis_key sha rr bucket_id window_index =
     rr_prefix rr @ '':'' @ show_nat window_index @ '':'' @ sha bucket_id"

definition check_at_epoch ::
  "(string \<Rightarrow> string) \<Rightarrow> (string \<Rightarrow> int \<Rightarrow> string + i64) \<Rightarrow> redis_rate_limiter \<Rightarrow> string \<Rightarrow> u32 \<Rightarrow> nat
     \<Rightarrow> string + rate_limit_decision" where
  "check_at_epoch sha eval rr bucket_id capacity now_secs =
     (let window_secs = max 1 (as_secs (rr_window rr));
          window_index = now_secs div window_secs;
          reset_in_secs = max 1 (window_secs - now_secs mod window_secs)
      in case eval (redis_key sha rr bucket_id window_index) (int window_secs + 1) of
           Inl e \<Rightarrow> Inl e
         | Inr count \<Rightarrow>
             if int (unat capacity) < count then Inr (Denied capacity reset_in_secs)
             else
               let used = (if 0 \<le> count \<and> count \<le> 4294967295 then word_of_int count else - 1)
               in Inr (Allowed capacity (sat_sub_u32 capacity used) reset_in_secs))"

definition redis_check ::
  "(string \<Rightarrow> string) \<Rightarrow> (string \<Rightarrow> int \<Rightarrow> string + i64) \<Rightarrow> redis_rate_limiter \<Rightarrow> string \<Rightarrow> u32 option \<Rightarrow> nat
     \<Rightarrow> string + rate_limit_decision" where
  "redis_check sha eval rr bucket_id bucket_capacity now_secs =
     (let cap = (case bucket_capacity of Some c \<Rightarrow> c | None \<Rightarrow> rr_default_capacity rr)
      in if cap = 0 then Inr (Allowed 0 (- 1) (as_secs (rr_window rr)))
         else check_at_epoch sha eval rr bucket_id cap now_secs)"

text \<open>\<open>distributed\<close> is the answer of the distributed limiter, where one is attached: production
  fails closed when it is unavailable, every other environment falls back to the local one.\<close>

definition check_rate_limit ::
  "bool \<Rightarrow> string \<Rightarrow> (string \<Rightarrow> u32 option \<Rightarrow> string + rate_limit_decision) option \<Rightarrow> bool \<Rightarrow> string
     \<Rightarrow> u32 option \<Rightarrow> time \<Rightarrow> rate_limiter \<Rightarrow> rate_limit_decision result \<times> rate_limiter" where
  "check_rate_limit production scope distributed poisoned bucket_id bucket_capacity now rl =
     (let local = (\<lambda>_::unit. case rl_check poisoned bucket_id bucket_capacity now rl of (d, rl') \<Rightarrow> (Inr d, rl'))
      in case distributed of
           None \<Rightarrow> local ()
         | Some redis \<Rightarrow>
             (case redis bucket_id bucket_capacity of
                Inr decision \<Rightarrow> (Inr decision, rl)
              | Inl err \<Rightarrow>
                  if production then
                    (Inl (EngineUnavailable (''distributed '' @ scope @ '' rate limiter unavailable: '' @ err)), rl)
                  else local ()))"

section \<open>API keys\<close>

text \<open>The comparison of the bytes, without an early exit.\<close>

definition constant_time_eq :: "string \<Rightarrow> string \<Rightarrow> bool" where
  "constant_time_eq a b =
     (if length a \<noteq> length b then False
      else fold (\<lambda>(x, y) diff. or diff (xor (of_char x) (of_char y))) (zip a b) (0 :: 8 word) = 0)"

type_synonym api_keys = "(string, api_key_info) store"

definition key_store_new :: "api_key_info list \<Rightarrow> api_keys" where
  "key_store_new ks = fold (\<lambda>k m. st_put (ak_key k) k m) ks []"

definition demo_api_key :: api_key_info where
  "demo_api_key = \<lparr>ak_key = ''icp_demo_key_123'', ak_tenant_id = ''merchant_demo'',
     ak_name = ''Bundled demo key'', ak_rate_limit_per_minute = Some 300, ak_allowed_agents = None,
     ak_expires_at = None\<rparr>"

definition key_store_demo :: api_keys where
  "key_store_demo = key_store_new [demo_api_key]"

definition key_lookup :: "string \<Rightarrow> api_keys \<Rightarrow> api_key_info option" where
  "key_lookup bearer store =
     fold (\<lambda>info found. if constant_time_eq (ak_key info) bearer then Some info else found)
       (st_values store) None"

definition agent_issues :: "nat \<Rightarrow> string list \<Rightarrow> string list" where
  "agent_issues idx agents =
     concat (map (\<lambda>(agent_idx, agent).
        if trim agent = [] then
          [''entry '' @ show_nat idx @ '': allowed_agents['' @ show_nat agent_idx @ ''] must not be empty'']
        else if trim agent \<noteq> agent then
          [''entry '' @ show_nat idx @ '': allowed_agents['' @ show_nat agent_idx
            @ ''] must not have surrounding whitespace'']
        else []) (zip [0 ..< length agents] agents))"

definition key_issues :: "string list \<Rightarrow> nat \<Rightarrow> api_key_info \<Rightarrow> string list" where
  "key_issues seen idx k =
     (if trim (ak_key k) = [] then [''entry '' @ show_nat idx @ '': key must not be empty'']
      else if trim (ak_key k) \<noteq> ak_key k then
        [''entry '' @ show_nat idx @ '': key must not have surrounding whitespace'']
      else [])
     @ (if trim (ak_tenant_id k) = [] then [''entry '' @ show_nat idx @ '': tenant_id must not be empty'']
        else if trim (ak_tenant_id k) \<noteq> ak_tenant_id k then
          [''entry '' @ show_nat idx @ '': tenant_id must not have surrounding whitespace'']
        else [])
     @ (if trim (ak_name k) = [] then [''entry '' @ show_nat idx @ '': name must not be empty''] else [])
     @ (if ak_key k \<in> set seen then [''entry '' @ show_nat idx @ '': duplicate API key''] else [])
     @ (case ak_allowed_agents k of Some agents \<Rightarrow> agent_issues idx agents | None \<Rightarrow> [])"

fun all_key_issues :: "string list \<Rightarrow> nat \<Rightarrow> api_key_info list \<Rightarrow> string list" where
  "all_key_issues seen idx [] = []"
| "all_key_issues seen idx (k # ks) = key_issues seen idx k @ all_key_issues (ak_key k # seen) (Suc idx) ks"

fun join_with :: "string \<Rightarrow> string list \<Rightarrow> string" where
  "join_with sep [] = []"
| "join_with sep [x] = x"
| "join_with sep (x # xs) = x @ sep @ join_with sep xs"

definition validate_api_keys :: "api_key_info list \<Rightarrow> string + unit" where
  "validate_api_keys ks =
     (let issues = all_key_issues [] 0 ks
      in if issues = [] then Inr () else Inl (''invalid API key configuration: '' @ join_with ''; '' issues))"

definition key_store_try_new :: "api_key_info list \<Rightarrow> string + api_keys" where
  "key_store_try_new ks = (case validate_api_keys ks of Inl e \<Rightarrow> Inl e | Inr _ \<Rightarrow> Inr (key_store_new ks))"

definition is_expired_at :: "api_key_info \<Rightarrow> time \<Rightarrow> bool" where
  "is_expired_at k now = (case ak_expires_at k of Some t \<Rightarrow> t \<le> now | None \<Rightarrow> False)"

definition permits_agent :: "api_key_info \<Rightarrow> string \<Rightarrow> bool" where
  "permits_agent k agent_id = (case ak_allowed_agents k of
      Some allowed \<Rightarrow> list_ex (\<lambda>a. a = ''*'' \<or> a = agent_id) allowed | None \<Rightarrow> True)"

definition parse_agent :: "string \<Rightarrow> agent_identifier" where
  "parse_agent raw =
     \<lparr>ag_raw = raw,
      ag_kind = (if prefix ''did:stateset:agent:'' raw then DidStateset
                 else if prefix ''did:key:'' raw then DidKey
                 else if prefix ''did:web:'' raw then DidWeb
                 else if prefix ''https://'' raw then HttpsProfile
                 else Opaque)\<rparr>"

section \<open>The checks of the transports\<close>

text \<open>The value of a header as visible ASCII text, where it has one.\<close>

type_synonym headers = "string \<Rightarrow> string option"

definition resolve_tenant :: "headers \<Rightarrow> api_keys \<Rightarrow> time \<Rightarrow> api_key_info result" where
  "resolve_tenant hs keys now =
     (case Option.bind (hs ''authorization'') (strip_prefix ''Bearer '') of
        None \<Rightarrow> Inl (AuthenticationFailed ''Bearer token required'')
      | Some bearer \<Rightarrow>
          (case key_lookup bearer keys of
             None \<Rightarrow> Inl (AuthenticationFailed ''unknown API key'')
           | Some tenant \<Rightarrow>
               if is_expired_at tenant now then Inl (AuthenticationFailed ''API key expired'')
               else Inr tenant))"

definition resolve_agent :: "headers \<Rightarrow> agent_identifier result" where
  "resolve_agent hs = (case hs ''icp-agent-id'' of
      None \<Rightarrow> Inl (AuthenticationFailed ''ICP-Agent-Id header required'')
    | Some v \<Rightarrow> Inr (parse_agent v))"

definition ensure_agent_allowed :: "api_key_info \<Rightarrow> agent_identifier \<Rightarrow> unit result" where
  "ensure_agent_allowed tenant agent =
     (if permits_agent tenant (ag_raw agent) then Inr ()
      else Inl (AuthenticationFailed (''agent `'' @ ag_raw agent @ ''` is not allowed for this API key'')))"

text \<open>The middleware, which no router installs, looks the key up and checks neither expiry nor agent.\<close>

definition extract_bearer :: "headers \<Rightarrow> string result" where
  "extract_bearer hs = (case hs ''authorization'' of
      None \<Rightarrow> Inl (AuthenticationFailed ''Authorization header missing'')
    | Some v \<Rightarrow>
        (case strip_prefix ''Bearer '' v of
           None \<Rightarrow> Inl (AuthenticationFailed ''Authorization must be a Bearer token'')
         | Some b \<Rightarrow> Inr b))"

definition auth_middleware :: "headers \<Rightarrow> api_keys \<Rightarrow> (api_key_info \<times> agent_identifier) result" where
  "auth_middleware hs keys =
     bind_result (extract_bearer hs) (\<lambda>bearer.
     bind_result (case key_lookup bearer keys of
         None \<Rightarrow> Inl (AuthenticationFailed ''unknown API key'') | Some t \<Rightarrow> Inr t) (\<lambda>tenant.
     bind_result (resolve_agent hs) (\<lambda>agent. Inr (tenant, agent))))"

text \<open>The bucket of the pre-authentication limiter.\<close>

definition client_ip_for_rate_limit :: "headers \<Rightarrow> bool \<Rightarrow> string" where
  "client_ip_for_rate_limit hs trust_proxy_headers =
     (let forwarded = (if trust_proxy_headers then
            (case hs ''x-forwarded-for'' of Some xff \<Rightarrow> trim (hd (split_on CHR '','' xff)) | None \<Rightarrow> [])
            else []);
          real = (if trust_proxy_headers then
            (case hs ''x-real-ip'' of Some ip \<Rightarrow> trim ip | None \<Rightarrow> []) else [])
      in if forwarded \<noteq> [] then forwarded else if real \<noteq> [] then real else ''direct'')"

section \<open>The rate is bounded\<close>

text \<open>
  The requests of all tenants on one limiter, oldest first, each with its capacity and time:
  \<open>rl_run\<close> collects the times at which a tenant was admitted, and the buckets.
\<close>

definition is_allowed :: "rate_limit_decision \<Rightarrow> bool" where
  "is_allowed d = (case d of Allowed _ _ _ \<Rightarrow> True | Denied _ _ \<Rightarrow> False)"

definition rl_step ::
  "duration \<Rightarrow> string \<Rightarrow> string \<times> u32 \<times> time \<Rightarrow> time list \<times> buckets \<Rightarrow> time list \<times> buckets" where
  "rl_step w tenant r gb = (case r of (t, c, now) \<Rightarrow> case check_at False w t c now (snd gb) of
     (d, bs) \<Rightarrow> (if t = tenant \<and> is_allowed d then now # fst gb else fst gb, bs))"

definition rl_run :: "duration \<Rightarrow> string \<Rightarrow> (string \<times> u32 \<times> time) list \<Rightarrow> time list \<times> buckets" where
  "rl_run w tenant reqs = fold (rl_step w tenant) reqs ([], [])"

definition count_in :: "(time \<Rightarrow> bool) \<Rightarrow> time list \<Rightarrow> nat" where
  "count_in P g = length (filter P g)"

lemma count_in_Cons [simp]: "count_in P (a # g) = (if P a then 1 else 0) + count_in P g"
  by (simp add: count_in_def)

lemma count_in_Nil [simp]: "count_in P [] = 0"
  by (simp add: count_in_def)

lemma count_in_mono: "(\<And>a. a \<in> set g \<Longrightarrow> P a \<Longrightarrow> Q a) \<Longrightarrow> count_in P g \<le> count_in Q g"
  by (induction g) auto

lemma count_in_none: "(\<And>a. a \<in> set g \<Longrightarrow> \<not> P a) \<Longrightarrow> count_in P g = 0"
  by (simp add: count_in_def filter_empty_conv)

lemma count_in_split: "count_in P g \<le> count_in (\<lambda>a. P a \<and> Q a) g + count_in (\<lambda>a. P a \<and> \<not> Q a) g"
  by (induction g) auto

text \<open>What a bucket knows of the admissions \<open>g\<close> of its tenant up to \<open>now\<close>.\<close>

definition bucket_inv :: "duration \<Rightarrow> u32 \<Rightarrow> time \<Rightarrow> time list \<Rightarrow> bucket \<Rightarrow> bool" where
  "bucket_inv w cap now g b \<longleftrightarrow>
     bk_window_start b \<le> now \<and> (\<forall>a \<in> set g. a \<le> now \<and> a < bk_window_start b + w) \<and>
     unat (bk_used b) = count_in (\<lambda>a. bk_window_start b \<le> a) g \<and> bk_used b \<le> cap \<and>
     (\<forall>x > bk_window_start b - w. count_in (\<lambda>a. x \<le> a \<and> a < bk_window_start b) g \<le> unat cap) \<and>
     (\<forall>x. count_in (\<lambda>a. x \<le> a \<and> a < x + w) g \<le> 2 * unat cap)"

lemma bucket_inv_later: "bucket_inv w cap t g b \<Longrightarrow> t \<le> now \<Longrightarrow> bucket_inv w cap now g b"
  by (fastforce simp: bucket_inv_def)

lemma bucket_inv_roll:
  assumes "bucket_inv w cap now g b" "0 < w" "w \<le> now - bk_window_start b"
  shows "bucket_inv w cap now g \<lparr>bk_used = 0, bk_window_start = now\<rparr>"
proof -
  have used: "unat (bk_used b) \<le> unat cap"
    using assms(1) by (simp add: bucket_inv_def word_le_nat_alt)
  have "count_in (\<lambda>a. x \<le> a \<and> a < now) g \<le> unat cap" if "now - w < x" for x
  proof -
    have "count_in (\<lambda>a. x \<le> a \<and> a < now) g \<le> count_in (\<lambda>a. bk_window_start b \<le> a) g"
      using that assms(3) by (intro count_in_mono) auto
    then show ?thesis using assms(1) used by (simp add: bucket_inv_def)
  qed
  moreover have "count_in (\<lambda>a. now \<le> a) g = 0"
    using assms by (intro count_in_none) (auto simp: bucket_inv_def)
  ultimately show ?thesis using assms(1,2) by (auto simp: bucket_inv_def)
qed

lemma bucket_inv_admit:
  assumes "bucket_inv w cap now g b" "now - bk_window_start b < w" "bk_used b < cap"
  shows "bucket_inv w cap now (now # g) (b\<lparr>bk_used := sat_inc_u32 (bk_used b)\<rparr>)"
proof -
  let ?s = "bk_window_start b"
  have inv: "?s \<le> now" "\<forall>a \<in> set g. a \<le> now \<and> a < ?s + w" "unat (bk_used b) = count_in (\<lambda>a. ?s \<le> a) g"
    "\<forall>x > ?s - w. count_in (\<lambda>a. x \<le> a \<and> a < ?s) g \<le> unat cap"
    "\<forall>x. count_in (\<lambda>a. x \<le> a \<and> a < x + w) g \<le> 2 * unat cap"
    using assms(1) by (simp_all add: bucket_inv_def)
  have lt: "unat (bk_used b) < unat cap" using assms(3) by (simp add: word_less_nat_alt)
  have used: "unat (sat_inc_u32 (bk_used b)) = Suc (unat (bk_used b))"
    using lt unsigned_less [where 'a = nat and w = cap] by (simp add: unat_sat_inc_u32)
  have cap: "sat_inc_u32 (bk_used b) \<le> cap" using used lt by (simp add: word_le_nat_alt)
  have span: "count_in (\<lambda>a. x \<le> a \<and> a < x + w) (now # g) \<le> 2 * unat cap" for x
  proof (cases "x \<le> now \<and> now < x + w")
    case True
    have "count_in (\<lambda>a. x \<le> a \<and> a < x + w) g \<le> count_in (\<lambda>a. (x \<le> a \<and> a < x + w) \<and> a < ?s) g +
        count_in (\<lambda>a. (x \<le> a \<and> a < x + w) \<and> \<not> a < ?s) g"
      by (rule count_in_split)
    moreover have "count_in (\<lambda>a. (x \<le> a \<and> a < x + w) \<and> a < ?s) g \<le> count_in (\<lambda>a. x \<le> a \<and> a < ?s) g"
      by (rule count_in_mono) auto
    moreover have "count_in (\<lambda>a. x \<le> a \<and> a < ?s) g \<le> unat cap"
      using inv(1,4) True by auto
    moreover have "count_in (\<lambda>a. (x \<le> a \<and> a < x + w) \<and> \<not> a < ?s) g \<le> count_in (\<lambda>a. ?s \<le> a) g"
      by (rule count_in_mono) auto
    ultimately show ?thesis using True inv(3) lt by simp
  next
    case False
    then show ?thesis using inv(5) by auto
  qed
  have "count_in (\<lambda>a. x \<le> a \<and> a < ?s) (now # g) \<le> unat cap" if "?s - w < x" for x
    using inv(1,4) that by auto
  then show ?thesis
    using inv(1,2,3) assms(2) used cap span by (auto simp: bucket_inv_def simp del: count_in_Cons)
      (simp add: inv(1))
qed

lemma bucket_inv_fresh: "0 < w \<Longrightarrow> bucket_inv w cap now [] \<lparr>bk_used = 0, bk_window_start = now\<rparr>"
  by (simp add: bucket_inv_def)

lemma bucket_step_inv:
  assumes "bucket_inv w cap now g b" "0 < w" "bucket_step w cap now b = (d, b')"
  shows "bucket_inv w cap now (if is_allowed d then now # g else g) b' \<and>
    (\<not> is_allowed d \<longrightarrow> unat cap \<le> count_in (\<lambda>a. now - w < a) g)"
proof -
  let ?b1 = "if w \<le> since now (bk_window_start b) then \<lparr>bk_used = 0, bk_window_start = now\<rparr> else b"
  have le: "bk_window_start b \<le> now" using assms(1) by (simp add: bucket_inv_def)
  have b1: "bucket_inv w cap now g ?b1" "now - bk_window_start ?b1 < w"
    using assms(1,2) bucket_inv_roll [OF assms(1,2)] le by (auto simp: since_def)
  show ?thesis
  proof (cases "cap \<le> bk_used ?b1")
    case True
    then have d: "\<not> is_allowed d" "b' = ?b1"
      using assms(3) by (auto simp: bucket_step_def Let_def is_allowed_def)
    have "unat cap \<le> count_in (\<lambda>a. bk_window_start ?b1 \<le> a) g"
      using True b1(1) by (simp add: bucket_inv_def word_le_nat_alt)
    also have "\<dots> \<le> count_in (\<lambda>a. now - w < a) g"
      using b1(2) by (intro count_in_mono) simp
    finally show ?thesis using d b1(1) by simp
  next
    case False
    then have "is_allowed d" "b' = ?b1\<lparr>bk_used := sat_inc_u32 (bk_used ?b1)\<rparr>"
      using assms(3) by (auto simp: bucket_step_def Let_def is_allowed_def)
    then show ?thesis using bucket_inv_admit [OF b1] False by (simp add: not_le)
  qed
qed

definition run_inv :: "duration \<Rightarrow> string \<Rightarrow> u32 \<Rightarrow> time \<Rightarrow> time list \<times> buckets \<Rightarrow> bool" where
  "run_inv w tenant cap now gb \<longleftrightarrow>
     (case st_get (snd gb) tenant of Some b \<Rightarrow> bucket_inv w cap now (fst gb) b | None \<Rightarrow> fst gb = [])"

lemma check_at_inv:
  assumes "run_inv w tenant cap t (g, bs)" "t \<le> now" "0 < w" "check_at False w tenant cap now bs = (d, bs')"
  shows "run_inv w tenant cap now (if is_allowed d then now # g else g, bs') \<and>
    (\<not> is_allowed d \<longrightarrow> unat cap \<le> count_in (\<lambda>a. now - w < a) g)"
proof -
  let ?b0 = "case st_get bs tenant of Some b \<Rightarrow> b | None \<Rightarrow> \<lparr>bk_used = 0, bk_window_start = now\<rparr>"
  obtain b' where b': "bucket_step w cap now ?b0 = (d, b')" "bs' = st_put tenant b' bs"
    using assms(4) by (auto simp: check_at_def Let_def split: prod.splits)
  have "bucket_inv w cap now g ?b0"
    using assms(1-3) bucket_inv_later bucket_inv_fresh [OF assms(3)]
    by (auto simp: run_inv_def split: option.splits)
  from bucket_step_inv [OF this assms(3) b'(1)] show ?thesis
    by (simp add: run_inv_def b'(2))
qed

lemma rl_run_inv:
  assumes "0 < w" "sorted (map (\<lambda>(t, c, now). now) reqs)"
    and "\<forall>(t, c, now) \<in> set reqs. (t = tenant \<longrightarrow> c = cap) \<and> now \<le> until"
  shows "run_inv w tenant cap until (rl_run w tenant reqs)"
  using assms(2,3)
proof (induction reqs arbitrary: until rule: rev_induct)
  case Nil
  then show ?case by (simp add: rl_run_def run_inv_def)
next
  case (snoc r reqs)
  obtain t c now where r: "r = (t, c, now)" by (cases r)
  obtain g bs where run: "rl_run w tenant reqs = (g, bs)" by (rule prod.exhaust)
  obtain d bs' where call: "check_at False w t c now bs = (d, bs')" by (rule prod.exhaust)
  have now: "now \<le> until" and cap: "t = tenant \<Longrightarrow> c = cap"
    using snoc.prems(2) by (auto simp: r)
  have "run_inv w tenant cap now (g, bs)"
    using snoc.IH [of now] snoc.prems by (fastforce simp: r run sorted_append)
  moreover have "rl_run w tenant (reqs @ [r]) = (if t = tenant \<and> is_allowed d then now # g else g, bs')"
    using run by (simp add: rl_run_def rl_step_def r call)
  ultimately have "run_inv w tenant cap now (rl_run w tenant (reqs @ [r]))"
  proof (cases "t = tenant")
    case True
    then show ?thesis
      using check_at_inv [OF \<open>run_inv w tenant cap now (g, bs)\<close> order_refl assms(1)] call cap
        \<open>rl_run w tenant (reqs @ [r]) = _\<close> by simp
  next
    case False
    then have "st_get bs' tenant = st_get bs tenant"
      using call by (auto simp: check_at_def Let_def split: prod.splits)
    then show ?thesis
      using False \<open>run_inv w tenant cap now (g, bs)\<close> \<open>rl_run w tenant (reqs @ [r]) = _\<close>
      by (simp add: run_inv_def split: option.splits)
  qed
  then show ?case
    using now bucket_inv_later by (auto simp: run_inv_def split: option.splits)
qed

text \<open>
  C33. On one local limiter serving any tenants on a clock that does not go back, a tenant with a
  fixed capacity is admitted at most twice its capacity in any span as long as the window, and is
  turned away only when its capacity was used up within the last window; other tenants do not count.
\<close>

theorem admissions_bounded:
  assumes "0 < w" "sorted (map (\<lambda>(t, c, now). now) reqs)"
    and "\<forall>(t, c, now) \<in> set reqs. (t = tenant \<longrightarrow> c = cap) \<and> now \<le> until"
    and "rl_run w tenant reqs = (g, bs)"
  shows "count_in (\<lambda>a. x \<le> a \<and> a < x + w) g \<le> 2 * unat cap \<and>
    (\<not> is_allowed (fst (check_at False w tenant cap until bs)) \<longrightarrow>
       unat cap \<le> count_in (\<lambda>a. until - w < a) g)"
proof
  have inv: "run_inv w tenant cap until (g, bs)" using rl_run_inv [OF assms(1-3)] assms(4) by simp
  then show "count_in (\<lambda>a. x \<le> a \<and> a < x + w) g \<le> 2 * unat cap"
    by (auto simp: run_inv_def bucket_inv_def split: option.splits)
  show "\<not> is_allowed (fst (check_at False w tenant cap until bs)) \<longrightarrow>
       unat cap \<le> count_in (\<lambda>a. until - w < a) g"
    using check_at_inv [OF inv order_refl assms(1) surjective_pairing] by blast
qed

text \<open>The bound is met: the last admission of one window and the first of the next.\<close>

definition demo_requests :: "(string \<times> u32 \<times> time) list" where
  "demo_requests = [(''t'', 1, 0), (''u'', 5, 50), (''t'', 1, 70), (''t'', 1, 100)]"

lemma demo_rl_run: "fst (rl_run 100 ''t'' demo_requests) = [100, 0]"
  by (simp add: rl_run_def rl_step_def demo_requests_def check_at_def bucket_step_def since_def Let_def
      sat_inc_u32_def is_allowed_def st_put_def st_get_def)

theorem admissions_bounded_witness: "count_in (\<lambda>a. 1 \<le> a \<and> a < 101) [100, 0] \<le> 2 * unat (1 :: u32)"
proof -
  obtain bs where run: "rl_run 100 ''t'' demo_requests = ([100, 0], bs)"
    using demo_rl_run by (metis prod.collapse)
  have "\<forall>(t, c, now) \<in> set demo_requests. (t = ''t'' \<longrightarrow> c = 1) \<and> now \<le> 100"
    by (simp add: demo_requests_def)
  from admissions_bounded [OF _ _ this run, of 1] show ?thesis
    by (simp add: demo_requests_def del: count_in_Cons)
qed

section \<open>Key lookups\<close>

lemma of_char_byte_inject: "(of_char x :: 8 word) = of_char y \<longleftrightarrow> x = y"
proof
  assume "(of_char x :: 8 word) = of_char y"
  then have "unat (of_nat (of_char x) :: 8 word) = unat (of_nat (of_char y) :: 8 word)"
    by (simp add: of_nat_of_char)
  moreover have "of_char x < (256 :: nat)" "of_char y < (256 :: nat)" by simp_all
  ultimately have "(of_char x :: nat) = of_char y"
    by (simp add: unat_of_nat take_bit_nat_eq_self_iff)
  then show "x = y" by (simp add: of_char_eq_iff)
qed simp

lemma xor_zero_iff: "xor x y = (0 :: 8 word) \<longleftrightarrow> x = y"
proof
  assume "xor x y = 0"
  then have "xor (xor x y) y = y" by simp
  then show "x = y" by (simp add: ac_simps)
qed simp

lemma fold_diff_zero:
  "fold (\<lambda>(x, y) diff. or diff (xor (of_char x) (of_char y))) ps (d :: 8 word) = 0 \<longleftrightarrow>
   d = 0 \<and> (\<forall>(x, y) \<in> set ps. x = y)"
  by (induction ps arbitrary: d) (auto simp: or_eq_0_iff xor_zero_iff of_char_byte_inject)

lemma constant_time_eq_iff: "constant_time_eq a b \<longleftrightarrow> a = b"
proof (cases "length a = length b")
  case True
  then show ?thesis
    by (auto simp: constant_time_eq_def fold_diff_zero list_eq_iff_zip_eq)
next
  case False
  then show ?thesis by (auto simp: constant_time_eq_def)
qed

lemma key_store_new_get:
  "st_get (fold (\<lambda>k m. st_put (ak_key k) k m) ks m) key =
     (case find (\<lambda>k. ak_key k = key) (rev ks) of Some k \<Rightarrow> Some k | None \<Rightarrow> st_get m key)"
  by (induction ks arbitrary: m rule: rev_induct) auto

lemma key_store_new_ok: "st_ok m \<Longrightarrow> st_ok (fold (\<lambda>k m. st_put (ak_key k) k m) ks m)"
  by (induction ks arbitrary: m) auto

lemma key_store_new_keyed: "keyed_by ak_key m \<Longrightarrow> keyed_by ak_key (fold (\<lambda>k m. st_put (ak_key k) k m) ks m)"
  by (induction ks arbitrary: m) auto

lemma fold_last_match:
  "fold (\<lambda>x found. if P x then Some x else found) xs f = (case find P (rev xs) of Some x \<Rightarrow> Some x | None \<Rightarrow> f)"
  by (induction xs arbitrary: f rule: rev_induct) auto

lemma find_member: "find P xs = Some x \<Longrightarrow> x \<in> set xs \<and> P x"
  by (induction xs) (auto split: if_splits)

text \<open>The scan of all keys finds the entry of the key, if it has one.\<close>

lemma key_lookup_get:
  assumes "st_ok store" "keyed_by ak_key store"
  shows "key_lookup bearer store = st_get store bearer"
proof -
  have found: "key_lookup bearer store = find (\<lambda>k. ak_key k = bearer) (rev (st_values store))"
    by (simp add: key_lookup_def constant_time_eq_iff fold_last_match split: option.split)
  have vals: "k \<in> set (st_values store) \<longleftrightarrow> st_get store (ak_key k) = Some k" for k
    using st_values_get [OF assms(1)] keyed_byD [OF assms(2)] by metis
  show ?thesis
  proof (cases "find (\<lambda>k. ak_key k = bearer) (rev (st_values store))")
    case None
    then have "st_get store bearer = None"
      using vals keyed_byD [OF assms(2), of bearer] by (cases "st_get store bearer") (auto simp: find_None_iff)
    then show ?thesis using found None by simp
  next
    case (Some k)
    then have "k \<in> set (st_values store)" "ak_key k = bearer"
      using find_member [OF Some] by auto
    then show ?thesis using found Some vals by simp
  qed
qed

lemma no_issues_distinct:
  "all_key_issues seen idx ks = [] \<Longrightarrow> distinct (map ak_key ks) \<and> (\<forall>k \<in> set ks. ak_key k \<notin> set seen)"
  by (induction ks arbitrary: seen idx) (fastforce simp: key_issues_def split: if_splits)+

lemma no_issues_texts:
  "all_key_issues seen idx ks = [] \<Longrightarrow> k \<in> set ks \<Longrightarrow>
   ak_key k \<noteq> [] \<and> trim (ak_key k) = ak_key k \<and> ak_tenant_id k \<noteq> [] \<and> trim (ak_tenant_id k) = ak_tenant_id k"
  by (induction ks arbitrary: seen idx) (auto simp: key_issues_def split: if_splits)

lemma find_distinct:
  "distinct (map f xs) \<Longrightarrow> find (\<lambda>x. f x = y) (rev xs) = Some x \<longleftrightarrow> x \<in> set xs \<and> f x = y"
proof (induction xs)
  case (Cons a xs)
  have app: "find P (ys @ [a]) = (case find P ys of Some z \<Rightarrow> Some z | None \<Rightarrow> if P a then Some a else None)" for P ys
    by (induction ys) auto
  show ?case
  proof (cases "find (\<lambda>x. f x = y) (rev xs)")
    case None
    then have "\<forall>x \<in> set xs. f x \<noteq> y" by (simp add: find_None_iff)
    then show ?thesis using None by (auto simp: app)
  next
    case (Some z)
    then have "z \<in> set xs" "f z = y" using find_member [OF Some] by auto
    then show ?thesis using Cons Some by (auto simp: app)
  qed
qed simp

lemma valid_keys:
  assumes "key_store_try_new ks = Inr store"
  shows "all_key_issues [] 0 ks = []" "store = key_store_new ks"
  using assms by (auto simp: key_store_try_new_def validate_api_keys_def Let_def split: if_splits)

lemma resolve_valid_keys:
  assumes "key_store_try_new ks = Inr store"
  shows "resolve_tenant hs store now = Inr k \<longleftrightarrow>
    k \<in> set ks \<and> hs ''authorization'' = Some (''Bearer '' @ ak_key k) \<and> \<not> is_expired_at k now"
proof -
  note store = valid_keys(2) [OF assms] and distinct = no_issues_distinct [OF valid_keys(1) [OF assms], THEN conjunct1]
  have "key_lookup bearer store = st_get store bearer" for bearer
    by (rule key_lookup_get) (simp_all add: store key_store_new_def key_store_new_ok key_store_new_keyed)
  then have lookup: "key_lookup bearer store = Some k' \<longleftrightarrow> k' \<in> set ks \<and> ak_key k' = bearer" for bearer k'
    using find_distinct [OF distinct, of bearer k']
    by (auto simp: store key_store_new_def key_store_new_get split: option.splits)
  have "resolve_tenant hs store now = Inr k \<longleftrightarrow>
      (\<exists>bearer. hs ''authorization'' = Some (''Bearer '' @ bearer) \<and> key_lookup bearer store = Some k) \<and>
      \<not> is_expired_at k now"
    by (auto simp: resolve_tenant_def strip_prefix_Some strip_prefix_None bind_eq_None_conv
        simp del: append_Cons append_Nil split: option.splits bind_splits if_splits)
  then show ?thesis using lookup by auto
qed

text \<open>
  Where the configured keys pass validation, a request is resolved to a tenant exactly when
  its bearer token is the key of that entry and the entry has not expired; no key is blank,
  padded or configured twice, so the entry is the only one with the token.
\<close>

lemma tenant_of_valid_keys:
  assumes "key_store_try_new ks = Inr store"
  shows "(resolve_tenant hs store now = Inr k \<longleftrightarrow>
      k \<in> set ks \<and> hs ''authorization'' = Some (''Bearer '' @ ak_key k) \<and> \<not> is_expired_at k now) \<and>
    (k \<in> set ks \<longrightarrow> ak_key k \<noteq> [] \<and> trim (ak_key k) = ak_key k \<and> (\<forall>k' \<in> set ks. ak_key k' = ak_key k \<longrightarrow> k' = k))"
  using resolve_valid_keys [OF assms] no_issues_texts [OF valid_keys(1) [OF assms], of k]
    no_issues_distinct [OF valid_keys(1) [OF assms]]
  by (auto simp: distinct_map inj_on_def)

lemma demo_key_valid: "key_store_try_new [demo_api_key] = Inr key_store_demo"
proof -
  have "trim ''icp_demo_key_123'' = ''icp_demo_key_123''" "trim ''merchant_demo'' = ''merchant_demo''"
    "trim ''Bundled demo key'' = ''Bundled demo key''"
    by (simp_all add: trim_graphic graphic_def)
  then show ?thesis
    by (simp add: key_store_try_new_def validate_api_keys_def key_issues_def demo_api_key_def key_store_demo_def)
qed

end
