(* ===== verification/Idempotency.thy ===== *)
theory Idempotency
  imports Models
begin

text \<open>
  The idempotency cache (\<open>src/idempotency.rs\<close>): reservation, release, completion, lookup and
  eviction of the response to a keyed request, on the in-memory map and on the SQLite table.
  The token is the fencing identifier drawn by a call of \<open>reserve\<close>. Both backends satisfy one
  interface, from which the exclusion of concurrent executions is proved.
\<close>

section \<open>Entries\<close>

record cached_response =
  cd_status :: nat
  cd_body :: string

datatype lookup_outcome = LkMiss | LkReplay cached_response | LkConflict

datatype reserve_outcome = Won string | RsReplay cached_response | RsConflict | InProgress

definition pending_status :: nat where
  "pending_status = 0"

definition default_ttl_hours :: int where
  "default_ttl_hours = 24"

record idem_entry =
  ie_digest :: string
  ie_response :: cached_response
  ie_created :: time
  ie_token :: string

type_synonym idem_key = "string \<times> string"

type_synonym idem_map = "(idem_key, idem_entry) store"

definition pending_entry :: "string \<Rightarrow> time \<Rightarrow> string \<Rightarrow> idem_entry" where
  "pending_entry digest now token =
     \<lparr>ie_digest = digest, ie_response = \<lparr>cd_status = pending_status, cd_body = []\<rparr>,
      ie_created = now, ie_token = token\<rparr>"

definition is_pending :: "idem_entry \<Rightarrow> bool" where
  "is_pending e \<longleftrightarrow> cd_status (ie_response e) = pending_status"

section \<open>The map\<close>

definition judge_lookup :: "duration \<Rightarrow> string \<Rightarrow> time \<Rightarrow> idem_entry option \<Rightarrow> lookup_outcome" where
  "judge_lookup ttl digest now entry =
     (case entry of
        None \<Rightarrow> LkMiss
      | Some e \<Rightarrow>
          if ttl < now - ie_created e then LkMiss
          else if is_pending e then LkMiss
          else if ie_digest e = digest then LkReplay (ie_response e)
          else LkConflict)"

definition mem_lookup :: "duration \<Rightarrow> idem_key \<Rightarrow> string \<Rightarrow> time \<Rightarrow> idem_map \<Rightarrow> lookup_outcome" where
  "mem_lookup ttl k digest now st = judge_lookup ttl digest now (st_get st k)"

definition mem_reserve ::
  "duration \<Rightarrow> string \<Rightarrow> idem_key \<Rightarrow> string \<Rightarrow> time \<Rightarrow> duration \<Rightarrow> idem_map \<Rightarrow> reserve_outcome \<times> idem_map" where
  "mem_reserve ttl token k digest now lease st =
     (let claim = (Won token, st_put k (pending_entry digest now token) st)
      in case st_get st k of
           Some e \<Rightarrow>
             if now - ie_created e \<le> ttl then
               if is_pending e then
                 if lease < now - ie_created e then claim else (InProgress, st)
               else if ie_digest e = digest then (RsReplay (ie_response e), st)
               else (RsConflict, st)
             else claim
         | None \<Rightarrow> claim)"

definition mem_release :: "idem_key \<Rightarrow> string \<Rightarrow> idem_map \<Rightarrow> idem_map" where
  "mem_release k token st =
     (case st_get st k of
        Some e \<Rightarrow> if is_pending e \<and> ie_token e = token then st_remove k st else st
      | None \<Rightarrow> st)"

definition mem_store ::
  "idem_key \<Rightarrow> string \<Rightarrow> cached_response \<Rightarrow> time \<Rightarrow> string \<Rightarrow> idem_map \<Rightarrow> idem_map" where
  "mem_store k digest response now token st =
     (if (case st_get st k of Some e \<Rightarrow> ie_token e = token | None \<Rightarrow> True)
      then st_put k \<lparr>ie_digest = digest, ie_response = response, ie_created = now, ie_token = []\<rparr> st
      else st)"

definition mem_prune :: "duration \<Rightarrow> time \<Rightarrow> idem_map \<Rightarrow> nat \<times> idem_map" where
  "mem_prune ttl now st =
     (let cutoff = now - ttl; st' = filter (\<lambda>(k, e). cutoff \<le> ie_created e) st
      in (length st - length st', st'))"

section \<open>The table\<close>

record idem_row =
  ir_digest :: string
  ir_status :: int
  ir_body :: string
  ir_created :: string
  ir_token :: string

type_synonym idem_table = "(idem_key, idem_row) store"

text \<open>\<open>status as u16\<close> truncates; an unreadable timestamp reads as the time of the call.\<close>

definition entry_of_row :: "chrono \<Rightarrow> time \<Rightarrow> idem_row \<Rightarrow> idem_entry" where
  "entry_of_row C now r =
     \<lparr>ie_digest = ir_digest r,
      ie_response = \<lparr>cd_status = nat (ir_status r mod 65536), cd_body = ir_body r\<rparr>,
      ie_created = (case ch_parse_rfc3339 C (ir_created r) of Some t \<Rightarrow> t | None \<Rightarrow> now),
      ie_token = ir_token r\<rparr>"

definition row_of_entry :: "chrono \<Rightarrow> idem_entry \<Rightarrow> idem_row" where
  "row_of_entry C e =
     \<lparr>ir_digest = ie_digest e, ir_status = int (cd_status (ie_response e)), ir_body = cd_body (ie_response e),
      ir_created = ch_to_rfc3339 C (ie_created e), ir_token = ie_token e\<rparr>"

definition sql_lookup ::
  "db_faults \<Rightarrow> chrono \<Rightarrow> duration \<Rightarrow> idem_key \<Rightarrow> string \<Rightarrow> time \<Rightarrow> idem_table \<Rightarrow> lookup_outcome" where
  "sql_lookup F C ttl k digest now tab =
     (if f_pool F \<or> f_read F then LkMiss
      else judge_lookup ttl digest now (map_option (entry_of_row C now) (st_get tab k)))"

text \<open>A failing read counts as no row; the claim or the commit failing leaves the table as it was.\<close>

definition sql_reserve ::
  "db_faults \<Rightarrow> chrono \<Rightarrow> duration \<Rightarrow> string \<Rightarrow> idem_key \<Rightarrow> string \<Rightarrow> time \<Rightarrow> duration \<Rightarrow> idem_table
     \<Rightarrow> reserve_outcome \<times> idem_table" where
  "sql_reserve F C ttl token k digest now lease tab =
     (if f_pool F \<or> f_begin F then (InProgress, tab)
      else
        let claim = (if f_write F then (InProgress, tab)
                     else (Won token, st_put k (row_of_entry C (pending_entry digest now token)) tab));
            existing = (if f_read F then None else map_option (entry_of_row C now) (st_get tab k));
            (outcome, tab') =
              (case existing of
                 None \<Rightarrow> claim
               | Some e \<Rightarrow>
                   if ttl < now - ie_created e then claim
                   else if is_pending e then
                     if lease < now - ie_created e then claim else (InProgress, tab)
                   else if ie_digest e = digest then (RsReplay (ie_response e), tab)
                   else (RsConflict, tab))
        in if f_commit F then (InProgress, tab) else (outcome, tab'))"

definition sql_release :: "db_faults \<Rightarrow> idem_key \<Rightarrow> string \<Rightarrow> idem_table \<Rightarrow> idem_table" where
  "sql_release F k token tab =
     (if f_pool F \<or> f_write F then tab
      else case st_get tab k of
        Some r \<Rightarrow> if ir_status r = 0 \<and> ir_token r = token then st_remove k tab else tab
      | None \<Rightarrow> tab)"

definition sql_store ::
  "db_faults \<Rightarrow> chrono \<Rightarrow> idem_key \<Rightarrow> string \<Rightarrow> cached_response \<Rightarrow> time \<Rightarrow> string \<Rightarrow> idem_table \<Rightarrow> idem_table" where
  "sql_store F C k digest response now token tab =
     (if f_pool F \<or> f_write F then tab
      else if (case st_get tab k of Some r \<Rightarrow> ir_token r = token | None \<Rightarrow> True)
      then st_put k \<lparr>ir_digest = digest, ir_status = int (cd_status response), ir_body = cd_body response,
             ir_created = ch_to_rfc3339 C now, ir_token = []\<rparr> tab
      else tab)"

definition sql_idem_prune :: "db_faults \<Rightarrow> chrono \<Rightarrow> duration \<Rightarrow> time \<Rightarrow> idem_table \<Rightarrow> nat \<times> idem_table" where
  "sql_idem_prune F C ttl now tab =
     (if f_pool F \<or> f_write F then (0, tab)
      else let cutoff = ch_to_rfc3339 C (now - ttl);
               tab' = filter (\<lambda>(k, r). \<not> text_less (ir_created r) cutoff) tab
           in (length tab - length tab', tab'))"

section \<open>The interface of a reservation store\<close>

text \<open>
  What the callers rely on, with \<open>f\<close> the failures of one call: a claim is won only where there is
  no entry, an expired one, or a pending one past its lease; a replay or a conflict reports the
  live completed entry; release removes only the caller's own pending entry; a completion lands
  only on the caller's own entry or where there is none; eviction removes only expired entries.
\<close>

definition completed_entry :: "string \<Rightarrow> cached_response \<Rightarrow> time \<Rightarrow> idem_entry" where
  "completed_entry digest response now =
     \<lparr>ie_digest = digest, ie_response = response, ie_created = now, ie_token = []\<rparr>"

definition u16_status :: "cached_response \<Rightarrow> bool" where
  "u16_status c \<longleftrightarrow> 0 < cd_status c \<and> cd_status c < 65536"

locale reservations =
  fixes entry :: "'s \<Rightarrow> idem_key \<Rightarrow> idem_entry option"
    and inv :: "'s \<Rightarrow> bool"
    and reserve :: "'f \<Rightarrow> string \<Rightarrow> idem_key \<Rightarrow> string \<Rightarrow> time \<Rightarrow> duration \<Rightarrow> 's \<Rightarrow> reserve_outcome \<times> 's"
    and release :: "'f \<Rightarrow> idem_key \<Rightarrow> string \<Rightarrow> 's \<Rightarrow> 's"
    and store :: "'f \<Rightarrow> idem_key \<Rightarrow> string \<Rightarrow> cached_response \<Rightarrow> time \<Rightarrow> string \<Rightarrow> 's \<Rightarrow> 's"
    and prune :: "'f \<Rightarrow> time \<Rightarrow> 's \<Rightarrow> 's"
    and ttl :: duration
  assumes won: "inv s \<Longrightarrow> reserve f token k d now lease s = (Won token', s') \<Longrightarrow>
      token' = token \<and> entry s' k = Some (pending_entry d now token) \<and>
      (case entry s k of None \<Rightarrow> True
       | Some e \<Rightarrow> ttl < now - ie_created e \<or> (is_pending e \<and> lease < now - ie_created e))"
    and reported: "inv s \<Longrightarrow> reserve f token k d now lease s = (r, s') \<Longrightarrow> r = RsReplay c \<or> r = RsConflict \<Longrightarrow>
      (\<exists>e. entry s k = Some e \<and> \<not> is_pending e \<and> now - ie_created e \<le> ttl \<and>
        (if ie_digest e = d then r = RsReplay (ie_response e) else r = RsConflict))"
    and not_won: "inv s \<Longrightarrow> reserve f token k d now lease s = (r, s') \<Longrightarrow> (\<And>t. r \<noteq> Won t) \<Longrightarrow> entry s' = entry s"
    and reserve_other: "inv s \<Longrightarrow> reserve f token k d now lease s = (r, s') \<Longrightarrow> k' \<noteq> k \<Longrightarrow> entry s' k' = entry s k'"
    and released: "inv s \<Longrightarrow> entry (release f k token s) k' = entry s k' \<or>
      (k' = k \<and> entry (release f k token s) k = None \<and>
        (\<exists>e. entry s k = Some e \<and> is_pending e \<and> ie_token e = token))"
    and stored: "inv s \<Longrightarrow> u16_status c \<Longrightarrow> entry (store f k d c now token s) k' = entry s k' \<or>
      (k' = k \<and> entry (store f k d c now token s) k = Some (completed_entry d c now) \<and>
        (case entry s k of Some e \<Rightarrow> ie_token e = token | None \<Rightarrow> True))"
    and pruned: "inv s \<Longrightarrow> entry (prune f now s) k = entry s k \<or>
      (entry (prune f now s) k = None \<and> (\<exists>e. entry s k = Some e \<and> ttl < now - ie_created e))"
    and inv_kept: "inv s \<Longrightarrow> inv (snd (reserve f token k d now lease s)) \<and> inv (release f k token s) \<and>
      (u16_status c \<longrightarrow> inv (store f k d c now token s)) \<and> inv (prune f now s)"

text \<open>What happened to the keys: a claim won, a claim given up, an answer recorded (newest first).\<close>

datatype idem_event =
    Claimed idem_key string time
  | Freed idem_key string
  | Answered idem_key string time string cached_response

datatype claim = Free | Held string time | Done time string cached_response

fun claim_of :: "idem_event list \<Rightarrow> idem_key \<Rightarrow> claim" where
  "claim_of [] k = Free"
| "claim_of (Claimed k' token t # es) k = (if k' = k then Held token t else claim_of es k)"
| "claim_of (Freed k' token # es) k = (if k' = k then Free else claim_of es k)"
| "claim_of (Answered k' token t d c # es) k = (if k' = k then Done t d c else claim_of es k)"

text \<open>The discipline: no claim is taken over before its lease (or its life time) is up, only the
  holder gives it up or answers it while it lives, and an answer stands for its life time.\<close>

fun exclusive :: "duration \<Rightarrow> duration \<Rightarrow> idem_event list \<Rightarrow> bool" where
  "exclusive lease ttl [] = True"
| "exclusive lease ttl (Claimed k token t # es) \<longleftrightarrow> exclusive lease ttl es \<and>
     (case claim_of es k of Free \<Rightarrow> True | Held _ t1 \<Rightarrow> min lease ttl < t - t1 | Done t1 _ _ \<Rightarrow> ttl < t - t1)"
| "exclusive lease ttl (Freed k token # es) \<longleftrightarrow> exclusive lease ttl es \<and>
     (case claim_of es k of Free \<Rightarrow> False | Held token1 _ \<Rightarrow> token = token1 | Done _ _ _ \<Rightarrow> False)"
| "exclusive lease ttl (Answered k token t d c # es) \<longleftrightarrow> exclusive lease ttl es \<and>
     (case claim_of es k of Free \<Rightarrow> True | Held token1 t1 \<Rightarrow> token = token1 \<or> ttl < t - t1
      | Done t1 _ _ \<Rightarrow> ttl < t - t1)"

text \<open>Runs of any number of workers on one store, with a clock that does not go back. An event is
  recorded when the call changed the entry of its key.\<close>

inductive idem_run ::
  "('s \<Rightarrow> idem_key \<Rightarrow> idem_entry option) \<Rightarrow>
   ('f \<Rightarrow> string \<Rightarrow> idem_key \<Rightarrow> string \<Rightarrow> time \<Rightarrow> duration \<Rightarrow> 's \<Rightarrow> reserve_outcome \<times> 's) \<Rightarrow>
   ('f \<Rightarrow> idem_key \<Rightarrow> string \<Rightarrow> 's \<Rightarrow> 's) \<Rightarrow>
   ('f \<Rightarrow> idem_key \<Rightarrow> string \<Rightarrow> cached_response \<Rightarrow> time \<Rightarrow> string \<Rightarrow> 's \<Rightarrow> 's) \<Rightarrow>
   ('f \<Rightarrow> time \<Rightarrow> 's \<Rightarrow> 's) \<Rightarrow> 's \<Rightarrow> duration \<Rightarrow> time \<Rightarrow> idem_event list \<Rightarrow> 's \<Rightarrow> bool"
  for entry reserve release store prune s0 lease where
  start: "idem_run entry reserve release store prune s0 lease clock [] s0"
| reserve: "idem_run entry reserve release store prune s0 lease clock es s \<Longrightarrow> clock \<le> now \<Longrightarrow> token \<noteq> [] \<Longrightarrow>
     reserve f token k d now lease s = (r, s') \<Longrightarrow>
     es' = (case r of Won t \<Rightarrow> Claimed k t now # es | _ \<Rightarrow> es) \<Longrightarrow>
     idem_run entry reserve release store prune s0 lease now es' s'"
| release: "idem_run entry reserve release store prune s0 lease clock es s \<Longrightarrow> token \<noteq> [] \<Longrightarrow>
     s' = release f k token s \<Longrightarrow> es' = (if entry s' k = entry s k then es else Freed k token # es) \<Longrightarrow>
     idem_run entry reserve release store prune s0 lease clock es' s'"
| store: "idem_run entry reserve release store prune s0 lease clock es s \<Longrightarrow> clock \<le> now \<Longrightarrow> token \<noteq> [] \<Longrightarrow>
     u16_status c \<Longrightarrow> s' = store f k d c now token s \<Longrightarrow>
     es' = (if entry s' k = entry s k then es else Answered k token now d c # es) \<Longrightarrow>
     idem_run entry reserve release store prune s0 lease now es' s'"
| prune: "idem_run entry reserve release store prune s0 lease clock es s \<Longrightarrow> clock \<le> now \<Longrightarrow>
     idem_run entry reserve release store prune s0 lease now es (prune f now s)"

text \<open>The entries agree with what happened.\<close>

fun claim_matches :: "duration \<Rightarrow> time \<Rightarrow> claim \<Rightarrow> idem_entry option \<Rightarrow> bool" where
  "claim_matches ttl clock Free e = (e = None)"
| "claim_matches ttl clock (Held token t) e = (t \<le> clock \<and> token \<noteq> [] \<and>
     ((\<exists>d. e = Some (pending_entry d t token)) \<or> (e = None \<and> ttl < clock - t)))"
| "claim_matches ttl clock (Done t d c) e = (t \<le> clock \<and> u16_status c \<and>
     (e = Some (completed_entry d c t) \<or> (e = None \<and> ttl < clock - t)))"

definition claims_match ::
  "duration \<Rightarrow> ('s \<Rightarrow> idem_key \<Rightarrow> idem_entry option) \<Rightarrow> time \<Rightarrow> idem_event list \<Rightarrow> 's \<Rightarrow> bool" where
  "claims_match ttl entry clock es s \<longleftrightarrow> (\<forall>k. claim_matches ttl clock (claim_of es k) (entry s k))"

lemma entry_shapes [simp]:
  "is_pending (pending_entry d t token)" "ie_created (pending_entry d t token) = t"
  "ie_token (pending_entry d t token) = token" "ie_created (completed_entry d c t) = t"
  "ie_token (completed_entry d c t) = []" "ie_digest (completed_entry d c t) = d"
  "ie_response (completed_entry d c t) = c" "u16_status c \<Longrightarrow> \<not> is_pending (completed_entry d c t)"
  by (simp_all add: pending_entry_def completed_entry_def is_pending_def u16_status_def pending_status_def)

lemma claim_matches_later: "claim_matches ttl clock c e \<Longrightarrow> clock \<le> now \<Longrightarrow> claim_matches ttl now c e"
  by (cases c) auto

lemma claims_matchI:
  "(\<And>k. claim_matches ttl clock (claim_of es k) (entry s k)) \<Longrightarrow> claims_match ttl entry clock es s"
  by (simp add: claims_match_def)

lemma claims_matchD:
  "claims_match ttl entry clock es s \<Longrightarrow> clock \<le> now \<Longrightarrow> claim_matches ttl now (claim_of es k) (entry s k)"
  unfolding claims_match_def by (drule spec [of _ k]) (rule claim_matches_later)

lemma claims_match_same:
  assumes "claims_match ttl entry clock es s" "clock \<le> now" "\<And>k. entry s' k = entry s k"
  shows "claims_match ttl entry now es s'"
  by (rule claims_matchI) (simp only: assms(3) claims_matchD [OF assms(1,2)])

lemma claims_match_step:
  assumes m: "claims_match ttl entry clock es s" and le: "clock \<le> now"
    and others: "\<And>k'. k' \<noteq> k \<Longrightarrow> claim_of es' k' = claim_of es k' \<and> entry s' k' = entry s k'"
    and here: "claim_matches ttl now (claim_of es' k) (entry s' k)"
  shows "claims_match ttl entry now es' s'"
proof (rule claims_matchI)
  fix k' show "claim_matches ttl now (claim_of es' k') (entry s' k')"
    using here others [of k'] claims_matchD [OF m le, of k'] by (cases "k' = k") simp_all
qed

context reservations begin

lemma claim_step:
  assumes m: "claims_match ttl entry clock es s" and "inv s" "clock \<le> now" "token \<noteq> []"
    and r: "reserve f token k d now lease s = (Won t, s')"
  shows "claims_match ttl entry now (Claimed k t now # es) s'"
    and "case claim_of es k of Free \<Rightarrow> True | Held _ t1 \<Rightarrow> min lease ttl < now - t1 | Done t1 _ _ \<Rightarrow> ttl < now - t1"
proof -
  note w = won [OF assms(2) r]
  show "claims_match ttl entry now (Claimed k t now # es) s'"
    using w assms(4) by (intro claims_match_step [OF m assms(3), of k]) (auto simp: reserve_other [OF assms(2) r])
  show "case claim_of es k of Free \<Rightarrow> True | Held _ t1 \<Rightarrow> min lease ttl < now - t1 | Done t1 _ _ \<Rightarrow> ttl < now - t1"
    using w claims_matchD [OF m assms(3), of k] by (cases "claim_of es k") auto
qed

lemma release_step:
  assumes m: "claims_match ttl entry clock es s" and "inv s" and change: "entry (release f k token s) k \<noteq> entry s k"
  shows "claims_match ttl entry clock (Freed k token # es) (release f k token s)"
    and "case claim_of es k of Free \<Rightarrow> False | Held token1 _ \<Rightarrow> token = token1 | Done _ _ _ \<Rightarrow> False"
proof -
  obtain e where gone: "entry (release f k token s) k = None" "entry s k = Some e" "is_pending e" "ie_token e = token"
    using released [OF assms(2), of f k token k] change by blast
  have other: "entry (release f k token s) k' = entry s k'" if "k' \<noteq> k" for k'
    using released [OF assms(2), of f k token k'] that by blast
  show "claims_match ttl entry clock (Freed k token # es) (release f k token s)"
    by (rule claims_match_step [OF m order_refl, of k]) (simp_all add: other gone(1))
  show "case claim_of es k of Free \<Rightarrow> False | Held token1 _ \<Rightarrow> token = token1 | Done _ _ _ \<Rightarrow> False"
    using gone(2-4) claims_matchD [OF m order_refl, of k] by (cases "claim_of es k") auto
qed

lemma store_step:
  assumes m: "claims_match ttl entry clock es s" and "inv s" "clock \<le> now" "token \<noteq> []" "u16_status c"
    and change: "entry (store f k d c now token s) k \<noteq> entry s k"
  shows "claims_match ttl entry now (Answered k token now d c # es) (store f k d c now token s)"
    and "case claim_of es k of Free \<Rightarrow> True | Held token1 t1 \<Rightarrow> token = token1 \<or> ttl < now - t1
      | Done t1 _ _ \<Rightarrow> ttl < now - t1"
proof -
  have new: "entry (store f k d c now token s) k = Some (completed_entry d c now)"
    "case entry s k of Some e \<Rightarrow> ie_token e = token | None \<Rightarrow> True"
    using stored [OF assms(2,5), of f k d now token k] change by blast+
  have other: "entry (store f k d c now token s) k' = entry s k'" if "k' \<noteq> k" for k'
    using stored [OF assms(2,5), of f k d now token k'] that by blast
  show "claims_match ttl entry now (Answered k token now d c # es) (store f k d c now token s)"
    by (rule claims_match_step [OF m assms(3), of k]) (simp_all add: other new(1) assms(5))
  show "case claim_of es k of Free \<Rightarrow> True | Held token1 t1 \<Rightarrow> token = token1 \<or> ttl < now - t1
      | Done t1 _ _ \<Rightarrow> ttl < now - t1"
    using new(2) claims_matchD [OF m assms(3), of k] assms(4) by (cases "claim_of es k") auto
qed

lemma prune_step:
  assumes "claims_match ttl entry clock es s" and "inv s" "clock \<le> now"
  shows "claims_match ttl entry now es (prune f now s)"
proof (rule claims_matchI)
  fix k show "claim_matches ttl now (claim_of es k) (entry (prune f now s) k)"
    using claims_matchD [OF assms(1,3), of k] pruned [OF assms(2), of f now k]
    by (cases "claim_of es k") auto
qed

text \<open>One call of each kind keeps the invariant, the agreement and the discipline.\<close>

definition idem_good where
  "idem_good clock lease es s \<longleftrightarrow> inv s \<and> claims_match ttl entry clock es s \<and> exclusive lease ttl es"

lemma good_reserve:
  assumes "idem_good clock lease es s" "clock \<le> now" "token \<noteq> []"
    and r: "reserve f token k d now lease s = (r, s')"
  shows "idem_good now lease (case r of Won t \<Rightarrow> Claimed k t now # es | _ \<Rightarrow> es) s'"
proof -
  have ok: "inv s" "claims_match ttl entry clock es s" "exclusive lease ttl es"
    using assms(1) by (simp_all add: idem_good_def)
  have inv: "inv s'" using inv_kept [OF ok(1), of f token k d now lease] r by simp
  show ?thesis
  proof (cases "\<exists>t. r = Won t")
    case True
    then obtain t where t: "r = Won t" by blast
    show ?thesis
      using claim_step [OF ok(2,1) assms(2,3) r [unfolded t]] ok(3) inv t by (simp add: idem_good_def)
  next
    case False
    then have "entry s' = entry s" using not_won [OF ok(1) r] by blast
    then show ?thesis
      using False ok(3) inv claims_match_same [OF ok(2) assms(2), of s']
      by (cases r) (simp_all add: idem_good_def)
  qed
qed

lemma good_release:
  assumes "idem_good clock lease es s"
  shows "idem_good clock lease (if entry (release f k token s) k = entry s k then es else Freed k token # es)
           (release f k token s)"
proof -
  have ok: "inv s" "claims_match ttl entry clock es s" "exclusive lease ttl es"
    using assms(1) by (simp_all add: idem_good_def)
  note inv = inv_kept [OF ok(1), THEN conjunct2, THEN conjunct1, of f k token]
  show ?thesis
  proof (cases "entry (release f k token s) k = entry s k")
    case True
    then have "entry (release f k token s) k' = entry s k'" for k'
      using released [OF ok(1), of f k token k'] by auto
    from claims_match_same [OF ok(2) order_refl this] show ?thesis
      using True inv ok(3) by (simp add: idem_good_def)
  next
    case False
    from release_step [OF ok(2,1) this] show ?thesis
      using False inv ok(3) by (simp add: idem_good_def)
  qed
qed

lemma good_store:
  assumes "idem_good clock lease es s" "clock \<le> now" "token \<noteq> []" "u16_status c"
  shows "idem_good now lease
           (if entry (store f k d c now token s) k = entry s k then es else Answered k token now d c # es)
           (store f k d c now token s)"
proof -
  have ok: "inv s" "claims_match ttl entry clock es s" "exclusive lease ttl es"
    using assms(1) by (simp_all add: idem_good_def)
  have inv: "inv (store f k d c now token s)" using inv_kept [OF ok(1)] assms(4) by blast
  show ?thesis
  proof (cases "entry (store f k d c now token s) k = entry s k")
    case True
    then have "entry (store f k d c now token s) k' = entry s k'" for k'
      using stored [OF ok(1) assms(4), of f k d now token k'] by auto
    from claims_match_same [OF ok(2) assms(2) this] show ?thesis
      using True inv ok(3) by (simp add: idem_good_def)
  next
    case False
    from store_step [OF ok(2,1) assms(2-4) this] show ?thesis
      using False inv ok(3) by (simp add: idem_good_def)
  qed
qed

lemma run_invariant:
  assumes "idem_run entry reserve release store prune s0 lease clock es s" and "inv s0" and "\<And>k. entry s0 k = None"
  shows "idem_good clock lease es s"
  using assms(1)
proof induction
  case start
  show ?case by (simp add: idem_good_def claims_match_def assms(2,3))
next
  case reserve
  then show ?case using good_reserve by simp
next
  case release
  then show ?case using good_release by simp
next
  case store
  then show ?case using good_store by simp
next
  case prune
  then show ?case using prune_step inv_kept by (auto simp: idem_good_def)
qed

text \<open>While an answer stands, its key is never claimed: the request is replayed or refused.\<close>

lemma answered_not_executed:
  assumes "inv s" "claims_match ttl entry clock es s" "clock \<le> now" "claim_of es k = Done t d c" "now - t \<le> ttl"
    and r: "reserve f token k d' now lease s = (r, s')"
  shows "(\<forall>x. r \<noteq> Won x) \<and> entry s' = entry s \<and> (\<forall>x. r = RsReplay x \<longrightarrow> x = c \<and> d' = d) \<and> (r = RsConflict \<longrightarrow> d' \<noteq> d)"
proof -
  have e: "entry s k = Some (completed_entry d c t)" and c: "u16_status c"
    using claims_matchD [OF assms(2,3), of k] assms(4,5) by auto
  have nw: "r \<noteq> Won x" for x
    using won [OF assms(1), of f token k d' now lease x s'] r e c assms(5) by auto
  have rep: "x = c \<and> d' = d" if "r = RsReplay x" for x
    using reported [OF assms(1) r, of x] that e by (auto split: if_splits)
  have con: "d' \<noteq> d" if "r = RsConflict"
    using reported [OF assms(1) r] that e by (auto split: if_splits)
  show ?thesis
    using nw not_won [OF assms(1) r] rep con by blast
qed

end

section \<open>Both backends provide it\<close>

lemma mem_reservations:
  "reservations st_get st_ok (\<lambda>_::unit. mem_reserve ttl) (\<lambda>_. mem_release) (\<lambda>_. mem_store)
     (\<lambda>_ now s. snd (mem_prune ttl now s)) ttl"
proof (unfold_locales, goal_cases)
  case (1 s f token k d now lease token' s')
  then show ?case
    by (auto simp: mem_reserve_def Let_def split: option.splits if_splits)
next
  case (2 s f token k d now lease r s' c)
  then show ?case
    by (auto simp: mem_reserve_def Let_def split: option.splits if_splits)
next
  case (3 s f token k d now lease r s')
  then show ?case
    by (auto simp: mem_reserve_def Let_def split: option.splits if_splits)
next
  case (4 s f token k d now lease r s' k')
  then show ?case
    by (auto simp: mem_reserve_def Let_def simp del: split_paired_All split: option.splits if_splits)
next
  case (5 s f k token k')
  then show ?case
    by (auto simp: mem_release_def split: option.splits if_splits)
next
  case (6 s c f k d now token k')
  then show ?case
    by (auto simp: mem_store_def completed_entry_def split: option.splits if_splits)
next
  case (7 s f now k)
  then show ?case
    by (auto simp: mem_prune_def Let_def st_get_filter split: option.splits if_splits)
next
  case (8 s f token k d now lease c)
  then show ?case
    by (auto simp: mem_reserve_def mem_release_def mem_store_def mem_prune_def Let_def st_ok_filter
        split: option.splits if_splits)
qed

interpretation mem_idem: reservations st_get st_ok "\<lambda>_::unit. mem_reserve ttl" "\<lambda>_. mem_release" "\<lambda>_. mem_store"
  "\<lambda>_ now s. snd (mem_prune ttl now s)" ttl for ttl
  by (rule mem_reservations)

text \<open>The rows that the handler writes.\<close>

definition idem_rows_ok :: "chrono \<Rightarrow> idem_table \<Rightarrow> bool" where
  "idem_rows_ok C tab \<longleftrightarrow> st_ok tab \<and>
     (\<forall>k r. st_get tab k = Some r \<longrightarrow> (\<exists>e. r = row_of_entry C e \<and> cd_status (ie_response e) < 65536))"

definition sql_entry :: "chrono \<Rightarrow> idem_table \<Rightarrow> idem_key \<Rightarrow> idem_entry option" where
  "sql_entry C tab k = map_option (entry_of_row C 0) (st_get tab k)"

lemma entry_of_row_of [simp]:
  "rfc3339_roundtrip C \<Longrightarrow> cd_status (ie_response e) < 65536 \<Longrightarrow> entry_of_row C now (row_of_entry C e) = e"
  by (cases e) (simp add: entry_of_row_def row_of_entry_def rfc3339_roundtrip_def flip: of_nat_mod)

lemma idem_row_cases:
  assumes "rfc3339_roundtrip C" "idem_rows_ok C tab"
  obtains "st_get tab k = None" "sql_entry C tab k = None"
  | e where "st_get tab k = Some (row_of_entry C e)" "sql_entry C tab k = Some e" "cd_status (ie_response e) < 65536"
proof (cases "st_get tab k")
  case None
  then show thesis using that(1) by (simp add: sql_entry_def)
next
  case (Some r)
  then obtain e where "r = row_of_entry C e" "cd_status (ie_response e) < 65536"
    using assms(2) unfolding idem_rows_ok_def by blast
  then show thesis using that(2) Some assms(1) by (simp add: sql_entry_def)
qed

lemma idem_rows_put:
  "idem_rows_ok C tab \<Longrightarrow> cd_status (ie_response e) < 65536 \<Longrightarrow> idem_rows_ok C (st_put k (row_of_entry C e) tab)"
  unfolding idem_rows_ok_def by (auto simp del: split_paired_All split: if_splits)

lemma idem_rows_remove: "idem_rows_ok C tab \<Longrightarrow> idem_rows_ok C (st_remove k tab)"
  unfolding idem_rows_ok_def by (auto simp del: split_paired_All split: if_splits)

lemma idem_rows_filter: "idem_rows_ok C tab \<Longrightarrow> idem_rows_ok C (filter (\<lambda>(k, r). P k r) tab)"
  unfolding idem_rows_ok_def
  by (auto simp: st_ok_filter st_get_filter simp del: split_paired_All split: option.splits if_splits)

lemma sql_entry_put [simp]:
  "rfc3339_roundtrip C \<Longrightarrow> cd_status (ie_response e) < 65536 \<Longrightarrow>
   sql_entry C (st_put k (row_of_entry C e) tab) k' = (if k' = k then Some e else sql_entry C tab k')"
  by (simp add: sql_entry_def)

lemma sql_entry_remove [simp]: "sql_entry C (st_remove k tab) k' = (if k' = k then None else sql_entry C tab k')"
  by (simp add: sql_entry_def)

lemma row_fields [simp]:
  "ir_digest (row_of_entry C e) = ie_digest e" "ir_token (row_of_entry C e) = ie_token e"
  "ir_status (row_of_entry C e) = 0 \<longleftrightarrow> is_pending e" "ir_created (row_of_entry C e) = ch_to_rfc3339 C (ie_created e)"
  by (simp_all add: row_of_entry_def is_pending_def pending_status_def)

lemma pending_status_u16 [simp]: "cd_status (ie_response (pending_entry d t token)) < 65536"
  by (simp add: pending_entry_def pending_status_def)

lemma completed_row:
  "\<lparr>ir_digest = d, ir_status = int (cd_status c), ir_body = cd_body c, ir_created = ch_to_rfc3339 C t, ir_token = []\<rparr> =
   row_of_entry C (completed_entry d c t)"
  by (simp add: row_of_entry_def completed_entry_def)

lemma completed_status_u16 [simp]: "u16_status c \<Longrightarrow> cd_status c < 65536"
  by (simp add: u16_status_def)

text \<open>Eviction by the text of the timestamps is eviction by their time.\<close>

lemma sql_prune_entry:
  assumes "rfc3339_roundtrip C" "rfc3339_ordered C" "idem_rows_ok C tab"
  shows "sql_entry C (snd (sql_idem_prune F C ttl now tab)) k =
    (if f_pool F \<or> f_write F then sql_entry C tab k
     else case sql_entry C tab k of Some e \<Rightarrow> if ie_created e < now - ttl then None else Some e | None \<Rightarrow> None)"
proof -
  have ok: "st_ok tab" using assms(3) by (simp add: idem_rows_ok_def)
  show ?thesis
    by (rule idem_row_cases [OF assms(1,3), of k])
      (use assms(1,2) in \<open>simp_all add: sql_idem_prune_def Let_def sql_entry_def st_get_filter [OF ok] rfc3339_ordered_def\<close>)
qed

lemma sql_reserve_cases:
  assumes "rfc3339_roundtrip C" "idem_rows_ok C tab" "\<not> f_read F"
    and r: "sql_reserve F C ttl token k d now lease tab = (r, tab')"
  obtains "r = InProgress" "tab' = tab"
  | "r = Won token" "tab' = st_put k (row_of_entry C (pending_entry d now token)) tab"
      "case sql_entry C tab k of None \<Rightarrow> True
       | Some e \<Rightarrow> ttl < now - ie_created e \<or> (is_pending e \<and> lease < now - ie_created e)"
  | e where "r = (if ie_digest e = d then RsReplay (ie_response e) else RsConflict)" "tab' = tab"
      "sql_entry C tab k = Some e" "\<not> is_pending e" "now - ie_created e \<le> ttl"
proof (rule idem_row_cases [OF assms(1,2), of k])
  assume "st_get tab k = None" "sql_entry C tab k = None"
  then show thesis using r assms(3) that(1,2)
    by (auto simp: sql_reserve_def Let_def split: if_splits)
next
  fix e assume "st_get tab k = Some (row_of_entry C e)" "sql_entry C tab k = Some e" "cd_status (ie_response e) < 65536"
  then show thesis using r assms(1,3) that
    by (auto simp: sql_reserve_def Let_def split: if_splits)
qed

lemma sql_release_cases:
  assumes "rfc3339_roundtrip C" "idem_rows_ok C tab"
  shows "sql_release F k token tab = tab \<or>
    (sql_release F k token tab = st_remove k tab \<and>
     (\<exists>e. sql_entry C tab k = Some e \<and> is_pending e \<and> ie_token e = token))"
  by (rule idem_row_cases [OF assms, of k]) (simp_all add: sql_release_def)

lemma sql_store_cases:
  assumes "rfc3339_roundtrip C" "idem_rows_ok C tab"
  shows "sql_store F C k d c now token tab = tab \<or>
    (sql_store F C k d c now token tab = st_put k (row_of_entry C (completed_entry d c now)) tab \<and>
     (case sql_entry C tab k of Some e \<Rightarrow> ie_token e = token | None \<Rightarrow> True))"
  by (rule idem_row_cases [OF assms, of k]) (simp_all add: sql_store_def completed_row)

text \<open>The table provides the interface as long as its reads do not fail.\<close>

definition readable :: "db_faults \<Rightarrow> db_faults" where
  "readable F = F\<lparr>f_read := False\<rparr>"

lemma sql_reservations:
  assumes C: "rfc3339_roundtrip C" "rfc3339_ordered C"
  shows "reservations (sql_entry C) (idem_rows_ok C) (\<lambda>F. sql_reserve (readable F) C ttl) sql_release
     (\<lambda>F. sql_store F C) (\<lambda>F now tab. snd (sql_idem_prune F C ttl now tab)) ttl"
proof (unfold_locales, goal_cases)
  case (1 s f token k d now lease token' s')
  have "\<not> f_read (readable f)" by (simp add: readable_def)
  from sql_reserve_cases [OF C(1) 1(1) this 1(2)] show ?case
    using C(1) by cases (auto split: if_splits)
next
  case (2 s f token k d now lease r s' c)
  have "\<not> f_read (readable f)" by (simp add: readable_def)
  from sql_reserve_cases [OF C(1) 2(1) this 2(2)] show ?case
    using 2(3) by cases auto
next
  case (3 s f token k d now lease r s')
  have "\<not> f_read (readable f)" by (simp add: readable_def)
  from sql_reserve_cases [OF C(1) 3(1) this 3(2)] show ?case
    using 3(3) by cases auto
next
  case (4 s f token k d now lease r s' k')
  have "\<not> f_read (readable f)" by (simp add: readable_def)
  from sql_reserve_cases [OF C(1) 4(1) this 4(2)] show ?case
    using 4(3) C(1) by cases auto
next
  case (5 s f k token k')
  from sql_release_cases [OF C(1) 5, of f k token] show ?case by (auto split: if_splits)
next
  case (6 s c f k d now token k')
  from sql_store_cases [OF C(1) 6(1), of f k d c now token] show ?case
    using C(1) 6(2) by (auto split: if_splits)
next
  case (7 s f now k)
  show ?case
    using sql_prune_entry [OF C 7, of f ttl now k] by (cases "sql_entry C s k") auto
next
  case (8 s f token k d now lease c)
  have "\<not> f_read (readable f)" by (simp add: readable_def)
  from sql_reserve_cases [OF C(1) 8 this surjective_pairing [of "sql_reserve (readable f) C ttl token k d now lease s"]]
  have "idem_rows_ok C (snd (sql_reserve (readable f) C ttl token k d now lease s))"
    by cases (use 8 in \<open>auto intro: idem_rows_put\<close>)
  moreover have "idem_rows_ok C (sql_release f k token s)"
    using sql_release_cases [OF C(1) 8, of f k token] 8 by (auto intro: idem_rows_remove)
  moreover have "idem_rows_ok C (sql_store f C k d c now token s)" if "u16_status c"
    using sql_store_cases [OF C(1) 8, of f k d c now token] 8 that by (auto simp: idem_rows_put)
  moreover have "idem_rows_ok C (snd (sql_idem_prune f C ttl now s))"
    using 8 by (auto simp: sql_idem_prune_def Let_def intro: idem_rows_filter)
  ultimately show ?case by blast
qed

interpretation sql_idem: reservations "sql_entry chrono_demo" "idem_rows_ok chrono_demo"
  "\<lambda>F. sql_reserve (readable F) chrono_demo ttl" sql_release "\<lambda>F. sql_store F chrono_demo"
  "\<lambda>F now tab. snd (sql_idem_prune F chrono_demo ttl now tab)" ttl for ttl
  by (rule sql_reservations) (rule chrono_demo_ok)+

section \<open>The store over either backend\<close>

datatype idem_backend = IdemMemory idem_map | IdemSqlite idem_table

record idempotency_store =
  is_backend :: idem_backend
  is_ttl :: duration

definition idem_in_memory :: idempotency_store where
  "idem_in_memory = \<lparr>is_backend = IdemMemory [], is_ttl = hours default_ttl_hours\<rparr>"

definition idem_lookup ::
  "db_faults \<Rightarrow> chrono \<Rightarrow> idem_key \<Rightarrow> string \<Rightarrow> time \<Rightarrow> idempotency_store \<Rightarrow> lookup_outcome" where
  "idem_lookup F C k d now st = (case is_backend st of
      IdemMemory m \<Rightarrow> mem_lookup (is_ttl st) k d now m
    | IdemSqlite tab \<Rightarrow> sql_lookup F C (is_ttl st) k d now tab)"

definition idem_reserve ::
  "db_faults \<Rightarrow> chrono \<Rightarrow> string \<Rightarrow> idem_key \<Rightarrow> string \<Rightarrow> time \<Rightarrow> duration \<Rightarrow> idempotency_store
     \<Rightarrow> reserve_outcome \<times> idempotency_store" where
  "idem_reserve F C token k d now lease st = (case is_backend st of
      IdemMemory m \<Rightarrow> (case mem_reserve (is_ttl st) token k d now lease m of
        (r, m') \<Rightarrow> (r, st\<lparr>is_backend := IdemMemory m'\<rparr>))
    | IdemSqlite tab \<Rightarrow> (case sql_reserve F C (is_ttl st) token k d now lease tab of
        (r, tab') \<Rightarrow> (r, st\<lparr>is_backend := IdemSqlite tab'\<rparr>)))"

definition idem_release :: "db_faults \<Rightarrow> idem_key \<Rightarrow> string \<Rightarrow> idempotency_store \<Rightarrow> idempotency_store" where
  "idem_release F k token st = (case is_backend st of
      IdemMemory m \<Rightarrow> st\<lparr>is_backend := IdemMemory (mem_release k token m)\<rparr>
    | IdemSqlite tab \<Rightarrow> st\<lparr>is_backend := IdemSqlite (sql_release F k token tab)\<rparr>)"

definition idem_store ::
  "db_faults \<Rightarrow> chrono \<Rightarrow> idem_key \<Rightarrow> string \<Rightarrow> cached_response \<Rightarrow> time \<Rightarrow> string \<Rightarrow> idempotency_store
     \<Rightarrow> idempotency_store" where
  "idem_store F C k d response now token st = (case is_backend st of
      IdemMemory m \<Rightarrow> st\<lparr>is_backend := IdemMemory (mem_store k d response now token m)\<rparr>
    | IdemSqlite tab \<Rightarrow> st\<lparr>is_backend := IdemSqlite (sql_store F C k d response now token tab)\<rparr>)"

definition idem_prune :: "db_faults \<Rightarrow> chrono \<Rightarrow> time \<Rightarrow> idempotency_store \<Rightarrow> nat \<times> idempotency_store" where
  "idem_prune F C now st = (case is_backend st of
      IdemMemory m \<Rightarrow> apsnd (\<lambda>m'. st\<lparr>is_backend := IdemMemory m'\<rparr>) (mem_prune (is_ttl st) now m)
    | IdemSqlite tab \<Rightarrow> apsnd (\<lambda>t. st\<lparr>is_backend := IdemSqlite t\<rparr>) (sql_idem_prune F C (is_ttl st) now tab))"

text \<open>The store provides the interface on whichever backend it has.\<close>

definition store_entry :: "chrono \<Rightarrow> idempotency_store \<Rightarrow> idem_key \<Rightarrow> idem_entry option" where
  "store_entry C st k = (case is_backend st of
      IdemMemory m \<Rightarrow> st_get m k | IdemSqlite tab \<Rightarrow> sql_entry C tab k)"

definition store_inv :: "chrono \<Rightarrow> duration \<Rightarrow> idempotency_store \<Rightarrow> bool" where
  "store_inv C ttl st \<longleftrightarrow> is_ttl st = ttl \<and>
     (case is_backend st of IdemMemory m \<Rightarrow> st_ok m | IdemSqlite tab \<Rightarrow> idem_rows_ok C tab)"

lemmas mem_laws = mem_reservations [THEN reservations.won] mem_reservations [THEN reservations.reported]
  mem_reservations [THEN reservations.not_won] mem_reservations [THEN reservations.reserve_other]
  mem_reservations [THEN reservations.released] mem_reservations [THEN reservations.stored]
  mem_reservations [THEN reservations.pruned] mem_reservations [THEN reservations.inv_kept]

lemmas sql_laws = sql_reservations [THEN reservations.won] sql_reservations [THEN reservations.reported]
  sql_reservations [THEN reservations.not_won] sql_reservations [THEN reservations.reserve_other]
  sql_reservations [THEN reservations.released] sql_reservations [THEN reservations.stored]
  sql_reservations [THEN reservations.pruned] sql_reservations [THEN reservations.inv_kept]

lemma store_entry_simps [simp]:
  "is_backend st = IdemMemory m \<Longrightarrow> store_entry C st = st_get m"
  "is_backend st = IdemSqlite tab \<Longrightarrow> store_entry C st = sql_entry C tab"
  by (simp_all add: store_entry_def fun_eq_iff)

lemma store_reserve_cases:
  assumes "store_inv C ttl st" "idem_reserve (readable F) C token k d now lease st = (r, st')"
  obtains m m' where "st_ok m" "mem_reserve ttl token k d now lease m = (r, m')"
      "store_entry C st = st_get m" "store_entry C st' = st_get m'"
  | tab tab' where "idem_rows_ok C tab" "sql_reserve (readable F) C ttl token k d now lease tab = (r, tab')"
      "store_entry C st = sql_entry C tab" "store_entry C st' = sql_entry C tab'"
  using assms
  by (auto simp: idem_reserve_def store_inv_def split: idem_backend.splits prod.splits)

lemma store_reservations:
  assumes C: "rfc3339_roundtrip C" "rfc3339_ordered C"
  shows "reservations (store_entry C) (store_inv C ttl) (\<lambda>F. idem_reserve (readable F) C) idem_release
    (\<lambda>F. idem_store F C) (\<lambda>F now st. snd (idem_prune F C now st)) ttl"
proof (unfold_locales, goal_cases)
  case (1 s f token k d now lease token' s')
  then show ?case
    by (rule store_reserve_cases) (drule (1) mem_laws(1), simp, drule (1) sql_laws(1) [OF C], simp)
next
  case (2 s f token k d now lease r s' c)
  from 2(1,2) show ?case
    by (rule store_reserve_cases) (drule (1) mem_laws(2), rule 2(3), simp, drule (1) sql_laws(2) [OF C], rule 2(3), simp)
next
  case (3 s f token k d now lease r s')
  from 3(1,2) show ?case
    by (rule store_reserve_cases) (drule (1) mem_laws(3), rule 3(3), simp, drule (1) sql_laws(3) [OF C], rule 3(3), simp)
next
  case (4 s f token k d now lease r s' k')
  from 4(1,2) show ?case
    by (rule store_reserve_cases) (drule (1) mem_laws(4), rule 4(3), simp, drule (1) sql_laws(4) [OF C], rule 4(3), simp)
next
  case (5 s f k token k')
  then show ?case
    using mem_laws(5) [of _ k token k'] sql_laws(5) [OF C, of _ f k token k']
    by (cases "is_backend s") (simp_all add: store_inv_def idem_release_def)
next
  case (6 s c f k d now token k')
  then show ?case
    using mem_laws(6) [of _ c k d now token k'] sql_laws(6) [OF C, of _ c f k d now token k']
    by (cases "is_backend s") (simp_all add: store_inv_def idem_store_def)
next
  case (7 s f now k)
  then show ?case
    using mem_laws(7) [of _ ttl now k] sql_laws(7) [OF C, of _ f ttl now k]
    by (cases "is_backend s") (simp_all add: store_inv_def idem_prune_def)
next
  case (8 s f token k d now lease c)
  then show ?case
    using mem_laws(8) [of _ ttl token k d now lease c] sql_laws(8) [OF C, of _ f ttl token k d now lease c]
    by (cases "is_backend s")
      (simp_all add: store_inv_def idem_reserve_def idem_release_def idem_store_def idem_prune_def case_prod_beta)
qed

interpretation idem_any: reservations "store_entry chrono_demo" "store_inv chrono_demo ttl"
  "\<lambda>F. idem_reserve (readable F) chrono_demo" idem_release "\<lambda>F. idem_store F chrono_demo"
  "\<lambda>F now st. snd (idem_prune F chrono_demo now st)" ttl for ttl
  by (rule store_reservations) (rule chrono_demo_ok)+

text \<open>What a key has, whichever backend holds it.\<close>

definition idem_holds :: "chrono \<Rightarrow> idempotency_store \<Rightarrow> idem_key \<Rightarrow> idem_entry option \<Rightarrow> bool" where
  "idem_holds C st k e \<longleftrightarrow> (case is_backend st of
      IdemMemory m \<Rightarrow> st_get m k = e | IdemSqlite tab \<Rightarrow> st_get tab k = map_option (row_of_entry C) e)"

lemma idem_ttl_kept [simp]:
  "is_ttl (snd (idem_reserve F C token k d now lease st)) = is_ttl st"
  "is_ttl (idem_release F k token st) = is_ttl st"
  "is_ttl (idem_store F C k d response now token st) = is_ttl st"
  by (simp_all add: idem_reserve_def idem_release_def idem_store_def split: idem_backend.split prod.split)

lemma idem_won_entry:
  assumes "idem_reserve F C token k d now lease st = (Won t, st')"
  shows "t = token \<and> is_ttl st' = is_ttl st \<and> idem_holds C st' k (Some (pending_entry d now token))"
  using assms
  by (auto simp: idem_reserve_def mem_reserve_def sql_reserve_def Let_def idem_holds_def
      split: idem_backend.splits prod.splits option.splits if_splits)

lemma idem_store_won:
  assumes "idem_reserve F C token k d now lease st = (Won t, st')" "\<not> f_pool F'" "\<not> f_write F'"
  shows "idem_holds C (idem_store F' C k d c now' t st') k (Some (completed_entry d c now'))"
  using idem_won_entry [OF assms(1)] assms(2,3)
  by (cases "is_backend st'")
    (simp_all add: idem_store_def idem_holds_def mem_store_def sql_store_def completed_row
      completed_entry_def [of _ _ now', symmetric])

lemma idem_release_won:
  assumes "idem_reserve F C token k d now lease st = (Won t, st')" "\<not> f_pool F'" "\<not> f_write F'"
  shows "idem_holds C (idem_release F' k t st') k None"
  using idem_won_entry [OF assms(1)] assms(2,3)
  by (cases "is_backend st'") (simp_all add: idem_release_def idem_holds_def mem_release_def sql_release_def)

lemma idem_reserve_answered:
  assumes "idem_holds C st k (Some (completed_entry d c t))" "u16_status c" "now - t \<le> is_ttl st"
    and "rfc3339_roundtrip C"
  shows "idem_reserve no_faults C token k d' now lease st = (if d' = d then RsReplay c else RsConflict, st)"
  using assms
  by (cases "is_backend st")
    (simp_all add: idem_reserve_def idem_holds_def mem_reserve_def sql_reserve_def no_faults_def Let_def)

text \<open>A recorded answer survives everything but a claim of its own key that is made after its life time, or blindly.\<close>

lemma idem_holds_reserve:
  assumes "idem_holds C st k (Some (completed_entry d c t))" "u16_status c" "rfc3339_roundtrip C"
    and "k' = k \<Longrightarrow> \<not> f_read F \<and> now - t \<le> is_ttl st"
    and "idem_reserve F C token k' d' now lease st = (r, st')"
  shows "idem_holds C st' k (Some (completed_entry d c t)) \<and> is_ttl st' = is_ttl st \<and>
    (k' = k \<longrightarrow> st' = st \<and> (\<forall>tok. r \<noteq> Won tok))"
proof (cases "k' = k")
  case True
  show ?thesis
  proof (cases "is_backend st")
    case (IdemMemory m)
    have "st\<lparr>is_backend := IdemMemory m\<rparr> = st"
      by (rule idempotency_store.equality) (simp_all add: IdemMemory)
    then show ?thesis
      using IdemMemory assms True
      by (auto simp: idem_reserve_def idem_holds_def mem_reserve_def Let_def split: if_splits)
  next
    case (IdemSqlite tab)
    have "st\<lparr>is_backend := IdemSqlite tab\<rparr> = st"
      by (rule idempotency_store.equality) (simp_all add: IdemSqlite)
    then show ?thesis
      using IdemSqlite assms True
      by (auto simp: idem_reserve_def idem_holds_def sql_reserve_def Let_def split: if_splits)
  qed
next
  case False
  show ?thesis
  proof (cases "is_backend st")
    case (IdemMemory m)
    then show ?thesis
      using assms(1,5) False
      by (auto simp: idem_reserve_def idem_holds_def mem_reserve_def Let_def split: prod.splits option.splits if_splits)
  next
    case (IdemSqlite tab)
    then show ?thesis
      using assms(1,5) False
      by (auto simp: idem_reserve_def idem_holds_def sql_reserve_def Let_def split: prod.splits option.splits if_splits)
  qed
qed

lemma idem_holds_other:
  assumes "idem_holds C st k e" "k' \<noteq> k"
  shows "idem_holds C (idem_release F k' token st) k e" "idem_holds C (idem_store F C k' d c now token st) k e"
  using assms
  by (auto simp: idem_release_def idem_store_def idem_holds_def mem_release_def sql_release_def mem_store_def sql_store_def
      split: idem_backend.splits option.splits)

lemma st_get_filter_keep: "st_get m k = Some v \<Longrightarrow> P (k, v) \<Longrightarrow> st_get (filter P m) k = Some v"
  by (induction m) (auto simp: st_get_def split: if_splits)

lemma idem_holds_prune:
  assumes "idem_holds C st k (Some (completed_entry d c t))" "now - t \<le> is_ttl st" "rfc3339_ordered C"
  shows "idem_holds C (snd (idem_prune F C now st)) k (Some (completed_entry d c t)) \<and>
    is_ttl (snd (idem_prune F C now st)) = is_ttl st"
proof (cases "is_backend st")
  case (IdemMemory m)
  then show ?thesis
    using assms(1,2) by (auto simp: idem_prune_def idem_holds_def mem_prune_def Let_def intro!: st_get_filter_keep)
next
  case (IdemSqlite tab)
  have "\<not> text_less (ch_to_rfc3339 C t) (ch_to_rfc3339 C (now - is_ttl st))"
    using assms(2,3) by (simp add: rfc3339_ordered_def)
  then show ?thesis
    using IdemSqlite assms(1)
    by (auto simp: idem_prune_def idem_holds_def sql_idem_prune_def Let_def intro!: st_get_filter_keep)
qed

lemma idem_reserve_free:
  "idem_holds C st k None \<Longrightarrow> fst (idem_reserve no_faults C token k d now lease st) = Won token"
  by (cases "is_backend st")
    (simp_all add: idem_reserve_def idem_holds_def mem_reserve_def sql_reserve_def no_faults_def Let_def)

section \<open>Properties\<close>

definition demo_key :: idem_key where
  "demo_key = (''shop'', ''k'')"

definition demo_answer :: cached_response where
  "demo_answer = \<lparr>cd_status = 200, cd_body = ''ok''\<rparr>"

definition demo_events :: "idem_event list" where
  "demo_events = [Answered demo_key ''a'' 5 ''d'' demo_answer, Claimed demo_key ''a'' 0]"

lemma demo_run:
  assumes r: "reserve f ''a'' demo_key ''d'' 0 lease s0 = (Won ''a'', s1)"
    and s: "s2 = store g demo_key ''d'' demo_answer 5 ''a'' s1"
    and "entry s2 demo_key \<noteq> entry s1 demo_key"
  shows "idem_run entry reserve release store prune s0 lease 5 demo_events s2"
proof -
  have "idem_run entry reserve release store prune s0 lease 0 [Claimed demo_key ''a'' 0] s1"
    by (rule idem_run.reserve [where f = f and s = s0 and token = "''a''" and k = demo_key and d = "''d''"
          and r = "Won ''a''" and clock = 0 and es = "[]"])
      (simp_all add: r idem_run.start)
  then show ?thesis
    by (rule idem_run.store [where f = g and s = s1 and token = "''a''" and k = demo_key and d = "''d''"
          and clock = 0 and c = demo_answer and es = "[Claimed demo_key ''a'' 0]"])
      (use s assms(3) in \<open>simp_all add: demo_events_def demo_answer_def u16_status_def\<close>)
qed

text \<open>
  C8. Any number of workers, in one process on the map or in several on the shared table, reserve,
  release, answer and evict on a clock that does not go back, whatever calls to the database fail
  (except reads): no claim of a key is taken over before its lease or life time is up, only the
  holder frees or answers a live claim, and while an answer stands the key is never claimed
  again: the same request is replayed and a different one refused, nothing changed.
\<close>

theorem executions_exclusive:
  assumes "rfc3339_roundtrip C" "rfc3339_ordered C" and "store_inv C ttl st0" "\<And>k. store_entry C st0 k = None"
    and "idem_run (store_entry C) (\<lambda>F. idem_reserve (readable F) C) idem_release (\<lambda>F. idem_store F C)
             (\<lambda>F now st. snd (idem_prune F C now st)) st0 lease clock es st"
  shows "exclusive lease ttl es \<and>
    (\<forall>k t d c now d' token F r st'. claim_of es k = Done t d c \<longrightarrow> clock \<le> now \<longrightarrow> now - t \<le> ttl \<longrightarrow>
       idem_reserve (readable F) C token k d' now lease st = (r, st') \<longrightarrow>
       store_entry C st' = store_entry C st \<and> (r = InProgress \<or> r = (if d' = d then RsReplay c else RsConflict)))"
proof -
  note R = store_reservations [OF assms(1,2), of ttl]
  have good: "store_inv C ttl st" "claims_match ttl (store_entry C) clock es st" "exclusive lease ttl es"
    using reservations.run_invariant [OF R assms(5,3,4)] by (simp_all add: reservations.idem_good_def [OF R])
  have "store_entry C st' = store_entry C st \<and> (r = InProgress \<or> r = (if d' = d then RsReplay c else RsConflict))"
    if "claim_of es k = Done t d c" "clock \<le> now" "now - t \<le> ttl"
      "idem_reserve (readable F) C token k d' now lease st = (r, st')" for k t d c now d' token F r st'
    using reservations.answered_not_executed [OF R good(1,2) that(2,1,3,4)] by (cases r) auto
  with good(3) show ?thesis by blast
qed

text \<open>On the map and on the table: claimed, answered, and replayed while the answer stands.\<close>

lemma demo_store_run:
  assumes "b = IdemMemory [] \<or> b = IdemSqlite []"
  shows "\<exists>st. idem_run (store_entry chrono_demo) (\<lambda>F. idem_reserve (readable F) chrono_demo) idem_release
      (\<lambda>F. idem_store F chrono_demo) (\<lambda>F now st. snd (idem_prune F chrono_demo now st))
      \<lparr>is_backend = b, is_ttl = 100\<rparr> 30 5 demo_events st"
proof -
  define st0 where "st0 = \<lparr>is_backend = b, is_ttl = 100\<rparr>"
  obtain t st1 where won: "idem_reserve (readable no_faults) chrono_demo ''a'' demo_key ''d'' 0 30 st0 = (Won t, st1)"
    using assms by (auto simp: st0_def idem_reserve_def mem_reserve_def sql_reserve_def readable_def no_faults_def)
  define st2 where "st2 = idem_store no_faults chrono_demo demo_key ''d'' demo_answer 5 ''a'' st1"
  have t: "t = ''a''" and held: "idem_holds chrono_demo st1 demo_key (Some (pending_entry ''d'' 0 ''a''))"
    using idem_won_entry [OF won] by simp_all
  have "idem_holds chrono_demo st2 demo_key (Some (completed_entry ''d'' demo_answer 5))"
    using idem_store_won [OF won, of no_faults demo_answer 5] by (simp add: st2_def t no_faults_def)
  then have "store_entry chrono_demo st2 demo_key = Some (completed_entry ''d'' demo_answer 5)"
    "store_entry chrono_demo st1 demo_key = Some (pending_entry ''d'' 0 ''a'')"
    using held chrono_demo_ok(1)
    by (cases "is_backend st2"; cases "is_backend st1"; simp add: idem_holds_def sql_entry_def demo_answer_def
        completed_entry_def)+
  then have changed: "store_entry chrono_demo st2 demo_key \<noteq> store_entry chrono_demo st1 demo_key"
    by (simp add: completed_entry_def pending_entry_def)
  show ?thesis
    by (rule exI [of _ st2], fold st0_def, rule demo_run [of _ no_faults _ _ st1 _ _ no_faults])
      (use won t changed in \<open>simp_all add: st2_def\<close>)
qed

theorem executions_exclusive_witness: "exclusive 30 100 demo_events"
proof -
  obtain st where run: "idem_run (store_entry chrono_demo) (\<lambda>F. idem_reserve (readable F) chrono_demo) idem_release
      (\<lambda>F. idem_store F chrono_demo) (\<lambda>F now st. snd (idem_prune F chrono_demo now st))
      \<lparr>is_backend = IdemSqlite [], is_ttl = 100\<rparr> 30 5 demo_events st"
    using demo_store_run [of "IdemSqlite []"] by blast
  have "store_inv chrono_demo 100 \<lparr>is_backend = IdemSqlite [], is_ttl = 100\<rparr>"
    by (simp add: store_inv_def idem_rows_ok_def)
  from executions_exclusive [OF chrono_demo_ok(1,3) this _ run] show ?thesis
    by (simp add: store_entry_def sql_entry_def)
qed

definition rows_of :: "chrono \<Rightarrow> idem_map \<Rightarrow> idem_table" where
  "rows_of C m = map (\<lambda>(k, e). (k, row_of_entry C e)) m"

definition u16_entries :: "idem_map \<Rightarrow> bool" where
  "u16_entries m \<longleftrightarrow> (\<forall>k e. st_get m k = Some e \<longrightarrow> cd_status (ie_response e) < 65536)"

lemma rows_of_get [simp]: "st_get (rows_of C m) k = map_option (row_of_entry C) (st_get m k)"
  by (simp add: rows_of_def st_get_def map_of_map)

lemma rows_of_put: "st_put k (row_of_entry C e) (rows_of C m) = rows_of C (st_put k e m)"
  by (induction m) (auto simp: rows_of_def st_put_def)

lemma rows_of_remove: "st_remove k (rows_of C m) = rows_of C (st_remove k m)"
  by (induction m) (auto simp: rows_of_def st_remove_def)

lemma rows_of_filter:
  "rfc3339_ordered C \<Longrightarrow>
   filter (\<lambda>(k, r). \<not> text_less (ir_created r) (ch_to_rfc3339 C cutoff)) (rows_of C m) =
   rows_of C (filter (\<lambda>(k, e). cutoff \<le> ie_created e) m)"
  by (induction m) (auto simp: rows_of_def rfc3339_ordered_def)

text \<open>
  C32. Without failures the SQLite table is the in-memory map row for row: lookup, reservation,
  release, completion and eviction answer alike and leave the rows of the map that the other
  backend leaves. A failing connection, begin, write or commit leaves the table as it was.
\<close>

theorem idem_table_refines_map:
  assumes "rfc3339_roundtrip C" "rfc3339_ordered C" "u16_entries m"
  shows "sql_lookup no_faults C ttl k d now (rows_of C m) = mem_lookup ttl k d now m \<and>
    sql_reserve no_faults C ttl token k d now lease (rows_of C m) =
      apsnd (rows_of C) (mem_reserve ttl token k d now lease m) \<and>
    sql_release no_faults k token (rows_of C m) = rows_of C (mem_release k token m) \<and>
    sql_store no_faults C k d c now token (rows_of C m) = rows_of C (mem_store k d c now token m) \<and>
    sql_idem_prune no_faults C ttl now (rows_of C m) = apsnd (rows_of C) (mem_prune ttl now m) \<and>
    (f_pool F \<or> f_begin F \<or> f_write F \<or> f_commit F \<longrightarrow>
       snd (sql_reserve F C ttl token k d now lease tab) = tab)"
proof (intro conjI)
  have status: "cd_status (ie_response e) < 65536" if "st_get m k = Some e" for e
    using assms(3) that unfolding u16_entries_def by blast
  show "sql_lookup no_faults C ttl k d now (rows_of C m) = mem_lookup ttl k d now m"
    using assms(1) status by (cases "st_get m k") (simp_all add: sql_lookup_def mem_lookup_def no_faults_def)
  show "sql_reserve no_faults C ttl token k d now lease (rows_of C m) =
      apsnd (rows_of C) (mem_reserve ttl token k d now lease m)"
    using assms(1) status
    by (cases "st_get m k") (auto simp: sql_reserve_def mem_reserve_def no_faults_def rows_of_put Let_def)
  show "sql_release no_faults k token (rows_of C m) = rows_of C (mem_release k token m)"
    by (cases "st_get m k") (simp_all add: sql_release_def mem_release_def no_faults_def rows_of_remove)
  show "sql_store no_faults C k d c now token (rows_of C m) = rows_of C (mem_store k d c now token m)"
    unfolding sql_store_def completed_row rows_of_put
    by (cases "st_get m k") (simp_all add: mem_store_def no_faults_def completed_entry_def)
  show "sql_idem_prune no_faults C ttl now (rows_of C m) = apsnd (rows_of C) (mem_prune ttl now m)"
    by (simp add: sql_idem_prune_def mem_prune_def no_faults_def Let_def rows_of_filter [OF assms(2)])
      (simp add: rows_of_def)
  show "f_pool F \<or> f_begin F \<or> f_write F \<or> f_commit F \<longrightarrow>
      snd (sql_reserve F C ttl token k d now lease tab) = tab"
    by (auto simp: sql_reserve_def Let_def split: option.split)
qed

theorem idem_table_refines_map_witness:
  "sql_reserve no_faults chrono_demo 100 ''a'' demo_key ''d'' 0 30 [] =
     (Won ''a'', rows_of chrono_demo [(demo_key, pending_entry ''d'' 0 ''a'')])"
proof -
  have "u16_entries []" by (simp add: u16_entries_def)
  from idem_table_refines_map [OF chrono_demo_ok(1,3) this,
      THEN conjunct2, THEN conjunct1, of 100 "''a''" demo_key "''d''" 0 30]
  show ?thesis by (simp add: rows_of_def mem_reserve_def st_put_def)
qed

text \<open>A failing read counts as no row: the claim is then won over a standing answer.\<close>

lemma unread_answer_is_claimed:
  "sql_reserve (no_faults\<lparr>f_read := True\<rparr>) C ttl token k d now lease tab =
     (Won token, st_put k (row_of_entry C (pending_entry d now token)) tab)"
  by (simp add: sql_reserve_def no_faults_def)

end
