(* ===== verification/Config.thy ===== *)
theory Config
  imports Service_State Access Idempotency
begin

text \<open>
  The configuration (\<open>src/config.rs\<close>): what the handler reads from its environment, and what it refuses to start
  with. The record extends the part that the pipeline reads (\<open>config\<close> in \<open>Service_State\<close>) with the rest of the
  fields. An environment is a map of the variables that are set to Unicode text; the file system is a parameter.
\<close>

section \<open>Reading the environment\<close>

text \<open>\<open>str::parse\<close> of an unsigned integer up to \<open>m\<close>, with the errors of the standard library, found from left to right.\<close>

fun parse_digits :: "nat \<Rightarrow> nat \<Rightarrow> string \<Rightarrow> string + nat" where
  "parse_digits m acc [] = Inr acc"
| "parse_digits m acc (c # cs) =
     (if \<not> is_digit c then Inl ''invalid digit found in string''
      else if m < 10 * acc + digit_val c then Inl ''number too large to fit in target type''
      else parse_digits m (10 * acc + digit_val c) cs)"

definition parse_uint :: "nat \<Rightarrow> string \<Rightarrow> string + nat" where
  "parse_uint m s =
     (case s of
        [] \<Rightarrow> Inl ''cannot parse integer from empty string''
      | c # cs \<Rightarrow> if c = CHR ''+'' \<and> cs \<noteq> [] then parse_digits m 0 cs else parse_digits m 0 s)"

definition u16_max :: nat where "u16_max = 65535"
definition u32_max :: nat where "u32_max = 4294967295"
definition u64_max :: nat where "u64_max = 18446744073709551615"

type_synonym environment = "string \<Rightarrow> string option"

definition env_default :: "environment \<Rightarrow> string \<Rightarrow> string \<Rightarrow> string" where
  "env_default env key fallback = (case env key of Some v \<Rightarrow> v | None \<Rightarrow> fallback)"

definition env_bool :: "environment \<Rightarrow> string \<Rightarrow> bool \<Rightarrow> bool" where
  "env_bool env key fallback =
     (case env key of Some v \<Rightarrow> to_ascii_lowercase v \<in> {''1'', ''true'', ''yes'', ''on''} | None \<Rightarrow> fallback)"

text \<open>\<open>env_default(key, text).parse().unwrap_or(n)\<close>.\<close>

definition env_nat :: "environment \<Rightarrow> nat \<Rightarrow> string \<Rightarrow> string \<Rightarrow> nat \<Rightarrow> nat" where
  "env_nat env m key text n = (case parse_uint m (env_default env key text) of Inr v \<Rightarrow> v | Inl _ \<Rightarrow> n)"

definition parse_dunning_schedule :: "string \<Rightarrow> u32 list" where
  "parse_dunning_schedule s =
     map of_nat (filter (\<lambda>n. 1 \<le> n \<and> n \<le> 8760)
       (List.map_filter (\<lambda>p. case parse_uint u32_max p of Inr n \<Rightarrow> Some n | Inl _ \<Rightarrow> None)
         (filter (\<lambda>p. p \<noteq> []) (map trim (split_on CHR '','' s)))))"

definition split_csv :: "string \<Rightarrow> string list" where
  "split_csv s = filter (\<lambda>p. p \<noteq> []) (map trim (split_on CHR '','' s))"

section \<open>The configuration\<close>

record runtime_config = config +
  rc_host :: string
  rc_port :: nat
  rc_grpc_host :: string
  rc_grpc_port :: nat
  rc_require_icp_version :: bool
  rc_require_request_id :: bool
  rc_require_idempotency_key :: bool
  rc_handler_id :: string
  rc_service_name :: string
  rc_signing_key_pem :: "string option"
  rc_signing_kid :: string
  rc_allow_insecure_urls :: bool
  rc_cors_allow_origins :: "string list"
  rc_api_keys_json :: "string option"
  rc_api_keys_file :: "string option"
  rc_enable_demo_keys :: bool
  rc_commerce_enabled :: bool
  rc_commerce_db_path :: string
  rc_transaction_ttl_secs :: nat
  rc_state_db_path :: string
  rc_redis_url :: "string option"
  rc_webhook_retain_delivered_days :: nat
  rc_webhook_retain_dead_lettered_days :: nat
  rc_idempotency_sweeper_interval_secs :: nat
  rc_expiry_sweeper_interval_secs :: nat
  rc_a2a_enabled :: bool
  rc_mcp_enabled :: bool
  rc_acp_compat_enabled :: bool
  rc_ucp_compat_enabled :: bool
  rc_rate_limit_per_minute :: u32
  rc_pre_auth_rate_limit_per_minute :: u32
  rc_trust_proxy_headers :: bool
  rc_subscription_scheduler_enabled :: bool
  rc_subscription_scheduler_interval_secs :: nat
  rc_log_level :: string

definition default_transaction_ttl_secs :: nat where
  "default_transaction_ttl_secs = 21600"

definition load :: "environment \<Rightarrow> string + runtime_config" where
  "load env =
     (let host = env_default env ''HOST'' ''0.0.0.0'' in
      case parse_uint u16_max (env_default env ''PORT'' ''8082'') of
        Inl e \<Rightarrow> Inl (''invalid PORT: '' @ e)
      | Inr port \<Rightarrow>
     (case parse_uint u16_max (env_default env ''GRPC_PORT'' ''50052'') of
        Inl e \<Rightarrow> Inl (''invalid GRPC_PORT: '' @ e)
      | Inr grpc_port \<Rightarrow>
      Inr \<lparr>
        cf_icp_version = env_default env ''ICP_VERSION'' icp_version_const,
        cf_require_mandate = env_bool env ''ICP_REQUIRE_MANDATE'' True,
        cf_verify_mandate_signatures = env_bool env ''ICP_VERIFY_MANDATE_SIGNATURES'' True,
        cf_public_base_url = env_default env ''ICP_PUBLIC_BASE_URL'' ''http://127.0.0.1:8082'',
        cf_webhook_url = env ''ICP_WEBHOOK_URL'',
        cf_webhook_secret = env ''ICP_WEBHOOK_SECRET'',
        cf_deployment_env = env_default env ''ICP_DEPLOYMENT_ENV'' ''development'',
        cf_payment_execution_mode = env_default env ''ICP_PAYMENT_EXECUTION_MODE'' ''simulated'',
        cf_subscription_dunning_schedule_hours =
          parse_dunning_schedule (env_default env ''ICP_SUBSCRIPTION_DUNNING_SCHEDULE_HOURS'' ''1,6,24''),
        cf_idempotency_lease_secs = env_nat env u64_max ''ICP_IDEMPOTENCY_LEASE_SECONDS'' ''60'' 60,
        rc_host = host, rc_port = port, rc_grpc_host = env_default env ''GRPC_HOST'' host, rc_grpc_port = grpc_port,
        rc_require_icp_version = env_bool env ''ICP_REQUIRE_VERSION'' True,
        rc_require_request_id = env_bool env ''ICP_REQUIRE_REQUEST_ID'' False,
        rc_require_idempotency_key = env_bool env ''ICP_REQUIRE_IDEMPOTENCY_KEY'' False,
        rc_handler_id = env_default env ''ICP_HANDLER_ID'' ''icp://localhost'',
        rc_service_name = env_default env ''ICP_SERVICE_NAME'' ''StateSet ICP Handler'',
        rc_signing_key_pem = env ''ICP_SIGNING_KEY_PEM'',
        rc_signing_kid = env_default env ''ICP_SIGNING_KID'' ''icp-receipt-2026-04'',
        rc_allow_insecure_urls = env_bool env ''ICP_ALLOW_INSECURE_URLS'' True,
        rc_cors_allow_origins = split_csv (env_default env ''ICP_CORS_ALLOW_ORIGINS'' ''*''),
        rc_api_keys_json = env ''ICP_API_KEYS_JSON'',
        rc_api_keys_file = env ''ICP_API_KEYS_FILE'',
        rc_enable_demo_keys = env_bool env ''ICP_ENABLE_DEMO_KEYS'' False,
        rc_commerce_enabled = env_bool env ''COMMERCE_ENABLED'' True,
        rc_commerce_db_path = env_default env ''COMMERCE_DB_PATH'' ''./commerce.db'',
        rc_transaction_ttl_secs = env_nat env u64_max ''ICP_TRANSACTION_TTL_SECONDS'' [] default_transaction_ttl_secs,
        rc_state_db_path = env_default env ''ICP_STATE_DB_PATH'' ''./icp-state.db'',
        rc_redis_url = env ''REDIS_URL'',
        rc_webhook_retain_delivered_days = env_nat env u32_max ''ICP_WEBHOOK_RETAIN_DELIVERED_DAYS'' ''7'' 7,
        rc_webhook_retain_dead_lettered_days = env_nat env u32_max ''ICP_WEBHOOK_RETAIN_DEAD_LETTERED_DAYS'' ''30'' 30,
        rc_idempotency_sweeper_interval_secs =
          env_nat env u64_max ''ICP_IDEMPOTENCY_SWEEPER_INTERVAL_SECONDS'' ''3600'' 3600,
        rc_expiry_sweeper_interval_secs = env_nat env u64_max ''ICP_EXPIRY_SWEEPER_INTERVAL_SECONDS'' ''60'' 60,
        rc_a2a_enabled = env_bool env ''ICP_A2A_ENABLED'' True,
        rc_mcp_enabled = env_bool env ''ICP_MCP_ENABLED'' True,
        rc_acp_compat_enabled = env_bool env ''ICP_ACP_COMPAT_ENABLED'' True,
        rc_ucp_compat_enabled = env_bool env ''ICP_UCP_COMPAT_ENABLED'' True,
        rc_rate_limit_per_minute = of_nat (env_nat env u32_max ''ICP_RATE_LIMIT_PER_MINUTE'' ''300'' 300),
        rc_pre_auth_rate_limit_per_minute = of_nat (env_nat env u32_max ''ICP_PRE_AUTH_RATE_LIMIT_PER_MINUTE'' ''120'' 120),
        rc_trust_proxy_headers = env_bool env ''ICP_TRUST_PROXY_HEADERS'' False,
        rc_subscription_scheduler_enabled = env_bool env ''ICP_SUBSCRIPTION_SCHEDULER_ENABLED'' True,
        rc_subscription_scheduler_interval_secs =
          env_nat env u64_max ''ICP_SUBSCRIPTION_SCHEDULER_INTERVAL_SECS'' ''60'' 60,
        rc_log_level = env_default env ''LOG_LEVEL'' ''info''\<rparr>))"

text \<open>The configuration of the tests and of the stdio binary.\<close>

definition for_test :: runtime_config where
  "for_test = \<lparr>
     cf_icp_version = icp_version_const, cf_require_mandate = False, cf_verify_mandate_signatures = False,
     cf_public_base_url = ''http://127.0.0.1'', cf_webhook_url = None, cf_webhook_secret = None,
     cf_deployment_env = ''test'', cf_payment_execution_mode = ''simulated'',
     cf_subscription_dunning_schedule_hours = [], cf_idempotency_lease_secs = 60,
     rc_host = ''127.0.0.1'', rc_port = 0, rc_grpc_host = ''127.0.0.1'', rc_grpc_port = 0,
     rc_require_icp_version = False, rc_require_request_id = False, rc_require_idempotency_key = False,
     rc_handler_id = ''icp://test'', rc_service_name = ''ICP Test'', rc_signing_key_pem = None,
     rc_signing_kid = ''icp-test-key'', rc_allow_insecure_urls = True, rc_cors_allow_origins = [''*''],
     rc_api_keys_json = None, rc_api_keys_file = None, rc_enable_demo_keys = True, rc_commerce_enabled = False,
     rc_commerce_db_path = '':memory:'', rc_transaction_ttl_secs = default_transaction_ttl_secs,
     rc_state_db_path = '':memory:'', rc_redis_url = None, rc_webhook_retain_delivered_days = 0,
     rc_webhook_retain_dead_lettered_days = 0, rc_idempotency_sweeper_interval_secs = 0,
     rc_expiry_sweeper_interval_secs = 0, rc_a2a_enabled = True, rc_mcp_enabled = True, rc_acp_compat_enabled = True,
     rc_ucp_compat_enabled = True, rc_rate_limit_per_minute = 10000, rc_pre_auth_rate_limit_per_minute = 10000,
     rc_trust_proxy_headers = True, rc_subscription_scheduler_enabled = False,
     rc_subscription_scheduler_interval_secs = 60, rc_log_level = ''warn''\<rparr>"

section \<open>What is refused at the start\<close>

definition validate_payment_mode :: "string \<Rightarrow> string + unit" where
  "validate_payment_mode mode =
     (if mode = ''simulated'' \<or> mode = ''external_required'' then Inr ()
      else Inl (''invalid ICP_PAYMENT_EXECUTION_MODE `'' @ mode @ ''`; expected simulated|external_required''))"

definition require_https :: "string \<Rightarrow> string \<Rightarrow> string + unit" where
  "require_https name url =
     (if prefix ''https://'' url then Inr ()
      else Inl (name @ '' must use https:// when insecure URLs are disabled''))"

text \<open>\<open>std::path\<close> and the file system: directories, the parent of a path, and what exists.\<close>

record file_system =
  fs_is_dir :: "string \<Rightarrow> bool"
  fs_parent :: "string \<Rightarrow> string option"
  fs_exists :: "string \<Rightarrow> bool"

definition validate_sqlite_file_path :: "file_system \<Rightarrow> string \<Rightarrow> string \<Rightarrow> string option" where
  "validate_sqlite_file_path F name path =
     (if path = '':memory:'' \<or> prefix ''postgres://'' path \<or> prefix ''postgresql://'' path then None
      else if fs_is_dir F path then
        Some (if name = ''ICP_STATE_DB_PATH'' then ''ICP_STATE_DB_PATH must be a database file path, not a directory''
              else if name = ''COMMERCE_DB_PATH'' then ''COMMERCE_DB_PATH must be a database file path, not a directory''
              else ''database path must be a file path, not a directory'')
      else case fs_parent F path of
        Some parent \<Rightarrow>
          if parent \<noteq> [] \<and> \<not> fs_exists F parent then
            Some (if name = ''ICP_STATE_DB_PATH'' then ''ICP_STATE_DB_PATH parent directory must exist''
                  else if name = ''COMMERCE_DB_PATH'' then ''COMMERCE_DB_PATH parent directory must exist''
                  else ''database path parent directory must exist'')
          else None
      | None \<Rightarrow> None)"

definition issue_if :: "bool \<Rightarrow> string \<Rightarrow> string list" where
  "issue_if b message = (if b then [message] else [])"

definition issue_of :: "string option \<Rightarrow> string list" where
  "issue_of issue = (case issue of Some i \<Rightarrow> [i] | None \<Rightarrow> [])"

text \<open>\<open>is_none_or\<close> of a text that is blank.\<close>

definition blank_text :: "string option \<Rightarrow> bool" where
  "blank_text t = (case t of Some s \<Rightarrow> trim s = [] | None \<Rightarrow> True)"

definition production_issues :: "file_system \<Rightarrow> runtime_config \<Rightarrow> string list" where
  "production_issues F c =
     issue_if (rc_enable_demo_keys c) ''ICP_ENABLE_DEMO_KEYS must be false''
     @ issue_if (rc_api_keys_json c = None \<and> rc_api_keys_file c = None) ''ICP_API_KEYS_JSON or ICP_API_KEYS_FILE is required''
     @ issue_if (rc_signing_key_pem c = None) ''ICP_SIGNING_KEY_PEM is required''
     @ issue_if (rc_allow_insecure_urls c) ''ICP_ALLOW_INSECURE_URLS must be false''
     @ issue_if (\<not> prefix ''https://'' (cf_public_base_url c)) ''ICP_PUBLIC_BASE_URL must be https://''
     @ issue_if (list_ex (\<lambda>origin. origin = ''*'') (rc_cors_allow_origins c)) ''ICP_CORS_ALLOW_ORIGINS must not contain *''
     @ issue_if (\<not> cf_require_mandate c) ''ICP_REQUIRE_MANDATE must be true''
     @ issue_if (\<not> cf_verify_mandate_signatures c) ''ICP_VERIFY_MANDATE_SIGNATURES must be true''
     @ issue_if (\<not> rc_require_icp_version c) ''ICP_REQUIRE_VERSION must be true''
     @ issue_if (\<not> rc_require_request_id c) ''ICP_REQUIRE_REQUEST_ID must be true''
     @ issue_if (\<not> rc_require_idempotency_key c) ''ICP_REQUIRE_IDEMPOTENCY_KEY must be true''
     @ issue_if (rc_state_db_path c = '':memory:'') ''ICP_STATE_DB_PATH must be durable''
     @ issue_of (validate_sqlite_file_path F ''ICP_STATE_DB_PATH'' (rc_state_db_path c))
     @ issue_if (\<not> rc_commerce_enabled c) ''COMMERCE_ENABLED must be true''
     @ issue_if (rc_commerce_db_path c = '':memory:'') ''COMMERCE_DB_PATH must be durable''
     @ issue_of (validate_sqlite_file_path F ''COMMERCE_DB_PATH'' (rc_commerce_db_path c))
     @ issue_if (cf_payment_execution_mode c \<noteq> ''external_required'')
         ''ICP_PAYMENT_EXECUTION_MODE must be external_required''
     @ issue_if ((0 < rc_rate_limit_per_minute c \<or> 0 < rc_pre_auth_rate_limit_per_minute c) \<and> blank_text (rc_redis_url c))
         ''REDIS_URL is required when production rate limits are enabled''
     @ issue_if (cf_webhook_url c \<noteq> None \<and> blank_text (cf_webhook_secret c))
         ''ICP_WEBHOOK_SECRET is required when ICP_WEBHOOK_URL is set''
     @ issue_if (nat default_ttl_hours * 3600 \<le> cf_idempotency_lease_secs c)
         ''ICP_IDEMPOTENCY_LEASE_SECONDS must be well below the 24h cache TTL''"

definition validate_runtime :: "file_system \<Rightarrow> runtime_config \<Rightarrow> string + unit" where
  "validate_runtime F c =
     bind_result (validate_payment_mode (cf_payment_execution_mode c)) (\<lambda>_.
     bind_result
       (if rc_allow_insecure_urls c then Inr ()
        else bind_result (require_https ''ICP_PUBLIC_BASE_URL'' (cf_public_base_url c)) (\<lambda>_.
          case cf_webhook_url c of Some url \<Rightarrow> require_https ''ICP_WEBHOOK_URL'' url | None \<Rightarrow> Inr ())) (\<lambda>_.
     if \<not> is_production (config.truncate c) then Inr ()
     else let issues = production_issues F c
          in if issues = [] then Inr ()
             else Inl (''invalid production configuration: '' @ join_with ''; '' issues)))"

section \<open>What the reading gives\<close>

lemma parse_digits_bound: "parse_digits m acc s = Inr n \<Longrightarrow> acc \<le> m \<Longrightarrow> n \<le> m"
  by (induction m acc s rule: parse_digits.induct) (auto split: if_splits)

lemma parse_uint_bound: "parse_uint m s = Inr n \<Longrightarrow> n \<le> m"
  by (auto simp: parse_uint_def parse_digits_bound split: list.splits if_splits)

lemma digits_grow: "acc \<le> foldl (\<lambda>a c. 10 * a + digit_val c) acc s"
proof (induction s arbitrary: acc)
  case (Cons c s)
  have "acc \<le> 10 * acc + digit_val c" by simp
  also have "\<dots> \<le> foldl (\<lambda>a c. 10 * a + digit_val c) (10 * acc + digit_val c) s" by (rule Cons.IH)
  finally show ?case by simp
qed simp

text \<open>Accepted are the digits of a number in range, after an optional plus sign.\<close>

lemma parse_digits_val:
  "parse_digits m acc s = Inr n \<longleftrightarrow> list_all is_digit s \<and> n = foldl (\<lambda>a c. 10 * a + digit_val c) acc s \<and>
     (s \<noteq> [] \<longrightarrow> n \<le> m)"
proof (induction s arbitrary: acc)
  case (Cons c s)
  show ?case
    using Cons.IH [of "10 * acc + digit_val c"] digits_grow [of "10 * acc + digit_val c" s] by auto
qed auto

lemma parse_uint_val:
  "parse_uint m s = Inr n \<longleftrightarrow>
     (\<exists>ds. (s = ds \<or> s = CHR ''+'' # ds) \<and> ds \<noteq> [] \<and> list_all is_digit ds \<and> n = digits_val ds \<and> n \<le> m)"
proof -
  have plus: "\<not> is_digit CHR ''+''" by (simp add: is_digit_def)
  show ?thesis
    using digits_grow [of "digit_val (hd s)" "tl s"]
    by (cases s) (auto simp: parse_uint_def parse_digits_val digits_val_def plus)
qed

lemma parse_uint_show: "n \<le> m \<Longrightarrow> parse_uint m (show_nat n) = Inr n"
  using show_nat_digits by (auto simp: parse_uint_val digits_val_show_nat list_all_iff show_nat_nonempty)

lemma env_nat_bound: "n \<le> m \<Longrightarrow> env_nat env m key t n \<le> m"
  by (auto simp: env_nat_def dest: parse_uint_bound split: sum.split)

lemma dunning_bounds: "h \<in> set (parse_dunning_schedule s) \<Longrightarrow> 1 \<le> unat h \<and> unat h \<le> 8760"
  by (auto simp: parse_dunning_schedule_def unat_of_nat)

text \<open>The loaded configuration is within the widths of its fields; only the ports can make the loading fail.\<close>

definition config_bounded :: "runtime_config \<Rightarrow> bool" where
  "config_bounded c \<longleftrightarrow>
     rc_port c \<le> u16_max \<and> rc_grpc_port c \<le> u16_max \<and> cf_idempotency_lease_secs c \<le> u64_max \<and>
     rc_transaction_ttl_secs c \<le> u64_max \<and> rc_idempotency_sweeper_interval_secs c \<le> u64_max \<and>
     rc_expiry_sweeper_interval_secs c \<le> u64_max \<and> rc_subscription_scheduler_interval_secs c \<le> u64_max \<and>
     rc_webhook_retain_delivered_days c \<le> u32_max \<and> rc_webhook_retain_dead_lettered_days c \<le> u32_max \<and>
     (\<forall>h \<in> set (cf_subscription_dunning_schedule_hours c). 1 \<le> unat h \<and> unat h \<le> 8760) \<and>
     (\<forall>origin \<in> set (rc_cors_allow_origins c). origin \<noteq> [])"

lemma load_bounded: "load env = Inr c \<Longrightarrow> config_bounded c"
  using dunning_bounds [of _ "env_default env ''ICP_SUBSCRIPTION_DUNNING_SCHEDULE_HOURS'' ''1,6,24''"]
  by (auto simp: load_def Let_def config_bounded_def u16_max_def u32_max_def u64_max_def
      default_transaction_ttl_secs_def split_csv_def simp del: One_nat_def intro!: env_nat_bound dest: parse_uint_bound
      split: sum.splits)

lemma load_fails:
  "(\<exists>e. load env = Inl e) \<longleftrightarrow>
     (\<exists>e. parse_uint u16_max (env_default env ''PORT'' ''8082'') = Inl e) \<or>
     (\<exists>e. parse_uint u16_max (env_default env ''GRPC_PORT'' ''50052'') = Inl e)"
  by (auto simp: load_def Let_def split: sum.splits)

section \<open>A production configuration\<close>

text \<open>What a configuration that may start in production is known to have.\<close>

definition production_ready :: "runtime_config \<Rightarrow> bool" where
  "production_ready c \<longleftrightarrow>
     \<not> rc_enable_demo_keys c \<and> (rc_api_keys_json c \<noteq> None \<or> rc_api_keys_file c \<noteq> None) \<and>
     rc_signing_key_pem c \<noteq> None \<and> \<not> rc_allow_insecure_urls c \<and> prefix ''https://'' (cf_public_base_url c) \<and>
     ''*'' \<notin> set (rc_cors_allow_origins c) \<and> cf_require_mandate c \<and> cf_verify_mandate_signatures c \<and>
     rc_require_icp_version c \<and> rc_require_request_id c \<and> rc_require_idempotency_key c \<and>
     rc_state_db_path c \<noteq> '':memory:'' \<and> rc_commerce_enabled c \<and> rc_commerce_db_path c \<noteq> '':memory:'' \<and>
     cf_payment_execution_mode c = ''external_required'' \<and>
     (rc_rate_limit_per_minute c = 0 \<and> rc_pre_auth_rate_limit_per_minute c = 0 \<or> rc_redis_url c \<noteq> None) \<and>
     (cf_webhook_url c = None \<or> (\<exists>secret. cf_webhook_secret c = Some secret \<and> trim secret \<noteq> [])) \<and>
     (\<forall>url. cf_webhook_url c = Some url \<longrightarrow> prefix ''https://'' url) \<and> cf_idempotency_lease_secs c < 86400"

lemma no_issue [simp]: "issue_if b m = [] \<longleftrightarrow> \<not> b" "issue_of x = [] \<longleftrightarrow> x = None"
  by (auto simp: issue_if_def issue_of_def split: option.split)

lemma validated_production:
  assumes "validate_runtime F c = Inr ()" "is_production (config.truncate c)"
  shows "production_ready c"
proof -
  have issues: "production_issues F c = []"
    using assms by (auto simp: validate_runtime_def bind_result_def Let_def split: sum.splits if_splits)
  then have "\<not> rc_allow_insecure_urls c"
    by (simp add: production_issues_def)
  then have "\<forall>url. cf_webhook_url c = Some url \<longrightarrow> prefix ''https://'' url"
    using assms(1)
    by (auto simp: validate_runtime_def require_https_def bind_result_def split: sum.splits if_splits)
  with issues show ?thesis
    by (auto simp: production_issues_def production_ready_def list_ex_iff blank_text_def default_ttl_hours_def
        word_gt_0 simp del: append_Cons split: option.splits)
qed

end
