(* ===== verification/Destination.thy ===== *)
theory Destination
  imports Webhook Access
begin

text \<open>
  Where a webhook may go and how it is signed: the destination checks (\<open>src/webhook/url.rs\<close>), the
  HMAC signature (\<open>src/webhook/signing.rs\<close>) and one delivery attempt (\<open>send_one\<close> in
  \<open>src/webhook/worker.rs\<close>). The URL parser, HMAC-SHA256, name resolution and the HTTP request are parameters;
  IP addresses and their text forms are those of the standard library.
\<close>

section \<open>IP addresses\<close>

datatype ip_addr =
    V4 "8 word" "8 word" "8 word" "8 word"
  | V6 "16 word" "16 word" "16 word" "16 word" "16 word" "16 word" "16 word" "16 word"

definition is_forbidden_ip :: "ip_addr \<Rightarrow> bool" where
  "is_forbidden_ip ip =
     (case ip of
        V4 a b c d \<Rightarrow>
          a = 10 \<or> a = 172 \<and> and b 0xF0 = 16 \<or> a = 192 \<and> b = 168
          \<or> a = 127 \<or> a = 169 \<and> b = 254
          \<or> a = 0 \<and> b = 0 \<and> c = 0 \<and> d = 0
          \<or> a = 255 \<and> b = 255 \<and> c = 255 \<and> d = 255
          \<or> 224 \<le> a \<and> a \<le> 239
      | V6 a b c d e f g h \<Rightarrow>
          a = 0 \<and> b = 0 \<and> c = 0 \<and> d = 0 \<and> e = 0 \<and> f = 0 \<and> g = 0 \<and> h = 1
          \<or> a = 0 \<and> b = 0 \<and> c = 0 \<and> d = 0 \<and> e = 0 \<and> f = 0 \<and> g = 0 \<and> h = 0
          \<or> and a 0xFF00 = 0xFF00
          \<or> and a 0xFE00 = 0xFC00
          \<or> and a 0xFFC0 = 0xFE80)"

text \<open>\<open>str::parse::<IpAddr>()\<close>: four decimal octets without leading zeros, or groups of hexadecimal digits
  with at most one \<open>::\<close> and possibly an IPv4 tail.\<close>

definition octet :: "string \<Rightarrow> 8 word option" where
  "octet p =
     (if p \<noteq> [] \<and> length p \<le> 3 \<and> list_all is_digit p \<and> (length p = 1 \<or> hd p \<noteq> CHR ''0'') \<and> digits_val p \<le> 255
      then Some (of_nat (digits_val p)) else None)"

definition parse_v4 :: "string \<Rightarrow> (8 word \<times> 8 word \<times> 8 word \<times> 8 word) option" where
  "parse_v4 s =
     (case split_on CHR ''.'' s of
        [p, q, r, t] \<Rightarrow>
          (case (octet p, octet q, octet r, octet t) of
             (Some a, Some b, Some c, Some d) \<Rightarrow> Some (a, b, c, d) | _ \<Rightarrow> None)
      | _ \<Rightarrow> None)"

definition hex_val :: "char \<Rightarrow> nat option" where
  "hex_val c =
     (let n = of_char (lower_char c) :: nat in
      if 48 \<le> n \<and> n \<le> 57 then Some (n - 48) else if 97 \<le> n \<and> n \<le> 102 then Some (n - 87) else None)"

definition hex_group :: "string \<Rightarrow> 16 word option" where
  "hex_group p =
     (if p \<noteq> [] \<and> length p \<le> 4 \<and> list_all (\<lambda>c. hex_val c \<noteq> None) p
      then Some (of_nat (foldl (\<lambda>n c. 16 * n + the (hex_val c)) 0 p)) else None)"

definition word_pair :: "8 word \<Rightarrow> 8 word \<Rightarrow> 16 word" where
  "word_pair a b = of_nat (256 * unat a + unat b)"

fun hex_groups :: "bool \<Rightarrow> string list \<Rightarrow> 16 word list option" where
  "hex_groups v4_tail [] = Some []"
| "hex_groups v4_tail (p # ps) =
     (case hex_group p of
        Some w \<Rightarrow> map_option ((#) w) (hex_groups v4_tail ps)
      | None \<Rightarrow>
          if v4_tail \<and> ps = [] then
            map_option (\<lambda>(a, b, c, d). [word_pair a b, word_pair c d]) (parse_v4 p)
          else None)"

definition part_groups :: "bool \<Rightarrow> string \<Rightarrow> 16 word list option" where
  "part_groups v4_tail s = (if s = [] then Some [] else hex_groups v4_tail (split_on CHR '':'' s))"

fun split_double :: "string \<Rightarrow> (string \<times> string) option" where
  "split_double (c # d # s) =
     (if c = CHR '':'' \<and> d = CHR '':'' then Some ([], s) else map_option (apfst ((#) c)) (split_double (d # s)))"
| "split_double s = None"

definition v6_of :: "16 word list \<Rightarrow> ip_addr option" where
  "v6_of ws = (case ws of [a, b, c, d, e, f, g, h] \<Rightarrow> Some (V6 a b c d e f g h) | _ \<Rightarrow> None)"

definition parse_v6 :: "string \<Rightarrow> ip_addr option" where
  "parse_v6 s =
     (case split_double s of
        None \<Rightarrow> if s = [] then None else Option.bind (part_groups True s) v6_of
      | Some (h, t) \<Rightarrow>
          (case (part_groups False h, part_groups True t) of
             (Some hs, Some ts) \<Rightarrow>
               if length hs + length ts \<le> 7 then v6_of (hs @ replicate (8 - length hs - length ts) 0 @ ts) else None
           | _ \<Rightarrow> None))"

definition parse_ip :: "string \<Rightarrow> ip_addr option" where
  "parse_ip s = (case parse_v4 s of Some (a, b, c, d) \<Rightarrow> Some (V4 a b c d) | None \<Rightarrow> parse_v6 s)"

section \<open>Destinations\<close>

text \<open>A parsed URL; \<open>pu_port\<close> is \<open>port_or_known_default\<close>.\<close>

record parsed_url =
  pu_scheme :: string
  pu_host :: "string option"
  pu_username :: string
  pu_password :: "string option"
  pu_port :: "nat option"

definition trim_end_dots :: "string \<Rightarrow> string" where
  "trim_end_dots s = rev (dropWhile (\<lambda>c. c = CHR ''.'') (rev s))"

definition is_forbidden_host :: "string \<Rightarrow> bool" where
  "is_forbidden_host host =
     (let normalized = to_ascii_lowercase (trim_end_dots host) in
      normalized = ''localhost'' \<or> normalized = ''ip6-localhost'' \<or> normalized = ''ip6-loopback''
      \<or> suffix ''.localhost'' normalized \<or> suffix ''.local'' normalized
      \<or> (case parse_ip host of Some ip \<Rightarrow> is_forbidden_ip ip | None \<Rightarrow> False))"

definition private_host_error :: string where
  "private_host_error = ''url host must not resolve to localhost or a private network''"

definition validate_destination_url :: "(string \<Rightarrow> parsed_url option) \<Rightarrow> string \<Rightarrow> bool \<Rightarrow> string + unit" where
  "validate_destination_url parse url allow_insecure =
     (case parse url of
        None \<Rightarrow> Inl ''url must be a valid absolute http(s) URL''
      | Some p \<Rightarrow>
          if pu_scheme p \<noteq> ''http'' \<and> pu_scheme p \<noteq> ''https'' then Inl ''url must use http:// or https://''
          else (case pu_host p of
            None \<Rightarrow> Inl ''url must include a host''
          | Some host \<Rightarrow>
              if pu_username p \<noteq> [] \<or> pu_password p \<noteq> None then Inl ''url must not include credentials''
              else if \<not> allow_insecure \<and> pu_scheme p \<noteq> ''https'' then
                Inl ''url must use https:// when insecure URLs are disabled''
              else if \<not> allow_insecure \<and> is_forbidden_host host then Inl private_host_error
              else Inr ()))"

text \<open>The addresses are examined in order; an empty answer is refused.\<close>

definition ensure_public_url ::
  "(string \<Rightarrow> parsed_url option) \<Rightarrow> (string \<Rightarrow> nat \<Rightarrow> string + ip_addr list) \<Rightarrow> string \<Rightarrow> string + unit" where
  "ensure_public_url parse lookup_host url =
     (case parse url of
        None \<Rightarrow> Inl ''url must be a valid absolute URL''
      | Some p \<Rightarrow>
     (case pu_host p of
        None \<Rightarrow> Inl ''url must include a host''
      | Some host \<Rightarrow>
          if is_forbidden_host host then Inl private_host_error
          else if parse_ip host \<noteq> None then Inr ()
          else (case pu_port p of
            None \<Rightarrow> Inl ''url must include a resolvable port''
          | Some port \<Rightarrow>
              (case lookup_host host port of
                 Inl e \<Rightarrow> Inl (''dns resolution failed: '' @ e)
               | Inr addrs \<Rightarrow>
                   if list_ex is_forbidden_ip addrs then Inl private_host_error
                   else if addrs = [] then Inl ''url host did not resolve to any address''
                   else Inr ()))))"

section \<open>Signatures\<close>

text \<open>\<open>hmac\<close> is HMAC-SHA256 of a key and a message, in hexadecimal.\<close>

definition wh_sign :: "(string \<Rightarrow> string \<Rightarrow> string) \<Rightarrow> string \<Rightarrow> int \<Rightarrow> string \<Rightarrow> string" where
  "wh_sign hmac secret timestamp body =
     ''t='' @ show_int timestamp @ '',v1='' @ hmac secret (show_int timestamp @ ''.'' @ body)"

definition header_field :: "int option \<times> string option \<Rightarrow> string \<Rightarrow> int option \<times> string option" where
  "header_field acc part =
     (let part' = trim part in
      case strip_prefix ''t='' part' of
        Some r \<Rightarrow> (parse_i64 r, snd acc)
      | None \<Rightarrow> (case strip_prefix ''v1='' part' of Some r \<Rightarrow> (fst acc, Some r) | None \<Rightarrow> acc))"

definition header_fields :: "string \<Rightarrow> int option \<times> string option" where
  "header_fields value = foldl header_field (None, None) (split_on CHR '','' value)"

definition expected_v1 :: "string \<Rightarrow> string" where
  "expected_v1 header =
     (case List.map_filter (strip_prefix ''v1='') (split_on CHR '','' header) of v # _ \<Rightarrow> v | [] \<Rightarrow> [])"

definition wh_verify :: "(string \<Rightarrow> string \<Rightarrow> string) \<Rightarrow> string \<Rightarrow> string \<Rightarrow> string \<Rightarrow> bool" where
  "wh_verify hmac secret value body =
     (case header_fields value of
        (Some ts, Some supplied) \<Rightarrow> constant_time_eq supplied (expected_v1 (wh_sign hmac secret ts body))
      | _ \<Rightarrow> False)"

section \<open>One attempt\<close>

record delivery_env =
  de_parse_url :: "string \<Rightarrow> parsed_url option"
  de_lookup_host :: "string \<Rightarrow> nat \<Rightarrow> string + ip_addr list"
  de_hmac :: "string \<Rightarrow> string \<Rightarrow> string"
  de_allow_insecure :: bool
  de_global_secret :: "string option"
  de_subscribers :: "subscribers option"
  de_unix :: int
  de_post :: "string \<Rightarrow> (string \<times> string) list \<Rightarrow> string \<Rightarrow> string + nat"
    \<comment> \<open>URL, headers, body\<close>

definition send_one :: "delivery_env \<Rightarrow> webhook_delivery \<Rightarrow> string + nat" where
  "send_one D d =
     bind_result (validate_destination_url (de_parse_url D) (dl_url d) (de_allow_insecure D)) (\<lambda>_.
     bind_result (if de_allow_insecure D then Inr ()
        else ensure_public_url (de_parse_url D) (de_lookup_host D) (dl_url d)) (\<lambda>_.
     case secret_for_delivery (de_subscribers D) (de_global_secret D) d of
       None \<Rightarrow> Inl ''no webhook signing secret for delivery''
     | Some secret \<Rightarrow>
         de_post D (dl_url d)
           [(''Content-Type'', ''application/json''),
            (''ICP-Signature'', wh_sign (de_hmac D) secret (de_unix D) (dl_payload_json d)),
            (''ICP-Event-Type'', dl_event_type d), (''ICP-Event-Id'', dl_event_id d), (''ICP-Delivery-Id'', dl_id d),
            (''ICP-Delivery-Attempt'', show_nat (unat (dl_attempts d + 1)))]
           (dl_payload_json d)))"

section \<open>What the checks give\<close>

lemma accepted_destination:
  "validate_destination_url parse url allow = Inr () \<longleftrightarrow>
    (\<exists>p host. parse url = Some p \<and> pu_host p = Some host \<and> pu_username p = [] \<and> pu_password p = None \<and>
      (pu_scheme p = ''https'' \<or> pu_scheme p = ''http'' \<and> allow) \<and> (allow \<or> \<not> is_forbidden_host host))"
  by (auto simp: validate_destination_url_def split: option.splits)

lemma public_destination:
  assumes "ensure_public_url parse lookup url = Inr ()"
  shows "\<exists>p host. parse url = Some p \<and> pu_host p = Some host \<and> \<not> is_forbidden_host host \<and>
    (case parse_ip host of
       Some ip \<Rightarrow> \<not> is_forbidden_ip ip
     | None \<Rightarrow> \<exists>port addrs. pu_port p = Some port \<and> lookup host port = Inr addrs \<and> addrs \<noteq> [] \<and>
         (\<forall>a \<in> set addrs. \<not> is_forbidden_ip a))"
  using assms
  by (auto simp: ensure_public_url_def is_forbidden_host_def Let_def list_ex_iff
      split: option.splits sum.splits if_splits)

text \<open>What goes out is signed, and to such a destination only.\<close>

lemma sent_to_public:
  assumes "send_one D d = Inr status" "\<not> de_allow_insecure D"
  shows "\<exists>p host. de_parse_url D (dl_url d) = Some p \<and> pu_scheme p = ''https'' \<and> pu_host p = Some host \<and>
    \<not> is_forbidden_host host"
  using assms accepted_destination [of "de_parse_url D" "dl_url d" "de_allow_insecure D"]
  by (auto simp: send_one_def bind_result_def split: sum.splits option.splits)

text \<open>The addresses of the loopback interface and of private networks that IPv6 maps from IPv4 pass
  the check, and so does a host in brackets, which is the text form of an IPv6 host in a URL.\<close>

lemma mapped_loopback_allowed: "\<not> is_forbidden_ip (V6 0 0 0 0 0 0xFFFF 0x7F00 1)"
  by (simp add: is_forbidden_ip_def)

lemmas host_eval = is_forbidden_host_def trim_end_dots_def to_ascii_lowercase_def lower_char_def parse_ip_def
  parse_v4_def octet_def is_digit_def digits_val_def digit_val_def parse_v6_def part_groups_def hex_group_def
  hex_val_def v6_of_def is_forbidden_ip_def suffix_to_prefix Let_def

lemma zero_groups:
  "replicate 5 (0 :: 16 word) = [0, 0, 0, 0, 0]" "replicate 7 (0 :: 16 word) = [0, 0, 0, 0, 0, 0, 0]"
  by (simp_all add: numeral_eq_Suc)

lemma mapped_loopback_parses: "parse_ip ''::ffff:127.0.0.1'' = Some (V6 0 0 0 0 0 0xFFFF 0x7F00 1)"
  by (simp add: host_eval word_pair_def zero_groups)

lemma bracketed_loopback_allowed: "\<not> is_forbidden_host ''[::1]'' \<and> is_forbidden_host ''::1''"
  by (simp add: host_eval zero_groups)

lemma forbidden_hosts:
  "is_forbidden_host ''LocalHost.'' \<and> is_forbidden_host ''printer.local'' \<and> is_forbidden_host ''10.1.2.3'' \<and>
   is_forbidden_host ''169.254.169.254'' \<and> \<not> is_forbidden_host ''example.com'' \<and> \<not> is_forbidden_host ''8.8.8.8''"
  by (simp add: host_eval char_of_def bit_Suc_0_iff)

section \<open>A signature verifies\<close>

definition plain :: "string \<Rightarrow> bool" where
  "plain s \<longleftrightarrow> s \<noteq> [] \<and> (\<forall>c \<in> set s. graphic c \<and> c \<noteq> CHR '','')"

lemma plain_trim: "plain s \<Longrightarrow> trim s = s"
  by (rule trim_graphic) (auto simp: plain_def)

lemma plain_append: "plain s \<Longrightarrow> plain t \<Longrightarrow> plain (s @ t)"
  by (auto simp: plain_def)

lemma field_names_plain: "plain ''t=''" "plain ''v1=''"
  by (simp_all add: plain_def graphic_def)

lemma digit_graphic: "is_digit c \<Longrightarrow> graphic c \<and> c \<noteq> CHR '',''"
  by (auto simp: is_digit_def graphic_def)

lemma show_int_plain: "plain (show_int i)"
  using digit_graphic show_nat_digits show_nat_nonempty
  by (auto simp: plain_def show_int_def graphic_def)

lemma parse_show_int:
  assumes "in_i64 i"
  shows "parse_i64 (show_int i) = Some i"
proof -
  have digits: "list_all is_digit (show_nat n)" "show_nat n \<noteq> []" for n
    using show_nat_digits show_nat_nonempty by (auto simp: list_all_iff)
  show ?thesis
  proof (cases "i < 0")
    case True
    then show ?thesis
      using assms digits [of "nat (- i)"] by (simp add: parse_i64_def show_int_def digits_val_show_nat)
  next
    case False
    obtain c cs where cs: "show_nat (nat i) = c # cs" using show_nat_nonempty by (cases "show_nat (nat i)") auto
    have "is_digit c" using show_nat_digits [of c "nat i"] cs by simp
    then have "c \<noteq> CHR ''+''" "c \<noteq> CHR ''-''" by (auto simp: is_digit_def)
    moreover have "digits_val (c # cs) = nat i" using digits_val_show_nat [of "nat i"] cs by simp
    ultimately show ?thesis
      using False assms digits(1) [of "nat i"] cs by (simp add: parse_i64_def show_int_def)
  qed
qed

text \<open>A header verifies exactly if it carries the HMAC of its own time stamp and the body.\<close>

lemma verify_iff:
  assumes "\<And>k m. plain (hmac k m)"
  shows "wh_verify hmac secret value body \<longleftrightarrow>
    (\<exists>ts. header_fields value = (Some ts, Some (hmac secret (show_int ts @ ''.'' @ body))))"
proof -
  have free: "CHR '','' \<notin> set (show_int ts)" "CHR '','' \<notin> set (hmac k m)" for ts k m
    using show_int_plain [of ts] assms [of k m] by (auto simp: plain_def)
  have "expected_v1 (wh_sign hmac secret ts body) = hmac secret (show_int ts @ ''.'' @ body)" for ts
  proof -
    have "split_on CHR '','' (wh_sign hmac secret ts body) =
        [''t='' @ show_int ts, ''v1='' @ hmac secret (show_int ts @ ''.'' @ body)]"
      using split_on_append [of "CHR '',''" "''t='' @ show_int ts" "''v1='' @ hmac secret (show_int ts @ ''.'' @ body)"]
        split_on_free [of "CHR '',''" "''v1='' @ hmac secret (show_int ts @ ''.'' @ body)"] free
      by (simp add: wh_sign_def)
    then show ?thesis by (simp add: expected_v1_def strip_prefix_def map_filter_simps)
  qed
  then show ?thesis
    by (auto simp: wh_verify_def constant_time_eq_iff split: prod.splits option.splits)
qed

lemma signed_verifies:
  assumes "\<And>k m. plain (hmac k m)" "in_i64 ts"
  shows "wh_verify hmac secret (wh_sign hmac secret ts body) body"
proof -
  let ?v = "hmac secret (show_int ts @ ''.'' @ body)"
  have free: "CHR '','' \<notin> set (show_int ts)" "CHR '','' \<notin> set ?v"
    using show_int_plain [of ts] assms(1) by (auto simp: plain_def)
  have parts: "split_on CHR '','' (wh_sign hmac secret ts body) = [''t='' @ show_int ts, ''v1='' @ ?v]"
    using split_on_append [of "CHR '',''" "''t='' @ show_int ts" "''v1='' @ ?v"]
      split_on_free [of "CHR '',''" "''v1='' @ ?v"] free
    by (simp add: wh_sign_def)
  have trims: "trim (''t='' @ show_int ts) = ''t='' @ show_int ts" "trim (''v1='' @ ?v) = ''v1='' @ ?v"
    by (rule plain_trim plain_append field_names_plain show_int_plain assms(1))+
  have "header_fields (wh_sign hmac secret ts body) = (Some ts, Some ?v)"
    using trims by (simp add: header_fields_def parts header_field_def Let_def strip_prefix_def parse_show_int [OF assms(2)])
  then show ?thesis using verify_iff [of hmac, OF assms(1)] by blast
qed

end
