(* ===== verification/Tenant_Spec.thy ===== *)
theory Tenant_Spec
  imports Service_State
begin

text \<open>
  The abstract specification of the intent pipeline: what a call made for one tenant may do to
  the state, as a step relation. A step opens or updates an aggregate of that tenant along the
  moves its life cycle allows, charges a mandate through the ledger, or publishes (receipt,
  outbox, event bus). The intent handlers refine it (their theories prove that every run is a
  sequence of such steps), so what holds of all step sequences holds of the handlers: tenant
  isolation, and the finality of canceled subscriptions and settled quotes.
\<close>

section \<open>Moves of the aggregates\<close>

definition state_move :: "transaction_state \<Rightarrow> transaction_state \<Rightarrow> bool" where
  "state_move a b \<longleftrightarrow>
     a = b \<or> (pre_auth a \<and> b = Expired) \<or> (a = Quoted \<and> b = Authorized) \<or>
     ((a = Quoted \<or> a = Authorized) \<and> b = Completed) \<or> b = Reversed"

definition txn_move :: "transaction \<Rightarrow> transaction \<Rightarrow> bool" where
  "txn_move t t' \<longleftrightarrow>
     txn_id t' = txn_id t \<and> txn_tenant_id t' = txn_tenant_id t \<and> txn_agent_id t' = txn_agent_id t \<and>
     txn_created_at t' = txn_created_at t \<and> txn_line_items t' = txn_line_items t \<and>
     txn_currency t' = txn_currency t \<and>
     (txn_state t = Quoted \<or> txn_totals t' = txn_totals t) \<and> state_move (txn_state t) (txn_state t')"

definition sub_move :: "subscription \<Rightarrow> subscription \<Rightarrow> bool" where
  "sub_move x x' \<longleftrightarrow>
     sub_id x' = sub_id x \<and> sub_tenant_id x' = sub_tenant_id x \<and> sub_agent_id x' = sub_agent_id x \<and>
     sub_items x' = sub_items x \<and> sub_currency x' = sub_currency x \<and> sub_cadence x' = sub_cadence x \<and>
     sub_created_at x' = sub_created_at x \<and>
     sub_status x \<noteq> SubCanceled \<and>
     (case sub_status x' of
        Active \<Rightarrow> sub_status x \<noteq> Paused \<and> sub_charges_completed x' = sat_inc_u32 (sub_charges_completed x)
          \<and> sub_current_period_start x' = sub_current_period_end x
      | Paused \<Rightarrow> sub_charges_completed x' = sub_charges_completed x
      | SubCanceled \<Rightarrow> sub_charges_completed x' = sub_charges_completed x \<and> sub_canceled_at x' \<noteq> None
      | _ \<Rightarrow> False)"

definition quote_move :: "peer_quote \<Rightarrow> peer_quote \<Rightarrow> bool" where
  "quote_move q q' \<longleftrightarrow>
     pq_id q' = pq_id q \<and> pq_tenant_id q' = pq_tenant_id q \<and>
     pq_requester_agent_id q' = pq_requester_agent_id q \<and> pq_peer_agent_id q' = pq_peer_agent_id q \<and>
     pq_price q' = pq_price q \<and> pq_expires_at q' = pq_expires_at q \<and>
     pq_status q = PqQuoted \<and>
     ((pq_status q' = Accepted \<and> pq_charge_transaction_id q' \<noteq> None \<and> pq_price q \<noteq> None) \<or>
      (pq_status q' = PqExpired \<and> pq_charge_transaction_id q' = pq_charge_transaction_id q))"

section \<open>Steps\<close>

text \<open>\<open>T\<close> is the tenant of the call and \<open>I\<close> the identifiers it may create.\<close>

inductive tenant_step :: "string \<Rightarrow> string set \<Rightarrow> icp \<Rightarrow> icp \<Rightarrow> bool" for T I where
  open_txn: "txn_tenant_id t = T \<Longrightarrow> txn_id t \<in> I \<Longrightarrow>
     tenant_step T I s (s\<lparr>ic_txns := st_put (txn_id t) t (ic_txns s)\<rparr>)"
| move_txn: "st_get (ic_txns s) tid = Some t \<Longrightarrow> txn_tenant_id t = T \<Longrightarrow> txn_move t t' \<Longrightarrow>
     tenant_step T I s (s\<lparr>ic_txns := st_put tid t' (ic_txns s)\<rparr>)"
| open_sub: "sub_tenant_id x = T \<Longrightarrow> sub_id x \<in> I \<Longrightarrow> sub_status x = Trialing \<or> sub_status x = Active \<Longrightarrow>
     tenant_step T I s (s\<lparr>ic_subs := st_put (sub_id x) x (ic_subs s)\<rparr>)"
| move_sub: "st_get (ic_subs s) sid = Some x \<Longrightarrow> sub_tenant_id x = T \<Longrightarrow> sub_move x x' \<Longrightarrow>
     tenant_step T I s (s\<lparr>ic_subs := st_put sid x' (ic_subs s)\<rparr>)"
| open_quote: "pq_tenant_id q = T \<Longrightarrow> pq_id q \<in> I \<Longrightarrow>
     (pq_status q = Pending \<and> pq_price q = None) \<or>
     (pq_status q = PqQuoted \<and> (\<exists>m. pq_price q = Some m \<and> 0 < amount_minor m)) \<Longrightarrow>
     pq_charge_transaction_id q = None \<Longrightarrow>
     tenant_step T I s (s\<lparr>ic_quotes := st_put (pq_id q) q (ic_quotes s)\<rparr>)"
| move_quote: "st_get (ic_quotes s) qid = Some q \<Longrightarrow> pq_tenant_id q = T \<Longrightarrow> quote_move q q' \<Longrightarrow>
     tenant_step T I s (s\<lparr>ic_quotes := st_put qid q' (ic_quotes s)\<rparr>)"
| charge: "ledger_step T (ic_ledger s) l \<Longrightarrow> tenant_step T I s (s\<lparr>ic_ledger := l\<rparr>)"

inductive_cases tenant_stepE: "tenant_step T I s s'"

abbreviation tenant_steps :: "string \<Rightarrow> string set \<Rightarrow> icp \<Rightarrow> icp \<Rightarrow> bool" where
  "tenant_steps T I \<equiv> (tenant_step T I)\<^sup>*\<^sup>*"

text \<open>A call of the dispatcher also publishes: receipt, outbox, bus.\<close>

inductive call_step :: "string \<Rightarrow> string set \<Rightarrow> icp \<Rightarrow> icp \<Rightarrow> bool" for T I where
  work: "tenant_step T I s s' \<Longrightarrow> call_step T I s s'"
| publish: "call_step T I s (s\<lparr>ic_receipts := rs, ic_outbox := ob, ic_bus := bus\<rparr>)"

inductive_cases call_stepE: "call_step T I s s'"

abbreviation call_steps :: "string \<Rightarrow> string set \<Rightarrow> icp \<Rightarrow> icp \<Rightarrow> bool" where
  "call_steps T I \<equiv> (call_step T I)\<^sup>*\<^sup>*"

lemma steps_call: "tenant_steps T I s s' \<Longrightarrow> call_steps T I s s'"
  by (erule rtranclp_mono [THEN predicate2D, rotated]) (auto intro: call_step.work)

text \<open>
  The identifiers a call may create: those it draws, and for a search, a describe and a quote the transaction its
  envelope names. These three store a fresh transaction under the name they are given, whatever is stored there.
\<close>

definition named_ids :: "intent_envelope \<Rightarrow> string set" where
  "named_ids envelope =
     (if parse_intent (en_intent envelope) \<in> {Inr ISearch, Inr IDescribe, Inr IQuote}
      then set_option (en_transaction_id envelope) else {})"

definition new_ids :: "env \<Rightarrow> intent_input \<Rightarrow> string set" where
  "new_ids E inp =
     named_ids (in_envelope inp) \<union> {p @ e_uuid E i |p i. p \<in> {''txn_'', ''sub_'', ''pq_''}}"

definition opens_named :: "intent_input \<Rightarrow> bool" where
  "opens_named inp \<longleftrightarrow> parse_intent (en_intent (in_envelope inp)) \<in> {Inr ISearch, Inr IDescribe, Inr IQuote}"

lemma new_ids_uuid [simp]:
  "''txn_'' @ e_uuid E i \<in> new_ids E inp" "''sub_'' @ e_uuid E i \<in> new_ids E inp"
  "''pq_'' @ e_uuid E i \<in> new_ids E inp"
  by (auto simp: new_ids_def simp del: append_Cons)

lemma fresh_transaction_id [simp]: "opens_named inp \<Longrightarrow> txn_id (fresh_transaction E inp st) \<in> new_ids E inp"
  by (auto simp: fresh_transaction_def new_ids_def named_ids_def opens_named_def simp del: append_Cons split: option.split)

lemma fresh_transaction_fields [simp]:
  "txn_tenant_id (fresh_transaction E inp st) = in_tenant_id inp"
  "txn_state (fresh_transaction E inp st) = st"
  by (simp_all add: fresh_transaction_def)

section \<open>What no sequence of steps can do\<close>

text \<open>Relative to a call of tenant \<open>T\<close>, the aggregates of the others are out of reach.\<close>

definition others_kept :: "string \<Rightarrow> string set \<Rightarrow> icp \<Rightarrow> icp \<Rightarrow> bool" where
  "others_kept T I s s' \<longleftrightarrow>
     (\<forall>k t. k \<notin> I \<longrightarrow> st_get (ic_txns s) k = Some t \<longrightarrow> txn_tenant_id t \<noteq> T \<longrightarrow> st_get (ic_txns s') k = Some t) \<and>
     (\<forall>k x. k \<notin> I \<longrightarrow> st_get (ic_subs s) k = Some x \<longrightarrow> sub_tenant_id x \<noteq> T \<longrightarrow> st_get (ic_subs s') k = Some x) \<and>
     (\<forall>k q. k \<notin> I \<longrightarrow> st_get (ic_quotes s) k = Some q \<longrightarrow> pq_tenant_id q \<noteq> T \<longrightarrow> st_get (ic_quotes s') k = Some q)"

text \<open>Whatever appears in the state under a new owner was created by this call.\<close>

definition owners_kept :: "string \<Rightarrow> string set \<Rightarrow> icp \<Rightarrow> icp \<Rightarrow> bool" where
  "owners_kept T I s s' \<longleftrightarrow>
     (\<forall>k t'. st_get (ic_txns s') k = Some t' \<longrightarrow> txn_tenant_id t' \<noteq> T \<longrightarrow> st_get (ic_txns s) k = Some t') \<and>
     (\<forall>k x'. st_get (ic_subs s') k = Some x' \<longrightarrow> sub_tenant_id x' \<noteq> T \<longrightarrow> st_get (ic_subs s) k = Some x') \<and>
     (\<forall>k q'. st_get (ic_quotes s') k = Some q' \<longrightarrow> pq_tenant_id q' \<noteq> T \<longrightarrow> st_get (ic_quotes s) k = Some q')"

text \<open>Canceled subscriptions and settled quotes are final, a paused subscription is never
  charged again, and a transaction past its quote keeps what it sells and for how much; once
  paid it can only be reversed.\<close>

definition txn_settled :: "transaction \<Rightarrow> transaction \<Rightarrow> bool" where
  "txn_settled t t' \<longleftrightarrow>
     txn_tenant_id t' = txn_tenant_id t \<and> txn_line_items t' = txn_line_items t \<and>
     txn_totals t' = txn_totals t \<and> txn_currency t' = txn_currency t \<and> \<not> pre_auth (txn_state t') \<and>
     (txn_state t = Completed \<longrightarrow> txn_state t' = Completed \<or> txn_state t' = Reversed) \<and>
     (txn_state t = Reversed \<longrightarrow> txn_state t' = Reversed)"

definition finals_kept :: "string set \<Rightarrow> icp \<Rightarrow> icp \<Rightarrow> bool" where
  "finals_kept I s s' \<longleftrightarrow>
     (\<forall>k x. k \<notin> I \<longrightarrow> st_get (ic_subs s) k = Some x \<longrightarrow> sub_status x = SubCanceled \<longrightarrow>
        st_get (ic_subs s') k = Some x) \<and>
     (\<forall>k x. k \<notin> I \<longrightarrow> st_get (ic_subs s) k = Some x \<longrightarrow> sub_status x = Paused \<longrightarrow>
        (\<exists>x'. st_get (ic_subs s') k = Some x' \<and> sub_status x' \<in> {Paused, SubCanceled} \<and>
           sub_charges_completed x' = sub_charges_completed x)) \<and>
     (\<forall>k q. k \<notin> I \<longrightarrow> st_get (ic_quotes s) k = Some q \<longrightarrow> pq_status q \<noteq> PqQuoted \<longrightarrow>
        st_get (ic_quotes s') k = Some q) \<and>
     (\<forall>k t. k \<notin> I \<longrightarrow> st_get (ic_txns s) k = Some t \<longrightarrow> \<not> pre_auth (txn_state t) \<longrightarrow>
        (\<exists>t'. st_get (ic_txns s') k = Some t' \<and> txn_settled t t'))"

lemma txn_settled_refl: "\<not> pre_auth (txn_state t) \<Longrightarrow> txn_settled t t"
  by (simp add: txn_settled_def)

lemma txn_settled_trans: "txn_settled t t1 \<Longrightarrow> txn_settled t1 t2 \<Longrightarrow> txn_settled t t2"
  by (auto simp: txn_settled_def)

lemma txn_settled_move: "\<not> pre_auth (txn_state t) \<Longrightarrow> txn_move t t' \<Longrightarrow> txn_settled t t'"
  by (auto simp: txn_settled_def txn_move_def state_move_def pre_auth_def)

text \<open>The interface of a property of step sequences: it holds of the empty sequence, composes,
  and every single step has it.\<close>

locale step_property =
  fixes R :: "icp \<Rightarrow> icp \<Rightarrow> bool" and step :: "icp \<Rightarrow> icp \<Rightarrow> bool"
  assumes R_refl: "R s s"
    and R_trans: "R s s1 \<Longrightarrow> R s1 s2 \<Longrightarrow> R s s2"
    and R_step: "step s s' \<Longrightarrow> R s s'"
begin

lemma steps_property: "step\<^sup>*\<^sup>* s s' \<Longrightarrow> R s s'"
  by (induction rule: rtranclp_induct) (blast intro: R_refl R_trans R_step)+

lemma handler_property:
  assumes "ends m s (\<lambda>_ s'. step\<^sup>*\<^sup>* s s') (\<lambda>_ s'. step\<^sup>*\<^sup>* s s')" and "m s = (r, s')"
  shows "R s s'"
  using ends_result [OF assms] steps_property by (auto split: sum.splits)

end

interpretation isolation: step_property "others_kept T I" "call_step T I" for T I
proof
  fix s s1 s2 :: icp
  show "others_kept T I s s" by (simp add: others_kept_def)
  show "others_kept T I s s1 \<Longrightarrow> others_kept T I s1 s2 \<Longrightarrow> others_kept T I s s2"
    by (simp add: others_kept_def)
  show "call_step T I s s1 \<Longrightarrow> others_kept T I s s1"
    by (erule call_stepE, erule tenant_stepE) (auto simp: others_kept_def)
qed

interpretation ownership: step_property "owners_kept T I" "call_step T I" for T I
proof
  fix s s1 s2 :: icp
  show "owners_kept T I s s" by (simp add: owners_kept_def)
  show "owners_kept T I s s1 \<Longrightarrow> owners_kept T I s1 s2 \<Longrightarrow> owners_kept T I s s2"
    by (simp add: owners_kept_def)
  show "call_step T I s s1 \<Longrightarrow> owners_kept T I s s1"
    by (erule call_stepE, erule tenant_stepE)
      (auto simp: owners_kept_def txn_move_def sub_move_def quote_move_def split: if_splits)
qed

lemma finals_kept_trans:
  assumes "finals_kept I s s1" "finals_kept I s1 s2"
  shows "finals_kept I s s2"
  unfolding finals_kept_def
proof (intro conjI allI impI)
  fix k x
  assume h: "k \<notin> I" "st_get (ic_subs s) k = Some x"
  show "sub_status x = SubCanceled \<Longrightarrow> st_get (ic_subs s2) k = Some x"
    using assms h by (simp add: finals_kept_def)
  assume "sub_status x = Paused"
  then obtain x1 where x1: "st_get (ic_subs s1) k = Some x1"
      "sub_status x1 = Paused \<or> sub_status x1 = SubCanceled"
      "sub_charges_completed x1 = sub_charges_completed x"
    using assms(1) h unfolding finals_kept_def by blast
  show "\<exists>x'. st_get (ic_subs s2) k = Some x' \<and> sub_status x' \<in> {Paused, SubCanceled} \<and>
      sub_charges_completed x' = sub_charges_completed x"
  proof (cases "sub_status x1 = Paused")
    case True
    then have "\<exists>x'. st_get (ic_subs s2) k = Some x' \<and> sub_status x' \<in> {Paused, SubCanceled} \<and>
        sub_charges_completed x' = sub_charges_completed x1"
      using assms(2) h(1) x1(1) unfolding finals_kept_def by blast
    then show ?thesis by (simp only: x1(3))
  next
    case False
    then show ?thesis using assms(2) h(1) x1 by (simp add: finals_kept_def)
  qed
next
  fix k q
  assume "k \<notin> I" "st_get (ic_quotes s) k = Some q" "pq_status q \<noteq> PqQuoted"
  then show "st_get (ic_quotes s2) k = Some q" using assms by (simp add: finals_kept_def)
next
  fix k t
  assume h: "k \<notin> I" "st_get (ic_txns s) k = Some t" "\<not> pre_auth (txn_state t)"
  then obtain t1 where t1: "st_get (ic_txns s1) k = Some t1" "txn_settled t t1"
    using assms(1) unfolding finals_kept_def by blast
  then have "\<not> pre_auth (txn_state t1)" by (simp add: txn_settled_def)
  then obtain t2 where "st_get (ic_txns s2) k = Some t2" "txn_settled t1 t2"
    using assms(2) h(1) t1(1) unfolding finals_kept_def by blast
  then show "\<exists>t'. st_get (ic_txns s2) k = Some t' \<and> txn_settled t t'"
    using txn_settled_trans [OF t1(2)] by blast
qed

interpretation finality: step_property "finals_kept I" "call_step T I" for T I
proof
  fix s s1 s2 :: icp
  show "finals_kept I s s" by (auto simp: finals_kept_def txn_settled_refl)
  show "finals_kept I s s1 \<Longrightarrow> finals_kept I s1 s2 \<Longrightarrow> finals_kept I s s2"
    by (rule finals_kept_trans)
  show "call_step T I s s1 \<Longrightarrow> finals_kept I s s1"
    by (erule call_stepE, erule tenant_stepE)
      (auto simp: finals_kept_def sub_move_def quote_move_def txn_settled_refl
        split: subscription_status.splits intro: txn_settled_move)
qed

text \<open>The stores have one entry per identifier, and every entry is filed under its own.\<close>

definition icp_ok :: "icp \<Rightarrow> bool" where
  "icp_ok s \<longleftrightarrow>
     st_ok (ic_txns s) \<and> keyed_by txn_id (ic_txns s) \<and>
     st_ok (ic_subs s) \<and> keyed_by sub_id (ic_subs s) \<and>
     st_ok (ic_quotes s) \<and> keyed_by pq_id (ic_quotes s)"

lemma icp_ok_keys:
  "icp_ok s \<Longrightarrow> st_get (ic_txns s) k = Some t \<Longrightarrow> txn_id t = k"
  "icp_ok s \<Longrightarrow> st_get (ic_subs s) k = Some x \<Longrightarrow> sub_id x = k"
  "icp_ok s \<Longrightarrow> st_get (ic_quotes s) k = Some q \<Longrightarrow> pq_id q = k"
  by (simp_all add: icp_ok_def keyed_by_def)

lemma keyed_by_move:
  "keyed_by key st \<Longrightarrow> st_get st k = Some v \<Longrightarrow> key v' = key v \<Longrightarrow> keyed_by key (st_put k v' st)"
  by (simp add: keyed_by_def)

lemma icp_ok_step: "call_step T I s s' \<Longrightarrow> icp_ok s \<Longrightarrow> icp_ok s'"
  by (erule call_stepE, erule tenant_stepE)
    (auto simp: icp_ok_def txn_move_def sub_move_def quote_move_def intro: keyed_by_move)

text \<open>The handlers themselves do not publish, nor touch the webhook registrations.\<close>

definition quiet :: "icp \<Rightarrow> icp \<Rightarrow> bool" where
  "quiet s s' \<longleftrightarrow> ic_receipts s' = ic_receipts s \<and> ic_outbox s' = ic_outbox s \<and>
     ic_bus s' = ic_bus s \<and> ic_subscribers s' = ic_subscribers s"

interpretation silence: step_property quiet "tenant_step T I" for T I
  by unfold_locales (auto simp: quiet_def elim: tenant_stepE)

interpretation well_formed: step_property "\<lambda>s s'. icp_ok s \<longrightarrow> icp_ok s'" "call_step T I" for T I
  by unfold_locales (auto intro: icp_ok_step)

section \<open>Refinement\<close>

text \<open>
  A handler refines the specification: from a well-formed state every run is a sequence of
  steps of the caller's tenant, creating only identifiers of the call, and the transaction
  it answers with is the tenant's.
\<close>

definition refines :: "env \<Rightarrow> intent_input \<Rightarrow> outcome handler \<Rightarrow> bool" where
  "refines E inp m \<longleftrightarrow> (\<forall>s. icp_ok s \<longrightarrow> ends m s
     (\<lambda>out s'. tenant_steps (in_tenant_id inp) (new_ids E inp) s s' \<and>
        txn_tenant_id (oc_transaction out) = in_tenant_id inp)
     (\<lambda>e s'. tenant_steps (in_tenant_id inp) (new_ids E inp) s s'))"

lemma txn_outcome_simps [simp]:
  "oc_transaction (txn_outcome t) = t" "oc_order (txn_outcome t) = None"
  "oc_subscription (txn_outcome t) = None" "oc_peer_quote (txn_outcome t) = None"
  by (simp_all add: txn_outcome_def)

lemma opens_txn:
  "S = ic_txns s' \<Longrightarrow> txn_id t = k \<Longrightarrow> txn_tenant_id t = T \<Longrightarrow> k \<in> I \<Longrightarrow> tenant_steps T I s s' \<Longrightarrow>
   tenant_steps T I s (s'\<lparr>ic_txns := st_put k t S\<rparr>)"
  by (simp, rule rtranclp.rtrancl_into_rtrancl) (auto intro: tenant_step.open_txn)

lemma moves_txn:
  "S = ic_txns s' \<Longrightarrow> st_get (ic_txns s') tid = Some t \<Longrightarrow> txn_tenant_id t = T \<Longrightarrow> txn_move t t' \<Longrightarrow> tenant_steps T I s s' \<Longrightarrow>
   tenant_steps T I s (s'\<lparr>ic_txns := st_put tid t' S\<rparr>)"
  by (simp, rule rtranclp.rtrancl_into_rtrancl) (auto intro: tenant_step.move_txn)

lemma opens_sub:
  "S = ic_subs s' \<Longrightarrow> sub_id x = k \<Longrightarrow> sub_tenant_id x = T \<Longrightarrow> k \<in> I \<Longrightarrow> sub_status x = Trialing \<or> sub_status x = Active \<Longrightarrow>
   tenant_steps T I s s' \<Longrightarrow> tenant_steps T I s (s'\<lparr>ic_subs := st_put k x S\<rparr>)"
  by (simp, rule rtranclp.rtrancl_into_rtrancl) (auto intro: tenant_step.open_sub)

lemma moves_sub:
  "S = ic_subs s' \<Longrightarrow> st_get (ic_subs s') sid = Some x \<Longrightarrow> sub_tenant_id x = T \<Longrightarrow> sub_move x x' \<Longrightarrow> tenant_steps T I s s' \<Longrightarrow>
   tenant_steps T I s (s'\<lparr>ic_subs := st_put sid x' S\<rparr>)"
  by (simp, rule rtranclp.rtrancl_into_rtrancl) (auto intro: tenant_step.move_sub)

lemma opens_quote:
  "S = ic_quotes s' \<Longrightarrow> pq_id q = k \<Longrightarrow> pq_tenant_id q = T \<Longrightarrow> k \<in> I \<Longrightarrow>
   (pq_status q = Pending \<and> pq_price q = None) \<or>
     (pq_status q = PqQuoted \<and> (\<exists>m. pq_price q = Some m \<and> 0 < amount_minor m)) \<Longrightarrow>
   pq_charge_transaction_id q = None \<Longrightarrow> tenant_steps T I s s' \<Longrightarrow>
   tenant_steps T I s (s'\<lparr>ic_quotes := st_put k q S\<rparr>)"
  by (simp, rule rtranclp.rtrancl_into_rtrancl, assumption) (metis tenant_step.open_quote)

lemma moves_quote:
  "S = ic_quotes s' \<Longrightarrow> st_get (ic_quotes s') qid = Some q \<Longrightarrow> pq_tenant_id q = T \<Longrightarrow> quote_move q q' \<Longrightarrow> tenant_steps T I s s' \<Longrightarrow>
   tenant_steps T I s (s'\<lparr>ic_quotes := st_put qid q' S\<rparr>)"
  by (simp, rule rtranclp.rtrancl_into_rtrancl) (auto intro: tenant_step.move_quote)

lemma charges:
  "ledger_step T (ic_ledger s') l \<Longrightarrow> tenant_steps T I s s' \<Longrightarrow> tenant_steps T I s (s'\<lparr>ic_ledger := l\<rparr>)"
  by (rule rtranclp.rtrancl_into_rtrancl) (auto intro: tenant_step.charge)

lemma publishes:
  "call_steps T I s s' \<Longrightarrow> call_steps T I s (s'\<lparr>ic_receipts := rs, ic_outbox := ob, ic_bus := bus\<rparr>)"
  by (rule rtranclp.rtrancl_into_rtrancl) (auto intro: call_step.publish)

text \<open>The steps the handlers share, ready for use in a chain.\<close>

lemma expire_move: "pre_auth (txn_state t) \<Longrightarrow> txn_move t (t\<lparr>txn_state := Expired, txn_updated_at := now\<rparr>)"
  by (simp add: txn_move_def state_move_def)

lemma same_move: "txn_move t t"
  by (simp add: txn_move_def state_move_def)

lemma ends_quote_open_refines:
  assumes "icp_ok s" "tenant_steps T I s s'" "st_get (ic_txns s') tid = Some txn" "txn_tenant_id txn = T"
    and "Q () s'" and "\<And>e s''. tenant_steps T I s s'' \<Longrightarrow> F (Fail e) s''"
  shows "ends (ensure_quote_open txn now) s' Q F"
proof -
  have "icp_ok s'" using well_formed.steps_property [OF steps_call [OF assms(2)]] assms(1) by blast
  then have "txn_id txn = tid" using icp_ok_keys assms(3) by blast
  then show ?thesis
    using assms by (auto simp: wp simp del: append_Cons
        intro!: assms(6) moves_txn expire_move same_move)
qed

lemma ends_reserve_refines:
  assumes "tenant_steps T I s s'"
    and "\<And>l. tenant_steps T I s (s'\<lparr>ic_ledger := l\<rparr>) \<Longrightarrow> Q () (s'\<lparr>ic_ledger := l\<rparr>)"
    and "\<And>e s''. tenant_steps T I s s'' \<Longrightarrow> F e s''"
  shows "ends (reserve_mandate_spend E now mandate T amount currency) s' Q F"
  by (rule ends_reserve) (auto intro: assms charges)

end
