(* ===== verification/Checkout.thy ===== *)
theory Checkout
  imports Tenant_Spec
begin

text \<open>
  The transaction intents: \<open>search\<close>, \<open>describe\<close> and \<open>quote\<close> (\<open>src/service/catalog.rs\<close>),
  \<open>authorize\<close> and \<open>buy\<close> (\<open>src/service/purchase.rs\<close>), \<open>track\<close>, \<open>return\<close> and \<open>refund_request\<close>
  (\<open>src/service/orders.rs\<close>). Each handler refines the abstract steps of \<open>Tenant_Spec\<close>; the
  properties say what a purchase charges and that it can be charged once only.
\<close>

section \<open>Catalog\<close>

definition do_search :: "env \<Rightarrow> intent_input \<Rightarrow> outcome handler" where
  "do_search E inp =
     (let txn = fresh_transaction E inp Draft
      in andthen (txn_insert txn) (\<lambda>_. ret (txn_outcome txn)))"

definition do_describe :: "env \<Rightarrow> intent_input \<Rightarrow> outcome handler" where
  "do_describe E inp =
     (let txn = fresh_transaction E inp Draft
      in andthen (txn_insert txn) (\<lambda>_. ret (txn_outcome txn)))"

text \<open>The discount step: \<open>None\<close> is a panic, of the engine's discount or of \<open>clamp\<close> on a negative subtotal.\<close>

definition discounted :: "env \<Rightarrow> quote_params \<Rightarrow> string \<Rightarrow> totals \<Rightarrow> totals option" where
  "discounted E params currency t =
     (if qp_discount_codes params = [] then Some t
      else case e_engine E of
        None \<Rightarrow> Some t
      | Some eg \<Rightarrow>
          (case eg_discount eg (qp_items params) currency (qp_ship_to params) (qp_discount_codes params) of
             None \<Rightarrow> None
           | Some discount \<Rightarrow> if 0 < discount then apply_discount_to_totals t discount currency else Some t))"

definition do_quote :: "env \<Rightarrow> intent_input \<Rightarrow> outcome handler" where
  "do_quote E inp =
     andthen (parsed (pa_quote (e_parse E) (en_params (in_envelope inp))) ''quote.params'') (\<lambda>params.
     andthen (guard (qp_items params \<noteq> []) (InvalidRequest ''quote.params.items must be non-empty'')) (\<lambda>_.
     let currency = context_currency inp in
     andthen (of_result (price_request_items (qp_items params) currency ''quote.params.items''))
       (\<lambda>(line_items, totals0).
     andthen (expect_some (discounted E params currency totals0)) (\<lambda>tots.
     let txn = (fresh_transaction E inp Quoted)\<lparr>
           txn_buyer := (case qp_buyer params of Some b \<Rightarrow> b | None \<Rightarrow> buyer_default),
           txn_ship_to := qp_ship_to params, txn_line_items := line_items, txn_totals := tots,
           txn_currency := currency, txn_quote_expires_at := Some (e_now E 2 + secs (15 * 60))\<rparr>
     in andthen (txn_insert txn) (\<lambda>_. ret (txn_outcome txn))))))"

section \<open>Purchase\<close>

definition ensure_not_subscription_linked :: "transaction \<Rightarrow> unit result" where
  "ensure_not_subscription_linked txn =
     (if st_get (txn_external_refs txn) ''subscription_id'' \<noteq> None then
        Inl (PreconditionFailed
          ''transaction belongs to a subscription and cannot be authorized or bought directly'')
      else Inr ())"

definition authorized_txn :: "env \<Rightarrow> authorize_params \<Rightarrow> transaction \<Rightarrow> transaction" where
  "authorized_txn E params t =
     (let t1 = (case ap_buyer params of Some b \<Rightarrow> t\<lparr>txn_buyer := b\<rparr> | None \<Rightarrow> t);
          t2 = (case ap_ship_to params of Some a \<Rightarrow> t1\<lparr>txn_ship_to := Some a\<rparr> | None \<Rightarrow> t1);
          t3 = (case ap_bill_to params of Some a \<Rightarrow> t2\<lparr>txn_bill_to := Some a\<rparr> | None \<Rightarrow> t2)
      in t3\<lparr>txn_state := Authorized, txn_updated_at := e_now E 1\<rparr>)"

definition do_authorize :: "env \<Rightarrow> intent_input \<Rightarrow> outcome handler" where
  "do_authorize E inp =
     andthen (parsed (pa_authorize (e_parse E) (en_params (in_envelope inp))) ''authorize.params'') (\<lambda>params.
     let tid = ap_transaction_id params in
     andthen (transaction_for_input tid inp) (\<lambda>txn.
     andthen (of_result (ensure_not_subscription_linked txn)) (\<lambda>_.
     andthen (guard (txn_state txn = Quoted) (PreconditionFailed (''transaction in state ''
         @ debug_transaction_state (txn_state txn) @ '' cannot be authorized''))) (\<lambda>_.
     andthen (ensure_quote_open txn (e_now E 0)) (\<lambda>_.
     andthen (txn_update tid (authorized_txn E params)) (\<lambda>updated.
     andthen (some_or updated (ResourceNotFound (''transaction '' @ tid))) (\<lambda>t.
       ret (txn_outcome t))))))))"

definition bought_txn :: "env \<Rightarrow> order_summary option \<Rightarrow> transaction \<Rightarrow> transaction" where
  "bought_txn E order t =
     t\<lparr>txn_state := Completed, txn_order_id := map_option os_id order, txn_updated_at := e_now E 2\<rparr>"

definition do_buy :: "env \<Rightarrow> intent_input \<Rightarrow> mandate_evaluation option \<Rightarrow> outcome handler" where
  "do_buy E inp mandate =
     andthen (parsed (pa_buy (e_parse E) (en_params (in_envelope inp))) ''buy.params'') (\<lambda>params.
     andthen (of_result (validate_payment_instrument (bp_payment params)
         (cf_payment_execution_mode (e_cfg E)))) (\<lambda>_.
     let tid = bp_transaction_id params in
     andthen (transaction_for_input tid inp) (\<lambda>txn.
     andthen (of_result (ensure_not_subscription_linked txn)) (\<lambda>_.
     andthen
       (if txn_state txn = Quoted then ensure_quote_open txn (e_now E 0)
        else if txn_state txn = Authorized then ret ()
        else raise (PreconditionFailed (''transaction in state ''
          @ debug_transaction_state (txn_state txn) @ '' cannot be bought''))) (\<lambda>_.
     andthen (reserve_mandate_spend E (e_now E 1) mandate (in_tenant_id inp)
         (total_amount_minor (txn_totals txn)) (txn_currency txn)) (\<lambda>_.
     andthen (of_exec (persist_order_for_transaction E txn)) (\<lambda>order_summary.
     andthen (txn_update tid (bought_txn E order_summary)) (\<lambda>updated.
     andthen (some_or updated (ResourceNotFound (''transaction '' @ tid))) (\<lambda>persisted.
       ret ((txn_outcome persisted)\<lparr>oc_order := order_summary\<rparr>))))))))))"

section \<open>Orders\<close>

definition param_transaction_id :: "intent_input \<Rightarrow> string option" where
  "param_transaction_id inp =
     (case json_get (en_params (in_envelope inp)) ''transaction_id'' of
        Some v \<Rightarrow> json_as_str v | None \<Rightarrow> None)"

definition do_track :: "intent_input \<Rightarrow> outcome handler" where
  "do_track inp =
     andthen (some_or (case param_transaction_id inp of
           Some t \<Rightarrow> Some t | None \<Rightarrow> en_transaction_id (in_envelope inp))
         (InvalidRequest ''track: transaction_id required'')) (\<lambda>tid.
     andthen (transaction_for_input tid inp) (\<lambda>txn. ret (txn_outcome txn)))"

definition do_return :: "env \<Rightarrow> intent_input \<Rightarrow> outcome handler" where
  "do_return E inp =
     andthen (some_or (case en_transaction_id (in_envelope inp) of
           Some t \<Rightarrow> Some t | None \<Rightarrow> param_transaction_id inp)
         (InvalidRequest ''return: transaction_id required'')) (\<lambda>tid.
     andthen (ensure_transaction_owner tid inp) (\<lambda>_.
     andthen (txn_update tid (\<lambda>t. t\<lparr>txn_state := Reversed, txn_updated_at := e_now E 0\<rparr>)) (\<lambda>updated.
     andthen (some_or updated (ResourceNotFound (''transaction '' @ tid))) (\<lambda>t.
       ret (txn_outcome t)))))"

definition do_refund_request :: "env \<Rightarrow> intent_input \<Rightarrow> outcome handler" where
  "do_refund_request E inp = do_return E inp"

section \<open>Refinement\<close>

lemmas refine_simps = refines_def wp Let_def

lemma do_search_refines: "opens_named inp \<Longrightarrow> refines E inp (do_search E inp)"
  and do_describe_refines: "opens_named inp \<Longrightarrow> refines E inp (do_describe E inp)"
  by (auto simp: refine_simps do_search_def do_describe_def intro!: opens_txn)

lemma do_quote_refines: "opens_named inp \<Longrightarrow> refines E inp (do_quote E inp)"
  by (auto simp: refine_simps do_quote_def simp del: append_Cons
      split: sum.split option.split prod.split intro!: opens_txn)

lemma authorized_txn_simps [simp]:
  "txn_id (authorized_txn E params t) = txn_id t" "txn_tenant_id (authorized_txn E params t) = txn_tenant_id t"
  by (simp_all add: authorized_txn_def Let_def split: option.split)

lemma authorized_txn_move: "txn_state t = Quoted \<Longrightarrow> txn_move t (authorized_txn E params t)"
  by (simp add: authorized_txn_def txn_move_def state_move_def Let_def split: option.split)

lemma bought_txn_simps [simp]:
  "txn_id (bought_txn E order t) = txn_id t" "txn_tenant_id (bought_txn E order t) = txn_tenant_id t"
  by (simp_all add: bought_txn_def)

lemma bought_txn_move:
  "txn_state t = Quoted \<or> txn_state t = Authorized \<Longrightarrow> txn_move t (bought_txn E order t)"
  by (auto simp: bought_txn_def txn_move_def state_move_def)

lemma do_authorize_refines: "refines E inp (do_authorize E inp)"
proof -
  have "ends (do_authorize E inp) s
     (\<lambda>out s'. tenant_steps (in_tenant_id inp) (new_ids E inp) s s' \<and>
        txn_tenant_id (oc_transaction out) = in_tenant_id inp)
     (\<lambda>e s'. tenant_steps (in_tenant_id inp) (new_ids E inp) s s')" if "icp_ok s" for s
    unfolding do_authorize_def ends_andthen Let_def ends_options ends_lookups ends_basic
    by (auto simp: ends_updates ends_options ends_basic simp del: append_Cons ends_quote_open
        split: sum.split option.split
        intro!: ends_quote_open_refines [OF that] moves_txn authorized_txn_move)
  then show ?thesis by (simp add: refines_def)
qed

lemma persist_no_panic: "persist_order_for_transaction E txn \<noteq> Inl Panic"
  by (auto simp: persist_order_for_transaction_def bind_result_def split: sum.splits option.splits if_splits)

lemma do_buy_refines: "refines E inp (do_buy E inp mandate)"
proof -
  have "ends (do_buy E inp mandate) s
     (\<lambda>out s'. tenant_steps (in_tenant_id inp) (new_ids E inp) s s' \<and>
        txn_tenant_id (oc_transaction out) = in_tenant_id inp)
     (\<lambda>e s'. tenant_steps (in_tenant_id inp) (new_ids E inp) s s')" if "icp_ok s" for s
    unfolding do_buy_def ends_andthen Let_def ends_options ends_lookups ends_basic
    by (auto simp: ends_updates ends_options ends_basic simp del: append_Cons
        split: sum.split option.split
        intro!: ends_quote_open_refines [OF that] ends_reserve_refines moves_txn bought_txn_move)
  then show ?thesis by (simp add: refines_def)
qed

lemma do_track_refines: "refines E inp (do_track inp)"
  by (auto simp: refine_simps do_track_def simp del: append_Cons split: option.split)

lemma do_return_refines: "refines E inp (do_return E inp)"
  by (auto simp: refine_simps do_return_def simp del: append_Cons split: option.split
      intro!: moves_txn) (auto simp: txn_move_def state_move_def)

lemma do_refund_request_refines: "refines E inp (do_refund_request E inp)"
  by (simp add: do_refund_request_def do_return_refines)

section \<open>What a quote stores\<close>

lemma discounted_totals:
  assumes "price_request_items items currency p = Inr (ls, t)" and "discounted E params currency t = Some t'"
  shows "to_subtotal t' = to_subtotal t \<and> 0 \<le> total_amount_minor t' \<and>
    total_amount_minor t' \<le> total_amount_minor t"
proof -
  let ?s = "min i64_max (basket_value items)"
  have valid: "list_all valid_item items"
    by (rule price_request_items_valid [OF assms(1)])
  then have s: "0 \<le> ?s" "?s \<le> i64_max"
    using basket_value_nonneg by (simp_all add: i64_max_def)
  have t: "to_subtotal t = Some (money_new ?s currency)"
    and total: "total_amount_minor t = min i64_max (?s + ?s * 875 div 10000)"
    using price_request_items_total [OF assms(1)] by blast+
  have sat: "sat_add ?s (flat_tax_minor ?s) = min i64_max (?s + ?s * 875 div 10000)"
    using s by (simp only: flat_tax_nonneg sat_add_tax)
  show ?thesis
  proof (cases "discounted E params currency t = Some t")
    case True
    then show ?thesis
      using assms(2) price_request_items_nonneg(1) [OF assms(1)] by simp
  next
    case False
    then obtain d where app: "apply_discount_to_totals t d currency = Some t'"
      using assms(2) by (auto simp: discounted_def split: if_splits option.splits)
    have "0 \<le> amount_minor (money_new ?s currency)" "amount_minor (money_new ?s currency) \<le> i64_max"
      using s by (simp_all only: money_new_simps)
    note bounded = apply_discount_bounded [OF t this app, unfolded Let_def]
    from bounded have "to_subtotal t' = to_subtotal t" "0 \<le> total_amount_minor t'"
      "total_amount_minor t' \<le> sat_add (amount_minor (money_new ?s currency))
        (flat_tax_minor (amount_minor (money_new ?s currency)))"
      by blast+
    then show ?thesis by (simp only: money_new_simps total sat)
  qed
qed

text \<open>The engine's discount on the basket of a quote panics.\<close>

definition discount_panics :: "env \<Rightarrow> quote_params \<Rightarrow> string \<Rightarrow> bool" where
  "discount_panics E params currency \<longleftrightarrow> qp_discount_codes params \<noteq> [] \<and>
     (\<exists>eg. e_engine E = Some eg \<and>
        eg_discount eg (qp_items params) currency (qp_ship_to params) (qp_discount_codes params) = None)"

lemma discounted_panics:
  assumes "price_request_items items currency p = Inr (ls, t)"
  shows "discounted E params currency t = None \<longleftrightarrow> discount_panics E params currency"
proof -
  have "to_subtotal t = Some (money_new (min i64_max (basket_value items)) currency)"
    using price_request_items_total [OF assms] by blast
  moreover have "\<not> min i64_max (basket_value items) < 0"
    using basket_value_nonneg [OF price_request_items_valid [OF assms]] by (simp add: i64_max_def)
  ultimately show ?thesis
    by (auto simp: discounted_def discount_panics_def apply_discount_to_totals_def money_amount_or_def Let_def
        split: option.split)
qed

text \<open>C15 (functional). A quote that succeeds stores exactly one transaction and nothing else:
  in state \<open>Quoted\<close>, owned by the caller's tenant, with one line per requested item, a total
  between zero and the undiscounted price, and open for fifteen minutes. A quote that fails stores
  nothing; it panics exactly when its basket is priced, it names discount codes, and the engine's
  \<open>compute_discount_minor\<close> panics on them: no arithmetic of the quote itself does.\<close>

theorem quote_stores_priced_basket:
  "ends (do_quote E inp) s
     (\<lambda>out s'. \<exists>p ls t0. pa_quote (e_parse E) (en_params (in_envelope inp)) = Inr p \<and>
        price_request_items (qp_items p) (context_currency inp) ''quote.params.items'' = Inr (ls, t0) \<and>
        (let txn = oc_transaction out in
           s' = s\<lparr>ic_txns := st_put (txn_id txn) txn (ic_txns s)\<rparr> \<and>
           txn_state txn = Quoted \<and> txn_tenant_id txn = in_tenant_id inp \<and>
           txn_line_items txn = ls \<and> length ls = length (qp_items p) \<and>
           to_subtotal (txn_totals txn) = to_subtotal t0 \<and>
           0 \<le> total_amount_minor (txn_totals txn) \<and>
           total_amount_minor (txn_totals txn) \<le> total_amount_minor t0 \<and>
           txn_quote_expires_at txn = Some (e_now E 2 + secs 900)))
     (\<lambda>e s'. s' = s \<and> (e = Panic \<longleftrightarrow>
        (\<exists>p eg ls t0. pa_quote (e_parse E) (en_params (in_envelope inp)) = Inr p \<and> qp_items p \<noteq> [] \<and>
           price_request_items (qp_items p) (context_currency inp) ''quote.params.items'' = Inr (ls, t0) \<and>
           qp_discount_codes p \<noteq> [] \<and> e_engine E = Some eg \<and>
           eg_discount eg (qp_items p) (context_currency inp) (qp_ship_to p) (qp_discount_codes p) = None)))"
proof -
  have len: "length ls = length items" if "price_request_items items c p = Inr (ls, t)" for items c p ls t
    using that by (auto simp: price_request_items_eq Let_def split: if_splits)
  show ?thesis
    using discounted_totals
    by (auto simp: do_quote_def wp Let_def len discounted_panics discount_panics_def simp del: append_Cons
        split: sum.split option.split)
qed

section \<open>What a purchase charges\<close>

text \<open>A mandate is charged with an amount: the ledger's answer to the checked spend.\<close>

definition charged ::
  "env \<Rightarrow> time \<Rightarrow> mandate_evaluation option \<Rightarrow> string \<Rightarrow> i64 \<Rightarrow> string \<Rightarrow> ledger \<Rightarrow> ledger \<Rightarrow> bool" where
  "charged E now mandate tenant amount currency l l' \<longleftrightarrow>
     (case mandate of
        None \<Rightarrow> l' = l
      | Some ev \<Rightarrow>
         let b = mt_budget (md_icp (ev_payload ev)) in
         if amount \<le> 0 then l' = l
         else eq_ignore_ascii_case (mb_currency b) currency \<and>
           (\<exists>w. budget_window (e_chrono E) (mb_period b) = Inr w \<and>
              mem_spend_checked l (md_jti (ev_payload ev)) tenant amount now (spend_limits_of b w) = (Inr (), l')))"

lemma ends_reserve_charged:
  assumes "\<And>l. charged E now mandate tenant amount currency (ic_ledger s) l \<Longrightarrow> Q () (s\<lparr>ic_ledger := l\<rparr>)"
    and "\<And>e l. F e (s\<lparr>ic_ledger := l\<rparr>)"
  shows "ends (reserve_mandate_spend E now mandate tenant amount currency) s Q F"
proof -
  have same: "Q () s" if "charged E now mandate tenant amount currency (ic_ledger s) (ic_ledger s)"
    using assms(1) [OF that] by simp
  have bad: "F e s" for e using assms(2) [of e "ic_ledger s"] by simp
  show ?thesis
  proof (cases mandate)
    case None
    then show ?thesis using same by (simp add: reserve_mandate_spend_def wp charged_def)
  next
    case (Some ev)
    let ?b = "mt_budget (md_icp (ev_payload ev))"
    have spend: "ends (\<lambda>s. case mem_spend_checked (ic_ledger s) (md_jti (ev_payload ev)) tenant amount now
          (spend_limits_of ?b w) of (r, l) \<Rightarrow> (lift_result r, s\<lparr>ic_ledger := l\<rparr>)) s Q F"
      if "budget_window (e_chrono E) (mb_period ?b) = Inr w"
        "eq_ignore_ascii_case (mb_currency ?b) currency" "\<not> amount \<le> 0" for w
    proof -
      obtain r l where "mem_spend_checked (ic_ledger s) (md_jti (ev_payload ev)) tenant amount now
          (spend_limits_of ?b w) = (r, l)" by (rule prod.exhaust)
      then show ?thesis
        using assms(1) [of l] assms(2) that Some by (cases r) (simp_all add: ends_def charged_def)
    qed
    then show ?thesis
      using same bad Some
      by (auto simp: reserve_mandate_spend_def wp Let_def charged_def simp del: append_Cons split: sum.split)
  qed
qed

text \<open>A refused call may have charged the mandate, but touches no aggregate.\<close>

definition aggregates_kept :: "icp \<Rightarrow> icp \<Rightarrow> bool" where
  "aggregates_kept s s' \<longleftrightarrow> ic_txns s' = ic_txns s \<and> ic_subs s' = ic_subs s \<and> ic_quotes s' = ic_quotes s"

text \<open>The whole effect of a purchase that succeeds.\<close>

definition bought ::
  "env \<Rightarrow> intent_input \<Rightarrow> mandate_evaluation option \<Rightarrow> string \<Rightarrow> icp \<Rightarrow> outcome \<Rightarrow> icp \<Rightarrow> bool" where
  "bought E inp mandate tid s out s' \<longleftrightarrow>
     (\<exists>txn l. st_get (ic_txns s) tid = Some txn \<and> txn_tenant_id txn = in_tenant_id inp \<and>
        st_get (txn_external_refs txn) ''subscription_id'' = None \<and>
        (txn_state txn = Authorized \<or> (txn_state txn = Quoted \<and> \<not> quote_expired txn (e_now E 0))) \<and>
        charged E (e_now E 1) mandate (in_tenant_id inp) (total_amount_minor (txn_totals txn))
          (txn_currency txn) (ic_ledger s) l \<and>
        persist_order_for_transaction E txn = Inr (oc_order out) \<and>
        oc_transaction out = bought_txn E (oc_order out) txn \<and>
        s' = s\<lparr>ic_ledger := l, ic_txns := st_put tid (oc_transaction out) (ic_txns s)\<rparr>)"

lemma do_buy_effect:
  "ends (do_buy E inp mandate) s
     (\<lambda>out s'. \<exists>p. pa_buy (e_parse E) (en_params (in_envelope inp)) = Inr p \<and>
        validate_payment_instrument (bp_payment p) (cf_payment_execution_mode (e_cfg E)) = Inr () \<and>
        bought E inp mandate (bp_transaction_id p) s out s')
     (\<lambda>e s'. True)"
  unfolding do_buy_def ends_andthen Let_def ends_options ends_lookups ends_basic ends_quote_open
  by (auto simp: ends_updates ends_options ends_basic wp ensure_not_subscription_linked_def bought_def
      txn_outcome_def simp del: append_Cons split: sum.split option.split if_splits
      intro!: ends_reserve_charged)

text \<open>C16 (functional). A purchase under a mandate charges it exactly once, with exactly the total
  of the transaction: the transaction was the tenant's, quoted or authorized, and is completed;
  no other transaction changes; the mandate's usage grows by the total (in the window the
  period gives), within its budget and in its currency; no other mandate's usage changes, and
  nothing is charged for a free basket.\<close>

theorem buy_charges_the_total:
  assumes "do_buy E inp (Some ev) s = (Inr out, s')"
  shows "\<exists>p txn. pa_buy (e_parse E) (en_params (in_envelope inp)) = Inr p \<and>
    st_get (ic_txns s) (bp_transaction_id p) = Some txn \<and> txn_tenant_id txn = in_tenant_id inp \<and>
    txn_state txn \<in> {Quoted, Authorized} \<and> txn_state (oc_transaction out) = Completed \<and>
    (\<forall>k. st_get (ic_txns s') k =
       (if k = bp_transaction_id p then Some (oc_transaction out) else st_get (ic_txns s) k)) \<and>
    (let a = total_amount_minor (txn_totals txn); b = mt_budget (md_icp (ev_payload ev));
         jti = md_jti (ev_payload ev) in
       total_amount_minor (txn_totals (oc_transaction out)) = a \<and>
       (if a \<le> 0 then ic_ledger s' = ic_ledger s
        else eq_ignore_ascii_case (mb_currency b) (txn_currency txn) \<and>
          (\<exists>w u. budget_window (e_chrono E) (mb_period b) = Inr w \<and>
             u = refresh_usage (mem_usage (ic_ledger s) jti) (in_tenant_id inp) (e_now E 1) w \<and>
             a \<le> sat_sub (mb_amount_minor b) (spent_minor u) \<and>
             mem_usage (ic_ledger s') jti = u\<lparr>spent_minor := sat_add (spent_minor u) a\<rparr>)) \<and>
       (\<forall>j. j \<noteq> jti \<longrightarrow> mem_usage (ic_ledger s') j = mem_usage (ic_ledger s) j))"
proof -
  obtain p where p: "pa_buy (e_parse E) (en_params (in_envelope inp)) = Inr p"
    and b: "bought E inp (Some ev) (bp_transaction_id p) s out s'"
    using ends_Inr [OF do_buy_effect assms] by blast
  then obtain txn l where txn: "st_get (ic_txns s) (bp_transaction_id p) = Some txn"
      "txn_tenant_id txn = in_tenant_id inp" "txn_state txn \<in> {Quoted, Authorized}"
    and ch: "charged E (e_now E 1) (Some ev) (in_tenant_id inp) (total_amount_minor (txn_totals txn))
          (txn_currency txn) (ic_ledger s) l"
    and out: "oc_transaction out = bought_txn E (oc_order out) txn"
    and s': "s' = s\<lparr>ic_ledger := l, ic_txns := st_put (bp_transaction_id p) (oc_transaction out) (ic_txns s)\<rparr>"
    by (auto simp: bought_def)
  have "total_amount_minor (txn_totals (oc_transaction out)) = total_amount_minor (txn_totals txn)"
    "txn_state (oc_transaction out) = Completed"
    by (simp_all add: out bought_txn_def)
  then show ?thesis
    using p txn ch mem.accepted [of "ic_ledger s" "md_jti (ev_payload ev)" "in_tenant_id inp"
        "total_amount_minor (txn_totals txn)" "e_now E 1" _ l]
      mem.other_mandates [of "ic_ledger s" "md_jti (ev_payload ev)" "in_tenant_id inp"
        "total_amount_minor (txn_totals txn)" "e_now E 1" _ "Inr ()" l]
    by (fastforce simp: charged_def Let_def s' spend_limits_of_def split: if_splits)
qed

text \<open>C17 (safety). A transaction can be bought once only: after a purchase succeeded, any
  purchase of the same transaction, by whatever caller, mandate, clock and engine, is refused
  and changes nothing (in particular charges no mandate).\<close>

theorem no_second_purchase:
  assumes "do_buy E inp mandate s = (Inr out, s')" and "icp_ok s"
    and "pa_buy (e_parse E') (en_params (in_envelope inp')) = Inr p'"
    and "bp_transaction_id p' = txn_id (oc_transaction out)"
  shows "\<exists>e. do_buy E' inp' mandate' s' = (Inl (Fail e), s')"
proof -
  from ends_Inr [OF do_buy_effect assms(1)]
  obtain p :: buy_params where "bought E inp mandate (bp_transaction_id p) s out s'" by blast
  then have "txn_id (oc_transaction out) = bp_transaction_id p"
    "st_get (ic_txns s') (bp_transaction_id p) = Some (oc_transaction out)"
    "txn_state (oc_transaction out) = Completed"
    using icp_ok_keys(1) [OF assms(2)] by (auto simp: bought_def bought_txn_def)
  then have fin: "st_get (ic_txns s') (bp_transaction_id p') = Some (oc_transaction out)"
    "txn_state (oc_transaction out) = Completed"
    using assms(4) by simp_all
  have "ends (do_buy E' inp' mandate' ) s' (\<lambda>_ _. False) (\<lambda>e t. t = s' \<and> (\<exists>x. e = Fail x))"
    unfolding do_buy_def ends_andthen Let_def ends_options ends_lookups ends_basic assms(3)
    by (simp add: fin ends_basic del: append_Cons split: sum.split option.split)
  then show ?thesis
    by (auto simp: ends_def split: prod.splits sum.splits)
qed

text \<open>An environment and a quoted transaction for evaluation.\<close>

definition demo_cfg :: config where
  "demo_cfg = \<lparr>cf_icp_version = ''2026-04-21'', cf_require_mandate = True,
     cf_verify_mandate_signatures = True, cf_public_base_url = ''http://h'', cf_webhook_url = None,
     cf_webhook_secret = None, cf_deployment_env = ''test'', cf_payment_execution_mode = ''simulated'',
     cf_subscription_dunning_schedule_hours = [1, 6], cf_idempotency_lease_secs = 60\<rparr>"

definition demo_parsers :: parsers where
  "demo_parsers = \<lparr>
     pa_quote = (\<lambda>_. Inr \<lparr>qp_items = [sample_item], qp_buyer = None, qp_ship_to = None, qp_discount_codes = []\<rparr>),
     pa_authorize = (\<lambda>_. Inr \<lparr>ap_transaction_id = ''txn_1'', ap_buyer = None, ap_ship_to = None, ap_bill_to = None\<rparr>),
     pa_buy = (\<lambda>_. Inr \<lparr>bp_transaction_id = ''txn_1'', bp_payment = Card (Some ''tok'') None None\<rparr>),
     pa_subscribe = (\<lambda>_. Inr \<lparr>sp_items = [sample_item], sp_buyer = None, sp_ship_to = None,
       sp_cadence = Weekly, sp_payment = Card (Some ''tok'') None None, sp_trial_days = Some 7\<rparr>),
     pa_renew = (\<lambda>_. Inr \<lparr>np_subscription_id = ''sub_1'', np_payment = Card (Some ''tok'') None None\<rparr>),
     pa_subscription_ref = (\<lambda>_. Inr \<lparr>sr_subscription_id = ''sub_1''\<rparr>),
     pa_a2a_quote = (\<lambda>_. Inl ''none''), pa_a2a_pay = (\<lambda>_. Inl ''none''),
     pa_negotiate = (\<lambda>_. Inr \<lparr>gp_transaction_id = ''txn_1'', gp_proposed_total = None,
       gp_discount_pct = Some 10, gp_message = None\<rparr>),
     pa_confirm_receipt = (\<lambda>_. Inr \<lparr>cp_transaction_id = ''txn_1'', cp_note = None\<rparr>)\<rparr>"

definition demo_env :: env where
  "demo_env = \<lparr>e_cfg = demo_cfg, e_chrono = chrono_demo, e_crypto = demo_crypto, e_parse = demo_parsers,
     e_sig_lib = demo_sig_lib, e_signer = demo_signer, e_body_jcs = (\<lambda>_. Inr ''body''),
     e_body_json = (\<lambda>_. JNull), e_event_text = (\<lambda>_. ''{}''), e_json_text = (\<lambda>_. ''{}''), e_f64_text = (\<lambda>_. ''0''),
     e_timestamp = (\<lambda>t. t), e_engine = None, e_now = (\<lambda>i. 7), e_uuid = show_nat\<rparr>"

definition demo_agent :: agent_identifier where
  "demo_agent = \<lparr>ag_raw = ''agent'', ag_kind = Opaque\<rparr>"

definition demo_tenant :: api_key_info where
  "demo_tenant = \<lparr>ak_key = ''key'', ak_tenant_id = ''shop'', ak_name = ''shop'',
     ak_rate_limit_per_minute = None, ak_allowed_agents = None, ak_expires_at = None\<rparr>"

definition demo_input :: "string \<Rightarrow> intent_input" where
  "demo_input intent = for_icp
     \<lparr>en_intent = intent, en_intent_id = Some ''int_1'', en_transaction_id = None,
      en_agent_id = ''agent'', en_mandate_jti = None, en_params = JNull,
      en_context = intent_context_default\<lparr>cx_jurisdiction := Some ''US-CA''\<rparr>\<rparr>
     demo_agent demo_tenant (Some demo_jws) ''req_1'' None"

definition demo_txn :: transaction where
  "demo_txn = (fresh_transaction demo_env (demo_input ''intent.quote'') Quoted)\<lparr>txn_id := ''txn_1'',
     txn_totals := \<lparr>to_subtotal = Some (money_new 55 ''USD''), to_discount = None, to_shipping = None,
       to_tax = Some (money_new 5 ''USD''), to_total = Some (money_new 60 ''USD'')\<rparr>\<rparr>"

definition demo_state :: icp where
  "demo_state = \<lparr>ic_txns = [(''txn_1'', demo_txn)], ic_subs = [], ic_quotes = [], ic_ledger = [],
     ic_receipts = [], ic_outbox = [], ic_subscribers = [], ic_bus = []\<rparr>"

lemma demo_state_ok: "icp_ok demo_state"
  by (simp add: icp_ok_def demo_state_def st_ok_def keyed_by_def st_get_def demo_txn_def)

lemma demo_buys:
  "\<exists>out s'. do_buy demo_env (demo_input ''intent.buy'') (Some (demo_evaluation False)) demo_state = (Inr out, s') \<and>
     txn_id (oc_transaction out) = ''txn_1''"
proof -
  have card: "validate_payment_instrument (Card (Some ''tok'') None None) ''simulated'' = Inr ()"
    by (simp add: validate_payment_instrument_def require_non_empty_def trim_graphic graphic_def)
  have "ends (do_buy demo_env (demo_input ''intent.buy'') (Some (demo_evaluation False))) demo_state
      (\<lambda>out s'. txn_id (oc_transaction out) = ''txn_1'') (\<lambda>_ _. False)"
    unfolding do_buy_def ends_andthen Let_def ends_options ends_lookups ends_basic ends_quote_open
    by (simp add: wp demo_env_def demo_cfg_def demo_parsers_def demo_input_def for_icp_def demo_tenant_def
        card demo_state_def st_get_def demo_txn_def fresh_transaction_def context_currency_def
        intent_context_default_def ensure_not_subscription_linked_def quote_expired_def
        reserve_mandate_spend_def demo_evaluation_def demo_payload_def total_amount_minor_def
        money_amount_or_def eq_ignore_ascii_case_def budget_window_def parse_period_def)
      (simp add: ends_def mem_spend_checked_def spend_guard_def spend_limits_of_def refresh_usage_def
        window_elapsed_def mem_usage_def usage_default_def st_get_def sat_sub_def clamp_i64_def i64_max_def
        i64_min_def persist_order_for_transaction_def is_production_def demo_cfg_def
        eq_ignore_ascii_case_def lower_char_def txn_update_def bought_txn_def txn_outcome_def)
  then show ?thesis by (auto simp: ends_def split: prod.splits sum.splits)
qed

theorem buy_charges_the_total_witness:
  "\<exists>out s'. do_buy demo_env (demo_input ''intent.buy'') (Some (demo_evaluation False)) demo_state = (Inr out, s') \<and>
     total_amount_minor (txn_totals (oc_transaction out)) = 60 \<and>
     spent_minor (mem_usage (ic_ledger s') ''m'') = 60 \<and>
     txn_state (oc_transaction out) = Completed"
proof -
  obtain out s' where run:
    "do_buy demo_env (demo_input ''intent.buy'') (Some (demo_evaluation False)) demo_state = (Inr out, s')"
    using demo_buys by blast
  have p: "pa_buy (e_parse demo_env) j = Inr \<lparr>bp_transaction_id = ''txn_1'', bp_payment = Card (Some ''tok'') None None\<rparr>" for j
    by (simp add: demo_env_def demo_parsers_def)
  have txn: "st_get (ic_txns demo_state) ''txn_1'' = Some demo_txn"
    "total_amount_minor (txn_totals demo_txn) = 60" "ic_ledger demo_state = []"
    by (simp_all add: demo_state_def st_get_def demo_txn_def total_amount_minor_def money_amount_or_def)
  have fresh: "spent_minor (refresh_usage (mem_usage [] j) t n w) = 0" for j t n w
    by (simp add: refresh_usage_def mem_usage_def usage_default_def window_elapsed_def Let_def)
  have sixty: "sat_add 0 60 = 60" by (simp add: sat_add_def clamp_i64_def i64_min_def i64_max_def)
  have jti: "md_jti (ev_payload (demo_evaluation False)) = ''m''"
    by (simp add: demo_evaluation_def demo_payload_def)
  show ?thesis
    using buy_charges_the_total [OF run] run
    by (auto simp: p txn Let_def jti fresh sixty)
qed

theorem no_second_purchase_witness:
  "\<exists>s' e. do_buy demo_env (demo_input ''intent.buy'') None s' = (Inl (Fail e), s')"
proof -
  obtain out s' where run:
    "do_buy demo_env (demo_input ''intent.buy'') (Some (demo_evaluation False)) demo_state = (Inr out, s')"
    and "txn_id (oc_transaction out) = ''txn_1''"
    using demo_buys by blast
  moreover have "pa_buy (e_parse demo_env) j = Inr \<lparr>bp_transaction_id = ''txn_1'', bp_payment = Card (Some ''tok'') None None\<rparr>" for j
    by (simp add: demo_env_def demo_parsers_def)
  ultimately show ?thesis
    using no_second_purchase [OF run demo_state_ok, of demo_env "demo_input ''intent.buy''"
        "\<lparr>bp_transaction_id = ''txn_1'', bp_payment = Card (Some ''tok'') None None\<rparr>" None] by auto
qed

section \<open>What can go wrong\<close>

text \<open>
  \<open>search\<close> and \<open>describe\<close> carry no mandate scope and write an advisory transaction under the
  identifier the client names; the store upserts, so naming the transaction of another tenant
  replaces it.
\<close>

lemma search_overwrites_foreign_transaction:
  assumes "en_transaction_id (in_envelope inp) = Some k" "st_get (ic_txns s) k = Some t"
    and "txn_tenant_id t \<noteq> in_tenant_id inp"
  shows "\<exists>out s' t'. do_search E inp s = (Inr out, s') \<and> st_get (ic_txns s') k = Some t' \<and>
    txn_tenant_id t' = in_tenant_id inp \<and> txn_state t' = Draft"
  using assms(1)
  by (simp add: do_search_def Let_def andthen_def txn_insert_def modify_def ret_def fresh_transaction_def)

text \<open>
  The reservation precedes the engine: when the engine then refuses the order in production,
  the purchase fails and the mandate stays charged.
\<close>

lemma failed_purchase_keeps_the_charge:
  assumes "pa_buy (e_parse E) (en_params (in_envelope inp)) = Inr p"
    and "validate_payment_instrument (bp_payment p) (cf_payment_execution_mode (e_cfg E)) = Inr ()"
    and "st_get (ic_txns s) (bp_transaction_id p) = Some txn" "txn_tenant_id txn = in_tenant_id inp"
    and "st_get (txn_external_refs txn) ''subscription_id'' = None" "txn_state txn = Authorized"
    and "reserve_mandate_spend E (e_now E 1) mandate (in_tenant_id inp)
          (total_amount_minor (txn_totals txn)) (txn_currency txn) s = (Inr (), s1)"
    and "persist_order_for_transaction E txn = Inl e"
  shows "do_buy E inp mandate s = (Inl e, s1)"
  using assms
  by (simp add: do_buy_def andthen_def parsed_def of_result_def ret_def transaction_for_input_def
      ensure_not_subscription_linked_def of_exec_def Let_def)

end
