(* ===== verification/Negotiate.thy ===== *)
theory Negotiate
  imports Checkout
begin

text \<open>
  The mid-flow intents \<open>negotiate\<close> and \<open>confirm_receipt\<close> (\<open>src/service/negotiate.rs\<close>), with
  the double-precision arithmetic of the percentage discount written out: rounding to the
  nearest double, ties to even.
\<close>

section \<open>Doubles\<close>

definition pow2 :: "int \<Rightarrow> rat" where
  "pow2 e = (if 0 \<le> e then 2 ^ nat e else 1 / 2 ^ nat (- e))"

fun nat_log2 :: "nat \<Rightarrow> nat" where
  "nat_log2 n = (if n \<le> 1 then 0 else Suc (nat_log2 (n div 2)))"

declare nat_log2.simps [simp del]

definition floor_log2 :: "rat \<Rightarrow> int" where
  "floor_log2 x =
     (let (p, q) = quotient_of x; k = int (nat_log2 (nat p)) - int (nat_log2 (nat q))
      in if pow2 k \<le> x then k else k - 1)"

definition round_half_even :: "rat \<Rightarrow> int" where
  "round_half_even x =
     (let f = \<lfloor>x\<rfloor>; d = x - of_int f
      in if d < 1 / 2 then f else if 1 / 2 < d then f + 1 else if even f then f else f + 1)"

text \<open>The exponent of the last place: 53 significant bits, gradual underflow at -1074.\<close>

definition f64_round :: "rat \<Rightarrow> rat" where
  "f64_round x =
     (if x = 0 then 0
      else let e = max (- 1074) (floor_log2 \<bar>x\<bar> - 52)
           in sgn x * (of_int (round_half_even (\<bar>x\<bar> / pow2 e)) * pow2 e))"

text \<open>\<open>as i128\<close> on a finite double truncates.\<close>

definition trunc_rat :: "rat \<Rightarrow> int" where
  "trunc_rat x = (if 0 \<le> x then \<lfloor>x\<rfloor> else - \<lfloor>- x\<rfloor>)"

lemma pow2_pos [simp]: "0 < pow2 e"
  by (simp add: pow2_def)

lemma nat_log2_bounds: "0 < n \<Longrightarrow> 2 ^ nat_log2 n \<le> n \<and> n < 2 ^ Suc (nat_log2 n)"
proof (induction n rule: nat_log2.induct)
  case (1 n)
  show ?case
  proof (cases "n \<le> 1")
    case True
    then show ?thesis using 1 by (simp add: nat_log2.simps [of n])
  next
    case False
    with 1 show ?thesis by (auto simp: nat_log2.simps [of n])
  qed
qed

lemma pow2_diff: "pow2 (int a - int b - 1) \<le> 2 ^ a / (2 ^ Suc b :: rat)"
proof (cases "Suc b \<le> a")
  case True
  then have "nat (int a - int b - 1) = a - Suc b" by simp
  then show ?thesis using True by (simp add: pow2_def power_diff)
next
  case False
  then have n: "nat (- (int a - int b - 1)) = Suc b - a" and neg: "\<not> 0 \<le> int a - int b - 1" by simp_all
  have "2 ^ Suc b = (2 ^ a * 2 ^ (Suc b - a) :: rat)"
    using False by (simp flip: power_add)
  then show ?thesis unfolding pow2_def n using neg by simp
qed

lemma floor_log2_le: "0 < x \<Longrightarrow> pow2 (floor_log2 x) \<le> x"
proof -
  assume x: "0 < x"
  obtain p q where pq: "quotient_of x = (p, q)" by (rule prod.exhaust)
  then have val: "x = of_int p / of_int q" and q: "0 < q"
    using quotient_of_div quotient_of_denom_pos by auto
  with x have p: "0 < p" by (simp add: zero_less_divide_iff)
  let ?a = "nat_log2 (nat p)" and ?b = "nat_log2 (nat q)"
  have "2 ^ ?a \<le> nat p" "nat q < 2 ^ Suc ?b"
    using nat_log2_bounds [of "nat p"] nat_log2_bounds [of "nat q"] p q by auto
  then have "(2 :: int) ^ ?a \<le> p" "q < 2 ^ Suc ?b"
    using p q by (auto simp: le_nat_iff nat_less_iff)
  then have "(2 :: rat) ^ ?a \<le> of_int p" "of_int q \<le> (2 :: rat) ^ Suc ?b"
    by (metis of_int_le_iff of_int_numeral of_int_power, metis less_imp_le of_int_le_iff of_int_numeral of_int_power)
  then have "2 ^ ?a / 2 ^ Suc ?b \<le> x"
    using p q unfolding val by (intro frac_le) auto
  then have "pow2 (int ?a - int ?b - 1) \<le> x"
    using pow2_diff [of ?a ?b] by (rule order_trans [rotated])
  then show ?thesis by (simp add: floor_log2_def pq Let_def)
qed

lemma pow2_divides: "e \<le> 0 \<Longrightarrow> \<exists>m. of_int n / pow2 e = of_int m"
proof -
  assume "e \<le> 0"
  then have "of_int n / pow2 e = of_int (n * 2 ^ nat (- e))" by (auto simp: pow2_def)
  then show ?thesis by blast
qed

lemma round_half_even_le: "x \<le> of_int m \<Longrightarrow> round_half_even x \<le> m"
proof -
  assume h: "x \<le> of_int m"
  show ?thesis
  proof (cases "x = of_int m")
    case True
    then show ?thesis by (simp add: round_half_even_def)
  next
    case False
    then have "\<lfloor>x\<rfloor> < m" using h by (simp add: floor_less_iff)
    then show ?thesis by (simp add: round_half_even_def Let_def)
  qed
qed

lemma round_half_even_ge: "of_int m \<le> x \<Longrightarrow> m \<le> round_half_even x"
proof -
  assume "of_int m \<le> x"
  then have "m \<le> \<lfloor>x\<rfloor>" by (simp add: le_floor_iff)
  then show ?thesis by (simp add: round_half_even_def Let_def)
qed

text \<open>Rounding does not cross an integer below \<open>2 ^ 52\<close>.\<close>

lemma f64_round_between:
  assumes "of_int m \<le> x" "x \<le> of_int n" "0 \<le> m" "n \<le> 2 ^ 52"
  shows "of_int m \<le> f64_round x" "f64_round x \<le> of_int n"
proof -
  have x: "0 \<le> x" using assms(1,3) by (meson of_int_0_le_iff order_trans)
  have "of_int m \<le> f64_round x \<and> f64_round x \<le> of_int n"
  proof (cases "x = 0")
    case True
    then show ?thesis using assms by (simp add: f64_round_def)
  next
    case False
    with x have pos: "0 < x" by simp
    have "x \<le> 2 ^ 52" using assms(2,4) by (metis of_int_le_iff of_int_numeral of_int_power order_trans)
    then have "pow2 (floor_log2 x) \<le> pow2 52"
      using floor_log2_le [OF pos] by (simp add: pow2_def)
    moreover have "pow2 52 < pow2 e" if "52 < e" for e
    proof -
      have "(2 :: rat) ^ 52 < 2 ^ nat e" using that by (intro power_strict_increasing) auto
      then show ?thesis using that by (simp add: pow2_def)
    qed
    ultimately have "floor_log2 x \<le> 52" by (meson not_less)
    then have e: "max (- 1074) (floor_log2 x - 52) \<le> 0" by simp
    define e where "e = max (- 1074) (floor_log2 x - 52)"
    obtain M N where MN: "of_int m / pow2 e = of_int M" "of_int n / pow2 e = of_int N"
      using pow2_divides e unfolding e_def by meson
    have "of_int M \<le> x / pow2 e" "x / pow2 e \<le> of_int N"
      using assms(1,2) by (simp_all add: divide_right_mono less_imp_le flip: MN)
    then have "M \<le> round_half_even (x / pow2 e)" "round_half_even (x / pow2 e) \<le> N"
      by (simp_all add: round_half_even_ge round_half_even_le)
    then have "of_int M * pow2 e \<le> of_int (round_half_even (x / pow2 e)) * pow2 e"
      "of_int (round_half_even (x / pow2 e)) * pow2 e \<le> of_int N * pow2 e"
      by (simp_all add: mult_right_mono)
    moreover have "of_int M * pow2 e = of_int m" "of_int N * pow2 e = of_int n"
      using pow2_pos [of e] by (simp_all add: less_imp_neq [THEN not_sym] flip: MN)
    moreover have "f64_round x = of_int (round_half_even (x / pow2 e)) * pow2 e"
      using pos by (simp add: f64_round_def e_def Let_def)
    ultimately show ?thesis by simp
  qed
  then show "of_int m \<le> f64_round x" "f64_round x \<le> of_int n" by simp_all
qed

section \<open>Negotiation\<close>

text \<open>The percentage path: the factor in ten-thousandths, the 128-bit product, the division.\<close>

definition discount_factor :: "rat \<Rightarrow> int" where
  "discount_factor pct = trunc_rat (f64_round (10000 - f64_round (pct * 100)))"

definition percent_off :: "i64 \<Rightarrow> rat \<Rightarrow> i64" where
  "percent_off original pct = wrap_i64 (trunc_div (original * discount_factor pct) 10000)"

definition negotiated_total :: "negotiate_params \<Rightarrow> i64 \<Rightarrow> i64 result" where
  "negotiated_total params original =
     (case gp_proposed_total params of
        Some pt \<Rightarrow>
          if amount_minor pt < 0 then
            Inl (InvalidRequest ''negotiate.proposed_total.amount_minor must be non-negative'')
          else Inr (amount_minor pt)
      | None \<Rightarrow> Inr (percent_off original (case gp_discount_pct params of Some p \<Rightarrow> p | None \<Rightarrow> 0)))"

definition negotiation_keys :: "(string, string) store \<Rightarrow> string list" where
  "negotiation_keys refs = filter (\<lambda>k. prefix ''negotiation_'' k) (map fst refs)"

definition history_key :: "(string, string) store \<Rightarrow> string" where
  "history_key refs = ''negotiation_'' @ pad_nat 3 (length (negotiation_keys refs))"

definition negotiation_entry ::
  "env \<Rightarrow> intent_input \<Rightarrow> negotiate_params \<Rightarrow> time \<Rightarrow> i64 \<Rightarrow> i64 \<Rightarrow> string \<Rightarrow> json" where
  "negotiation_entry E inp params now from_minor to_minor currency = JObj
     [(''from_minor'', JInt from_minor), (''to_minor'', JInt to_minor), (''currency'', JStr currency),
      (''discount_pct'', case gp_discount_pct params of Some p \<Rightarrow> JFloat p | None \<Rightarrow> JNull),
      (''message'', case gp_message params of Some m \<Rightarrow> JStr m | None \<Rightarrow> JNull),
      (''at'', JStr (ch_to_rfc3339 (e_chrono E) now)), (''agent_id'', JStr (in_agent_raw inp))]"

definition negotiated_txn ::
  "env \<Rightarrow> intent_input \<Rightarrow> negotiate_params \<Rightarrow> time \<Rightarrow> i64 \<Rightarrow> i64 \<Rightarrow> string \<Rightarrow> transaction \<Rightarrow> transaction" where
  "negotiated_txn E inp params now original new_total currency t =
     (let prior = money_amount_or original (to_total (txn_totals t));
          entry = negotiation_entry E inp params now prior new_total currency
      in t\<lparr>txn_totals := (txn_totals t)\<lparr>to_total := Some (money_new new_total currency)\<rparr>,
           txn_external_refs := st_put (history_key (txn_external_refs t)) (e_json_text E entry)
             (txn_external_refs t),
           txn_updated_at := now\<rparr>)"

definition pct_in_range :: "rat option \<Rightarrow> bool" where
  "pct_in_range p = (case p of None \<Rightarrow> True | Some pct \<Rightarrow> 0 \<le> pct \<and> pct \<le> 90)"

definition do_negotiate :: "env \<Rightarrow> intent_input \<Rightarrow> outcome handler" where
  "do_negotiate E inp =
     andthen (parsed (pa_negotiate (e_parse E) (en_params (in_envelope inp))) ''negotiate.params'') (\<lambda>params.
     andthen (guard (\<not> (gp_proposed_total params = None \<and> gp_discount_pct params = None))
       (InvalidRequest ''negotiate: either `proposed_total` or `discount_pct` is required'')) (\<lambda>_.
     andthen (guard (pct_in_range (gp_discount_pct params))
       (InvalidRequest (''negotiate.discount_pct must be in [0.0, 90.0], got ''
          @ e_f64_text E (case gp_discount_pct params of Some p \<Rightarrow> p | None \<Rightarrow> 0)))) (\<lambda>_.
     let tid = gp_transaction_id params in
     andthen (transaction_for_input tid inp) (\<lambda>txn.
     andthen (guard (txn_state txn = Quoted) (PreconditionFailed (''negotiate: transaction in state ''
         @ debug_transaction_state (txn_state txn)
         @ '' cannot be re-negotiated; only `quoted` is open to counter-offers''))) (\<lambda>_.
     let original = total_amount_minor (txn_totals txn) in
     andthen (of_result (negotiated_total params original)) (\<lambda>new_total.
     andthen (txn_update tid (negotiated_txn E inp params (e_now E 0) original new_total (txn_currency txn)))
       (\<lambda>updated.
     andthen (some_or updated (ResourceNotFound (''transaction '' @ tid))) (\<lambda>t.
       ret (txn_outcome t)))))))))"

section \<open>Receipt confirmation\<close>

definition confirmed_txn :: "intent_input \<Rightarrow> confirm_receipt_params \<Rightarrow> chrono \<Rightarrow> time \<Rightarrow> transaction \<Rightarrow> transaction" where
  "confirmed_txn inp params C now t =
     (let r1 = st_put ''receipt_confirmed_at'' (ch_to_rfc3339 C now) (txn_external_refs t);
          r2 = st_put ''receipt_confirmed_by'' (in_agent_raw inp) r1;
          r3 = (case cp_note params of Some note \<Rightarrow> st_put ''receipt_note'' note r2 | None \<Rightarrow> r2)
      in t\<lparr>txn_external_refs := r3, txn_updated_at := now\<rparr>)"

definition do_confirm_receipt :: "env \<Rightarrow> intent_input \<Rightarrow> outcome handler" where
  "do_confirm_receipt E inp =
     andthen (parsed (pa_confirm_receipt (e_parse E) (en_params (in_envelope inp))) ''confirm_receipt.params'')
       (\<lambda>params.
     let tid = cp_transaction_id params in
     andthen (transaction_for_input tid inp) (\<lambda>txn.
     andthen (guard (txn_state txn \<in> {Captured, Fulfilled, Completed})
       (PreconditionFailed (''confirm_receipt: transaction in state ''
         @ debug_transaction_state (txn_state txn)
         @ '' cannot be confirmed; payment must complete first''))) (\<lambda>_.
     andthen (guard (st_get (txn_external_refs txn) ''receipt_confirmed_at'' = None)
       (PreconditionFailed
         ''confirm_receipt: this transaction's receipt has already been confirmed'')) (\<lambda>_.
     andthen (txn_update tid (confirmed_txn inp params (e_chrono E) (e_now E 0))) (\<lambda>updated.
     andthen (some_or updated (ResourceNotFound (''transaction '' @ tid))) (\<lambda>t.
       ret (txn_outcome t)))))))"

section \<open>Refinement\<close>

lemma negotiated_txn_move: "txn_state t = Quoted \<Longrightarrow> txn_move t (negotiated_txn E inp params now o1 n1 c t)"
  by (simp add: negotiated_txn_def txn_move_def state_move_def Let_def)

lemma confirmed_txn_move: "txn_move t (confirmed_txn inp params C now t)"
  by (simp add: confirmed_txn_def txn_move_def state_move_def Let_def)

lemma negotiate_tenants [simp]:
  "txn_tenant_id (negotiated_txn E inp params now o1 n1 c t) = txn_tenant_id t"
  "txn_tenant_id (confirmed_txn inp cparams C now t) = txn_tenant_id t"
  by (simp_all add: negotiated_txn_def confirmed_txn_def Let_def)

lemma do_negotiate_refines: "refines E inp (do_negotiate E inp)"
  by (auto simp: refine_simps do_negotiate_def simp del: append_Cons split: sum.split option.split
      intro!: moves_txn negotiated_txn_move)

lemma do_confirm_receipt_refines: "refines E inp (do_confirm_receipt E inp)"
  by (auto simp: refine_simps do_confirm_receipt_def simp del: append_Cons split: sum.split option.split
      intro!: moves_txn confirmed_txn_move)

section \<open>What a counter-offer can do\<close>

lemma discount_factor_bounds:
  assumes "0 \<le> pct" "pct \<le> 90"
  shows "1000 \<le> discount_factor pct \<and> discount_factor pct \<le> 10000"
proof -
  have "0 \<le> f64_round (pct * 100)" "f64_round (pct * 100) \<le> 9000"
    using f64_round_between [of 0 "pct * 100" 9000] assms by simp_all
  then have "1000 \<le> f64_round (10000 - f64_round (pct * 100))"
    "f64_round (10000 - f64_round (pct * 100)) \<le> 10000"
    using f64_round_between [of 1000 "10000 - f64_round (pct * 100)" 10000] by simp_all
  then show ?thesis
    by (simp add: discount_factor_def trunc_rat_def le_floor_iff floor_le_iff)
qed

lemma percent_off_bounds:
  assumes "0 \<le> pct" "pct \<le> 90" "0 \<le> original" "original \<le> i64_max"
  shows "original div 10 \<le> percent_off original pct \<and> percent_off original pct \<le> original"
proof -
  let ?f = "discount_factor pct"
  have f: "1000 \<le> ?f" "?f \<le> 10000" using discount_factor_bounds assms(1,2) by blast+
  then have low: "original * 1000 \<le> original * ?f" and high: "original * ?f \<le> original * 10000"
    using assms(3) by (simp_all add: mult_left_mono)
  have "original div 10 = original * 1000 div 10000" by simp
  also have "\<dots> \<le> original * ?f div 10000" using low by (rule zdiv_mono1) simp
  finally have l: "original div 10 \<le> original * ?f div 10000" .
  have "original * ?f div 10000 \<le> original * 10000 div 10000" using high by (rule zdiv_mono1) simp
  then have h: "original * ?f div 10000 \<le> original" by simp
  have "0 \<le> original * ?f" using f assms(3) by simp
  moreover have "in_i64 (original * ?f div 10000)"
    using l h assms(3,4) f by (auto simp: in_i64_def i64_min_def)
  ultimately show ?thesis
    using l h by (simp add: percent_off_def trunc_div_nonneg wrap_i64_id)
qed

text \<open>The history is numbered from zero without gaps, so the next key is fresh.\<close>

definition history_ok :: "(string, string) store \<Rightarrow> bool" where
  "history_ok refs \<longleftrightarrow> st_ok refs \<and>
     set (negotiation_keys refs) = (\<lambda>i. ''negotiation_'' @ pad_nat 3 i) ` {..< length (negotiation_keys refs)}"

lemma history_key_fresh: "history_ok refs \<Longrightarrow> st_get refs (history_key refs) = None"
proof -
  assume ok: "history_ok refs"
  have "history_key refs \<notin> set (negotiation_keys refs)"
    using ok by (auto simp: history_ok_def history_key_def pad_nat_inject simp del: append_Cons)
  then have "history_key refs \<notin> set (map fst refs)"
    by (auto simp: negotiation_keys_def history_key_def simp del: append_Cons)
  then show ?thesis by (simp add: st_get_def map_of_eq_None_iff)
qed

lemma negotiation_keys_put:
  assumes "history_ok refs"
  shows "negotiation_keys (st_put (history_key refs) v refs) = negotiation_keys refs @ [history_key refs]"
    and "history_ok (st_put (history_key refs) v refs)"
proof -
  have "history_key refs \<notin> fst ` set refs"
    using history_key_fresh [OF assms] by (simp add: st_get_def map_of_eq_None_iff)
  then have "map fst (st_put (history_key refs) v refs) = map fst refs @ [history_key refs]"
    by (simp add: st_put_def update_keys)
  then show keys: "negotiation_keys (st_put (history_key refs) v refs) = negotiation_keys refs @ [history_key refs]"
    by (simp add: negotiation_keys_def history_key_def del: append_Cons)
  show "history_ok (st_put (history_key refs) v refs)"
    using assms unfolding history_ok_def keys
    by (simp add: lessThan_Suc history_key_def del: append_Cons)
qed

text \<open>The whole effect of a counter-offer that succeeds.\<close>

definition renegotiated :: "env \<Rightarrow> intent_input \<Rightarrow> negotiate_params \<Rightarrow> transaction \<Rightarrow> transaction \<Rightarrow> bool" where
  "renegotiated E inp p t t' \<longleftrightarrow> (\<exists>n v.
     t' = t\<lparr>txn_totals := (txn_totals t)\<lparr>to_total := Some (money_new n (txn_currency t))\<rparr>,
            txn_external_refs := st_put (history_key (txn_external_refs t)) v (txn_external_refs t),
            txn_updated_at := e_now E 0\<rparr> \<and>
     txn_state t = Quoted \<and> txn_tenant_id t = in_tenant_id inp \<and>
     negotiated_total p (total_amount_minor (txn_totals t)) = Inr n \<and> pct_in_range (gp_discount_pct p))"

lemma do_negotiate_effect:
  "ends (do_negotiate E inp) s
     (\<lambda>out s'. \<exists>p t. pa_negotiate (e_parse E) (en_params (in_envelope inp)) = Inr p \<and>
        st_get (ic_txns s) (gp_transaction_id p) = Some t \<and>
        renegotiated E inp p t (oc_transaction out) \<and>
        s' = s\<lparr>ic_txns := st_put (gp_transaction_id p) (oc_transaction out) (ic_txns s)\<rparr>)
     (\<lambda>e s'. s' = s \<and> e \<noteq> Panic)"
  by (auto simp: do_negotiate_def wp Let_def renegotiated_def negotiated_txn_def simp del: append_Cons
      split: sum.split option.split)

text \<open>C18 (functional). A counter-offer that succeeds changes one transaction only: the tenant's,
  still \<open>Quoted\<close>, with the same lines, tax, expiry and owner; its new total is the proposed
  one, or, for a percentage, lies between a tenth of the old total and the old total, whatever
  the rounding of the double-precision arithmetic; and no earlier offer is lost from the audit
  history, which stays numbered without gaps. A refused one changes nothing.\<close>

theorem negotiation_bounded_and_audited:
  assumes "do_negotiate E inp s = (r, s')"
  shows "case r of
      Inl e \<Rightarrow> s' = s \<and> e \<noteq> Panic
    | Inr out \<Rightarrow> \<exists>p t n entry. let t' = oc_transaction out; old = total_amount_minor (txn_totals t) in
        pa_negotiate (e_parse E) (en_params (in_envelope inp)) = Inr p \<and>
        st_get (ic_txns s) (gp_transaction_id p) = Some t \<and> txn_state t = Quoted \<and>
        txn_tenant_id t = in_tenant_id inp \<and>
        s' = s\<lparr>ic_txns := st_put (gp_transaction_id p) t' (ic_txns s)\<rparr> \<and>
        t' = t\<lparr>txn_totals := (txn_totals t)\<lparr>to_total := Some (money_new n (txn_currency t))\<rparr>,
               txn_external_refs := st_put (history_key (txn_external_refs t)) entry (txn_external_refs t),
               txn_updated_at := e_now E 0\<rparr> \<and>
        (case gp_proposed_total p of
           Some m \<Rightarrow> n = amount_minor m \<and> 0 \<le> n
         | None \<Rightarrow> 0 \<le> old \<and> old \<le> i64_max \<longrightarrow> old div 10 \<le> n \<and> n \<le> old) \<and>
        (history_ok (txn_external_refs t) \<longrightarrow> history_ok (txn_external_refs t') \<and>
           length (negotiation_keys (txn_external_refs t')) = Suc (length (negotiation_keys (txn_external_refs t))) \<and>
           (\<forall>k v. st_get (txn_external_refs t) k = Some v \<longrightarrow> st_get (txn_external_refs t') k = Some v))"
proof (cases r)
  case (Inl e)
  then show ?thesis using ends_Inl [OF do_negotiate_effect assms [unfolded Inl]] by simp
next
  case (Inr out)
  obtain p t n v where p: "pa_negotiate (e_parse E) (en_params (in_envelope inp)) = Inr p"
    and t: "st_get (ic_txns s) (gp_transaction_id p) = Some t" "txn_state t = Quoted"
      "txn_tenant_id t = in_tenant_id inp"
    and t': "oc_transaction out = t\<lparr>txn_totals := (txn_totals t)\<lparr>to_total := Some (money_new n (txn_currency t))\<rparr>,
            txn_external_refs := st_put (history_key (txn_external_refs t)) v (txn_external_refs t),
            txn_updated_at := e_now E 0\<rparr>"
    and n: "negotiated_total p (total_amount_minor (txn_totals t)) = Inr n" "pct_in_range (gp_discount_pct p)"
    and s': "s' = s\<lparr>ic_txns := st_put (gp_transaction_id p) (oc_transaction out) (ic_txns s)\<rparr>"
    using ends_Inr [OF do_negotiate_effect assms [unfolded Inr]] unfolding renegotiated_def by blast
  have "case gp_proposed_total p of
      Some m \<Rightarrow> n = amount_minor m \<and> 0 \<le> n
    | None \<Rightarrow> 0 \<le> total_amount_minor (txn_totals t) \<and> total_amount_minor (txn_totals t) \<le> i64_max \<longrightarrow>
        total_amount_minor (txn_totals t) div 10 \<le> n \<and> n \<le> total_amount_minor (txn_totals t)"
    using n by (auto simp: negotiated_total_def pct_in_range_def percent_off_bounds split: option.splits if_splits)
  moreover have "history_ok (txn_external_refs t) \<longrightarrow> history_ok (txn_external_refs (oc_transaction out)) \<and>
      length (negotiation_keys (txn_external_refs (oc_transaction out)))
        = Suc (length (negotiation_keys (txn_external_refs t))) \<and>
      (\<forall>k v. st_get (txn_external_refs t) k = Some v \<longrightarrow> st_get (txn_external_refs (oc_transaction out)) k = Some v)"
    using negotiation_keys_put history_key_fresh by (auto simp: t')
  ultimately show ?thesis
    using p t s' by (simp add: Inr Let_def t') blast
qed

lemma f64_round_int: "0 \<le> m \<Longrightarrow> m \<le> 2 ^ 52 \<Longrightarrow> f64_round (of_int m) = of_int m"
  using f64_round_between [of m "of_int m" m] by simp

lemma ten_percent_off_60: "percent_off 60 10 = 54"
proof -
  have "discount_factor 10 = 9000"
    using f64_round_int [of 1000] f64_round_int [of 9000] by (simp add: discount_factor_def trunc_rat_def)
  then show ?thesis
    by (simp add: percent_off_def trunc_div_nonneg wrap_i64_id in_i64_def i64_min_def i64_max_def)
qed

lemma demo_negotiates:
  "\<exists>out s'. do_negotiate demo_env (demo_input ''intent.negotiate'') demo_state = (Inr out, s')"
proof -
  have "ends (do_negotiate demo_env (demo_input ''intent.negotiate'')) demo_state (\<lambda>_ _. True) (\<lambda>_ _. False)"
    by (simp add: do_negotiate_def wp Let_def demo_env_def demo_parsers_def demo_input_def for_icp_def
        demo_tenant_def demo_state_def st_get_def demo_txn_def fresh_transaction_def pct_in_range_def
        negotiated_total_def)
  then show ?thesis by (auto simp: ends_def split: prod.splits sum.splits)
qed

theorem negotiation_bounded_and_audited_witness:
  "\<exists>out s' t'. do_negotiate demo_env (demo_input ''intent.negotiate'') demo_state = (Inr out, s') \<and>
     oc_transaction out = t' \<and> 6 \<le> total_amount_minor (txn_totals t') \<and>
     total_amount_minor (txn_totals t') \<le> 60 \<and> length (negotiation_keys (txn_external_refs t')) = 1"
proof -
  obtain out s' where run: "do_negotiate demo_env (demo_input ''intent.negotiate'') demo_state = (Inr out, s')"
    using demo_negotiates by blast
  have p: "pa_negotiate (e_parse demo_env) j =
      Inr \<lparr>gp_transaction_id = ''txn_1'', gp_proposed_total = None, gp_discount_pct = Some 10, gp_message = None\<rparr>" for j
    by (simp add: demo_env_def demo_parsers_def)
  have t: "st_get (ic_txns demo_state) ''txn_1'' = Some demo_txn"
    "total_amount_minor (txn_totals demo_txn) = 60" "txn_external_refs demo_txn = []"
    by (simp_all add: demo_state_def st_get_def demo_txn_def fresh_transaction_def total_amount_minor_def money_amount_or_def)
  have total: "total_amount_minor (T\<lparr>to_total := Some (money_new n c)\<rparr>) = n" for T :: totals and n c
    by (simp add: total_amount_minor_def money_amount_or_def)
  have empty: "history_ok []" "negotiation_keys [] = []"
    by (simp_all add: history_ok_def negotiation_keys_def)
  show ?thesis
    using negotiation_bounded_and_audited [OF run] run
    by (auto simp: Let_def p t empty i64_max_def total)
qed

text \<open>A receipt is confirmed at most once: a confirmation that succeeds found a
  captured, fulfilled or completed transaction of the tenant that was not confirmed before,
  leaves its state and totals as they were, and any later confirmation of the same
  transaction, by whatever caller and at whatever time, is refused and changes nothing.\<close>

theorem receipt_confirmed_once:
  assumes "do_confirm_receipt E inp s = (Inr out, s')" and "icp_ok s"
    and "pa_confirm_receipt (e_parse E') (en_params (in_envelope inp')) = Inr p'"
    and "cp_transaction_id p' = txn_id (oc_transaction out)"
  shows "(\<exists>t. st_get (ic_txns s) (txn_id t) = Some t \<and> txn_tenant_id t = in_tenant_id inp \<and>
      txn_state t \<in> {Captured, Fulfilled, Completed} \<and>
      st_get (txn_external_refs t) ''receipt_confirmed_at'' = None \<and>
      (\<exists>refs. oc_transaction out = t\<lparr>txn_external_refs := refs, txn_updated_at := e_now E 0\<rparr>)) \<and>
    (\<exists>e. do_confirm_receipt E' inp' s' = (Inl (Fail e), s'))"
proof -
  have "ends (do_confirm_receipt E inp) s
      (\<lambda>out s'. \<exists>p t. st_get (ic_txns s) (cp_transaction_id p) = Some t \<and>
         txn_tenant_id t = in_tenant_id inp \<and> txn_state t \<in> {Captured, Fulfilled, Completed} \<and>
         st_get (txn_external_refs t) ''receipt_confirmed_at'' = None \<and>
         oc_transaction out = confirmed_txn inp p (e_chrono E) (e_now E 0) t \<and>
         s' = s\<lparr>ic_txns := st_put (cp_transaction_id p) (oc_transaction out) (ic_txns s)\<rparr>)
      (\<lambda>_ _. True)"
    by (auto simp: do_confirm_receipt_def wp Let_def simp del: append_Cons split: sum.split option.split)
  from ends_Inr [OF this assms(1)]
  obtain p :: confirm_receipt_params and t where t: "st_get (ic_txns s) (cp_transaction_id p) = Some t"
      "txn_tenant_id t = in_tenant_id inp" "txn_state t \<in> {Captured, Fulfilled, Completed}"
      "st_get (txn_external_refs t) ''receipt_confirmed_at'' = None"
    and out: "oc_transaction out = confirmed_txn inp p (e_chrono E) (e_now E 0) t"
    and s': "s' = s\<lparr>ic_txns := st_put (cp_transaction_id p) (oc_transaction out) (ic_txns s)\<rparr>" by blast
  have key: "txn_id t = cp_transaction_id p" using icp_ok_keys(1) [OF assms(2) t(1)] .
  obtain refs stamped where shape: "oc_transaction out = t\<lparr>txn_external_refs := refs, txn_updated_at := e_now E 0\<rparr>"
    and confirmed: "st_get refs ''receipt_confirmed_at'' = Some stamped"
    by (rule that [of "txn_external_refs (oc_transaction out)" "ch_to_rfc3339 (e_chrono E) (e_now E 0)"])
      (auto simp: out confirmed_txn_def Let_def split: option.split)
  then have fin: "st_get (ic_txns s') (cp_transaction_id p') = Some (oc_transaction out)"
    and stamp: "st_get (txn_external_refs (oc_transaction out)) ''receipt_confirmed_at'' = Some stamped"
    using assms(4) key s' by simp_all
  have "ends (do_confirm_receipt E' inp') s' (\<lambda>_ _. False) (\<lambda>e s''. s'' = s' \<and> (\<exists>x. e = Fail x))"
    by (simp add: do_confirm_receipt_def wp Let_def assms(3) fin stamp del: append_Cons)
  then have "\<exists>e. do_confirm_receipt E' inp' s' = (Inl (Fail e), s')"
    by (auto simp: ends_def split: prod.splits sum.splits)
  then show ?thesis using t shape key by metis
qed

text \<open>A paid transaction for evaluation.\<close>

definition paid_state :: icp where
  "paid_state = demo_state\<lparr>ic_txns := [(''txn_1'', demo_txn\<lparr>txn_state := Completed\<rparr>)]\<rparr>"

lemma paid_state_ok: "icp_ok paid_state"
  by (simp add: icp_ok_def paid_state_def demo_state_def st_ok_def keyed_by_def st_get_def demo_txn_def)

lemma demo_confirms:
  "\<exists>out s'. do_confirm_receipt demo_env (demo_input ''intent.confirm_receipt'') paid_state = (Inr out, s') \<and>
     txn_id (oc_transaction out) = ''txn_1''"
proof -
  have "ends (do_confirm_receipt demo_env (demo_input ''intent.confirm_receipt'')) paid_state
      (\<lambda>out _. txn_id (oc_transaction out) = ''txn_1'') (\<lambda>_ _. False)"
    by (simp add: do_confirm_receipt_def wp Let_def demo_env_def demo_parsers_def demo_input_def for_icp_def
        demo_tenant_def paid_state_def st_get_def demo_txn_def fresh_transaction_def confirmed_txn_def txn_outcome_def)
  then show ?thesis by (auto simp: ends_def split: prod.splits sum.splits)
qed

theorem receipt_confirmed_once_witness:
  "\<exists>out s' e. do_confirm_receipt demo_env (demo_input ''intent.confirm_receipt'') paid_state = (Inr out, s') \<and>
     do_confirm_receipt demo_env (demo_input ''intent.confirm_receipt'') s' = (Inl (Fail e), s')"
proof -
  obtain out s' where run:
    "do_confirm_receipt demo_env (demo_input ''intent.confirm_receipt'') paid_state = (Inr out, s')"
    and "txn_id (oc_transaction out) = ''txn_1''" using demo_confirms by blast
  moreover have "pa_confirm_receipt (e_parse demo_env) j = Inr \<lparr>cp_transaction_id = ''txn_1'', cp_note = None\<rparr>" for j
    by (simp add: demo_env_def demo_parsers_def)
  ultimately show ?thesis
    using receipt_confirmed_once [OF run paid_state_ok, of demo_env "demo_input ''intent.confirm_receipt''"
        "\<lparr>cp_transaction_id = ''txn_1'', cp_note = None\<rparr>"] by auto
qed

end
