(* ===== verification/Subscriptions.thy ===== *)
theory Subscriptions
  imports Checkout
begin

text \<open>
  The subscription intents \<open>subscribe\<close>, \<open>renew\<close>, \<open>pause\<close> and \<open>cancel_subscription\<close>
  (\<open>src/service/subscriptions.rs\<close>) and the charge they share with the scheduler. The clock is
  read by the handler, by the reservation and by the charge, in this order (\<open>e_now\<close> 0, 1, 2);
  \<open>subscribe\<close> draws the identifier of the subscription first, then that of its transaction.
\<close>

section \<open>Charges\<close>

definition charge_txn ::
  "time \<Rightarrow> string \<Rightarrow> intent_input \<Rightarrow> buyer \<Rightarrow> address option \<Rightarrow> string \<Rightarrow> line_item list \<Rightarrow> totals \<Rightarrow> transaction" where
  "charge_txn now uuid inp buyer ship_to currency line_items tots =
     \<lparr>txn_id = ''txn_'' @ uuid, txn_state = Completed, txn_agent_id = in_agent_raw inp,
      txn_tenant_id = in_tenant_id inp, txn_mandate_jti = en_mandate_jti (in_envelope inp),
      txn_currency = currency, txn_jurisdiction = cx_jurisdiction (en_context (in_envelope inp)),
      txn_buyer = buyer, txn_ship_to = ship_to, txn_bill_to = None, txn_line_items = line_items,
      txn_totals = tots, txn_order_id = None, txn_quote_expires_at = None, txn_created_at = now,
      txn_updated_at = now, txn_external_refs = []\<rparr>"

definition run_subscription_charge ::
  "env \<Rightarrow> time \<Rightarrow> string \<Rightarrow> intent_input \<Rightarrow> buyer \<Rightarrow> address option \<Rightarrow> request_item list \<Rightarrow> string
    \<Rightarrow> (transaction \<times> order_summary option) handler" where
  "run_subscription_charge E now uuid inp buyer ship_to items currency =
     andthen (of_result (price_request_items items currency ''subscription.items'')) (\<lambda>(line_items, tots).
     let txn0 = charge_txn now uuid inp buyer ship_to currency line_items tots in
     andthen (of_exec (persist_order_for_transaction E txn0)) (\<lambda>order_summary.
     let txn = txn0\<lparr>txn_order_id := map_option os_id order_summary\<rparr> in
     andthen (txn_insert txn) (\<lambda>_. ret (txn, order_summary))))"

definition subscription_pseudo_txn ::
  "time \<Rightarrow> string \<Rightarrow> intent_input \<Rightarrow> subscription \<Rightarrow> transaction_state \<Rightarrow> transaction" where
  "subscription_pseudo_txn now uuid inp sub st =
     \<lparr>txn_id = ''txn_'' @ uuid, txn_state = st, txn_agent_id = in_agent_raw inp,
      txn_tenant_id = in_tenant_id inp, txn_mandate_jti = sub_mandate_jti sub,
      txn_currency = sub_currency sub, txn_jurisdiction = cx_jurisdiction (en_context (in_envelope inp)),
      txn_buyer = sub_buyer sub, txn_ship_to = sub_ship_to sub, txn_bill_to = None, txn_line_items = [],
      txn_totals = totals_default, txn_order_id = None, txn_quote_expires_at = None,
      txn_created_at = now, txn_updated_at = now,
      txn_external_refs = st_put ''subscription_id'' (sub_id sub) []\<rparr>"

section \<open>Subscribe\<close>

definition max_trial_days :: nat where
  "max_trial_days = 366"

definition mandate_jti_of :: "mandate_evaluation option \<Rightarrow> string option" where
  "mandate_jti_of mandate = map_option (\<lambda>m. md_jti (ev_payload m)) mandate"

definition new_subscription ::
  "env \<Rightarrow> intent_input \<Rightarrow> mandate_evaluation option \<Rightarrow> subscribe_params \<Rightarrow> string \<Rightarrow> subscription_status
    \<Rightarrow> time \<Rightarrow> u32 \<Rightarrow> string option \<Rightarrow> time option \<Rightarrow> subscription" where
  "new_subscription E inp mandate params currency status until charges last_txn trial_end =
     \<lparr>sub_id = ''sub_'' @ e_uuid E 0, sub_status = status, sub_agent_id = in_agent_raw inp,
      sub_tenant_id = in_tenant_id inp, sub_mandate_jti = mandate_jti_of mandate,
      sub_buyer = (case sp_buyer params of Some b \<Rightarrow> b | None \<Rightarrow> buyer_default),
      sub_ship_to = sp_ship_to params, sub_items = sp_items params, sub_currency = currency,
      sub_cadence = sp_cadence params, sub_current_period_start = e_now E 0,
      sub_current_period_end = until, sub_next_charge_at = until, sub_charges_completed = charges,
      sub_last_transaction_id = last_txn, sub_payment_instrument = Some (sp_payment params),
      sub_created_at = e_now E 0, sub_updated_at = e_now E 0, sub_canceled_at = None,
      sub_paused_at = None, sub_failed_renewal_attempts = 0, sub_trial_end = trial_end\<rparr>"

definition subscribe_trial ::
  "env \<Rightarrow> intent_input \<Rightarrow> mandate_evaluation option \<Rightarrow> subscribe_params \<Rightarrow> string \<Rightarrow> line_item list \<Rightarrow> totals
    \<Rightarrow> u32 \<Rightarrow> outcome handler" where
  "subscribe_trial E inp mandate params currency line_items tots trial_days =
     andthen (guard (unat trial_days \<le> max_trial_days)
       (InvalidRequest ''subscribe.params.trial_days must be between 1 and 366'')) (\<lambda>_.
     let trial_end = e_now E 0 + days (int (unat trial_days));
         sub = new_subscription E inp mandate params currency Trialing trial_end 0 None (Some trial_end) in
     andthen (sub_insert sub) (\<lambda>_.
     let txn = (subscription_pseudo_txn (e_now E 2) (e_uuid E 1) inp sub Authorized)
           \<lparr>txn_line_items := line_items, txn_totals := tots\<rparr> in
     andthen (txn_insert txn) (\<lambda>_. ret ((txn_outcome txn)\<lparr>oc_subscription := Some sub\<rparr>))))"

definition subscribe_now ::
  "env \<Rightarrow> intent_input \<Rightarrow> mandate_evaluation option \<Rightarrow> subscribe_params \<Rightarrow> string \<Rightarrow> outcome handler" where
  "subscribe_now E inp mandate params currency =
     (let next_end = period_advance (ch_add_months (e_chrono E)) (e_now E 0) (sp_cadence params) in
     andthen (run_subscription_charge E (e_now E 2) (e_uuid E 1) inp
         (case sp_buyer params of Some b \<Rightarrow> b | None \<Rightarrow> buyer_default) (sp_ship_to params)
         (sp_items params) currency) (\<lambda>(txn, order_summary).
     let sub = new_subscription E inp mandate params currency Active next_end 1 (Some (txn_id txn)) None in
     andthen (sub_insert sub) (\<lambda>_.
       ret ((txn_outcome txn)\<lparr>oc_order := order_summary, oc_subscription := Some sub\<rparr>))))"

definition do_subscribe :: "env \<Rightarrow> intent_input \<Rightarrow> mandate_evaluation option \<Rightarrow> outcome handler" where
  "do_subscribe E inp mandate =
     andthen (parsed (pa_subscribe (e_parse E) (en_params (in_envelope inp))) ''subscribe.params'') (\<lambda>params.
     andthen (guard (sp_items params \<noteq> []) (InvalidRequest ''subscribe.params.items must be non-empty'')) (\<lambda>_.
     andthen (of_result (validate_payment_instrument (sp_payment params)
         (cf_payment_execution_mode (e_cfg E)))) (\<lambda>_.
     let currency = context_currency inp in
     andthen (of_result (price_request_items (sp_items params) currency ''subscribe.params.items''))
       (\<lambda>(line_items, tots).
     andthen (reserve_mandate_spend E (e_now E 1) mandate (in_tenant_id inp)
         (total_amount_minor tots) currency) (\<lambda>_.
     case sp_trial_days params of
       Some d \<Rightarrow> if 0 < d then subscribe_trial E inp mandate params currency line_items tots d
                 else subscribe_now E inp mandate params currency
     | None \<Rightarrow> subscribe_now E inp mandate params currency)))))"

section \<open>Renew\<close>

definition renewed_sub ::
  "env \<Rightarrow> mandate_evaluation option \<Rightarrow> renew_params \<Rightarrow> subscription \<Rightarrow> string \<Rightarrow> subscription \<Rightarrow> subscription" where
  "renewed_sub E mandate params sub charge_id x =
     (let start = sub_current_period_end sub;
          until = period_advance (ch_add_months (e_chrono E)) start (sub_cadence sub);
          x1 = x\<lparr>sub_current_period_start := start, sub_current_period_end := until,
                 sub_next_charge_at := until, sub_charges_completed := sat_inc_u32 (sub_charges_completed x),
                 sub_last_transaction_id := Some charge_id, sub_status := Active, sub_trial_end := None,
                 sub_failed_renewal_attempts := 0, sub_payment_instrument := Some (np_payment params),
                 sub_updated_at := e_now E 0\<rparr>
      in if mandate \<noteq> None then x1\<lparr>sub_mandate_jti := mandate_jti_of mandate\<rparr> else x1)"

text \<open>The charge and the advance of the period, once the renewal is authorized.\<close>

definition renew_charge ::
  "env \<Rightarrow> intent_input \<Rightarrow> mandate_evaluation option \<Rightarrow> renew_params \<Rightarrow> subscription \<Rightarrow> outcome handler" where
  "renew_charge E inp mandate params sub =
     andthen (run_subscription_charge E (e_now E 2) (e_uuid E 0) inp (sub_buyer sub) (sub_ship_to sub)
         (sub_items sub) (sub_currency sub)) (\<lambda>(txn, order_summary).
     andthen (sub_update (np_subscription_id params) (renewed_sub E mandate params sub (txn_id txn))) (\<lambda>r.
     andthen (expect_some r) (\<lambda>updated.
       ret ((txn_outcome txn)\<lparr>oc_order := order_summary, oc_subscription := Some updated\<rparr>))))"

definition do_renew :: "env \<Rightarrow> intent_input \<Rightarrow> mandate_evaluation option \<Rightarrow> outcome handler" where
  "do_renew E inp mandate =
     andthen (parsed (pa_renew (e_parse E) (en_params (in_envelope inp))) ''renew.params'') (\<lambda>params.
     andthen (of_result (validate_payment_instrument (np_payment params)
         (cf_payment_execution_mode (e_cfg E)))) (\<lambda>_.
     let sid = np_subscription_id params in
     andthen (subscription_for_input sid inp) (\<lambda>sub.
     andthen (guard (sub_status sub \<noteq> SubCanceled)
       (PreconditionFailed ''subscription is canceled and cannot be renewed'')) (\<lambda>_.
     andthen (guard (sub_status sub \<noteq> Paused)
       (PreconditionFailed ''subscription is paused; resume before renewing'')) (\<lambda>_.
     andthen (of_result (price_request_items (sub_items sub) (sub_currency sub) ''subscription.items''))
       (\<lambda>(_, tots).
     andthen (reserve_mandate_spend E (e_now E 1) mandate (in_tenant_id inp)
         (total_amount_minor tots) (sub_currency sub)) (\<lambda>_.
     renew_charge E inp mandate params sub)))))))"

section \<open>Pause and cancel\<close>

definition do_pause :: "env \<Rightarrow> intent_input \<Rightarrow> outcome handler" where
  "do_pause E inp =
     andthen (parsed (pa_subscription_ref (e_parse E) (en_params (in_envelope inp))) ''pause.params'') (\<lambda>params.
     let sid = sr_subscription_id params in
     andthen (subscription_for_input sid inp) (\<lambda>sub.
     andthen (guard (\<not> subscription_is_terminal (sub_status sub))
       (PreconditionFailed (''cannot pause subscription in state ''
         @ debug_subscription_status (sub_status sub)))) (\<lambda>_.
     let now = e_now E 0 in
     andthen (sub_update sid (\<lambda>x. x\<lparr>sub_status := Paused, sub_paused_at := Some now, sub_updated_at := now\<rparr>)) (\<lambda>r.
     andthen (expect_some r) (\<lambda>updated.
     let txn = subscription_pseudo_txn (e_now E 1) (e_uuid E 0) inp updated Canceled in
     andthen (txn_insert txn) (\<lambda>_. ret ((txn_outcome txn)\<lparr>oc_subscription := Some updated\<rparr>)))))))"

definition do_cancel_subscription :: "env \<Rightarrow> intent_input \<Rightarrow> outcome handler" where
  "do_cancel_subscription E inp =
     andthen (parsed (pa_subscription_ref (e_parse E) (en_params (in_envelope inp)))
       ''cancel_subscription.params'') (\<lambda>params.
     let sid = sr_subscription_id params in
     andthen (subscription_for_input sid inp) (\<lambda>sub.
     andthen (guard (sub_status sub \<noteq> SubCanceled)
       (PreconditionFailed ''subscription already canceled'')) (\<lambda>_.
     let now = e_now E 0 in
     andthen (sub_update sid (\<lambda>x. x\<lparr>sub_status := SubCanceled, sub_canceled_at := Some now, sub_updated_at := now\<rparr>)) (\<lambda>r.
     andthen (expect_some r) (\<lambda>updated.
     let txn = subscription_pseudo_txn (e_now E 1) (e_uuid E 0) inp updated Canceled in
     andthen (txn_insert txn) (\<lambda>_. ret ((txn_outcome txn)\<lparr>oc_subscription := Some updated\<rparr>)))))))"

section \<open>Refinement\<close>

text \<open>A charge opens one completed transaction of the tenant, or fails and changes nothing.\<close>

lemma charge_txn_simps [simp]:
  "txn_id (charge_txn now u inp b sh c ls t) = ''txn_'' @ u"
  "txn_tenant_id (charge_txn now u inp b sh c ls t) = in_tenant_id inp"
  "txn_state (charge_txn now u inp b sh c ls t) = Completed"
  "txn_totals (charge_txn now u inp b sh c ls t) = t"
  by (simp_all add: charge_txn_def)

lemma pseudo_txn_simps [simp]:
  "txn_id (subscription_pseudo_txn now u inp x st) = ''txn_'' @ u"
  "txn_tenant_id (subscription_pseudo_txn now u inp x st) = in_tenant_id inp"
  "txn_state (subscription_pseudo_txn now u inp x st) = st"
  by (simp_all add: subscription_pseudo_txn_def)

lemma ends_charge [wp]:
  "ends (run_subscription_charge E now u inp b sh items c) s Q F =
     (case price_request_items items c ''subscription.items'' of
        Inl e \<Rightarrow> F (Fail e) s
      | Inr (ls, t) \<Rightarrow>
          (case persist_order_for_transaction E (charge_txn now u inp b sh c ls t) of
             Inl e \<Rightarrow> F e s
           | Inr order \<Rightarrow>
               let txn = (charge_txn now u inp b sh c ls t)\<lparr>txn_order_id := map_option os_id order\<rparr>
               in Q (txn, order) (s\<lparr>ic_txns := st_put (''txn_'' @ u) txn (ic_txns s)\<rparr>)))"
  by (simp add: run_subscription_charge_def wp Let_def del: append_Cons split: sum.split prod.split)

lemma new_subscription_simps [simp]:
  "sub_id (new_subscription E inp m p c st until n t te) = ''sub_'' @ e_uuid E 0"
  "sub_tenant_id (new_subscription E inp m p c st until n t te) = in_tenant_id inp"
  "sub_status (new_subscription E inp m p c st until n t te) = st"
  by (simp_all add: new_subscription_def)

lemma renewed_sub_simps [simp]:
  "sub_id (renewed_sub E m p x0 t x) = sub_id x" "sub_tenant_id (renewed_sub E m p x0 t x) = sub_tenant_id x"
  by (simp_all add: renewed_sub_def Let_def)

lemma renewed_sub_move:
  "sub_status x \<noteq> SubCanceled \<Longrightarrow> sub_status x \<noteq> Paused \<Longrightarrow> sub_move x (renewed_sub E m p x t x)"
  by (simp add: sub_move_def renewed_sub_def Let_def)

lemma pause_move:
  "sub_status x \<noteq> SubCanceled \<Longrightarrow>
   sub_move x (x\<lparr>sub_status := Paused, sub_paused_at := stamp, sub_updated_at := now\<rparr>)"
  by (simp add: sub_move_def)

lemma cancel_move:
  "sub_status x \<noteq> SubCanceled \<Longrightarrow>
   sub_move x (x\<lparr>sub_status := SubCanceled, sub_canceled_at := Some stamp, sub_updated_at := now\<rparr>)"
  by (simp add: sub_move_def)

lemmas subscription_steps = opens_txn opens_sub moves_sub renewed_sub_move pause_move cancel_move

lemma do_pause_refines: "refines E inp (do_pause E inp)"
  by (auto simp: refine_simps do_pause_def subscription_is_terminal_def simp del: append_Cons
      split: sum.split option.split intro!: subscription_steps)

lemma do_cancel_subscription_refines: "refines E inp (do_cancel_subscription E inp)"
  by (auto simp: refine_simps do_cancel_subscription_def simp del: append_Cons
      split: sum.split option.split intro!: subscription_steps)

lemma do_renew_refines: "refines E inp (do_renew E inp mandate)"
proof -
  have "ends (do_renew E inp mandate) s
     (\<lambda>out s'. tenant_steps (in_tenant_id inp) (new_ids E inp) s s' \<and>
        txn_tenant_id (oc_transaction out) = in_tenant_id inp)
     (\<lambda>e s'. tenant_steps (in_tenant_id inp) (new_ids E inp) s s')" for s
    unfolding do_renew_def ends_andthen Let_def ends_options ends_lookups ends_basic
    by (auto simp: renew_charge_def ends_charge ends_andthen ends_updates ends_options ends_basic Let_def
        simp del: append_Cons split: sum.split option.split
        intro!: ends_reserve_refines subscription_steps)
  then show ?thesis by (simp add: refines_def)
qed

lemma subscribe_paths_refine:
  assumes "tenant_steps (in_tenant_id inp) (new_ids E inp) s s'"
    and "\<And>out s''. tenant_steps (in_tenant_id inp) (new_ids E inp) s s'' \<Longrightarrow>
       txn_tenant_id (oc_transaction out) = in_tenant_id inp \<Longrightarrow> Q out s''"
    and "\<And>e s''. tenant_steps (in_tenant_id inp) (new_ids E inp) s s'' \<Longrightarrow> F e s''"
  shows "ends (subscribe_now E inp mandate params c) s' Q F"
    and "ends (subscribe_trial E inp mandate params c ls t d) s' Q F"
  by (auto simp: subscribe_now_def subscribe_trial_def wp Let_def assms(1) simp del: append_Cons
      split: sum.split prod.split intro!: assms(2,3) opens_txn opens_sub)

lemma do_subscribe_refines: "refines E inp (do_subscribe E inp mandate)"
proof -
  have "ends (do_subscribe E inp mandate) s
     (\<lambda>out s'. tenant_steps (in_tenant_id inp) (new_ids E inp) s s' \<and>
        txn_tenant_id (oc_transaction out) = in_tenant_id inp)
     (\<lambda>e s'. tenant_steps (in_tenant_id inp) (new_ids E inp) s s')" for s
    unfolding do_subscribe_def ends_andthen Let_def ends_options ends_lookups ends_basic
    by (auto simp: ends_andthen simp del: append_Cons
        split: sum.split option.split
        intro!: ends_reserve_refines subscribe_paths_refine)
  then show ?thesis by (simp add: refines_def)
qed

section \<open>What a subscription charges\<close>

text \<open>Enrolment: one subscription and one transaction are stored, and the mandate is charged with
  the priced basket.\<close>

definition enrolled ::
  "env \<Rightarrow> intent_input \<Rightarrow> subscribe_params \<Rightarrow> totals \<Rightarrow> ledger \<Rightarrow> icp \<Rightarrow> outcome \<Rightarrow> icp \<Rightarrow> bool" where
  "enrolled E inp p t l s out s' \<longleftrightarrow>
     (case oc_subscription out of None \<Rightarrow> False | Some sub \<Rightarrow> let txn = oc_transaction out in
        s' = s\<lparr>ic_ledger := l, ic_subs := st_put (sub_id sub) sub (ic_subs s),
               ic_txns := st_put (txn_id txn) txn (ic_txns s)\<rparr> \<and>
        sub_tenant_id sub = in_tenant_id inp \<and> txn_tenant_id txn = in_tenant_id inp \<and>
        txn_totals txn = t \<and> sub_items sub = sp_items p \<and> sub_cadence sub = sp_cadence p \<and>
        sub_next_charge_at sub = sub_current_period_end sub \<and>
        (if \<exists>d. sp_trial_days p = Some d \<and> 0 < d then
           txn_state txn = Authorized \<and> sub_status sub = Trialing \<and> sub_charges_completed sub = 0 \<and>
           sub_last_transaction_id sub = None \<and> sub_trial_end sub = Some (sub_next_charge_at sub) \<and>
           unat (the (sp_trial_days p)) \<le> max_trial_days \<and>
           sub_next_charge_at sub = e_now E 0 + days (int (unat (the (sp_trial_days p))))
         else
           txn_state txn = Completed \<and> sub_status sub = Active \<and> sub_charges_completed sub = 1 \<and>
           sub_last_transaction_id sub = Some (txn_id txn) \<and> sub_trial_end sub = None \<and>
           sub_next_charge_at sub = period_advance (ch_add_months (e_chrono E)) (e_now E 0) (sp_cadence p)))"

text \<open>The label of the basket only shows in error messages.\<close>

lemma price_label:
  "price_request_items items c p = Inr r \<Longrightarrow> price_request_items items c q = Inr r' \<Longrightarrow> r' = r"
  by (auto simp: price_request_items_eq Let_def split: if_splits)

lemma subscribe_now_effect:
  assumes "price_request_items (sp_items p) c q = Inr (ls, t)"
    and "\<not> (\<exists>d. sp_trial_days p = Some d \<and> 0 < d)"
  shows "ends (subscribe_now E inp mandate p c) (s\<lparr>ic_ledger := l\<rparr>) (enrolled E inp p t l s) (\<lambda>_ s'. aggregates_kept s s')"
proof -
  have t: "t' = t" if "price_request_items (sp_items p) c ''subscription.items'' = Inr (ls', t')" for ls' t'
    using price_label [OF assms(1) that] by simp
  show ?thesis
    by (auto simp: subscribe_now_def wp Let_def enrolled_def aggregates_kept_def new_subscription_def txn_outcome_def assms(2)
        simp del: append_Cons not_ex not_Some_eq split: sum.split prod.split dest: t)
qed

lemma subscribe_trial_effect:
  assumes "sp_trial_days p = Some d" "0 < d"
  shows "ends (subscribe_trial E inp mandate p c ls t d) (s\<lparr>ic_ledger := l\<rparr>) (enrolled E inp p t l s) (\<lambda>_ s'. aggregates_kept s s')"
  using assms
  by (simp add: subscribe_trial_def aggregates_kept_def wp Let_def enrolled_def new_subscription_def txn_outcome_def
      subscription_pseudo_txn_def del: append_Cons)

lemma do_subscribe_effect:
  "ends (do_subscribe E inp mandate) s
     (\<lambda>out s'. \<exists>p ls t l. pa_subscribe (e_parse E) (en_params (in_envelope inp)) = Inr p \<and>
        price_request_items (sp_items p) (context_currency inp) ''subscribe.params.items'' = Inr (ls, t) \<and>
        charged E (e_now E 1) mandate (in_tenant_id inp) (total_amount_minor t) (context_currency inp)
          (ic_ledger s) l \<and>
        enrolled E inp p t l s out s')
     (\<lambda>_ s'. aggregates_kept s s')"
  unfolding do_subscribe_def ends_andthen Let_def ends_options ends_lookups ends_basic
  by (auto simp: ends_andthen aggregates_kept_def simp del: append_Cons split: sum.split option.split
      intro!: ends_reserve_charged ends_mono [OF subscribe_now_effect] ends_mono [OF subscribe_trial_effect])

text \<open>Renewal.\<close>

definition renewed ::
  "env \<Rightarrow> intent_input \<Rightarrow> renew_params \<Rightarrow> totals \<Rightarrow> ledger \<Rightarrow> subscription \<Rightarrow> icp \<Rightarrow> outcome \<Rightarrow> icp \<Rightarrow> bool" where
  "renewed E inp p t l sub s out s' \<longleftrightarrow>
     (case oc_subscription out of None \<Rightarrow> False | Some sub' \<Rightarrow> let txn = oc_transaction out in
        s' = s\<lparr>ic_ledger := l, ic_subs := st_put (np_subscription_id p) sub' (ic_subs s),
               ic_txns := st_put (txn_id txn) txn (ic_txns s)\<rparr> \<and>
        txn_state txn = Completed \<and> txn_totals txn = t \<and> txn_tenant_id txn = in_tenant_id inp \<and>
        sub_status sub' = Active \<and> sub_id sub' = sub_id sub \<and> sub_items sub' = sub_items sub \<and>
        sub_current_period_start sub' = sub_current_period_end sub \<and>
        sub_current_period_end sub' =
          period_advance (ch_add_months (e_chrono E)) (sub_current_period_end sub) (sub_cadence sub) \<and>
        sub_next_charge_at sub' = sub_current_period_end sub' \<and>
        sub_charges_completed sub' = sat_inc_u32 (sub_charges_completed sub) \<and>
        sub_last_transaction_id sub' = Some (txn_id txn) \<and> sub_failed_renewal_attempts sub' = 0)"

lemma do_renew_effect:
  "ends (do_renew E inp mandate) s
     (\<lambda>out s'. \<exists>p sub ls t l. pa_renew (e_parse E) (en_params (in_envelope inp)) = Inr p \<and>
        st_get (ic_subs s) (np_subscription_id p) = Some sub \<and> sub_tenant_id sub = in_tenant_id inp \<and>
        sub_status sub \<notin> {SubCanceled, Paused} \<and>
        price_request_items (sub_items sub) (sub_currency sub) ''subscription.items'' = Inr (ls, t) \<and>
        charged E (e_now E 1) mandate (in_tenant_id inp) (total_amount_minor t) (sub_currency sub)
          (ic_ledger s) l \<and>
        renewed E inp p t l sub s out s')
     (\<lambda>_ s'. aggregates_kept s s')"
proof -
  have step: "ends (renew_charge E inp mandate p sub) (s\<lparr>ic_ledger := l\<rparr>)
      (renewed E inp p t l sub s) (\<lambda>_ s'. aggregates_kept s s')"
    if "st_get (ic_subs s) (np_subscription_id p) = Some sub"
      "price_request_items (sub_items sub) (sub_currency sub) ''subscription.items'' = Inr (ls, t)" for p sub ls t l
    using that
    by (auto simp: renew_charge_def wp Let_def renewed_def renewed_sub_def txn_outcome_def aggregates_kept_def
        simp del: append_Cons split: sum.split)
  show ?thesis
    unfolding do_renew_def ends_andthen Let_def ends_options ends_lookups ends_basic
    by (auto simp: ends_andthen aggregates_kept_def simp del: append_Cons split: sum.split option.split
        intro!: ends_reserve_charged ends_mono [OF step])
qed

text \<open>C20 (functional). Enrolling stores one subscription and one transaction, both of the caller's
  tenant and with the priced basket, and charges the mandate once with its total. With a trial
  of one to 366 days nothing is completed: no charge is counted and the first one falls due at
  the end of the trial. Without one, the first charge is completed and counted, and the next
  falls due one cadence later. A refused enrolment stores neither.\<close>

theorem subscribe_enrols_once:
  assumes "do_subscribe E inp mandate s = (r, s')"
  shows "case r of
      Inl e \<Rightarrow> aggregates_kept s s'
    | Inr out \<Rightarrow> \<exists>p ls t l. pa_subscribe (e_parse E) (en_params (in_envelope inp)) = Inr p \<and>
        price_request_items (sp_items p) (context_currency inp) ''subscribe.params.items'' = Inr (ls, t) \<and>
        charged E (e_now E 1) mandate (in_tenant_id inp) (total_amount_minor t) (context_currency inp)
          (ic_ledger s) l \<and>
        enrolled E inp p t l s out s'"
  using ends_result [OF do_subscribe_effect assms] by (simp split: sum.splits)

text \<open>C21 (functional). Renewing charges the mandate once with the price of the subscribed items,
  stores one completed transaction, counts one charge, and advances the period from the end of
  the previous one, so that consecutive renewals do not drift; only a subscription of the
  caller's tenant that is neither canceled nor paused is renewed, and a refused renewal leaves
  every aggregate as it was.\<close>

theorem renew_advances_period:
  assumes "do_renew E inp mandate s = (r, s')"
  shows "case r of
      Inl e \<Rightarrow> aggregates_kept s s'
    | Inr out \<Rightarrow> \<exists>p sub ls t l. pa_renew (e_parse E) (en_params (in_envelope inp)) = Inr p \<and>
        st_get (ic_subs s) (np_subscription_id p) = Some sub \<and> sub_tenant_id sub = in_tenant_id inp \<and>
        sub_status sub \<notin> {SubCanceled, Paused} \<and>
        price_request_items (sub_items sub) (sub_currency sub) ''subscription.items'' = Inr (ls, t) \<and>
        charged E (e_now E 1) mandate (in_tenant_id inp) (total_amount_minor t) (sub_currency sub)
          (ic_ledger s) l \<and>
        renewed E inp p t l sub s out s'"
  using ends_result [OF do_renew_effect assms] by (simp split: sum.splits)

text \<open>A subscription for evaluation, and the two runs.\<close>

definition demo_sub :: subscription where
  "demo_sub = (new_subscription demo_env (demo_input ''intent.subscribe'') None
     \<lparr>sp_items = [sample_item], sp_buyer = None, sp_ship_to = None, sp_cadence = Weekly,
      sp_payment = Card (Some ''tok'') None None, sp_trial_days = None\<rparr> ''USD'' Active (days 7) 1 None None)
     \<lparr>sub_id := ''sub_1''\<rparr>"

definition subscribed_state :: icp where
  "subscribed_state = demo_state\<lparr>ic_subs := [(''sub_1'', demo_sub)]\<rparr>"

lemma demo_card: "validate_payment_instrument (Card (Some ''tok'') None None) ''simulated'' = Inr ()"
  by (simp add: validate_payment_instrument_def require_non_empty_def trim_graphic graphic_def)

lemma runs_to_result: "ends m s (\<lambda>_ _. True) (\<lambda>_ _. False) \<Longrightarrow> \<exists>x s'. m s = (Inr x, s')"
  by (auto simp: ends_def split: prod.splits sum.splits)

lemma demo_subscribes:
  "\<exists>out s'. do_subscribe demo_env (demo_input ''intent.subscribe'') None demo_state = (Inr out, s')"
  by (rule runs_to_result)
    (simp add: do_subscribe_def subscribe_trial_def wp Let_def demo_env_def demo_cfg_def demo_parsers_def
      demo_card sample_pricing context_currency_def demo_input_def for_icp_def intent_context_default_def
      sample_priced_def reserve_mandate_spend_def max_trial_days_def)

lemma demo_renews:
  "\<exists>out s'. do_renew demo_env (demo_input ''intent.renew'') None subscribed_state = (Inr out, s')"
  by (rule runs_to_result)
    (simp add: do_renew_def renew_charge_def wp Let_def demo_env_def demo_cfg_def demo_parsers_def
      demo_card sample_pricing demo_input_def for_icp_def sample_priced_def reserve_mandate_spend_def
      subscribed_state_def demo_sub_def st_get_def new_subscription_def demo_tenant_def
      persist_order_for_transaction_def is_production_def eq_ignore_ascii_case_def)

theorem subscribe_enrols_once_witness:
  "\<exists>out s' sub. do_subscribe demo_env (demo_input ''intent.subscribe'') None demo_state = (Inr out, s') \<and>
     oc_subscription out = Some sub \<and> sub_status sub = Trialing \<and> sub_charges_completed sub = 0 \<and>
     sub_next_charge_at sub = 7 + days 7 \<and> txn_state (oc_transaction out) = Authorized"
proof -
  obtain out s' where run:
    "do_subscribe demo_env (demo_input ''intent.subscribe'') None demo_state = (Inr out, s')"
    using demo_subscribes by blast
  have p: "pa_subscribe (e_parse demo_env) j = Inr \<lparr>sp_items = [sample_item], sp_buyer = None, sp_ship_to = None,
       sp_cadence = Weekly, sp_payment = Card (Some ''tok'') None None, sp_trial_days = Some 7\<rparr>"
    and now: "e_now demo_env i = 7" for j i
    by (simp_all add: demo_env_def demo_parsers_def)
  show ?thesis
    using subscribe_enrols_once [OF run] run
    by (auto simp: p now enrolled_def Let_def split: option.splits)
qed

theorem renew_advances_period_witness:
  "\<exists>out s' sub. do_renew demo_env (demo_input ''intent.renew'') None subscribed_state = (Inr out, s') \<and>
     oc_subscription out = Some sub \<and> sub_current_period_start sub = days 7 \<and>
     sub_current_period_end sub = days 14 \<and> sub_charges_completed sub = 2 \<and>
     txn_state (oc_transaction out) = Completed"
proof -
  obtain out s' where run:
    "do_renew demo_env (demo_input ''intent.renew'') None subscribed_state = (Inr out, s')"
    using demo_renews by blast
  have p: "pa_renew (e_parse demo_env) j = Inr \<lparr>np_subscription_id = ''sub_1'', np_payment = Card (Some ''tok'') None None\<rparr>" for j
    by (simp add: demo_env_def demo_parsers_def)
  have sub: "st_get (ic_subs subscribed_state) ''sub_1'' = Some demo_sub" "sub_current_period_end demo_sub = days 7"
    "sub_cadence demo_sub = Weekly" "sat_inc_u32 (sub_charges_completed demo_sub) = 2"
    by (simp_all add: subscribed_state_def st_get_def demo_sub_def new_subscription_def sat_inc_u32_def)
  have "days 7 + days 7 = days 14" by (simp add: days_def secs_def hours_def)
  then show ?thesis
    using renew_advances_period [OF run] run
    by (auto simp: p sub renewed_def Let_def split: option.splits)
qed

text \<open>
  The trial length is checked after the reservation: a request for a trial that is too long is
  refused, and the mandate stays charged.
\<close>

lemma refused_trial_keeps_the_charge:
  assumes "pa_subscribe (e_parse E) (en_params (in_envelope inp)) = Inr p" "sp_items p \<noteq> []"
    and "validate_payment_instrument (sp_payment p) (cf_payment_execution_mode (e_cfg E)) = Inr ()"
    and "price_request_items (sp_items p) (context_currency inp) ''subscribe.params.items'' = Inr (ls, t)"
    and "reserve_mandate_spend E (e_now E 1) mandate (in_tenant_id inp) (total_amount_minor t)
          (context_currency inp) s = (Inr (), s1)"
    and "sp_trial_days p = Some d" "366 < unat d"
  shows "\<exists>e. do_subscribe E inp mandate s = (Inl (Fail e), s1)"
proof -
  have "d \<noteq> 0" using assms(7) by auto
  then show ?thesis
    using assms
    by (simp add: do_subscribe_def andthen_def parsed_def of_result_def ret_def guard_def lift_result_def
        subscribe_trial_def max_trial_days_def raise_def word_neq_0_conv Let_def)
qed

end
