(* ===== verification/Peer_Commerce.thy ===== *)
theory Peer_Commerce
  imports Checkout
begin

text \<open>
  Agent-to-agent commerce (\<open>src/service/a2a.rs\<close>): \<open>a2a_quote\<close> opens a quote between two agents,
  \<open>a2a_pay\<close> pays a quote or pays a peer directly. The clock is read by the handler and by the
  reservation (\<open>e_now\<close> 0 and 1); \<open>a2a_quote\<close> draws the identifier of the quote first.
\<close>

section \<open>Quotes\<close>

definition quote_ttl :: "nat option \<Rightarrow> duration" where
  "quote_ttl expires_in =
     secs (int (max 1 (min (24 * 60 * 60) (case expires_in of Some n \<Rightarrow> n | None \<Rightarrow> 300))))"

definition opened_quote ::
  "env \<Rightarrow> intent_input \<Rightarrow> mandate_evaluation option \<Rightarrow> a2a_quote_params \<Rightarrow> peer_quote" where
  "opened_quote E inp mandate params =
     \<lparr>pq_id = ''pq_'' @ e_uuid E 0,
      pq_status = (case aq_price_hint params of Some _ \<Rightarrow> PqQuoted | None \<Rightarrow> Pending),
      pq_tenant_id = in_tenant_id inp, pq_requester_agent_id = in_agent_raw inp,
      pq_peer_agent_id = aq_peer_agent_id params, pq_service = aq_service params,
      pq_price = aq_price_hint params, pq_created_at = e_now E 0, pq_updated_at = e_now E 0,
      pq_expires_at = e_now E 0 + quote_ttl (aq_expires_in_seconds params), pq_accepted_at = None,
      pq_charge_transaction_id = None,
      pq_mandate_jti = map_option (\<lambda>m. md_jti (ev_payload m)) mandate,
      pq_reference_id = aq_reference_id params\<rparr>"

definition quote_txn ::
  "env \<Rightarrow> intent_input \<Rightarrow> mandate_evaluation option \<Rightarrow> peer_quote \<Rightarrow> transaction" where
  "quote_txn E inp mandate q =
     \<lparr>txn_id = ''txn_'' @ e_uuid E 1, txn_state = Draft, txn_agent_id = in_agent_raw inp,
      txn_tenant_id = in_tenant_id inp,
      txn_mandate_jti = map_option (\<lambda>m. md_jti (ev_payload m)) mandate,
      txn_currency = (case pq_price q of Some p \<Rightarrow> money_currency p | None \<Rightarrow> context_currency inp),
      txn_jurisdiction = cx_jurisdiction (en_context (in_envelope inp)), txn_buyer = buyer_default,
      txn_ship_to = None, txn_bill_to = None, txn_line_items = [], txn_totals = totals_default,
      txn_order_id = None, txn_quote_expires_at = Some (pq_expires_at q),
      txn_created_at = e_now E 0, txn_updated_at = e_now E 0,
      txn_external_refs = st_put ''peer_quote_id'' (pq_id q) []\<rparr>"

definition do_a2a_quote :: "env \<Rightarrow> intent_input \<Rightarrow> mandate_evaluation option \<Rightarrow> outcome handler" where
  "do_a2a_quote E inp mandate =
     andthen (parsed (pa_a2a_quote (e_parse E) (en_params (in_envelope inp))) ''a2a_quote.params'') (\<lambda>params.
     andthen (guard (aq_peer_agent_id params \<noteq> in_agent_raw inp)
       (InvalidRequest ''a2a_quote: peer_agent_id must differ from the requester agent_id'')) (\<lambda>_.
     andthen (guard (case aq_price_hint params of Some p \<Rightarrow> 0 < amount_minor p | None \<Rightarrow> True)
       (InvalidRequest ''a2a_quote.price_hint.amount_minor must be positive'')) (\<lambda>_.
     let q = opened_quote E inp mandate params; txn = quote_txn E inp mandate q in
     andthen (quote_insert q) (\<lambda>_.
     andthen (txn_insert txn) (\<lambda>_. ret ((txn_outcome txn)\<lparr>oc_peer_quote := Some q\<rparr>))))))"

section \<open>Payments\<close>

definition a2a_execution_mode :: "config \<Rightarrow> string" where
  "a2a_execution_mode c = (if is_production c then ''external_required'' else cf_payment_execution_mode c)"

definition check_a2a_payment :: "config \<Rightarrow> payment_instrument option \<Rightarrow> unit result" where
  "check_a2a_payment c payment =
     (case payment of
        Some p \<Rightarrow> validate_payment_instrument p (a2a_execution_mode c)
      | None \<Rightarrow>
          if a2a_execution_mode c = ''external_required'' then
            Inl (PreconditionFailed
              ''a2a_pay requires payment.method=external_authorization in external_required mode'')
          else Inr ())"

text \<open>The payee, the price and the quote to consume.\<close>

definition payable_quote :: "env \<Rightarrow> intent_input \<Rightarrow> string \<Rightarrow> (string \<times> money \<times> peer_quote option) handler" where
  "payable_quote E inp quote_id =
     andthen (peer_quote_for_input quote_id inp) (\<lambda>q.
     andthen (guard (pq_requester_agent_id q = in_agent_raw inp)
       (PreconditionFailed ''a2a_pay: requester does not match the quote's requester_agent_id'')) (\<lambda>_.
     andthen (guard (pq_status q = PqQuoted)
       (PreconditionFailed (''a2a_pay: peer_quote in state `''
         @ peer_quote_status_wire_name (pq_status q) @ ''` cannot be paid''))) (\<lambda>_.
     if pq_expires_at q \<le> e_now E 0 then
       andthen (quote_update quote_id (\<lambda>x. x\<lparr>pq_status := PqExpired, pq_updated_at := e_now E 0\<rparr>))
         (\<lambda>_. raise (PreconditionFailed ''a2a_pay: peer_quote has expired''))
     else
       andthen (some_or (pq_price q) (PreconditionFailed ''a2a_pay: peer_quote has no price set'')) (\<lambda>money.
       andthen (guard (0 < amount_minor money)
         (PreconditionFailed ''a2a_pay: peer_quote price must be positive'')) (\<lambda>_.
         ret (pq_peer_agent_id q, money, Some q))))))"

definition direct_payment :: "intent_input \<Rightarrow> a2a_pay_params \<Rightarrow> (string \<times> money \<times> peer_quote option) handler" where
  "direct_payment inp params =
     andthen (some_or (pp_peer_agent_id params)
       (InvalidRequest ''a2a_pay: either peer_quote_id or peer_agent_id is required'')) (\<lambda>peer_id.
     andthen (some_or (pp_amount params)
       (InvalidRequest ''a2a_pay: direct payment requires `amount`'')) (\<lambda>money.
     andthen (guard (0 < amount_minor money)
       (InvalidRequest ''a2a_pay.amount.amount_minor must be positive'')) (\<lambda>_.
     andthen (guard (peer_id \<noteq> in_agent_raw inp)
       (InvalidRequest ''a2a_pay: cannot pay yourself'')) (\<lambda>_.
       ret (peer_id, money, None)))))"

definition a2a_refs ::
  "a2a_pay_params \<Rightarrow> string \<Rightarrow> peer_quote option \<Rightarrow> (string, string) store" where
  "a2a_refs params peer_id quote =
     (let r0 = st_put ''peer_agent_id'' peer_id [];
          r1 = (case quote of Some q \<Rightarrow> st_put ''peer_quote_id'' (pq_id q) r0 | None \<Rightarrow> r0);
          r2 = (case pp_memo params of Some m \<Rightarrow> st_put ''memo'' m r1 | None \<Rightarrow> r1);
          r3 = (case pp_payment params of
                  Some (ExternalAuthorization provider auth hint) \<Rightarrow>
                    let s1 = st_put ''settlement_authorization_id'' auth
                               (st_put ''settlement_provider'' provider r2)
                    in (case hint of Some h \<Rightarrow> st_put ''settlement_instrument_hint'' h s1 | None \<Rightarrow> s1)
                | _ \<Rightarrow> r2)
      in st_put ''a2a_from'' (pp_from params) r3)"

definition a2a_txn ::
  "env \<Rightarrow> intent_input \<Rightarrow> mandate_evaluation option \<Rightarrow> a2a_pay_params \<Rightarrow> string \<Rightarrow> money
    \<Rightarrow> peer_quote option \<Rightarrow> transaction" where
  "a2a_txn E inp mandate params peer_id money quote =
     \<lparr>txn_id = ''txn_'' @ e_uuid E 0, txn_state = Completed, txn_agent_id = in_agent_raw inp,
      txn_tenant_id = in_tenant_id inp,
      txn_mandate_jti = map_option (\<lambda>m. md_jti (ev_payload m)) mandate,
      txn_currency = money_currency money,
      txn_jurisdiction = cx_jurisdiction (en_context (in_envelope inp)), txn_buyer = buyer_default,
      txn_ship_to = None, txn_bill_to = None,
      txn_line_items = [\<lparr>li_id = ''li_a2a'', li_sku = ''a2a:'' @ peer_id,
        li_name = ''Peer payment to '' @ peer_id, li_quantity = 1, li_unit_price = money,
        li_subtotal = money, li_tax = None, li_total = money\<rparr>],
      txn_totals = \<lparr>to_subtotal = Some money, to_discount = None, to_shipping = None, to_tax = None,
        to_total = Some money\<rparr>,
      txn_order_id = None, txn_quote_expires_at = None, txn_created_at = e_now E 0,
      txn_updated_at = e_now E 0, txn_external_refs = a2a_refs params peer_id quote\<rparr>"

definition accepted_quote :: "time \<Rightarrow> string \<Rightarrow> peer_quote \<Rightarrow> peer_quote" where
  "accepted_quote now charge_id x = x\<lparr>pq_status := Accepted, pq_accepted_at := Some now,
     pq_charge_transaction_id := Some charge_id, pq_updated_at := now\<rparr>"

text \<open>The payment itself, once payee and price are settled.\<close>

definition settle_payment ::
  "env \<Rightarrow> intent_input \<Rightarrow> mandate_evaluation option \<Rightarrow> a2a_pay_params \<Rightarrow> string \<Rightarrow> money
    \<Rightarrow> peer_quote option \<Rightarrow> outcome handler" where
  "settle_payment E inp mandate params peer_id money quote =
     andthen (reserve_mandate_spend E (e_now E 1) mandate (in_tenant_id inp)
       (amount_minor money) (money_currency money)) (\<lambda>_.
     let txn = a2a_txn E inp mandate params peer_id money quote in
     andthen (txn_insert txn) (\<lambda>_.
     andthen (case quote of
         Some q \<Rightarrow> quote_update (pq_id q) (accepted_quote (e_now E 0) (txn_id txn))
       | None \<Rightarrow> ret None) (\<lambda>updated_quote.
       ret ((txn_outcome txn)\<lparr>oc_peer_quote := updated_quote\<rparr>))))"

definition do_a2a_pay :: "env \<Rightarrow> intent_input \<Rightarrow> mandate_evaluation option \<Rightarrow> outcome handler" where
  "do_a2a_pay E inp mandate =
     andthen (parsed (pa_a2a_pay (e_parse E) (en_params (in_envelope inp))) ''a2a_pay.params'') (\<lambda>params.
     andthen (guard (pp_from params \<noteq> []) (InvalidRequest ''a2a_pay: `from` is required'')) (\<lambda>_.
     andthen (of_result (check_a2a_payment (e_cfg E) (pp_payment params))) (\<lambda>_.
     andthen (case pp_peer_quote_id params of
         Some quote_id \<Rightarrow> payable_quote E inp quote_id
       | None \<Rightarrow> direct_payment inp params) (\<lambda>(peer_id, money, quote).
       settle_payment E inp mandate params peer_id money quote))))"

section \<open>Refinement\<close>

lemma opened_quote_simps [simp]:
  "pq_id (opened_quote E inp m p) = ''pq_'' @ e_uuid E 0"
  "pq_tenant_id (opened_quote E inp m p) = in_tenant_id inp"
  "pq_price (opened_quote E inp m p) = aq_price_hint p"
  "pq_charge_transaction_id (opened_quote E inp m p) = None"
  "pq_status (opened_quote E inp m p) = (case aq_price_hint p of Some _ \<Rightarrow> PqQuoted | None \<Rightarrow> Pending)"
  by (simp_all add: opened_quote_def)

lemma peer_txn_simps [simp]:
  "txn_id (quote_txn E inp m q) = ''txn_'' @ e_uuid E 1"
  "txn_tenant_id (quote_txn E inp m q) = in_tenant_id inp"
  "txn_id (a2a_txn E inp m p peer mon qt) = ''txn_'' @ e_uuid E 0"
  "txn_tenant_id (a2a_txn E inp m p peer mon qt) = in_tenant_id inp"
  by (simp_all add: quote_txn_def a2a_txn_def)

lemma do_a2a_quote_refines: "refines E inp (do_a2a_quote E inp mandate)"
  by (auto simp: refine_simps do_a2a_quote_def simp del: append_Cons
      split: sum.split option.split intro!: opens_txn opens_quote)

lemma expire_quote_move:
  "pq_status q = PqQuoted \<Longrightarrow> quote_move q (q\<lparr>pq_status := PqExpired, pq_updated_at := now\<rparr>)"
  by (simp add: quote_move_def)

lemma accept_quote_move:
  "pq_status q = PqQuoted \<Longrightarrow> pq_price q = Some m \<Longrightarrow> quote_move q (accepted_quote now c q)"
  by (simp add: quote_move_def accepted_quote_def)

text \<open>What is settled before any money moves.\<close>

definition payable ::
  "intent_input \<Rightarrow> a2a_pay_params \<Rightarrow> time \<Rightarrow> icp \<Rightarrow> string \<times> money \<times> peer_quote option \<Rightarrow> bool" where
  "payable inp params now s x \<longleftrightarrow>
     (case x of (peer_id, money, quote) \<Rightarrow> 0 < amount_minor money \<and>
        (case pp_peer_quote_id params of
           None \<Rightarrow> quote = None \<and> pp_peer_agent_id params = Some peer_id \<and> pp_amount params = Some money \<and>
             peer_id \<noteq> in_agent_raw inp
         | Some qid \<Rightarrow> (case quote of None \<Rightarrow> False | Some q \<Rightarrow>
             st_get (ic_quotes s) qid = Some q \<and> pq_tenant_id q = in_tenant_id inp \<and>
             pq_requester_agent_id q = in_agent_raw inp \<and> pq_status q = PqQuoted \<and> now < pq_expires_at q \<and>
             pq_price q = Some money \<and> pq_peer_agent_id q = peer_id)))"

lemma ends_payable:
  assumes "\<And>x. payable inp params (e_now E 0) s x \<Longrightarrow> Q x s"
    and "\<And>e. F (Fail e) s"
    and "\<And>e qid q. st_get (ic_quotes s) qid = Some q \<Longrightarrow> pq_tenant_id q = in_tenant_id inp \<Longrightarrow>
       pq_status q = PqQuoted \<Longrightarrow> pq_expires_at q \<le> e_now E 0 \<Longrightarrow> F (Fail e)
         (s\<lparr>ic_quotes := st_put qid (q\<lparr>pq_status := PqExpired, pq_updated_at := e_now E 0\<rparr>) (ic_quotes s)\<rparr>)"
  shows "ends (case pp_peer_quote_id params of
         Some quote_id \<Rightarrow> payable_quote E inp quote_id
       | None \<Rightarrow> direct_payment inp params) s Q F"
  using assms
  by (auto simp: payable_quote_def direct_payment_def wp payable_def simp del: append_Cons
      split: option.splits)

lemma settle_payment_refines:
  assumes "icp_ok s" "payable inp params now s (peer_id, money, quote)"
  shows "ends (settle_payment E inp mandate params peer_id money quote) s
     (\<lambda>out s'. tenant_steps (in_tenant_id inp) (new_ids E inp) s s' \<and>
        txn_tenant_id (oc_transaction out) = in_tenant_id inp)
     (\<lambda>e s'. tenant_steps (in_tenant_id inp) (new_ids E inp) s s')"
  using assms(2) icp_ok_keys(3) [OF assms(1)] unfolding settle_payment_def ends_andthen Let_def
  by (cases quote)
    (auto simp: wp payable_def simp del: append_Cons split: option.splits
      intro!: ends_reserve_refines opens_txn moves_quote accept_quote_move)

lemma do_a2a_pay_refines: "refines E inp (do_a2a_pay E inp mandate)"
proof -
  have "ends (do_a2a_pay E inp mandate) s
     (\<lambda>out s'. tenant_steps (in_tenant_id inp) (new_ids E inp) s s' \<and>
        txn_tenant_id (oc_transaction out) = in_tenant_id inp)
     (\<lambda>e s'. tenant_steps (in_tenant_id inp) (new_ids E inp) s s')" if "icp_ok s" for s
    unfolding do_a2a_pay_def ends_andthen Let_def ends_options ends_basic
    by (auto simp: simp del: append_Cons split: sum.split
        intro!: ends_payable settle_payment_refines [OF that] moves_quote expire_quote_move)
  then show ?thesis by (simp add: refines_def)
qed

section \<open>What a payment charges\<close>

definition paid ::
  "env \<Rightarrow> intent_input \<Rightarrow> mandate_evaluation option \<Rightarrow> a2a_pay_params \<Rightarrow> string \<times> money \<times> peer_quote option
    \<Rightarrow> icp \<Rightarrow> outcome \<Rightarrow> icp \<Rightarrow> bool" where
  "paid E inp mandate p x s out s' \<longleftrightarrow>
     (case x of (peer_id, money, quote) \<Rightarrow> \<exists>l. let txn = oc_transaction out in
        charged E (e_now E 1) mandate (in_tenant_id inp) (amount_minor money) (money_currency money)
          (ic_ledger s) l \<and>
        txn = a2a_txn E inp mandate p peer_id money quote \<and>
        s' = s\<lparr>ic_ledger := l, ic_txns := st_put (txn_id txn) txn (ic_txns s),
               ic_quotes := (case quote of
                   Some q \<Rightarrow> st_put (pq_id q) (accepted_quote (e_now E 0) (txn_id txn) q) (ic_quotes s)
                 | None \<Rightarrow> ic_quotes s)\<rparr>)"

lemma settle_payment_effect:
  assumes "\<And>q. quote = Some q \<Longrightarrow> st_get (ic_quotes s) (pq_id q) = Some q"
  shows "ends (settle_payment E inp mandate params peer_id money quote) s
     (paid E inp mandate params (peer_id, money, quote) s) (\<lambda>e s'. aggregates_kept s s')"
  unfolding settle_payment_def ends_andthen Let_def
  using assms
  by (cases quote) (auto simp: wp txn_outcome_def paid_def Let_def aggregates_kept_def simp del: append_Cons
      intro!: ends_reserve_charged)

lemma do_a2a_pay_effect:
  assumes "icp_ok s" and p: "pa_a2a_pay (e_parse E) (en_params (in_envelope inp)) = Inr p"
  shows "ends (do_a2a_pay E inp mandate) s
     (\<lambda>out s'. \<exists>x. payable inp p (e_now E 0) s x \<and> paid E inp mandate p x s out s')
     (\<lambda>_ _. True)"
proof -
  have filed: "st_get (ic_quotes s) (pq_id q) = Some q"
    if "payable inp p (e_now E 0) s (peer_id, money, Some q)" for peer_id money q
    using that icp_ok_keys(3) [OF assms(1)] by (auto simp: payable_def split: option.splits)
  show ?thesis
    unfolding do_a2a_pay_def ends_andthen Let_def ends_options ends_basic p
    by (auto simp del: append_Cons split: sum.split
        intro!: ends_payable ends_mono [OF settle_payment_effect] filed)
qed

text \<open>C22 (safety). A payment against a quote that succeeds consumed an open quote, priced and not
  expired, of the same tenant and requester; it pays exactly the quoted price, charges the
  mandate once with it, and links the accepted quote to the completed transaction. The quote
  is then spent: any further payment against it, by whatever caller, mandate and clock, is
  refused and changes nothing.\<close>

theorem quote_paid_once:
  assumes "icp_ok s" and "do_a2a_pay E inp mandate s = (Inr out, s')"
    and "pa_a2a_pay (e_parse E) (en_params (in_envelope inp)) = Inr p" and "pp_peer_quote_id p = Some qid"
    and "pa_a2a_pay (e_parse E') (en_params (in_envelope inp')) = Inr p'" and "pp_peer_quote_id p' = Some qid"
  shows "(\<exists>q money l. st_get (ic_quotes s) qid = Some q \<and> pq_tenant_id q = in_tenant_id inp \<and>
      pq_requester_agent_id q = in_agent_raw inp \<and> pq_status q = PqQuoted \<and> e_now E 0 < pq_expires_at q \<and>
      pq_price q = Some money \<and> 0 < amount_minor money \<and>
      txn_state (oc_transaction out) = Completed \<and> to_total (txn_totals (oc_transaction out)) = Some money \<and>
      charged E (e_now E 1) mandate (in_tenant_id inp) (amount_minor money) (money_currency money)
        (ic_ledger s) l \<and> ic_ledger s' = l \<and>
      st_get (ic_quotes s') qid = Some (accepted_quote (e_now E 0) (txn_id (oc_transaction out)) q)) \<and>
    (\<exists>e. do_a2a_pay E' inp' mandate' s' = (Inl (Fail e), s'))"
proof -
  obtain peer_id money q l where pay: "payable inp p (e_now E 0) s (peer_id, money, Some q)"
    and ch: "charged E (e_now E 1) mandate (in_tenant_id inp) (amount_minor money) (money_currency money) (ic_ledger s) l"
    and out: "oc_transaction out = a2a_txn E inp mandate p peer_id money (Some q)"
    and s': "s' = s\<lparr>ic_ledger := l,
        ic_txns := st_put (txn_id (oc_transaction out)) (oc_transaction out) (ic_txns s),
        ic_quotes := st_put (pq_id q) (accepted_quote (e_now E 0) (txn_id (oc_transaction out)) q) (ic_quotes s)\<rparr>"
    using ends_Inr [OF do_a2a_pay_effect [OF assms(1,3)] assms(2)] assms(4)
    by (fastforce simp: payable_def paid_def Let_def split: option.splits)
  then have q: "st_get (ic_quotes s) qid = Some q" and id: "pq_id q = qid"
    using assms(4) icp_ok_keys(3) [OF assms(1)] by (auto simp: payable_def)
  have spent: "st_get (ic_quotes s') qid = Some (accepted_quote (e_now E 0) (txn_id (oc_transaction out)) q)"
    by (simp add: s' id)
  have "ends (do_a2a_pay E' inp' mandate') s' (\<lambda>_ _. False) (\<lambda>e s''. s'' = s' \<and> (\<exists>x. e = Fail x))"
    by (simp add: do_a2a_pay_def payable_quote_def wp assms(5,6) spent accepted_quote_def del: append_Cons
        split: sum.split)
  then have "\<exists>e. do_a2a_pay E' inp' mandate' s' = (Inl (Fail e), s')"
    by (auto simp: ends_def split: prod.splits sum.splits)
  then show ?thesis
    using pay ch q spent assms(4) by (auto simp: payable_def out a2a_txn_def s')
qed

text \<open>A priced quote and its payment, for evaluation.\<close>

definition demo_pay :: a2a_pay_params where
  "demo_pay = \<lparr>pp_peer_quote_id = Some ''pq_1'', pp_peer_agent_id = None, pp_amount = None,
     pp_from = ''wallet'', pp_payment = None, pp_memo = None\<rparr>"

definition peer_env :: env where
  "peer_env = demo_env\<lparr>e_parse := demo_parsers\<lparr>pa_a2a_pay := \<lambda>_. Inr demo_pay\<rparr>\<rparr>"

definition demo_quote :: peer_quote where
  "demo_quote = (opened_quote peer_env (demo_input ''intent.a2a_quote'') None
     \<lparr>aq_peer_agent_id = ''peer'', aq_service = \<lparr>as_kind = AdHoc, as_description = [], as_params = JNull\<rparr>,
      aq_price_hint = Some (money_new 250 ''USD''), aq_expires_in_seconds = None, aq_reference_id = None\<rparr>)
     \<lparr>pq_id := ''pq_1''\<rparr>"

definition quoted_state :: icp where
  "quoted_state = demo_state\<lparr>ic_quotes := [(''pq_1'', demo_quote)]\<rparr>"

lemma quoted_state_ok: "icp_ok quoted_state"
  by (simp add: icp_ok_def quoted_state_def demo_state_def st_ok_def keyed_by_def st_get_def demo_txn_def
      demo_quote_def)

lemma demo_pays:
  "\<exists>out s'. do_a2a_pay peer_env (demo_input ''intent.a2a_pay'') None quoted_state = (Inr out, s')"
proof -
  have "ends (do_a2a_pay peer_env (demo_input ''intent.a2a_pay'') None) quoted_state (\<lambda>_ _. True) (\<lambda>_ _. False)"
    by (simp add: do_a2a_pay_def payable_quote_def settle_payment_def check_a2a_payment_def
        a2a_execution_mode_def is_production_def eq_ignore_ascii_case_def wp Let_def peer_env_def demo_env_def
        demo_pay_def demo_cfg_def quoted_state_def demo_quote_def opened_quote_def quote_ttl_def secs_def
        demo_input_def for_icp_def demo_tenant_def demo_agent_def st_get_def reserve_mandate_spend_def)
  then show ?thesis by (auto simp: ends_def split: prod.splits sum.splits)
qed

theorem quote_paid_once_witness:
  "\<exists>out s' e. do_a2a_pay peer_env (demo_input ''intent.a2a_pay'') None quoted_state = (Inr out, s') \<and>
     to_total (txn_totals (oc_transaction out)) = Some (money_new 250 ''USD'') \<and>
     do_a2a_pay peer_env (demo_input ''intent.a2a_pay'') None s' = (Inl (Fail e), s')"
proof -
  obtain out s' where run:
    "do_a2a_pay peer_env (demo_input ''intent.a2a_pay'') None quoted_state = (Inr out, s')"
    using demo_pays by blast
  have p: "pa_a2a_pay (e_parse peer_env) j = Inr demo_pay" "pp_peer_quote_id demo_pay = Some ''pq_1''" for j
    by (simp_all add: peer_env_def demo_pay_def)
  have q: "st_get (ic_quotes quoted_state) ''pq_1'' = Some demo_quote" "pq_price demo_quote = Some (money_new 250 ''USD'')"
    by (simp_all add: quoted_state_def st_get_def demo_quote_def)
  show ?thesis
    using quote_paid_once [OF quoted_state_ok run p p, of "demo_input ''intent.a2a_pay''" None] run q by auto
qed

end
