(* ===== verification/Service.thy ===== *)
theory Service
  imports Negotiate Subscriptions Peer_Commerce
begin

text \<open>
  The dispatcher \<open>IcpService::handle_intent\<close> (\<open>src/service/mod.rs\<close>): agent check, parsing of the
  intent, the mandate gate, the handler of the intent, the signed receipt, the event, the
  webhook fan-out. The handlers use the clock readings 0 to 2 and the identifiers 0 and 1; the
  dispatcher reads the clock at 3 (mandate), 4 (envelope), 5 (receipt), 6 (event) and 7 (webhook)
  and draws the identifiers 2 (intent), 3 (receipt), 4 (event) and 5 onwards (deliveries).
\<close>

section \<open>The mandate gate\<close>

definition admit_mandate :: "env \<Rightarrow> intent_input \<Rightarrow> intent \<Rightarrow> mandate_evaluation option handler" where
  "admit_mandate E inp i =
     (case scope i of
        None \<Rightarrow> ret None
      | Some sc \<Rightarrow>
          if in_skip_mandate_check inp then ret None
          else case in_mandate_jws inp of
            Some jws \<Rightarrow>
              andthen (\<lambda>s. of_exec (evaluate (e_chrono E) (e_crypto E) (\<lambda>jti. Inr (mem_usage (ic_ledger s) jti))
                  (cf_verify_mandate_signatures (e_cfg E)) jws sc
                  (estimate_intent_amount_minor (in_envelope inp)) (e_now E 3) (in_tenant_id inp)
                  (cx_jurisdiction (en_context (in_envelope inp)))) s) (\<lambda>ev. ret (Some ev))
          | None \<Rightarrow>
              if cf_require_mandate (e_cfg E) then
                raise (MandateInvalid ''ICP-Mandate header required for this intent scope'')
              else ret None)"

definition check_subject :: "intent_input \<Rightarrow> mandate_evaluation option \<Rightarrow> unit handler" where
  "check_subject inp mandate =
     (case mandate of
        Some ev \<Rightarrow> guard (md_sub (ev_payload ev) = in_agent_raw inp)
          (MandateOutOfScope (''mandate subject `'' @ md_sub (ev_payload ev)
            @ ''` does not authorize agent `'' @ in_agent_raw inp @ ''`''))
      | None \<Rightarrow> ret ())"

section \<open>Dispatch\<close>

fun dispatch :: "env \<Rightarrow> intent_input \<Rightarrow> mandate_evaluation option \<Rightarrow> intent \<Rightarrow> outcome handler" where
  "dispatch E inp mandate ISearch = do_search E inp"
| "dispatch E inp mandate IDescribe = do_describe E inp"
| "dispatch E inp mandate IQuote = do_quote E inp"
| "dispatch E inp mandate IAuthorize = do_authorize E inp"
| "dispatch E inp mandate IBuy = do_buy E inp mandate"
| "dispatch E inp mandate IPay = do_buy E inp mandate"
| "dispatch E inp mandate ITrack = do_track inp"
| "dispatch E inp mandate IReturn = do_return E inp"
| "dispatch E inp mandate IRefundRequest = do_refund_request E inp"
| "dispatch E inp mandate ISubscribe = do_subscribe E inp mandate"
| "dispatch E inp mandate IRenew = do_renew E inp mandate"
| "dispatch E inp mandate IPause = do_pause E inp"
| "dispatch E inp mandate ICancelSubscription = do_cancel_subscription E inp"
| "dispatch E inp mandate IA2aQuote = do_a2a_quote E inp mandate"
| "dispatch E inp mandate IA2aPay = do_a2a_pay E inp mandate"
| "dispatch E inp mandate INegotiate = do_negotiate E inp"
| "dispatch E inp mandate IConfirmReceipt = do_confirm_receipt E inp"

section \<open>Response, receipt and event\<close>

definition no_receipt :: "env \<Rightarrow> receipt_stub" where
  "no_receipt E = \<lparr>rs_jti = [], rs_kid = sn_kid (e_signer E), rs_jws = [], rs_body_digest = []\<rparr>"

definition response_body :: "env \<Rightarrow> intent_input \<Rightarrow> intent \<Rightarrow> outcome \<Rightarrow> intent_response_body" where
  "response_body E inp i out =
     \<lparr>rb_intent = wire_name i,
      rb_intent_id = (case en_intent_id (in_envelope inp) of Some x \<Rightarrow> x | None \<Rightarrow> ''int_'' @ e_uuid E 2),
      rb_transaction = oc_transaction out, rb_order = oc_order out,
      rb_subscription = oc_subscription out, rb_peer_quote = oc_peer_quote out,
      rb_receipt = no_receipt E,
      rb_envelope = \<lparr>re_icp_version = cf_icp_version (e_cfg E), re_request_id = in_request_id inp,
        re_trace_id = in_trace_id inp, re_issued_at = e_now E 4\<rparr>\<rparr>"

definition receipt_stub_of :: "signed_receipt \<Rightarrow> receipt_stub" where
  "receipt_stub_of sg = \<lparr>rs_jti = sg_jti sg, rs_kid = sg_kid sg, rs_jws = sg_jws sg,
     rs_body_digest = sg_body_digest sg\<rparr>"

definition issue_receipt ::
  "env \<Rightarrow> intent_input \<Rightarrow> intent \<Rightarrow> mandate_evaluation option \<Rightarrow> intent_response_body \<Rightarrow> receipt_stub handler" where
  "issue_receipt E inp i mandate body =
     (if is_state_change i then
        andthen (case e_body_jcs E body of
            Inl e \<Rightarrow> raise (ProcessingError (''jcs: '' @ e)) | Inr raw \<Rightarrow> ret raw) (\<lambda>raw.
        andthen (case sign_receipt (e_sig_lib E) (e_signer E) (e_timestamp E (e_now E 5)) (e_uuid E 3)
              (in_agent_raw inp) (cf_public_base_url (e_cfg E)) (wire_name i) (txn_id (rb_transaction body))
              (map_option os_id (rb_order body)) (map_option (\<lambda>m. md_jti (ev_payload m)) mandate) raw of
            Inl e \<Rightarrow> raise (ProcessingError (''sign: '' @ display_signing_error e)) | Inr sg \<Rightarrow> ret sg) (\<lambda>sg.
        andthen (modify (\<lambda>s. s\<lparr>ic_receipts := receipt_insert (stored_of sg) (ic_receipts s)\<rparr>)) (\<lambda>_.
          ret (receipt_stub_of sg))))
      else ret (no_receipt E))"

definition event_type :: "intent \<Rightarrow> outcome \<Rightarrow> string" where
  "event_type i out =
     (case oc_peer_quote out of
        Some q \<Rightarrow> ''peer_quote.'' @ peer_quote_status_wire_name (pq_status q)
      | None \<Rightarrow>
         (case oc_subscription out of
            Some x \<Rightarrow> ''subscription.'' @ subscription_status_wire_name (sub_status x)
          | None \<Rightarrow>
             (case i of
                INegotiate \<Rightarrow> ''transaction.renegotiated''
              | IConfirmReceipt \<Rightarrow> ''transaction.receipt_confirmed''
              | _ \<Rightarrow> ''transaction.'' @ transaction_state_wire_name (txn_state (oc_transaction out)))))"

definition intent_event ::
  "env \<Rightarrow> intent_input \<Rightarrow> intent \<Rightarrow> outcome \<Rightarrow> intent_response_body \<Rightarrow> event" where
  "intent_event E inp i out body =
     \<lparr>et_id = ''evt_'' @ e_uuid E 4, et_type = event_type i out,
      et_transaction_id = Some (txn_id (oc_transaction out)),
      et_order_id = map_option os_id (oc_order out), et_agent_id = Some (in_agent_raw inp),
      et_occurred_at = e_now E 6, et_payload = e_body_json E body\<rparr>"

text \<open>What follows the handler of the intent.\<close>

definition publish_outcome ::
  "env \<Rightarrow> intent_input \<Rightarrow> intent \<Rightarrow> mandate_evaluation option \<Rightarrow> outcome \<Rightarrow> intent_response_body handler" where
  "publish_outcome E inp i mandate out =
     (let body0 = response_body E inp i out in
     andthen (issue_receipt E inp i mandate body0) (\<lambda>stub.
     let body = body0\<lparr>rb_receipt := stub\<rparr>; ev = intent_event E inp i out body in
     andthen (if is_state_change i
         then enqueue_webhook E (e_now E 7) (\<lambda>k. e_uuid E (5 + k)) ev (Some (in_tenant_id inp))
         else ret ()) (\<lambda>_.
     andthen (emit ev) (\<lambda>_. ret body))))"

definition handle_intent :: "env \<Rightarrow> intent_input \<Rightarrow> intent_response_body handler" where
  "handle_intent E inp =
     andthen (guard (en_agent_id (in_envelope inp) = in_agent_raw inp)
       (AuthenticationFailed (''envelope.agent_id `'' @ en_agent_id (in_envelope inp)
         @ ''` does not match ICP-Agent-Id `'' @ in_agent_raw inp @ ''`''))) (\<lambda>_.
     andthen (of_result (parse_intent (en_intent (in_envelope inp)))) (\<lambda>i.
     andthen (admit_mandate E inp i) (\<lambda>mandate.
     andthen (check_subject inp mandate) (\<lambda>_.
     andthen (dispatch E inp mandate i) (\<lambda>out.
       publish_outcome E inp i mandate out)))))"

text \<open>The filter of the streaming endpoints.\<close>

definition event_belongs_to_tenant :: "icp \<Rightarrow> event \<Rightarrow> string \<Rightarrow> bool" where
  "event_belongs_to_tenant s ev tenant_id =
     (case et_transaction_id ev of
        Some t \<Rightarrow> (case st_get (ic_txns s) t of Some x \<Rightarrow> txn_tenant_id x = tenant_id | None \<Rightarrow> False)
      | None \<Rightarrow>
         (case Option.bind (json_get (et_payload ev) ''subscription_id'') json_as_str of
            Some k \<Rightarrow> (case st_get (ic_subs s) k of Some x \<Rightarrow> sub_tenant_id x = tenant_id | None \<Rightarrow> False)
          | None \<Rightarrow>
             (case Option.bind (json_get (et_payload ev) ''peer_quote_id'') json_as_str of
                Some k \<Rightarrow> (case st_get (ic_quotes s) k of Some q \<Rightarrow> pq_tenant_id q = tenant_id | None \<Rightarrow> False)
              | None \<Rightarrow> False)))"

section \<open>Refinement\<close>

lemma dispatch_refines:
  assumes "parse_intent (en_intent (in_envelope inp)) = Inr i"
  shows "refines E inp (dispatch E inp mandate i)"
  using assms
  by (cases i)
    (simp_all add: opens_named_def do_search_refines do_describe_refines do_quote_refines do_authorize_refines do_buy_refines
      do_track_refines do_return_refines do_refund_request_refines do_subscribe_refines do_renew_refines
      do_pause_refines do_cancel_subscription_refines do_a2a_quote_refines do_a2a_pay_refines
      do_negotiate_refines do_confirm_receipt_refines)

text \<open>The gate reads the state only.\<close>

lemma ends_admit [wp]:
  "ends (admit_mandate E inp i) s Q F =
     (case scope i of
        None \<Rightarrow> Q None s
      | Some sc \<Rightarrow>
          if in_skip_mandate_check inp then Q None s
          else case in_mandate_jws inp of
            Some jws \<Rightarrow>
              (case evaluate (e_chrono E) (e_crypto E) (\<lambda>jti. Inr (mem_usage (ic_ledger s) jti))
                  (cf_verify_mandate_signatures (e_cfg E)) jws sc
                  (estimate_intent_amount_minor (in_envelope inp)) (e_now E 3) (in_tenant_id inp)
                  (cx_jurisdiction (en_context (in_envelope inp))) of
                 Inl e \<Rightarrow> F e s | Inr ev \<Rightarrow> Q (Some ev) s)
          | None \<Rightarrow>
              if cf_require_mandate (e_cfg E) then
                F (Fail (MandateInvalid ''ICP-Mandate header required for this intent scope'')) s
              else Q None s)"
  by (auto simp: admit_mandate_def ends_def andthen_def of_exec_def ret_def raise_def
      simp del: append_Cons split: option.split sum.split prod.split)

lemma ends_subject [wp]:
  "ends (check_subject inp mandate) s Qu F =
     (case mandate of
        Some ev \<Rightarrow> if md_sub (ev_payload ev) = in_agent_raw inp then Qu () s
          else F (Fail (MandateOutOfScope (''mandate subject `'' @ md_sub (ev_payload ev)
            @ ''` does not authorize agent `'' @ in_agent_raw inp @ ''`''))) s
      | None \<Rightarrow> Qu () s)"
  by (simp add: check_subject_def wp del: append_Cons split: option.split)

text \<open>Publishing writes the receipt store, the outbox and the bus, and nothing else.\<close>

lemma ends_publish:
  assumes "\<And>body rs ob bus. Q body (s\<lparr>ic_receipts := rs, ic_outbox := ob, ic_bus := bus\<rparr>)"
    and "\<And>e. F (Fail e) s"
  shows "ends (publish_outcome E inp i mandate out) s Q F"
proof -
  have "Q body (s\<lparr>ic_bus := b\<rparr>)" "Q body (s\<lparr>ic_outbox := ob, ic_bus := b\<rparr>)"
    "Q body (s\<lparr>ic_receipts := rs, ic_outbox := ob, ic_bus := b\<rparr>)" for body rs ob b
    using assms(1) [of body b "ic_outbox s" "ic_receipts s"] assms(1) [of body b ob "ic_receipts s"]
      assms(1) [of body b ob rs] by simp_all
  then show ?thesis
    using assms(2)
    by (auto simp: publish_outcome_def issue_receipt_def enqueue_webhook_def emit_def wp Let_def
        simp del: append_Cons split: sum.split)
qed

lemma handle_intent_ends:
  assumes "icp_ok s"
  shows "ends (handle_intent E inp) s
     (\<lambda>_ s'. call_steps (in_tenant_id inp) (new_ids E inp) s s')
     (\<lambda>_ s'. call_steps (in_tenant_id inp) (new_ids E inp) s s')"
proof -
  have "ends (dispatch E inp mandate i) s
      (\<lambda>out s'. ends (publish_outcome E inp i mandate out) s'
         (\<lambda>_ s'. call_steps (in_tenant_id inp) (new_ids E inp) s s')
         (\<lambda>_ s'. call_steps (in_tenant_id inp) (new_ids E inp) s s'))
      (\<lambda>_ s'. call_steps (in_tenant_id inp) (new_ids E inp) s s')"
    if "parse_intent (en_intent (in_envelope inp)) = Inr i" for mandate i
    using dispatch_refines [OF that, of E mandate, unfolded refines_def, rule_format, OF assms]
    by (rule ends_mono) (auto dest!: steps_call intro!: ends_publish publishes)
  then show ?thesis
    by (auto simp: handle_intent_def wp simp del: append_Cons split: sum.split option.split)
qed

lemma handle_intent_steps:
  "icp_ok s \<Longrightarrow> handle_intent E inp s = (r, s') \<Longrightarrow> call_steps (in_tenant_id inp) (new_ids E inp) s s'"
  using ends_result [OF handle_intent_ends] by (auto split: sum.splits)

lemma handle_intent_ok: "icp_ok s \<Longrightarrow> handle_intent E inp s = (r, s') \<Longrightarrow> icp_ok s'"
  using handle_intent_steps well_formed.steps_property by blast

section \<open>What a handler answers\<close>

text \<open>A handler that succeeds answers with a transaction as it is stored; one that fails does so
  with an error value, not a panic, when the period of its mandate is representable.\<close>

definition answer :: "outcome \<Rightarrow> icp \<Rightarrow> bool" where
  "answer out s \<longleftrightarrow> st_get (ic_txns s) (txn_id (oc_transaction out)) = Some (oc_transaction out)"

definition period_ok :: "env \<Rightarrow> mandate_evaluation option \<Rightarrow> bool" where
  "period_ok E mandate \<longleftrightarrow> (case mandate of
      Some ev \<Rightarrow> parse_period (e_chrono E) (mb_period (mt_budget (md_icp (ev_payload ev)))) \<noteq> PeriodPanic
    | None \<Rightarrow> True)"

lemma ends_reserve_ok:
  assumes "period_ok E mandate" "\<And>l. Q () (s\<lparr>ic_ledger := l\<rparr>)" "\<And>e l. e \<noteq> Panic \<Longrightarrow> F e (s\<lparr>ic_ledger := l\<rparr>)"
  shows "ends (reserve_mandate_spend E now mandate tenant amount c) s Q F"
  using assms(1) by (intro ends_reserve) (auto simp: period_ok_def intro!: assms(2,3))

lemma persist_fails: "persist_order_for_transaction E t = Inl e \<Longrightarrow> e \<noteq> Panic"
  using persist_no_panic by blast

lemma ends_persist:
  "(\<And>o1. persist_order_for_transaction E t = Inr o1 \<Longrightarrow> Q o1 s) \<Longrightarrow> (\<And>e. e \<noteq> Panic \<Longrightarrow> F e s) \<Longrightarrow>
   ends (of_exec (persist_order_for_transaction E t)) s Q F"
  using persist_fails by (auto simp: wp split: sum.split)

text \<open>The one panic of a handler that does not come from the mandate: a discount.\<close>

definition quote_panics :: "env \<Rightarrow> intent_input \<Rightarrow> bool" where
  "quote_panics E inp \<longleftrightarrow>
     (\<exists>params eg. pa_quote (e_parse E) (en_params (in_envelope inp)) = Inr params \<and> qp_discount_codes params \<noteq> [] \<and>
        e_engine E = Some eg \<and>
        eg_discount eg (qp_items params) (context_currency inp) (qp_ship_to params) (qp_discount_codes params) = None)"

lemma catalog_answers:
  "ends (do_search E inp) s answer (\<lambda>e _. e \<noteq> Panic)"
  "ends (do_describe E inp) s answer (\<lambda>e _. e \<noteq> Panic)"
  "ends (do_quote E inp) s answer (\<lambda>e s'. e = Panic \<longrightarrow> quote_panics E inp \<and> s' = s)"
  by (auto simp: do_search_def do_describe_def do_quote_def wp Let_def answer_def discounted_panics discount_panics_def
      quote_panics_def simp del: append_Cons split: sum.split option.split)

lemma order_answers:
  assumes "icp_ok s"
  shows "ends (do_authorize E inp) s answer (\<lambda>e _. e \<noteq> Panic)"
    and "ends (do_track inp) s answer (\<lambda>e _. e \<noteq> Panic)"
    and "ends (do_return E inp) s answer (\<lambda>e _. e \<noteq> Panic)"
    and "ends (do_negotiate E inp) s answer (\<lambda>e _. e \<noteq> Panic)"
    and "ends (do_confirm_receipt E inp) s answer (\<lambda>e _. e \<noteq> Panic)"
  using icp_ok_keys(1) [OF assms]
  by (auto simp: do_authorize_def do_track_def do_return_def do_negotiate_def do_confirm_receipt_def
      negotiated_txn_def confirmed_txn_def wp Let_def answer_def simp del: append_Cons
      split: sum.split option.split)

lemma buy_answers:
  assumes "icp_ok s" "period_ok E mandate"
  shows "ends (do_buy E inp mandate) s answer (\<lambda>e _. e \<noteq> Panic)"
  unfolding do_buy_def ends_andthen Let_def ends_options ends_lookups ends_basic(4) ends_quote_open
  using icp_ok_keys(1) [OF assms(1)]
  by (auto simp: ends_quote_open ends_updates ends_options ends_basic(1,2) answer_def simp del: append_Cons split: sum.split option.split
      intro!: ends_reserve_ok [OF assms(2)] ends_persist)

lemma ends_charge_ok:
  assumes "\<And>txn o1. txn_id txn = ''txn_'' @ u \<Longrightarrow>
      Q (txn, o1) (s\<lparr>ic_txns := st_put (''txn_'' @ u) txn (ic_txns s)\<rparr>)"
    and "\<And>e. e \<noteq> Panic \<Longrightarrow> F e s"
  shows "ends (run_subscription_charge E now u inp b sh items c) s Q F"
  by (auto simp: ends_charge Let_def simp del: append_Cons split: sum.split intro!: assms dest: persist_fails)

lemma subscription_answers:
  assumes "period_ok E mandate"
  shows "ends (do_subscribe E inp mandate) s answer (\<lambda>e _. e \<noteq> Panic)"
    and "ends (do_renew E inp mandate) s answer (\<lambda>e _. e \<noteq> Panic)"
    and "ends (do_pause E inp) s answer (\<lambda>e _. e \<noteq> Panic)"
    and "ends (do_cancel_subscription E inp) s answer (\<lambda>e _. e \<noteq> Panic)"
proof -
  show "ends (do_subscribe E inp mandate) s answer (\<lambda>e _. e \<noteq> Panic)"
    unfolding do_subscribe_def ends_andthen Let_def ends_options ends_lookups ends_basic
    by (auto simp: ends_andthen subscribe_now_def subscribe_trial_def Let_def ends_options ends_stores ends_basic
        answer_def simp del: append_Cons split: sum.split option.split
        intro!: ends_reserve_ok [OF assms] ends_charge_ok)
  show "ends (do_renew E inp mandate) s answer (\<lambda>e _. e \<noteq> Panic)"
    unfolding do_renew_def ends_andthen Let_def ends_options ends_lookups ends_basic
    by (auto simp: ends_andthen renew_charge_def Let_def ends_options ends_updates ends_basic
        answer_def simp del: append_Cons split: sum.split option.split
        intro!: ends_reserve_ok [OF assms] ends_charge_ok)
  show "ends (do_pause E inp) s answer (\<lambda>e _. e \<noteq> Panic)"
    "ends (do_cancel_subscription E inp) s answer (\<lambda>e _. e \<noteq> Panic)"
    by (auto simp: do_pause_def do_cancel_subscription_def wp Let_def answer_def simp del: append_Cons
        split: sum.split option.split)
qed

lemma peer_answers:
  assumes "period_ok E mandate"
  shows "ends (do_a2a_quote E inp mandate) s answer (\<lambda>e _. e \<noteq> Panic)"
    and "ends (do_a2a_pay E inp mandate) s answer (\<lambda>e _. e \<noteq> Panic)"
proof -
  show "ends (do_a2a_quote E inp mandate) s answer (\<lambda>e _. e \<noteq> Panic)"
    by (auto simp: do_a2a_quote_def wp Let_def answer_def simp del: append_Cons split: sum.split option.split)
  have "ends (settle_payment E inp mandate params peer_id money quote) s answer (\<lambda>e _. e \<noteq> Panic)"
    for params peer_id money quote s
    unfolding settle_payment_def ends_andthen Let_def
    by (auto simp: wp answer_def simp del: append_Cons split: option.split intro!: ends_reserve_ok [OF assms])
  then show "ends (do_a2a_pay E inp mandate) s answer (\<lambda>e _. e \<noteq> Panic)"
    unfolding do_a2a_pay_def ends_andthen Let_def ends_options ends_basic
    by (auto simp del: append_Cons split: sum.split intro!: ends_payable)
qed

lemma dispatch_answers:
  assumes "icp_ok s" "period_ok E mandate"
  shows "ends (dispatch E inp mandate i) s answer
    (\<lambda>e s'. e = Panic \<longrightarrow> i = IQuote \<and> quote_panics E inp \<and> s' = s)"
proof (cases "i = IQuote")
  case True
  then show ?thesis by (simp add: catalog_answers)
next
  case False
  then have "ends (dispatch E inp mandate i) s answer (\<lambda>e _. e \<noteq> Panic)"
    using assms
    by (cases i) (simp_all add: catalog_answers order_answers buy_answers subscription_answers peer_answers
        do_refund_request_def)
  then show ?thesis by (rule ends_mono) auto
qed

section \<open>Properties\<close>

text \<open>C23 (refinement). Every call of the dispatcher, successful or not, for whatever intent,
  parameters, mandate, engine and clock, refines the abstract specification: it is a sequence
  of steps of the caller's tenant, along the moves of the life cycles, creating only
  identifiers that the call draws fresh, or names as a search, a describe or a quote; and it keeps the stores well formed.\<close>

theorem handle_intent_refines_spec:
  assumes "icp_ok s" and "handle_intent E inp s = (r, s')"
  shows "call_steps (in_tenant_id inp) (new_ids E inp) s s' \<and> icp_ok s'"
  using handle_intent_steps [OF assms] handle_intent_ok [OF assms] by blast

text \<open>Tenant isolation: a call leaves every transaction, subscription and quote of
  another tenant exactly as it was, unless the call, as a search, describe or quote, names its identifier or draws
  it; and whatever the state holds for another tenant afterwards was there before, so no
  call ever creates or alters anything in another tenant's name.\<close>

lemma tenants_isolated:
  assumes "icp_ok s" and "handle_intent E inp s = (r, s')"
  shows "others_kept (in_tenant_id inp) (new_ids E inp) s s' \<and>
    owners_kept (in_tenant_id inp) (new_ids E inp) s s'"
  using isolation.steps_property ownership.steps_property handle_intent_steps [OF assms] by blast

text \<open>Sequences of calls, by any tenants, none of which creates the identifier \<open>k\<close>.\<close>

inductive serves :: "string \<Rightarrow> icp \<Rightarrow> icp \<Rightarrow> bool" for k where
  idle: "serves k s s"
| call: "serves k s s1 \<Longrightarrow> handle_intent E inp s1 = (r, s2) \<Longrightarrow> k \<notin> new_ids E inp \<Longrightarrow> serves k s s2"

lemma finals_kept_subset: "finals_kept I s s' \<Longrightarrow> k \<notin> I \<Longrightarrow> finals_kept (- {k}) s s'"
  unfolding finals_kept_def by blast

lemma serves_finals: "serves k s s' \<Longrightarrow> icp_ok s \<Longrightarrow> finals_kept (- {k}) s s' \<and> icp_ok s'"
proof (induction rule: serves.induct)
  case (idle s)
  then show ?case by (simp add: finality.R_refl)
next
  case (call s s1 E inp r s2)
  then have "finals_kept (- {k}) s s1" "icp_ok s1" by blast+
  moreover have "finals_kept (- {k}) s1 s2"
    using finality.steps_property [OF handle_intent_steps [OF \<open>icp_ok s1\<close> call.hyps(2)]] call.hyps(3)
    by (rule finals_kept_subset)
  ultimately show ?case
    using finals_kept_trans handle_intent_ok [OF \<open>icp_ok s1\<close> call.hyps(2)] by blast
qed

text \<open>C25 (invariant). What is stored under an identifier and final stays final through any sequence of
  dispatcher calls by any tenants of which none is a search, describe or quote that names this identifier
  as its transaction, or draws it as a fresh one (the \<open>new_ids\<close> of a call): a canceled subscription never changes
  again; a paused one is never charged again; an accepted, expired or rejected peer quote never changes again, so it
  is never paid twice; and a transaction past its quote keeps its owner, lines, currency and
  totals, and once completed can only be reversed. The excluded calls are real: a search, describe or quote
  that names a stored transaction replaces it, whatever its state and owner (\<open>search_overwrites_foreign_transaction\<close>).\<close>

theorem final_states_final:
  assumes "icp_ok s" and "serves k s s'"
  shows "(\<forall>x. st_get (ic_subs s) k = Some x \<and> sub_status x = SubCanceled \<longrightarrow> st_get (ic_subs s') k = Some x) \<and>
    (\<forall>x. st_get (ic_subs s) k = Some x \<and> sub_status x = Paused \<longrightarrow>
       (\<exists>x'. st_get (ic_subs s') k = Some x' \<and> sub_status x' \<in> {Paused, SubCanceled} \<and>
          sub_charges_completed x' = sub_charges_completed x)) \<and>
    (\<forall>q. st_get (ic_quotes s) k = Some q \<and> pq_status q \<noteq> PqQuoted \<longrightarrow> st_get (ic_quotes s') k = Some q) \<and>
    (\<forall>t. st_get (ic_txns s) k = Some t \<and> \<not> pre_auth (txn_state t) \<longrightarrow>
       (\<exists>t'. st_get (ic_txns s') k = Some t' \<and> txn_settled t t'))"
  using serves_finals [OF assms(2,1)] unfolding finals_kept_def by simp

subsection \<open>The mandate gate and panics\<close>

definition admitted :: "env \<Rightarrow> intent_input \<Rightarrow> icp \<Rightarrow> intent \<Rightarrow> mandate_evaluation option \<Rightarrow> bool" where
  "admitted E inp s i mandate \<longleftrightarrow>
     (case scope i of
        None \<Rightarrow> mandate = None
      | Some sc \<Rightarrow>
          if in_skip_mandate_check inp then mandate = None
          else case in_mandate_jws inp of
            None \<Rightarrow> mandate = None \<and> \<not> cf_require_mandate (e_cfg E)
          | Some jws \<Rightarrow> (\<exists>ev. mandate = Some ev \<and> md_sub (ev_payload ev) = in_agent_raw inp \<and>
              evaluate (e_chrono E) (e_crypto E) (\<lambda>jti. Inr (mem_usage (ic_ledger s) jti))
                (cf_verify_mandate_signatures (e_cfg E)) jws sc
                (estimate_intent_amount_minor (in_envelope inp)) (e_now E 3) (in_tenant_id inp)
                (cx_jurisdiction (en_context (in_envelope inp))) = Inr ev))"

lemma evaluate_panic:
  assumes "evaluate C K lookup v jws sc a now tenant jur = Inl Panic"
  shows "\<exists>payload. decode_unverified K jws = Inr payload \<and>
    parse_period C (mb_period (mt_budget (md_icp payload))) = PeriodPanic"
proof (cases "decode_unverified K jws")
  case (Inl e)
  then show ?thesis using assms by (simp add: evaluate_def bind_result_def)
next
  case (Inr payload)
  then show ?thesis
    using assms
    by (auto simp: evaluate_def Let_def bind_result_def lift_result_def budget_window_def
        split: sum.splits period.splits if_splits)
qed

lemma evaluate_period_ok:
  assumes "evaluate (e_chrono E) K lookup v jws sc a now tenant jur = Inr ev"
  shows "period_ok E (Some ev)"
proof -
  obtain w where "budget_window (e_chrono E) (mb_period (mt_budget (md_icp (ev_payload ev)))) = Inr w"
    using assms by (auto simp: evaluate_iff)
  then show ?thesis by (auto simp: period_ok_def budget_window_def)
qed

lemma period_ok_None [simp]: "period_ok E None"
  by (simp add: period_ok_def)

text \<open>A call is refused at the door, without a change, or its intent runs with what was admitted.\<close>

lemma handle_intent_gate:
  assumes "\<And>i mandate. parse_intent (en_intent (in_envelope inp)) = Inr i \<Longrightarrow> admitted E inp s i mandate \<Longrightarrow>
      en_agent_id (in_envelope inp) = in_agent_raw inp \<Longrightarrow> period_ok E mandate \<Longrightarrow>
      ends (dispatch E inp mandate i) s (\<lambda>out s'. ends (publish_outcome E inp i mandate out) s' Q F) F"
    and "\<And>e. F (Fail e) s"
    and "\<And>jws payload. in_mandate_jws inp = Some jws \<Longrightarrow> decode_unverified (e_crypto E) jws = Inr payload \<Longrightarrow>
      parse_period (e_chrono E) (mb_period (mt_budget (md_icp payload))) = PeriodPanic \<Longrightarrow> F Panic s"
  shows "ends (handle_intent E inp) s Q F"
proof -
  have fault: "F e s" if "evaluate (e_chrono E) (e_crypto E) lk v jws sc a now tn jur = Inl e"
      "in_mandate_jws inp = Some jws" for e lk v jws sc a now tn jur
    using that assms(2,3) evaluate_panic [of "e_chrono E" "e_crypto E" lk v jws sc a now tn jur] by (cases e) auto
  show ?thesis
    by (auto simp: handle_intent_def wp admitted_def simp del: append_Cons
        split: sum.split option.split intro!: assms(1,2) intro: fault evaluate_period_ok)
qed

text \<open>The whole effect of publishing.\<close>

definition published ::
  "env \<Rightarrow> intent_input \<Rightarrow> intent \<Rightarrow> mandate_evaluation option \<Rightarrow> outcome \<Rightarrow> icp \<Rightarrow> intent_response_body \<Rightarrow> icp \<Rightarrow> bool" where
  "published E inp i mandate out s body s' \<longleftrightarrow>
     (let ev = intent_event E inp i out body; blank = response_body E inp i out in
        body = blank\<lparr>rb_receipt := rb_receipt body\<rparr> \<and>
        ic_txns s' = ic_txns s \<and> ic_subs s' = ic_subs s \<and> ic_quotes s' = ic_quotes s \<and>
        ic_ledger s' = ic_ledger s \<and> ic_subscribers s' = ic_subscribers s \<and>
        ic_bus s' = ic_bus s @ [ev] \<and>
        (if is_state_change i then
           (\<exists>raw sg. e_body_jcs E blank = Inr raw \<and>
              sign_receipt (e_sig_lib E) (e_signer E) (e_timestamp E (e_now E 5)) (e_uuid E 3)
                (in_agent_raw inp) (cf_public_base_url (e_cfg E)) (wire_name i) (txn_id (oc_transaction out))
                (map_option os_id (oc_order out)) (map_option (\<lambda>m. md_jti (ev_payload m)) mandate) raw = Inr sg \<and>
              rb_receipt body = receipt_stub_of sg \<and>
              ic_receipts s' = receipt_insert (stored_of sg) (ic_receipts s)) \<and>
           ic_outbox s' = ic_outbox (snd (enqueue_webhook E (e_now E 7) (\<lambda>k. e_uuid E (5 + k)) ev
             (Some (in_tenant_id inp)) s))
         else rb_receipt body = no_receipt E \<and> ic_receipts s' = ic_receipts s \<and> ic_outbox s' = ic_outbox s))"

lemma response_body_simps [simp]:
  "rb_transaction (response_body E inp i out) = oc_transaction out"
  "rb_order (response_body E inp i out) = oc_order out"
  "rb_receipt (response_body E inp i out) = no_receipt E"
  by (simp_all add: response_body_def)

lemma snd_modify: "snd (modify g s) = g s"
  by (simp add: modify_def)

lemma publish_effect:
  "ends (publish_outcome E inp i mandate out) s (published E inp i mandate out s) (\<lambda>e s'. s' = s \<and> e \<noteq> Panic)"
  by (auto simp: publish_outcome_def issue_receipt_def enqueue_webhook_def snd_modify emit_def wp Let_def published_def simp del: append_Cons split: sum.split)


text \<open>No scoped intent runs without its mandate: outside the compatibility paths,
  where mandates are required, a call either found a mandate in the header that evaluates
  for this scope, estimated amount, tenant, jurisdiction and ledger at this time, and whose
  subject is the calling agent, or it is refused and changes nothing at all.\<close>

lemma scoped_intent_needs_mandate:
  assumes "parse_intent (en_intent (in_envelope inp)) = Inr i" and "scope i = Some sc"
    and "\<not> in_skip_mandate_check inp" and "cf_require_mandate (e_cfg E)"
    and "handle_intent E inp s = (r, s')"
  shows "(\<exists>jws ev. in_mandate_jws inp = Some jws \<and> md_sub (ev_payload ev) = in_agent_raw inp \<and>
      en_agent_id (in_envelope inp) = in_agent_raw inp \<and>
      evaluate (e_chrono E) (e_crypto E) (\<lambda>jti. Inr (mem_usage (ic_ledger s) jti))
        (cf_verify_mandate_signatures (e_cfg E)) jws sc
        (estimate_intent_amount_minor (in_envelope inp)) (e_now E 3) (in_tenant_id inp)
        (cx_jurisdiction (en_context (in_envelope inp))) = Inr ev) \<or>
    (s' = s \<and> (\<exists>e. r = Inl e))"
    (is "?A \<or> ?B")
proof (cases ?A)
  case False
  have "ends (handle_intent E inp) s (\<lambda>_ _. False) (\<lambda>_ s'. s' = s)"
  proof (rule handle_intent_gate)
    fix i' mandate
    assume "parse_intent (en_intent (in_envelope inp)) = Inr i'" "admitted E inp s i' mandate"
      "en_agent_id (in_envelope inp) = in_agent_raw inp"
    then have False using False assms(1-4) by (auto simp: admitted_def split: option.splits)
    then show "ends (dispatch E inp mandate i') s
        (\<lambda>out s'. ends (publish_outcome E inp i' mandate out) s' (\<lambda>_ _. False) (\<lambda>_ s'. s' = s)) (\<lambda>_ s'. s' = s)" ..
  qed simp_all
  from ends_result [OF this assms(5)] show ?thesis by (auto split: sum.splits)
qed simp


subsection \<open>What a call publishes\<close>

text \<open>A call that succeeds ran its handler from the same state, quietly, and published the result;
  one that fails published nothing.\<close>

definition served ::
  "env \<Rightarrow> intent_input \<Rightarrow> icp \<Rightarrow> intent \<Rightarrow> mandate_evaluation option \<Rightarrow> outcome \<Rightarrow> icp \<Rightarrow> intent_response_body
    \<Rightarrow> icp \<Rightarrow> bool" where
  "served E inp s i mandate out s1 body s' \<longleftrightarrow>
     parse_intent (en_intent (in_envelope inp)) = Inr i \<and> admitted E inp s i mandate \<and>
     dispatch E inp mandate i s = (Inr out, s1) \<and> quiet s s1 \<and> answer out s1 \<and>
     txn_tenant_id (oc_transaction out) = in_tenant_id inp \<and> published E inp i mandate out s1 body s'"

lemma ends_self: "ends m s (\<lambda>x s'. m s = (Inr x, s')) (\<lambda>e s'. m s = (Inl e, s'))"
  by (simp add: ends_def split: prod.split sum.split)

lemma dispatch_quiet:
  assumes "icp_ok s" "parse_intent (en_intent (in_envelope inp)) = Inr i"
  shows "ends (dispatch E inp mandate i) s
    (\<lambda>out s1. quiet s s1 \<and> txn_tenant_id (oc_transaction out) = in_tenant_id inp) (\<lambda>_ s1. quiet s s1)"
  using dispatch_refines [OF assms(2), of E mandate, unfolded refines_def, rule_format, OF assms(1)]
  by (rule ends_mono) (auto dest: silence.steps_property)

lemma handle_intent_served:
  assumes "icp_ok s"
  shows "ends (handle_intent E inp) s
    (\<lambda>body s'. \<exists>i mandate out s1. served E inp s i mandate out s1 body s') (\<lambda>_ s'. quiet s s')"
proof (rule handle_intent_gate)
  fix i mandate
  assume gate: "parse_intent (en_intent (in_envelope inp)) = Inr i" "admitted E inp s i mandate"
    "period_ok E mandate"
  have run: "ends (dispatch E inp mandate i) s
      (\<lambda>out s1. dispatch E inp mandate i s = (Inr out, s1) \<and>
         (quiet s s1 \<and> txn_tenant_id (oc_transaction out) = in_tenant_id inp) \<and> answer out s1)
      (\<lambda>e s1. dispatch E inp mandate i s = (Inl e, s1) \<and> quiet s s1 \<and>
         (e = Panic \<longrightarrow> i = IQuote \<and> quote_panics E inp \<and> s1 = s))"
    by (intro ends_conj ends_self dispatch_quiet dispatch_answers assms gate)
  have "ends (publish_outcome E inp i mandate out) s1
      (\<lambda>body s'. \<exists>i mandate out s1. served E inp s i mandate out s1 body s') (\<lambda>_ s'. quiet s s')"
    if "dispatch E inp mandate i s = (Inr out, s1) \<and>
         (quiet s s1 \<and> txn_tenant_id (oc_transaction out) = in_tenant_id inp) \<and> answer out s1" for out s1
    using publish_effect by (rule ends_mono) (use that gate in \<open>auto simp: served_def\<close>)
  then show "ends (dispatch E inp mandate i) s
      (\<lambda>out s'. ends (publish_outcome E inp i mandate out) s'
         (\<lambda>body s'. \<exists>i mandate out s1. served E inp s i mandate out s1 body s') (\<lambda>_ s'. quiet s s'))
      (\<lambda>_ s'. quiet s s')"
    by (intro ends_mono [OF run]) blast+
qed (simp_all add: quiet_def)

lemma receipt_fields:
  "sign_receipt L sn iat u aud iss intent txn order jti raw = Inr r \<Longrightarrow>
   rc_aud (sg_claims r) = aud \<and> ri_intent (rc_icp (sg_claims r)) = intent \<and>
   ri_transaction_id (rc_icp (sg_claims r)) = txn \<and> ri_mandate_jti (rc_icp (sg_claims r)) = jti"
  by (auto simp: sign_receipt_def Let_def split: sum.splits)

text \<open>C28 (functional). Every state-changing intent that succeeds is receipted: the receipt of the
  response is stored under its identifier, verifies with the handler's key against the
  canonical bytes of that very response with its receipt blanked, names the calling agent,
  the intent and the transaction of the response; and all other receipts are kept.\<close>

theorem state_changes_receipted:
  assumes "icp_ok s" and "handle_intent E inp s = (Inr body, s')"
    and "parse_intent (en_intent (in_envelope inp)) = Inr i" and "is_state_change i"
    and "sig_lib_ok (e_sig_lib E) (e_signer E)"
  shows "\<exists>raw r. let stub = rb_receipt body in
    e_body_jcs E (body\<lparr>rb_receipt := no_receipt E\<rparr>) = Inr raw \<and>
    receipt_get (rs_jti stub) (ic_receipts s') = Some r \<and> st_jws r = rs_jws stub \<and>
    verify_receipt (e_sig_lib E) (e_signer E) (rs_jws stub) (Some raw) = Inr (st_claims r) \<and>
    rc_aud (st_claims r) = in_agent_raw inp \<and> ri_intent (rc_icp (st_claims r)) = wire_name i \<and>
    ri_transaction_id (rc_icp (st_claims r)) = txn_id (rb_transaction body) \<and>
    (\<forall>j. j \<noteq> rs_jti stub \<longrightarrow> receipt_get j (ic_receipts s') = receipt_get j (ic_receipts s))"
proof -
  obtain mandate out s1 where served: "served E inp s i mandate out s1 body s'"
    using ends_Inr [OF handle_intent_served [OF assms(1)] assms(2)] assms(3) by (auto simp: served_def)
  then have pub: "published E inp i mandate out s1 body s'" and quiet: "ic_receipts s1 = ic_receipts s"
    by (simp_all add: served_def quiet_def)
  obtain raw sg where raw: "e_body_jcs E (response_body E inp i out) = Inr raw"
    and sg: "sign_receipt (e_sig_lib E) (e_signer E) (e_timestamp E (e_now E 5)) (e_uuid E 3)
                (in_agent_raw inp) (cf_public_base_url (e_cfg E)) (wire_name i) (txn_id (oc_transaction out))
                (map_option os_id (oc_order out)) (map_option (\<lambda>m. md_jti (ev_payload m)) mandate) raw = Inr sg"
    and stub: "rb_receipt body = receipt_stub_of sg"
    and rs: "ic_receipts s' = receipt_insert (stored_of sg) (ic_receipts s1)"
    and body: "body = (response_body E inp i out)\<lparr>rb_receipt := rb_receipt body\<rparr>"
    using pub assms(4) by (auto simp: published_def Let_def)
  have blank: "body\<lparr>rb_receipt := no_receipt E\<rparr> = response_body E inp i out"
    "rb_transaction body = oc_transaction out"
    by (subst body, simp add: response_body_def)+
  show ?thesis
    using raw receipt_fields [OF sg] sign_verify [OF assms(5) sg, of "Some raw"]
    by (intro exI [of _ raw] exI [of _ "stored_of sg"])
      (simp add: blank stub rs quiet receipt_stub_of_def stored_of_def receipt_insert_def receipt_get_def)
qed

text \<open>C29 (safety). A call that succeeds emits exactly one event; it names the transaction of the
  response, which is stored as answered and belongs to the caller's tenant, so the filter of
  the streaming endpoints shows the event to that tenant and to no other. A call that fails
  emits no event, issues no receipt and enqueues no delivery.\<close>

theorem one_event_per_success:
  assumes "icp_ok s" and "handle_intent E inp s = (r, s')"
  shows "case r of
      Inl e \<Rightarrow> quiet s s'
    | Inr body \<Rightarrow> \<exists>ev. ic_bus s' = ic_bus s @ [ev] \<and>
        et_transaction_id ev = Some (txn_id (rb_transaction body)) \<and>
        st_get (ic_txns s') (txn_id (rb_transaction body)) = Some (rb_transaction body) \<and>
        (\<forall>t. event_belongs_to_tenant s' ev t \<longleftrightarrow> t = in_tenant_id inp)"
proof (cases r)
  case (Inl e)
  then show ?thesis using ends_Inl [OF handle_intent_served [OF assms(1)] assms(2) [unfolded Inl]] by simp
next
  case (Inr body)
  then obtain i mandate out s1 where served: "served E inp s i mandate out s1 body s'"
    using ends_Inr [OF handle_intent_served [OF assms(1)] assms(2) [unfolded Inr]] by blast
  then have pub: "ic_bus s' = ic_bus s @ [intent_event E inp i out body]" "ic_txns s' = ic_txns s1"
    and body: "body = (response_body E inp i out)\<lparr>rb_receipt := rb_receipt body\<rparr>"
    and txn: "st_get (ic_txns s1) (txn_id (oc_transaction out)) = Some (oc_transaction out)"
      "txn_tenant_id (oc_transaction out) = in_tenant_id inp"
    by (simp_all add: served_def quiet_def answer_def published_def Let_def)
  have "rb_transaction body = oc_transaction out" by (subst body) (simp add: response_body_def)
  then show ?thesis
    using pub txn by (auto simp: Inr intent_event_def event_belongs_to_tenant_def)
qed

lemma delivery_for_id [simp]: "dl_id (delivery_for E now ev t u url) = ''del_'' @ u"
  by (simp add: delivery_for_def)

lemma fan_out:
  assumes "inj u"
  shows "let ob' = fold (\<lambda>(i, url) ob. ob_enqueue (delivery_for E now ev t (u i) url) ob)
      (zip [0 ..< length urls] urls) ob in
    (\<forall>j < length urls. st_get ob' (''del_'' @ u j) = Some (delivery_for E now ev t (u j) (urls ! j))) \<and>
    (\<forall>k. (\<forall>j < length urls. k \<noteq> ''del_'' @ u j) \<longrightarrow> st_get ob' k = st_get ob k)"
proof (induction urls rule: rev_induct)
  case Nil
  then show ?case by simp
next
  case (snoc url urls)
  have "zip [0 ..< length (urls @ [url])] (urls @ [url]) = zip [0 ..< length urls] urls @ [(length urls, url)]"
    by simp
  then show ?case
    using snoc assms
    by (auto simp: Let_def ob_enqueue_def nth_append less_Suc_eq inj_eq simp del: append_Cons)
qed

definition list_option :: "'a option \<Rightarrow> 'a list" where
  "list_option x = (case x of Some v \<Rightarrow> [v] | None \<Rightarrow> [])"

text \<open>C30 (functional). The webhook fan-out: a state-changing intent that succeeds enqueues exactly
  one pending delivery of the event it publishes, due at once and in the tenant's name, for each active subscriber of
  the caller's tenant, or one for the global address when the tenant has none and one is
  configured with its secret; every other delivery is kept as it was. Read-only intents
  enqueue nothing.\<close>

theorem webhook_fan_out:
  assumes "icp_ok s" and "handle_intent E inp s = (Inr body, s')"
    and "parse_intent (en_intent (in_envelope inp)) = Inr i" and "inj (e_uuid E)"
  shows "\<exists>ev. let T = in_tenant_id inp; c = e_cfg E;
      subs = map ws_url (filter (\<lambda>w. ws_tenant_id w = T \<and> ws_active w) (st_values (ic_subscribers s)));
      urls = (if \<not> is_state_change i then []
              else if subs \<noteq> [] then subs
              else if cf_webhook_secret c = None then [] else list_option (cf_webhook_url c)) in
    ic_bus s' = ic_bus s @ [ev] \<and>
    (\<forall>j < length urls. st_get (ic_outbox s') (''del_'' @ e_uuid E (5 + j)) =
       Some \<lparr>dl_id = ''del_'' @ e_uuid E (5 + j), dl_event_id = et_id ev, dl_event_type = et_type ev,
         dl_url = urls ! j, dl_payload_json = e_event_text E ev, dl_status = DsPending, dl_attempts = 0,
         dl_max_attempts = default_max_attempts, dl_next_attempt_at = e_now E 7, dl_last_status_code = None,
         dl_last_error = None, dl_created_at = e_now E 7, dl_updated_at = e_now E 7, dl_delivered_at = None,
         dl_tenant_id = T\<rparr>) \<and>
    (\<forall>k. (\<forall>j < length urls. k \<noteq> ''del_'' @ e_uuid E (5 + j)) \<longrightarrow>
       st_get (ic_outbox s') k = st_get (ic_outbox s) k)"
proof -
  obtain mandate out s1 where served: "served E inp s i mandate out s1 body s'"
    using ends_Inr [OF handle_intent_served [OF assms(1)] assms(2)] assms(3) by (auto simp: served_def)
  let ?ev = "intent_event E inp i out body"
  let ?urls = "webhook_destinations (e_cfg E) (ic_subscribers s) (Some (in_tenant_id inp))"
  have inj: "inj (\<lambda>k. e_uuid E (5 + k))" by (rule injI) (drule injD [OF assms(4)], simp)
  have ob: "ic_outbox s' = (if is_state_change i
      then fold (\<lambda>(k, url) ob. ob_enqueue (delivery_for E (e_now E 7) ?ev (Some (in_tenant_id inp)) (e_uuid E (5 + k)) url) ob)
        (zip [0 ..< length ?urls] ?urls) (ic_outbox s)
      else ic_outbox s)"
    using served by (simp add: served_def published_def quiet_def Let_def enqueue_webhook_def snd_modify)
  have bus: "ic_bus s' = ic_bus s @ [?ev]"
    using served by (simp add: served_def published_def quiet_def Let_def)
  have urls: "?urls = (let subs = map ws_url (filter (\<lambda>w. ws_tenant_id w = in_tenant_id inp \<and> ws_active w) (st_values (ic_subscribers s)))
      in if subs \<noteq> [] then subs
         else if cf_webhook_secret (e_cfg E) = None then [] else list_option (cf_webhook_url (e_cfg E)))"
    by (auto simp: webhook_destinations_def ws_list_active_for_tenant_def ws_list_for_tenant_def Let_def
        list_option_def conj_commute split: option.split)
  show ?thesis
    using fan_out [OF inj, of E "e_now E 7" ?ev "Some (in_tenant_id inp)" ?urls "ic_outbox s"]
    by (intro exI [of _ ?ev]) (cases "is_state_change i"; simp add: ob bus urls Let_def delivery_for_def del: append_Cons)
qed

section \<open>Runs for evaluation\<close>

text \<open>A search, a return on the compatibility path with a receipt and a registered subscriber, and a
  purchase without its mandate.\<close>

lemma parse_wire: "parse_intent (wire_name i) = Inr i"
  unfolding parse_intent_def trim_wire_name Let_def
  by (cases i) (simp_all add: strip_prefix_def intent_of_name_iff)

lemma parses:
  "parse_intent ''intent.search'' = Inr ISearch" "parse_intent ''intent.return'' = Inr IReturn"
  "parse_intent ''intent.buy'' = Inr IBuy"
  using parse_wire [of ISearch] parse_wire [of IReturn] parse_wire [of IBuy] by simp_all

lemma demo_searches:
  "\<exists>body s'. handle_intent demo_env (demo_input ''intent.search'') s = (Inr body, s')"
proof -
  have "ends (handle_intent demo_env (demo_input ''intent.search'')) s (\<lambda>_ _. True) (\<lambda>_ _. False)"
    by (simp add: handle_intent_def wp parses do_search_def publish_outcome_def issue_receipt_def
        is_state_change_def emit_def Let_def demo_input_def for_icp_def demo_agent_def)
  then show ?thesis by (auto simp: ends_def split: prod.splits sum.splits)
qed

definition return_input :: intent_input where
  "return_input = for_compat
     \<lparr>en_intent = ''intent.return'', en_intent_id = Some ''int_1'', en_transaction_id = Some ''txn_1'',
      en_agent_id = ''agent'', en_mandate_jti = None, en_params = JNull,
      en_context = intent_context_default\<rparr> demo_agent demo_tenant ''req_1'' None"

definition return_claims :: receipt_claims where
  "return_claims = \<lparr>rc_iss = ''http://h'', rc_aud = ''agent'', rc_iat = 7, rc_jti = ''rcpt_3'',
     rc_icp = \<lparr>ri_version = icp_version_const, ri_intent = ''intent.return'', ri_transaction_id = ''txn_1'',
       ri_order_id = None, ri_mandate_jti = None, ri_body_digest = ''sha256:body'',
       ri_body_canonicalization = ''jcs''\<rparr>\<rparr>"

definition return_env :: env where
  "return_env = demo_env\<lparr>e_sig_lib := demo_sig_lib\<lparr>
     sl_claims_to_jcs := \<lambda>c. if c = return_claims then Inr ''c'' else Inl ''x'',
     sl_claims_of_json := \<lambda>_. Inr return_claims\<rparr>\<rparr>"

definition return_state :: icp where
  "return_state = demo_state\<lparr>ic_subscribers := [(''w'', \<lparr>ws_id = ''w'', ws_tenant_id = ''shop'',
     ws_url = ''https://hook'', ws_secret = None, ws_active = True, ws_created_at = 0, ws_updated_at = 0\<rparr>)]\<rparr>"

lemma return_state_ok: "icp_ok return_state"
  using demo_state_ok by (simp add: return_state_def icp_ok_def)

lemma return_lib_ok: "sig_lib_ok (e_sig_lib return_env) (e_signer return_env)"
  using demo_sig_lib_ok by (simp add: return_env_def sig_lib_ok_def demo_env_def)

lemma demo_returns: "\<exists>body s'. handle_intent return_env return_input return_state = (Inr body, s')"
proof -
  have three: "show_nat 3 = ''3''" by code_simp
  have "ends (handle_intent return_env return_input) return_state (\<lambda>_ _. True) (\<lambda>_ _. False)"
    by (simp add: handle_intent_def wp parses do_return_def publish_outcome_def issue_receipt_def
        is_state_change_def emit_def enqueue_webhook_def Let_def return_input_def for_compat_def demo_agent_def
        return_env_def demo_env_def return_state_def demo_state_def st_get_def demo_txn_def
        fresh_transaction_def demo_input_def for_icp_def demo_tenant_def response_body_def txn_outcome_def
        sign_receipt_def demo_sig_lib_def demo_signer_def demo_header_def return_claims_def three demo_cfg_def)
  then show ?thesis by (auto simp: ends_def split: prod.splits sum.splits)
qed

theorem handle_intent_refines_spec_witness:
  "\<exists>body s'. handle_intent demo_env (demo_input ''intent.search'') demo_state = (Inr body, s') \<and>
     call_steps ''shop'' (new_ids demo_env (demo_input ''intent.search'')) demo_state s' \<and> icp_ok s'"
proof -
  have T: "in_tenant_id (demo_input i) = ''shop''" for i by (simp add: demo_input_def for_icp_def demo_tenant_def)
  obtain body s' where run: "handle_intent demo_env (demo_input ''intent.search'') demo_state = (Inr body, s')"
    using demo_searches by blast
  show ?thesis using handle_intent_refines_spec [OF demo_state_ok run] run by (auto simp: T)
qed

text \<open>The same search by another tenant does not touch the transaction of \<open>shop\<close>.\<close>

lemma new_id_shape:
  "k \<in> new_ids E inp \<Longrightarrow> en_transaction_id (in_envelope inp) = None \<Longrightarrow>
   \<exists>p i. k = p @ e_uuid E i \<and> p \<in> {''txn_'', ''sub_'', ''pq_''}"
  by (auto simp: new_ids_def named_ids_def simp del: append_Cons split: if_splits)

definition canceled_state :: icp where
  "canceled_state = demo_state\<lparr>ic_subs := [(''sub_x'', demo_sub\<lparr>sub_id := ''sub_x'', sub_status := SubCanceled\<rparr>)]\<rparr>"

lemma canceled_state_ok: "icp_ok canceled_state"
  by (simp add: icp_ok_def canceled_state_def demo_state_def st_ok_def keyed_by_def st_get_def demo_txn_def)

lemma sub_x_not_new: "''sub_x'' \<notin> new_ids demo_env (demo_input i)"
proof
  assume "''sub_x'' \<in> new_ids demo_env (demo_input i)"
  then obtain p n where "''sub_x'' = p @ show_nat n" "p \<in> {''txn_'', ''sub_'', ''pq_''}"
    using new_id_shape [of "''sub_x''" demo_env "demo_input i"]
    by (auto simp: demo_env_def demo_input_def for_icp_def simp del: append_Cons)
  then have "show_nat n = ''x''" by auto
  then show False using show_nat_digits [of "CHR ''x''" n] by (simp add: is_digit_def)
qed

theorem final_states_final_witness:
  "\<exists>body s'. handle_intent demo_env (demo_input ''intent.search'') canceled_state = (Inr body, s') \<and>
     st_get (ic_subs s') ''sub_x'' = st_get (ic_subs canceled_state) ''sub_x''"
proof -
  obtain body s' where run: "handle_intent demo_env (demo_input ''intent.search'') canceled_state = (Inr body, s')"
    using demo_searches by blast
  have "serves ''sub_x'' canceled_state s'"
    by (rule serves.call [OF serves.idle run sub_x_not_new])
  then show ?thesis
    using final_states_final [OF canceled_state_ok] run by (fastforce simp: canceled_state_def st_get_def)
qed




theorem state_changes_receipted_witness:
  "\<exists>body s' r. handle_intent return_env return_input return_state = (Inr body, s') \<and>
     receipt_get (rs_jti (rb_receipt body)) (ic_receipts s') = Some r \<and>
     verify_receipt (e_sig_lib return_env) (e_signer return_env) (rs_jws (rb_receipt body)) (Some ''body'')
       = Inr (st_claims r) \<and>
     ri_intent (rc_icp (st_claims r)) = ''intent.return''"
proof -
  obtain body s' where run: "handle_intent return_env return_input return_state = (Inr body, s')"
    using demo_returns by blast
  have i: "parse_intent (en_intent (in_envelope return_input)) = Inr IReturn" "is_state_change IReturn"
    by (simp_all add: return_input_def for_compat_def parses is_state_change_def)
  have raw: "e_body_jcs return_env b = Inr ''body''" for b by (simp add: return_env_def demo_env_def)
  show ?thesis
    using state_changes_receipted [OF return_state_ok run i return_lib_ok] run by (auto simp: Let_def raw)
qed

theorem one_event_per_success_witness:
  "\<exists>body s' ev. handle_intent demo_env (demo_input ''intent.search'') demo_state = (Inr body, s') \<and>
     ic_bus s' = [ev] \<and> event_belongs_to_tenant s' ev ''shop'' \<and> \<not> event_belongs_to_tenant s' ev ''other''"
proof -
  obtain body s' where run: "handle_intent demo_env (demo_input ''intent.search'') demo_state = (Inr body, s')"
    using demo_searches by blast
  have "in_tenant_id (demo_input i) = ''shop''" "ic_bus demo_state = []" for i
    by (simp_all add: demo_input_def for_icp_def demo_tenant_def demo_state_def)
  then show ?thesis using one_event_per_success [OF demo_state_ok run] run by auto
qed

theorem webhook_fan_out_witness:
  "\<exists>body s' d. handle_intent return_env return_input return_state = (Inr body, s') \<and>
     st_get (ic_outbox s') (''del_'' @ show_nat 5) = Some d \<and> dl_url d = ''https://hook'' \<and>
     dl_tenant_id d = ''shop'' \<and> dl_status d = DsPending"
proof -
  obtain body s' where run: "handle_intent return_env return_input return_state = (Inr body, s')"
    using demo_returns by blast
  have i: "parse_intent (en_intent (in_envelope return_input)) = Inr IReturn" "is_state_change IReturn"
    "in_tenant_id return_input = ''shop''"
    by (simp_all add: return_input_def for_compat_def parses is_state_change_def demo_tenant_def)
  have u: "e_uuid return_env = show_nat" by (simp add: return_env_def demo_env_def)
  then have inj: "inj (e_uuid return_env)" by (simp add: inj_def show_nat_inject)
  have subs: "st_values (ic_subscribers return_state) = [\<lparr>ws_id = ''w'', ws_tenant_id = ''shop'',
     ws_url = ''https://hook'', ws_secret = None, ws_active = True, ws_created_at = 0, ws_updated_at = 0\<rparr>]"
    by (simp add: return_state_def st_values_def)
  show ?thesis
    using webhook_fan_out [OF return_state_ok run i(1) inj] run
    by (auto simp: Let_def i u subs delivery_for_def simp del: append_Cons)
qed

end
