(* ===== verification/Resolver.thy ===== *)
theory Resolver
  imports Destination Service
begin

text \<open>
  Resolution of the DID of a principal to its keys (\<open>src/resolver.rs\<close>): \<open>did:key\<close>, whose key is in the identifier,
  \<open>did:web\<close>, whose document is fetched over HTTPS and cached, and the composition that mandate verification uses.
  Base58, base64, the test for a point of the curve, the URL parser, the DNS and the HTTP client with its JSON decoder
  are parameters. An entry has no \<open>alg\<close>, which is always \<open>EdDSA\<close>. The keys of an entry are their 32 bytes.
\<close>

datatype resolve_error =
    UnsupportedMethod string
  | MalformedDid string
  | KeyExtraction string
  | NetworkError string string
  | DidDocumentError string string
  | Blocked string string

fun resolve_message :: "resolve_error \<Rightarrow> string" where
  "resolve_message (UnsupportedMethod d) = ''unsupported DID method: `'' @ d @ ''`''"
| "resolve_message (MalformedDid m) = ''malformed DID: '' @ m"
| "resolve_message (KeyExtraction m) = ''key extraction failed: '' @ m"
| "resolve_message (NetworkError url source) = ''network error fetching `'' @ url @ ''`: '' @ source"
| "resolve_message (DidDocumentError url m) = ''DID document at `'' @ url @ ''` malformed: '' @ m"
| "resolve_message (Blocked url m) = ''refusing to resolve `'' @ url @ ''`: '' @ m"

type_synonym 'a resolved = "resolve_error + 'a"

section \<open>The document\<close>

record jwk =
  jk_kty :: "string option"
  jk_crv :: "string option"
  jk_x :: "string option"

record verification_method =
  vm_id :: "string option"
  vm_type :: "string option"
  vm_multibase :: "string option"
  vm_multibase_camel :: "string option"
  vm_jwk :: "jwk option"
  vm_jwk_camel :: "jwk option"

record did_document =
  dd_methods :: "verification_method list"
  dd_methods_camel :: "verification_method list"

text \<open>
  One exchange with the host of a URL, at the address its name has by then: the client follows a redirect, any other
  answer is its status and the decoded body. \<open>from_bytes\<close> tells why 32 bytes are no key, \<open>status_text\<close> is what \<open>http\<close>
  shows of a status, \<open>redirect_error\<close> what the client says of one redirect too many.
\<close>

datatype http_answer = Redirected string | Answered nat "string + did_document"

record resolver_lib =
  rl_b58_decode :: "string \<Rightarrow> string + string"
  rl_b58_encode :: "string \<Rightarrow> string"
  rl_b64_decode :: "string \<Rightarrow> string + string"
  rl_from_bytes :: "string \<Rightarrow> string option"
  rl_parse_url :: "string \<Rightarrow> parsed_url option"
  rl_lookup_host :: "string \<Rightarrow> nat \<Rightarrow> string + ip_addr list"
  rl_exchange :: "string \<Rightarrow> string + http_answer"
  rl_redirect_error :: "string \<Rightarrow> string"
  rl_status_text :: "nat \<Rightarrow> string"

definition verifying_key_from :: "resolver_lib \<Rightarrow> string \<Rightarrow> string + string" where
  "verifying_key_from L b = (case rl_from_bytes L b of None \<Rightarrow> Inr b | Some e \<Rightarrow> Inl e)"

section \<open>did:key\<close>

definition hex_digit :: "nat \<Rightarrow> char" where
  "hex_digit n = (if n < 10 then char_of (48 + n) else char_of (87 + n))"

definition hex_byte :: "char \<Rightarrow> string" where
  "hex_byte c = ''0x'' @ [hex_digit (of_char c div 16), hex_digit (of_char c mod 16)]"

definition multicodec :: string where
  "multicodec = [CHR 0xED, CHR 0x01]"

definition decode_did_key :: "resolver_lib \<Rightarrow> string \<Rightarrow> string resolved" where
  "decode_did_key L fingerprint =
     (case strip_prefix ''z'' fingerprint of
        None \<Rightarrow> Inl (MalformedDid ''expected multibase `z` prefix'')
      | Some rest \<Rightarrow>
     (case rl_b58_decode L rest of
        Inl e \<Rightarrow> Inl (MalformedDid (''base58btc: '' @ e))
      | Inr b \<Rightarrow>
          if length b \<noteq> 34 then
            Inl (MalformedDid (''expected 34 bytes (2 multicodec + 32 key), got '' @ show_nat (length b)))
          else if b ! 0 \<noteq> CHR 0xED \<or> b ! 1 \<noteq> CHR 0x01 then
            Inl (UnsupportedMethod (''only Ed25519 (multicodec 0xed 0x01) supported in did:key, got ''
              @ hex_byte (b ! 0) @ '' '' @ hex_byte (b ! 1)))
          else (case verifying_key_from L (drop 2 b) of
            Inl e \<Rightarrow> Inl (KeyExtraction (''ed25519-dalek: '' @ e))
          | Inr key \<Rightarrow> Inr key)))"

definition encode_did_key :: "resolver_lib \<Rightarrow> string \<Rightarrow> string" where
  "encode_did_key L key = ''did:key:z'' @ rl_b58_encode L (multicodec @ key)"

definition key_resolve :: "resolver_lib \<Rightarrow> string \<Rightarrow> verifying_key list resolved" where
  "key_resolve L did =
     (case strip_prefix ''did:key:'' did of
        None \<Rightarrow> Inl (UnsupportedMethod did)
      | Some fingerprint \<Rightarrow>
          bind_result (decode_did_key L fingerprint) (\<lambda>key. Inr [\<lparr>vk_kid = Some did, vk_key = key\<rparr>]))"

section \<open>The keys of a document\<close>

definition first_of :: "'a option \<Rightarrow> 'a option \<Rightarrow> 'a option" where
  "first_of a b = (case a of Some x \<Rightarrow> Some x | None \<Rightarrow> b)"

text \<open>The key of a method: an error ends the parse, no key skips the method.\<close>

definition jwk_key :: "resolver_lib \<Rightarrow> string \<Rightarrow> jwk \<Rightarrow> string option resolved" where
  "jwk_key L url j =
     (if jk_kty j \<noteq> Some ''OKP'' \<or> jk_crv j \<noteq> Some ''Ed25519'' then Inr None
      else case jk_x j of
        None \<Rightarrow> Inr None
      | Some x \<Rightarrow>
     (case rl_b64_decode L x of
        Inl e \<Rightarrow> Inl (DidDocumentError url (''publicKeyJwk.x not base64url: '' @ e))
      | Inr b \<Rightarrow>
          if length b \<noteq> 32 then Inl (DidDocumentError url ''publicKeyJwk.x is not 32 bytes (Ed25519)'')
          else (case verifying_key_from L b of
            Inl e \<Rightarrow> Inl (DidDocumentError url (''publicKeyJwk.x not a valid Ed25519 point: '' @ e))
          | Inr key \<Rightarrow> Inr (Some key))))"

definition method_key :: "resolver_lib \<Rightarrow> string \<Rightarrow> verification_method \<Rightarrow> string option resolved" where
  "method_key L url vm =
     (case first_of (vm_multibase vm) (vm_multibase_camel vm) of
        Some mb \<Rightarrow> (case decode_did_key L mb of Inr k \<Rightarrow> Inr (Some k) | Inl _ \<Rightarrow> Inr None)
      | None \<Rightarrow>
     (case first_of (vm_jwk vm) (vm_jwk_camel vm) of
        Some j \<Rightarrow> jwk_key L url j
      | None \<Rightarrow> Inr None))"

definition known_type :: "string option \<Rightarrow> bool" where
  "known_type t = (case t of
      Some s \<Rightarrow> s \<in> {''Ed25519VerificationKey2020'', ''Ed25519VerificationKey2018'', ''JsonWebKey2020'', ''Multikey''}
    | None \<Rightarrow> True)"

fun method_keys :: "resolver_lib \<Rightarrow> string \<Rightarrow> string \<Rightarrow> verification_method list \<Rightarrow> verifying_key list resolved" where
  "method_keys L did url [] = Inr []"
| "method_keys L did url (vm # vms) =
     (case method_key L url vm of
        Inl e \<Rightarrow> Inl e
      | Inr None \<Rightarrow> method_keys L did url vms
      | Inr (Some key) \<Rightarrow>
          if known_type (vm_type vm) then
            bind_result (method_keys L did url vms) (\<lambda>ks. Inr (\<lparr>vk_kid = first_of (vm_id vm) (Some did), vk_key = key\<rparr> # ks))
          else method_keys L did url vms)"

definition parse_verification_methods :: "resolver_lib \<Rightarrow> did_document \<Rightarrow> string \<Rightarrow> string \<Rightarrow> verifying_key list resolved" where
  "parse_verification_methods L doc did url = method_keys L did url (dd_methods doc @ dd_methods_camel doc)"

section \<open>did:web\<close>

record cached_keyset =
  ck_fetched_at :: time
  ck_keys :: "verifying_key list"

type_synonym key_cache = "(string, cached_keyset) store"

record web_resolver =
  wr_scheme :: string
  wr_cache_ttl :: duration
  wr_allow_insecure :: bool

definition with_options :: "string \<Rightarrow> duration \<Rightarrow> web_resolver" where
  "with_options scheme cache_ttl =
     \<lparr>wr_scheme = scheme, wr_cache_ttl = cache_ttl, wr_allow_insecure = (\<not> eq_ignore_ascii_case scheme ''https'')\<rparr>"

definition new_web_resolver :: web_resolver where
  "new_web_resolver = with_options ''https'' (secs 600)"

definition allowing_insecure :: "bool \<Rightarrow> web_resolver \<Rightarrow> web_resolver" where
  "allowing_insecure allow R = R\<lparr>wr_allow_insecure := allow\<rparr>"

fun decode_port_colon :: "string \<Rightarrow> string" where
  "decode_port_colon (a # b # c # s) =
     (if [a, b, c] = ''%3A'' then CHR '':'' # decode_port_colon s else a # decode_port_colon (b # c # s))"
| "decode_port_colon s = s"

definition url_for :: "web_resolver \<Rightarrow> string \<Rightarrow> string resolved" where
  "url_for R did =
     (case strip_prefix ''did:web:'' did of
        None \<Rightarrow> Inl (UnsupportedMethod did)
      | Some body \<Rightarrow>
          if body = [] then Inl (MalformedDid ''did:web: empty body'')
          else
            let parts = split_on CHR '':'' body;
                path = tl parts;
                path_part = (if path = [] then ''/.well-known/did.json'' else ''/'' @ join_with ''/'' path @ ''/did.json'')
            in Inr (wr_scheme R @ ''://'' @ decode_port_colon (hd parts) @ path_part))"

definition cached_keys :: "web_resolver \<Rightarrow> time \<Rightarrow> string \<Rightarrow> key_cache \<Rightarrow> verifying_key list option" where
  "cached_keys R now did cache =
     (if wr_cache_ttl R = 0 then None
      else case st_get cache did of
        None \<Rightarrow> None
      | Some entry \<Rightarrow> if now - ck_fetched_at entry \<le> wr_cache_ttl R then Some (ck_keys entry) else None)"

definition store_keys :: "web_resolver \<Rightarrow> time \<Rightarrow> string \<Rightarrow> verifying_key list \<Rightarrow> key_cache \<Rightarrow> key_cache" where
  "store_keys R now did keys cache =
     (if wr_cache_ttl R = 0 then cache else st_put did \<lparr>ck_fetched_at = now, ck_keys = keys\<rparr> cache)"

text \<open>
  The client is built with a timeout and nothing else: it follows up to \<open>n\<close> redirects, which are ten by its default, to
  any URL and without a check of ours, and resolves the host of each itself.
\<close>

fun http_get :: "resolver_lib \<Rightarrow> nat \<Rightarrow> string \<Rightarrow> string + nat \<times> (string + did_document)" where
  "http_get L n url =
     (case rl_exchange L url of
        Inl e \<Rightarrow> Inl e
      | Inr (Answered status body) \<Rightarrow> Inr (status, body)
      | Inr (Redirected location) \<Rightarrow>
          (case n of 0 \<Rightarrow> Inl (rl_redirect_error L url) | Suc n' \<Rightarrow> http_get L n' location))"

declare http_get.simps [simp del]

text \<open>The keys that the document advertises now.\<close>

definition fetch_keys :: "resolver_lib \<Rightarrow> web_resolver \<Rightarrow> string \<Rightarrow> verifying_key list resolved" where
  "fetch_keys L R did =
     bind_result (url_for R did) (\<lambda>url.
     bind_result (if wr_allow_insecure R then Inr ()
        else case ensure_public_url (rl_parse_url L) (rl_lookup_host L) url of
          Inl m \<Rightarrow> Inl (Blocked url m) | Inr _ \<Rightarrow> Inr ()) (\<lambda>_.
     case http_get L 10 url of
       Inl e \<Rightarrow> Inl (NetworkError url e)
     | Inr (status, body) \<Rightarrow>
         if \<not> (200 \<le> status \<and> status < 300) then Inl (DidDocumentError url (''status '' @ rl_status_text L status))
         else (case body of
           Inl e \<Rightarrow> Inl (DidDocumentError url (''json: '' @ e))
         | Inr doc \<Rightarrow>
             bind_result (parse_verification_methods L doc did url) (\<lambda>keys.
               if keys = [] then Inl (DidDocumentError url ''DID document advertises no Ed25519 verification methods'')
               else Inr keys))))"

text \<open>The clock is read for the age of an entry and again for the entry that is stored.\<close>

definition web_resolve ::
  "resolver_lib \<Rightarrow> web_resolver \<Rightarrow> time \<Rightarrow> time \<Rightarrow> string \<Rightarrow> key_cache \<Rightarrow> verifying_key list resolved \<times> key_cache" where
  "web_resolve L R now now' did cache =
     (case cached_keys R now did cache of
        Some keys \<Rightarrow> (Inr keys, cache)
      | None \<Rightarrow>
          (case fetch_keys L R did of
             Inl e \<Rightarrow> (Inl e, cache)
           | Inr keys \<Rightarrow> (Inr keys, store_keys R now' did keys cache)))"

section \<open>The composition\<close>

type_synonym did_resolver = "string \<Rightarrow> key_cache \<Rightarrow> verifying_key list resolved \<times> key_cache"

fun try_resolvers :: "resolve_error option \<Rightarrow> did_resolver list \<Rightarrow> did_resolver" where
  "try_resolvers last_err [] did cache = (Inl (case last_err of Some e \<Rightarrow> e | None \<Rightarrow> UnsupportedMethod did), cache)"
| "try_resolvers last_err (r # rs) did cache =
     (case r did cache of
        (Inr keys, cache') \<Rightarrow> (Inr keys, cache')
      | (Inl (UnsupportedMethod m), cache') \<Rightarrow> try_resolvers (Some (UnsupportedMethod m)) rs did cache'
      | (Inl e, cache') \<Rightarrow> (Inl e, cache'))"

definition composite_resolve :: "did_resolver list \<Rightarrow> did_resolver" where
  "composite_resolve rs = try_resolvers None rs"

definition default_set_with_options :: "resolver_lib \<Rightarrow> bool \<Rightarrow> time \<Rightarrow> time \<Rightarrow> did_resolver list" where
  "default_set_with_options L allow_insecure now now' =
     [\<lambda>did cache. (key_resolve L did, cache), web_resolve L (allowing_insecure allow_insecure new_web_resolver) now now']"

text \<open>What mandate verification asks (\<open>cr_resolve\<close>), with the message it shows of an error.\<close>

definition principal_keys :: "resolver_lib \<Rightarrow> bool \<Rightarrow> time \<Rightarrow> time \<Rightarrow> key_cache \<Rightarrow> string \<Rightarrow> string + verifying_key list" where
  "principal_keys L allow_insecure now now' cache did =
     (case fst (composite_resolve (default_set_with_options L allow_insecure now now') did cache) of
        Inl e \<Rightarrow> Inl (resolve_message e) | Inr keys \<Rightarrow> Inr keys)"

section \<open>The contract of a method\<close>

definition cache_ok :: "key_cache \<Rightarrow> bool" where
  "cache_ok cache \<longleftrightarrow> (\<forall>did entry. st_get cache did = Some entry \<longrightarrow> prefix ''did:web:'' did)"

text \<open>A resolver for one method says so of identifiers of others, and an error leaves the cache alone.\<close>

locale did_method =
  fixes name :: string and resolve :: did_resolver
  assumes foreign: "cache_ok cache \<Longrightarrow> \<not> prefix name did \<Longrightarrow> resolve did cache = (Inl (UnsupportedMethod did), cache)"
    and failed: "resolve did cache = (Inl e, cache') \<Longrightarrow> cache' = cache"
begin

lemma passed_over:
  "cache_ok cache \<Longrightarrow> \<not> prefix name did \<Longrightarrow>
   try_resolvers err (resolve # rs) did cache = try_resolvers (Some (UnsupportedMethod did)) rs did cache"
  by (simp add: foreign)

lemma last_resort:
  "cache_ok cache \<Longrightarrow> try_resolvers err [resolve] did cache =
     (case resolve did cache of (Inr keys, cache') \<Rightarrow> (Inr keys, cache') | (Inl e, _) \<Rightarrow> (Inl e, cache))"
  using failed by (auto split: prod.split sum.split resolve_error.split)

end

interpretation key_method: did_method "''did:key:''" "\<lambda>did cache. (key_resolve L did, cache)" for L
  by unfold_locales (auto simp: key_resolve_def strip_prefix_def)

lemma url_for_foreign: "\<not> prefix ''did:web:'' did \<Longrightarrow> url_for R did = Inl (UnsupportedMethod did)"
  by (simp add: url_for_def strip_prefix_def)

interpretation web_method: did_method "''did:web:''" "web_resolve L R now now'" for L R now now'
proof
  show "web_resolve L R now now' did cache = (Inl e, cache') \<Longrightarrow> cache' = cache" for did cache e cache'
    by (auto simp: web_resolve_def split: option.splits sum.splits)
  show "web_resolve L R now now' did cache = (Inl (UnsupportedMethod did), cache)"
    if "cache_ok cache" "\<not> prefix ''did:web:'' did" for cache did
  proof -
    have "cached_keys R now did cache = None"
      using that by (auto simp: cached_keys_def cache_ok_def split: option.split)
    then show ?thesis
      using url_for_foreign [OF that(2)] by (simp add: web_resolve_def fetch_keys_def)
  qed
qed

text \<open>So the method of the identifier decides.\<close>

abbreviation production_resolver :: web_resolver where
  "production_resolver \<equiv> allowing_insecure False new_web_resolver"

lemma default_set_dispatch:
  assumes "cache_ok cache"
  shows "composite_resolve (default_set_with_options L allow now now') did cache =
    (if prefix ''did:key:'' did then
       (case key_resolve L did of
          Inl (UnsupportedMethod _) \<Rightarrow> (Inl (UnsupportedMethod did), cache) | r \<Rightarrow> (r, cache))
     else web_resolve L (allowing_insecure allow new_web_resolver) now now' did cache)"
proof (cases "prefix ''did:key:'' did")
  case True
  then have "\<not> prefix ''did:web:'' did" by (auto simp: prefix_def)
  with web_method.foreign [OF assms this] True show ?thesis
    by (simp add: composite_resolve_def default_set_with_options_def split: sum.split resolve_error.split)
next
  case False
  have "composite_resolve (default_set_with_options L allow now now') did cache =
      try_resolvers (Some (UnsupportedMethod did)) [web_resolve L (allowing_insecure allow new_web_resolver) now now'] did cache"
    unfolding composite_resolve_def default_set_with_options_def by (rule key_method.passed_over [OF assms False])
  also have "\<dots> = web_resolve L (allowing_insecure allow new_web_resolver) now now' did cache"
    unfolding web_method.last_resort [OF assms]
    using web_method.failed [of L "allowing_insecure allow new_web_resolver" now now' did cache]
    by (auto split: prod.split sum.split)
  finally show ?thesis using False by simp
qed

section \<open>Keys embedded and keys fetched\<close>

lemma did_key_roundtrip:
  assumes "\<And>b. rl_b58_decode L (rl_b58_encode L b) = Inr b" "length key = 32" "rl_from_bytes L key = None"
  shows "key_resolve L (encode_did_key L key) = Inr [\<lparr>vk_kid = Some (encode_did_key L key), vk_key = key\<rparr>]"
  using assms
  by (simp add: key_resolve_def encode_did_key_def decode_did_key_def strip_prefix_def verifying_key_from_def multicodec_def)

lemma key_resolve_iff:
  "key_resolve L did = Inr keys \<longleftrightarrow> (\<exists>f key. strip_prefix ''did:key:'' did = Some f \<and> decode_did_key L f = Inr key \<and>
     keys = [\<lparr>vk_kid = Some did, vk_key = key\<rparr>])"
  by (auto simp: key_resolve_def bind_result_def split: option.split sum.split)

lemma decode_did_key_iff:
  "decode_did_key L f = Inr key \<longleftrightarrow> (\<exists>g b. strip_prefix ''z'' f = Some g \<and> rl_b58_decode L g = Inr b \<and> length b = 34 \<and>
     b ! 0 = CHR 0xED \<and> b ! 1 = CHR 0x01 \<and> key = drop 2 b \<and> rl_from_bytes L key = None)"
  by (cases "strip_prefix ''z'' f"; cases "rl_b58_decode L (the (strip_prefix ''z'' f))")
    (auto simp: decode_did_key_def verifying_key_from_def split: option.split)

lemma key_resolve_key:
  assumes "key_resolve L did = Inr keys" "k \<in> set keys"
  shows "\<exists>fingerprint b. did = ''did:key:z'' @ fingerprint \<and> rl_b58_decode L fingerprint = Inr b \<and>
    b = multicodec @ vk_key k \<and> length (vk_key k) = 32 \<and> rl_from_bytes L (vk_key k) = None"
proof -
  obtain f where f: "strip_prefix ''did:key:'' did = Some f" "decode_did_key L f = Inr (vk_key k)"
    using assms unfolding key_resolve_iff by auto
  obtain g b where g: "strip_prefix ''z'' f = Some g" "rl_b58_decode L g = Inr b" "length b = 34" "b ! 0 = CHR 0xED"
      "b ! 1 = CHR 0x01" "vk_key k = drop 2 b" "rl_from_bytes L (vk_key k) = None"
    using f(2) unfolding decode_did_key_iff by blast
  obtain x b1 where "b = x # b1" using g(3) by (cases b) simp_all
  moreover obtain y b2 where "b1 = y # b2" using g(3) calculation by (cases b1) simp_all
  ultimately have "b = multicodec @ vk_key k" "length (vk_key k) = 32" using g(3-6) by (simp_all add: multicodec_def)
  then show ?thesis
    using f(1) g unfolding strip_prefix_Some by simp
qed

text \<open>The answer at the end of a chain of redirects.\<close>

definition served_by :: "resolver_lib \<Rightarrow> string list \<Rightarrow> nat \<Rightarrow> string + did_document \<Rightarrow> bool" where
  "served_by L chain status body \<longleftrightarrow> chain \<noteq> [] \<and>
     (\<forall>i. Suc i < length chain \<longrightarrow> rl_exchange L (chain ! i) = Inr (Redirected (chain ! Suc i))) \<and>
     rl_exchange L (last chain) = Inr (Answered status body)"

lemma served_by_Cons:
  assumes "rl_exchange L url = Inr (Redirected location)" "served_by L (location # chain) status body"
  shows "served_by L (url # location # chain) status body"
  using assms by (auto simp: served_by_def nth_Cons split: nat.split)

lemma http_get_chain:
  "http_get L n url = Inr (status, body) \<Longrightarrow> \<exists>chain. length chain \<le> n \<and> served_by L (url # chain) status body"
proof (induction L n url rule: http_get.induct)
  case (1 L n url)
  obtain a where a: "rl_exchange L url = Inr a"
    using 1(2) by (cases "rl_exchange L url") (simp_all add: http_get.simps)
  show ?case
  proof (cases a)
    case (Answered st b)
    then have "served_by L [url] status body"
      using 1(2) a by (simp add: http_get.simps served_by_def)
    then show ?thesis by (intro exI [of _ "[]"]) simp
  next
    case (Redirected location)
    then obtain n' where n: "n = Suc n'" and rest: "http_get L n' location = Inr (status, body)"
      using 1(2) a by (cases n) (simp_all add: http_get.simps)
    obtain chain where "length chain \<le> n'" "served_by L (location # chain) status body"
      using 1(1) [OF a Redirected n rest] by blast
    then show ?thesis
      using served_by_Cons [OF a [unfolded Redirected]] n by (intro exI [of _ "location # chain"]) simp
  qed
qed

text \<open>
  A key in the document of a \<open>did:web\<close>: the URL that the identifier names is an HTTPS one, its host passed the check of
  destinations, and the document is what it serves, or what the last of at most ten redirects from there serves.
\<close>

definition advertised :: "resolver_lib \<Rightarrow> string \<Rightarrow> verifying_key \<Rightarrow> bool" where
  "advertised L did k \<longleftrightarrow> (\<exists>url chain status doc keys. url_for production_resolver did = Inr url \<and> prefix ''https://'' url \<and>
     ensure_public_url (rl_parse_url L) (rl_lookup_host L) url = Inr () \<and>
     length chain \<le> 10 \<and> served_by L (url # chain) status (Inr doc) \<and> 200 \<le> status \<and> status < 300 \<and>
     parse_verification_methods L doc did url = Inr keys \<and> k \<in> set keys)"

lemma url_for_https: "url_for production_resolver did = Inr url \<Longrightarrow> prefix ''https://'' url"
  by (auto simp: url_for_def allowing_insecure_def new_web_resolver_def with_options_def Let_def split: option.splits if_splits)

lemma fetched_web: "fetch_keys L R did = Inr keys \<Longrightarrow> prefix ''did:web:'' did"
  by (rule ccontr) (simp add: fetch_keys_def url_for_foreign)

lemma fetched_advertised:
  assumes "fetch_keys L production_resolver did = Inr keys" "k \<in> set keys"
  shows "advertised L did k"
proof -
  note fetch = assms(1) [unfolded fetch_keys_def]
  have guarded: "\<not> wr_allow_insecure production_resolver" by (simp add: allowing_insecure_def)
  obtain url where url: "url_for production_resolver did = Inr url"
    using fetch by (cases "url_for production_resolver did") simp_all
  have public: "ensure_public_url (rl_parse_url L) (rl_lookup_host L) url = Inr ()"
    using fetch url guarded by (cases "ensure_public_url (rl_parse_url L) (rl_lookup_host L) url") simp_all
  obtain status body where answer: "http_get L 10 url = Inr (status, body)"
    using fetch url guarded public by (cases "http_get L 10 url") auto
  have status: "200 \<le> status \<and> status < 300"
    using fetch url guarded public answer by (cases "200 \<le> status \<and> status < 300") (simp_all split: if_splits)
  obtain doc where doc: "body = Inr doc"
    using fetch url guarded public answer status by (cases body) simp_all
  have "parse_verification_methods L doc did url = Inr keys"
    using fetch url guarded public answer status doc
    by (cases "parse_verification_methods L doc did url") (simp_all split: if_splits)
  moreover obtain chain where "length chain \<le> 10" "served_by L (url # chain) status (Inr doc)"
    using http_get_chain [OF answer] doc by blast
  ultimately show ?thesis
    using url url_for_https [OF url] public status assms(2) unfolding advertised_def by blast
qed

text \<open>The cache after a sequence of calls, each with the outside world as it was and its two readings of the clock.\<close>

type_synonym resolution = "resolver_lib \<times> time \<times> time \<times> string"

fun resolutions :: "resolution list \<Rightarrow> key_cache \<Rightarrow> key_cache" where
  "resolutions [] cache = cache"
| "resolutions ((L, now, now', did) # hist) cache =
     resolutions hist (snd (composite_resolve (default_set_with_options L False now now') did cache))"

definition cache_from :: "resolution list \<Rightarrow> key_cache \<Rightarrow> bool" where
  "cache_from hist cache \<longleftrightarrow> (\<forall>did entry. st_get cache did = Some entry \<longrightarrow> prefix ''did:web:'' did \<and>
     (\<exists>(L, now, now', did') \<in> set hist. did' = did \<and> now' = ck_fetched_at entry \<and>
        (\<forall>k \<in> set (ck_keys entry). advertised L did k)))"

lemma cache_from_ok: "cache_from hist cache \<Longrightarrow> cache_ok cache"
  by (auto simp: cache_from_def cache_ok_def)

lemma web_resolve_cache:
  "snd (web_resolve L R now now' did cache) = cache \<or>
   (\<exists>keys. fetch_keys L R did = Inr keys \<and>
      snd (web_resolve L R now now' did cache) = st_put did \<lparr>ck_fetched_at = now', ck_keys = keys\<rparr> cache)"
  by (auto simp: web_resolve_def store_keys_def split: option.split sum.split)

lemma cache_from_step:
  assumes "cache_from hist cache"
  shows "cache_from (hist @ [(L, now, now', did)])
    (snd (composite_resolve (default_set_with_options L False now now') did cache))"
proof -
  have grown: "cache_from (hist @ [x]) cache" for x
    using assms unfolding cache_from_def by fastforce
  have web: "cache_from (hist @ [(L, now, now', did)]) (st_put did \<lparr>ck_fetched_at = now', ck_keys = keys\<rparr> cache)"
    if fetched: "fetch_keys L production_resolver did = Inr keys" for keys
  proof -
    note fetched_web [OF fetched]
    moreover have "\<forall>k \<in> set keys. advertised L did k"
      using fetched_advertised [OF fetched] by blast
    ultimately show ?thesis
      using assms by (auto simp: cache_from_def split: if_splits)
  qed
  show ?thesis
    unfolding default_set_dispatch [OF cache_from_ok [OF assms]]
    using grown web web_resolve_cache [of L production_resolver now now' did cache]
    by (auto split: sum.split resolve_error.split)
qed

lemma cache_from_run: "cache_from h cache \<Longrightarrow> cache_from (h @ hist) (resolutions hist cache)"
proof (induction hist arbitrary: h cache)
  case (Cons x hist)
  obtain L now now' did where x: "x = (L, now, now', did)" by (cases x)
  from Cons.IH [OF cache_from_step [OF Cons.prems, of L now now' did]] show ?case by (simp add: x)
qed simp

lemma cache_from_start: "cache_from hist (resolutions hist [])"
  using cache_from_run [of "[]" "[]" hist] by (simp add: cache_from_def)

section \<open>The keys of a principal are current\<close>

text \<open>What the keys of a principal are when they are used: embedded in the identifier, or advertised by its document,
  now or at most ten minutes ago.\<close>

definition key_current :: "resolver_lib \<Rightarrow> time \<Rightarrow> resolution list \<Rightarrow> string \<Rightarrow> verifying_key \<Rightarrow> bool" where
  "key_current L now hist did k \<longleftrightarrow>
     (\<exists>f. did = ''did:key:z'' @ f \<and> rl_b58_decode L f = Inr (multicodec @ vk_key k)) \<or>
     (prefix ''did:web:'' did \<and>
        (advertised L did k \<or> (\<exists>(L1, n, n', did1) \<in> set hist. did1 = did \<and> now - n' \<le> secs 600 \<and> advertised L1 did k)))"

lemma principal_key_current:
  assumes "principal_keys L False now now' (resolutions hist []) did = Inr keys" "k \<in> set keys"
  shows "key_current L now hist did k"
proof -
  note from_hist = cache_from_start [of hist]
  have found: "fst (composite_resolve (default_set_with_options L False now now') did (resolutions hist [])) = Inr keys"
    using assms(1) by (auto simp: principal_keys_def split: sum.splits)
  show ?thesis
  proof (cases "prefix ''did:key:'' did")
    case True
    then have "key_resolve L did = Inr keys"
      using found by (simp add: default_set_dispatch [OF cache_from_ok [OF from_hist]] split: sum.splits resolve_error.splits)
    from key_resolve_key [OF this assms(2)] show ?thesis unfolding key_current_def by blast
  next
    case False
    then have web: "fst (web_resolve L production_resolver now now' did (resolutions hist [])) = Inr keys"
      using found by (simp add: default_set_dispatch [OF cache_from_ok [OF from_hist]])
    have ttl: "wr_cache_ttl production_resolver = secs 600"
      by (simp add: allowing_insecure_def new_web_resolver_def with_options_def)
    show ?thesis
    proof (cases "cached_keys production_resolver now did (resolutions hist [])")
      case None
      then have fetched: "fetch_keys L production_resolver did = Inr keys"
        using web by (auto simp: web_resolve_def split: sum.splits)
      then show ?thesis
        using fetched_web [OF fetched] fetched_advertised [OF fetched assms(2)] by (simp add: key_current_def)
    next
      case (Some keys')
      then obtain entry where entry: "st_get (resolutions hist []) did = Some entry" "ck_keys entry = keys"
          "now - ck_fetched_at entry \<le> secs 600"
        using web by (auto simp: web_resolve_def cached_keys_def ttl split: option.splits if_splits)
      then show ?thesis
        using from_hist assms(2) unfolding cache_from_def key_current_def by fastforce
    qed
  qed
qed

lemma verified_key_current:
  assumes "verify_signature K jws iss = Inr ()" "cr_resolve K = principal_keys L False now now' (resolutions hist [])"
  shows "\<exists>h p s sig k. jws = h @ ''.'' @ p @ ''.'' @ s \<and> cr_b64_decode K s = Some sig \<and> length sig = 64 \<and>
    cr_verify K (vk_key k) (h @ ''.'' @ p) sig \<and> key_current L now hist iss k"
proof -
  obtain h p s sig keys k where signed: "split_compact jws = Inr (h, p, s)" "cr_b64_decode K s = Some sig"
      "length sig = 64" "cr_resolve K iss = Inr keys" "k \<in> set keys" "cr_verify K (vk_key k) (h @ ''.'' @ p) sig"
    using assms(1) unfolding verify_signature_iff by blast
  then have "key_current L now hist iss k"
    using assms(2) by (intro principal_key_current) simp_all
  then show ?thesis
    using signed split_compact_join [OF signed(1)] by blast
qed

text \<open>
  C37. A mandate that is accepted with its signature verified, after any history of resolutions, is signed by a key
  that is current for its issuer: the key embedded in the issuer's \<open>did:key\<close>, or one of the document of its \<open>did:web\<close>,
  fetched for this mandate or at most ten minutes ago. That document is the one that the HTTPS URL named by the identifier
  led to: the host of this URL passed the check of destinations before the request, and what is there was served by it, or
  by the end of at most ten redirects. So a key taken out of the document is dead ten minutes later. The check is of the
  first URL only: where the redirects lead, and to what address the client then resolves a host, is not checked
  (\<open>redirect_unchecked\<close>).
\<close>

theorem mandate_key_current:
  assumes "evaluate C K lookup True jws intent_scope amount t tenant jur = Inr ev"
    and "cr_resolve K = principal_keys L False now now' (resolutions hist [])"
  shows "\<exists>h p s sig k. jws = h @ ''.'' @ p @ ''.'' @ s \<and> cr_b64_decode K s = Some sig \<and> length sig = 64 \<and>
    cr_verify K (vk_key k) (h @ ''.'' @ p) sig \<and> key_current L now hist (md_iss (ev_payload ev)) k"
proof -
  have "verify_signature K jws (md_iss (ev_payload ev)) = Inr ()"
    using assms(1) by (auto simp: evaluate_iff)
  from verified_key_current [OF this assms(2)] show ?thesis .
qed

text \<open>A document that was fetched once, from behind a redirect, and is out of reach five minutes later.\<close>

definition demo_did :: string where
  "demo_did = ''did:web:shop.example''"

definition demo_document :: did_document where
  "demo_document = \<lparr>dd_methods = [], dd_methods_camel = [
     \<lparr>vm_id = Some ''key-1'', vm_type = Some ''Multikey'', vm_multibase = None, vm_multibase_camel = None,
      vm_jwk = None, vm_jwk_camel = Some \<lparr>jk_kty = Some ''OKP'', jk_crv = Some ''Ed25519'', jk_x = Some (replicate 32 CHR ''k'')\<rparr>\<rparr>]\<rparr>"

definition demo_lib :: "bool \<Rightarrow> resolver_lib" where
  "demo_lib reachable = \<lparr>rl_b58_decode = Inr, rl_b58_encode = id, rl_b64_decode = Inr, rl_from_bytes = (\<lambda>_. None),
     rl_parse_url = (\<lambda>_. Some \<lparr>pu_scheme = ''https'', pu_host = Some ''shop.example'', pu_username = [], pu_password = None,
       pu_port = Some 443\<rparr>),
     rl_lookup_host = (\<lambda>_ _. Inr [V4 93 184 216 34]),
     rl_exchange = (\<lambda>url. if \<not> reachable then Inl ''timeout''
       else if url = ''https://shop.example/.well-known/did.json'' then Inr (Redirected ''http://10.0.0.7/did.json'')
       else Inr (Answered 200 (Inr demo_document))),
     rl_redirect_error = id, rl_status_text = show_nat\<rparr>"

definition demo_history :: "resolution list" where
  "demo_history = [(demo_lib True, 0, 0, demo_did)]"

definition web_crypto :: crypto where
  "web_crypto = demo_crypto\<lparr>cr_payload_json := \<lambda>_. Inr (demo_payload\<lparr>md_iss := demo_did\<rparr>),
     cr_resolve := principal_keys (demo_lib False) False (secs 300) (secs 300) (resolutions demo_history []),
     cr_verify := \<lambda>k m s. k = replicate 32 CHR ''k'' \<and> m = ''h.p''\<rparr>"

lemma demo_fetches:
  "fetch_keys (demo_lib True) production_resolver demo_did = Inr [\<lparr>vk_kid = Some ''key-1'', vk_key = replicate 32 CHR ''k''\<rparr>]"
proof -
  have url: "url_for production_resolver demo_did = Inr ''https://shop.example/.well-known/did.json''"
    by (simp add: url_for_def demo_did_def strip_prefix_def allowing_insecure_def new_web_resolver_def with_options_def
        Let_def)
  have public: "ensure_public_url (rl_parse_url (demo_lib True)) (rl_lookup_host (demo_lib True)) u = Inr ()" for u
    by (simp add: ensure_public_url_def demo_lib_def is_forbidden_ip_def host_eval)
  show ?thesis
    unfolding fetch_keys_def url bind_result_simps public
    by (simp add: demo_lib_def http_get.simps parse_verification_methods_def demo_document_def method_key_def first_of_def
        jwk_key_def verifying_key_from_def known_type_def eval_nat_numeral)
qed

text \<open>The document above counts, though the redirect leads over plain HTTP to a private address that the check refuses.\<close>

lemma redirect_unchecked:
  "\<exists>k. advertised (demo_lib True) demo_did k" "is_forbidden_ip (V4 10 0 0 7)"
  "rl_exchange (demo_lib True) ''https://shop.example/.well-known/did.json'' = Inr (Redirected ''http://10.0.0.7/did.json'')"
  using fetched_advertised [OF demo_fetches] by (auto simp: demo_lib_def is_forbidden_ip_def)

lemma demo_cached:
  "resolutions demo_history [] =
     [(demo_did, \<lparr>ck_fetched_at = 0, ck_keys = [\<lparr>vk_kid = Some ''key-1'', vk_key = replicate 32 CHR ''k''\<rparr>]\<rparr>)]"
proof -
  have "cache_ok []" "\<not> prefix ''did:key:'' demo_did" "wr_cache_ttl production_resolver \<noteq> 0"
    by (simp_all add: cache_ok_def demo_did_def allowing_insecure_def new_web_resolver_def with_options_def secs_def)
  then show ?thesis
    using demo_fetches
    by (simp add: demo_history_def default_set_dispatch web_resolve_def cached_keys_def store_keys_def)
      (simp add: st_put_def)
qed

lemma demo_principal:
  "cr_resolve web_crypto demo_did = Inr [\<lparr>vk_kid = Some ''key-1'', vk_key = replicate 32 CHR ''k''\<rparr>]"
proof -
  have "cache_ok (resolutions demo_history [])" by (rule cache_from_ok [OF cache_from_start])
  moreover have "\<not> prefix ''did:key:'' demo_did" "wr_cache_ttl production_resolver = secs 600"
    by (simp_all add: demo_did_def allowing_insecure_def new_web_resolver_def with_options_def)
  ultimately show ?thesis
    by (simp add: web_crypto_def principal_keys_def default_set_dispatch web_resolve_def cached_keys_def demo_cached
        st_get_def secs_def)
qed

lemma web_mandate_accepted:
  "\<exists>ev. evaluate chrono_demo web_crypto (\<lambda>j. Inr (mem_usage [] j)) True demo_jws ''buy'' 60 7 ''shop'' (Some ''US-CA'') = Inr ev \<and>
     md_iss (ev_payload ev) = demo_did"
proof -
  let ?payload = "demo_payload\<lparr>md_iss := demo_did\<rparr>"
  obtain usage w where demo: "check_validity chrono_demo demo_payload 7 = Inr ()"
      "check_terms (md_icp demo_payload) ''buy'' 60 ''shop'' (Some ''US-CA'') = Inr ()"
      "mem_usage [] (md_jti demo_payload) = usage" "budget_window chrono_demo (mb_period (mt_budget (md_icp demo_payload))) = Inr w"
      "60 \<le> sat_sub (mb_amount_minor (mt_budget (md_icp demo_payload))) (effective_spent usage 7 w)"
    using demo_evaluates [of True] unfolding evaluate_iff
    by (auto simp: decode_unverified_def demo_split demo_crypto_def)
  have "decode_unverified web_crypto demo_jws = Inr ?payload"
    by (simp add: decode_unverified_def demo_split web_crypto_def demo_crypto_def)
  moreover have "check_validity chrono_demo ?payload 7 = Inr ()"
    using demo(1) by (simp add: check_validity_iff)
  moreover have "verify_signature web_crypto demo_jws demo_did = Inr ()"
    unfolding verify_signature_iff using demo_principal
    by (intro exI conjI) (rule demo_split, (simp add: web_crypto_def demo_crypto_def)+)
  ultimately show ?thesis
    using demo unfolding evaluate_iff by auto
qed

theorem mandate_key_current_witness:
  "\<exists>k. key_current (demo_lib False) (secs 300) demo_history demo_did k \<and> \<not> advertised (demo_lib False) demo_did k"
proof -
  obtain ev where "evaluate chrono_demo web_crypto (\<lambda>j. Inr (mem_usage [] j)) True demo_jws ''buy'' 60 7 ''shop'' (Some ''US-CA'') = Inr ev"
      "md_iss (ev_payload ev) = demo_did"
    using web_mandate_accepted by blast
  from mandate_key_current [OF this(1), of "demo_lib False" "secs 300" "secs 300" demo_history] this(2)
  obtain k where "key_current (demo_lib False) (secs 300) demo_history demo_did k"
    by (auto simp: web_crypto_def)
  moreover have "\<not> advertised (demo_lib False) demo_did k"
    by (simp add: advertised_def served_by_def demo_lib_def)
  ultimately show ?thesis by blast
qed

end
