(* ===== verification/Execution.thy ===== *)
theory Execution
  imports Service Idempotency Access
begin

text \<open>
  What the transports call: the idempotent execution of an intent
  (\<open>IcpService::handle_intent_idempotent\<close> in \<open>src/service/mod.rs\<close>) and the HTTP endpoint
  \<open>POST /icp/v1/intents\<close> around it (\<open>submit_intent\<close> in \<open>src/handlers/intents.rs\<close>).
\<close>

section \<open>The service\<close>

record service =
  sv_icp :: icp
  sv_idempotency :: idempotency_store
  sv_rate_limiter :: rate_limiter
  sv_pre_auth_limiter :: rate_limiter

text \<open>
  The environment of an execution: that of the intent; the digest of the canonical envelope; the
  codec of a cached body; the fencing token; the failures of the calls to the cache (0 to reserve, 1 to
  release or store, \<open>i + 2\<close> at the \<open>i\<close>-th poll) and the clock readings of those calls; what
  the \<open>i\<close>-th poll finds, other processes having gone on; the distributed limiters, where
  attached; whether the mutex of a limiter is poisoned; and the clock of the limiters.
\<close>

record exec_env =
  xe_env :: env
  xe_digest :: "intent_envelope \<Rightarrow> string + string"
  xe_encode :: "intent_response_body \<Rightarrow> string + string"
  xe_decode :: "string \<Rightarrow> string + intent_response_body"
  xe_token :: string
  xe_faults :: "nat \<Rightarrow> db_faults"
  xe_now :: "nat \<Rightarrow> time"
  xe_found :: "nat \<Rightarrow> idempotency_store"
  xe_distributed :: "(string \<Rightarrow> u32 option \<Rightarrow> string + rate_limit_decision) option"
  xe_distributed_pre_auth :: "(string \<Rightarrow> u32 option \<Rightarrow> string + rate_limit_decision) option"
  xe_poisoned :: bool
  xe_poisoned_pre_auth :: bool
  xe_instant :: "nat \<Rightarrow> time"

definition check_pre_auth_rate_limit ::
  "exec_env \<Rightarrow> string \<Rightarrow> service \<Rightarrow> rate_limit_decision result \<times> service" where
  "check_pre_auth_rate_limit X bucket_id sv =
     apsnd (\<lambda>rl. sv\<lparr>sv_pre_auth_limiter := rl\<rparr>)
       (check_rate_limit (is_production (e_cfg (xe_env X))) ''pre-auth'' (xe_distributed_pre_auth X)
          (xe_poisoned_pre_auth X) bucket_id None (xe_instant X 0) (sv_pre_auth_limiter sv))"

definition check_tenant_rate_limit ::
  "exec_env \<Rightarrow> api_key_info \<Rightarrow> service \<Rightarrow> rate_limit_decision result \<times> service" where
  "check_tenant_rate_limit X tenant sv =
     apsnd (\<lambda>rl. sv\<lparr>sv_rate_limiter := rl\<rparr>)
       (check_rate_limit (is_production (e_cfg (xe_env X))) ''tenant'' (xe_distributed X) (xe_poisoned X)
          (ak_tenant_id tenant) (ak_rate_limit_per_minute tenant) (xe_instant X 1) (sv_rate_limiter sv))"

section \<open>Idempotent execution\<close>

record intent_execution =
  ix_body :: intent_response_body
  ix_replayed :: bool

definition effective_key :: "intent_input \<Rightarrow> string option \<Rightarrow> string option" where
  "effective_key inp explicit_key =
     (let fallback = (case en_intent_id (in_envelope inp) of
            Some i \<Rightarrow> if i = [] then None else Some (''intent:'' @ in_agent_raw inp @ '':'' @ i)
          | None \<Rightarrow> None)
      in case explicit_key of Some k \<Rightarrow> if k = [] then fallback else Some k | None \<Rightarrow> fallback)"

text \<open>The names of the in-process locks.\<close>

definition idempotency_lock_key :: "string \<Rightarrow> string \<Rightarrow> string" where
  "idempotency_lock_key tenant_id key = ''idem:'' @ show_nat (length tenant_id) @ '':'' @ tenant_id @ key"

definition idem_conflict :: "string \<Rightarrow> api_error" where
  "idem_conflict key = IdempotencyConflict
     (''idempotency key `'' @ key @ ''` was used previously with a different request body'')"

definition replay :: "exec_env \<Rightarrow> cached_response \<Rightarrow> intent_execution exec" where
  "replay X cached = (case xe_decode X (cd_body cached) of
      Inl e \<Rightarrow> Inl (Fail (ProcessingError (''cached response JSON: '' @ e)))
    | Inr body \<Rightarrow> Inr \<lparr>ix_body = body, ix_replayed = True\<rparr>)"

definition max_polls :: nat where
  "max_polls = 20"

text \<open>\<open>n\<close> polls are left, the next one is the \<open>i\<close>-th.\<close>

fun await :: "exec_env \<Rightarrow> idem_key \<Rightarrow> string \<Rightarrow> nat \<Rightarrow> nat \<Rightarrow> intent_execution exec" where
  "await X k digest i 0 = Inl (Fail (EngineUnavailable (''a request with idempotency key `'' @ snd k
     @ ''` is already in progress; retry shortly'')))"
| "await X k digest i (Suc n) =
     (case idem_lookup (xe_faults X (i + 2)) (e_chrono (xe_env X)) k digest (xe_now X (i + 2)) (xe_found X i) of
        LkReplay cached \<Rightarrow> replay X cached
      | LkConflict \<Rightarrow> Inl (Fail (idem_conflict (snd k)))
      | LkMiss \<Rightarrow> await X k digest (Suc i) n)"

text \<open>The reservation is won: execute, then record the answer, or give the reservation up. A panic
  and a body that cannot be encoded leave the reservation as it is.\<close>

definition execute_won ::
  "exec_env \<Rightarrow> intent_input \<Rightarrow> idem_key \<Rightarrow> string \<Rightarrow> string \<Rightarrow> service \<Rightarrow> intent_execution exec \<times> service" where
  "execute_won X inp k digest token sv =
     (case handle_intent (xe_env X) inp (sv_icp sv) of
        (Inl Panic, s) \<Rightarrow> (Inl Panic, sv\<lparr>sv_icp := s\<rparr>)
      | (Inl (Fail e), s) \<Rightarrow>
          (Inl (Fail e), sv\<lparr>sv_icp := s,
             sv_idempotency := idem_release (xe_faults X 1) k token (sv_idempotency sv)\<rparr>)
      | (Inr body, s) \<Rightarrow>
          (case xe_encode X body of
             Inl e \<Rightarrow> (Inl (Fail (ProcessingError (''serialize for cache: '' @ e))), sv\<lparr>sv_icp := s\<rparr>)
           | Inr text \<Rightarrow>
               (Inr \<lparr>ix_body = body, ix_replayed = False\<rparr>, sv\<lparr>sv_icp := s,
                  sv_idempotency := idem_store (xe_faults X 1) (e_chrono (xe_env X)) k digest
                    \<lparr>cd_status = 200, cd_body = text\<rparr> (xe_now X 1) token (sv_idempotency sv)\<rparr>)))"

definition idempotency_lease :: "env \<Rightarrow> duration option" where
  "idempotency_lease E =
     ch_duration_secs (e_chrono E) (wrap_i64 (int (max 1 (cf_idempotency_lease_secs (e_cfg E)))))"

definition execute_keyed ::
  "exec_env \<Rightarrow> intent_input \<Rightarrow> string \<Rightarrow> service \<Rightarrow> intent_execution exec \<times> service" where
  "execute_keyed X inp key sv =
     (let k = (in_tenant_id inp, key); C = e_chrono (xe_env X) in
      case xe_digest X (in_envelope inp) of
        Inl e \<Rightarrow> (Inl (Fail (ProcessingError (''jcs: '' @ e))), sv)
      | Inr digest \<Rightarrow>
          (case idempotency_lease (xe_env X) of
             None \<Rightarrow> (Inl Panic, sv)
           | Some lease \<Rightarrow>
               (case idem_reserve (xe_faults X 0) C (xe_token X) k digest (xe_now X 0) lease (sv_idempotency sv) of
                  (RsReplay cached, st) \<Rightarrow> (replay X cached, sv\<lparr>sv_idempotency := st\<rparr>)
                | (RsConflict, st) \<Rightarrow> (Inl (Fail (idem_conflict key)), sv\<lparr>sv_idempotency := st\<rparr>)
                | (Won token, st) \<Rightarrow> execute_won X inp k digest token (sv\<lparr>sv_idempotency := st\<rparr>)
                | (InProgress, st) \<Rightarrow> (await X k digest 0 max_polls, sv\<lparr>sv_idempotency := st\<rparr>))))"

text \<open>The transports that did not apply the limit of the tenant themselves have it applied here.\<close>

definition enforce_tenant_limit :: "exec_env \<Rightarrow> intent_input \<Rightarrow> service \<Rightarrow> unit result \<times> service" where
  "enforce_tenant_limit X inp sv =
     (if in_skip_rate_limit inp then (Inr (), sv)
      else case check_tenant_rate_limit X (in_tenant inp) sv of
        (Inl e, sv') \<Rightarrow> (Inl e, sv')
      | (Inr (Denied _ _), sv') \<Rightarrow> (Inl RateLimited, sv')
      | (Inr (Allowed _ _ _), sv') \<Rightarrow> (Inr (), sv'))"

definition handle_intent_idempotent ::
  "exec_env \<Rightarrow> intent_input \<Rightarrow> string option \<Rightarrow> service \<Rightarrow> intent_execution exec \<times> service" where
  "handle_intent_idempotent X inp explicit_key sv =
     (case enforce_tenant_limit X inp sv of
        (Inl e, sv1) \<Rightarrow> (Inl (Fail e), sv1)
      | (Inr _, sv1) \<Rightarrow>
          (case effective_key inp explicit_key of
             None \<Rightarrow>
               (case handle_intent (xe_env X) inp (sv_icp sv1) of
                  (Inl e, s) \<Rightarrow> (Inl e, sv1\<lparr>sv_icp := s\<rparr>)
                | (Inr body, s) \<Rightarrow> (Inr \<lparr>ix_body = body, ix_replayed = False\<rparr>, sv1\<lparr>sv_icp := s\<rparr>))
           | Some key \<Rightarrow> execute_keyed X inp key sv1))"

section \<open>The endpoint\<close>

text \<open>The API keys and the part of \<open>Config\<close> that only the endpoint reads; the fresh request id,
  the clock of the key check, and which texts a header may carry.\<close>

record gateway =
  gw_keys :: api_keys
  gw_trust_proxy_headers :: bool
  gw_require_icp_version :: bool
  gw_require_request_id :: bool
  gw_require_idempotency_key :: bool
  gw_request_uuid :: string
  gw_now :: time
  gw_header_ok :: "string \<Rightarrow> bool"

datatype reply =
    ErrorReply nat api_error_payload "(string \<times> string) list"
  | OkReply json "(string \<times> string) list"

definition error_reply :: "api_error \<Rightarrow> (string \<times> string) list \<Rightarrow> reply" where
  "error_reply e hs = (case into_body e of (status, body) \<Rightarrow> ErrorReply status body hs)"

definition header_if :: "gateway \<Rightarrow> string \<Rightarrow> string \<Rightarrow> (string \<times> string) list" where
  "header_if G name v = (if gw_header_ok G v then [(name, v)] else [])"

definition limited_reply :: "gateway \<Rightarrow> u32 \<Rightarrow> nat \<Rightarrow> (string \<times> string) list \<Rightarrow> reply" where
  "limited_reply G limit retry_after extra =
     error_reply RateLimited
       (header_if G ''retry-after'' (show_nat retry_after) @ header_if G ''x-ratelimit-reset'' (show_nat retry_after)
        @ header_if G ''x-ratelimit-limit'' (show_nat (unat limit)) @ [(''x-ratelimit-remaining'', ''0'')] @ extra)"

definition version_error :: "exec_env \<Rightarrow> gateway \<Rightarrow> headers \<Rightarrow> unit result" where
  "version_error X G hs =
     (if gw_require_icp_version G then
        (case hs ''icp-version'' of
           None \<Rightarrow> Inl (InvalidRequest ''ICP-Version header required'')
         | Some got \<Rightarrow>
             if got = cf_icp_version (e_cfg (xe_env X)) then Inr ()
             else Inl (InvalidRequest (''ICP-Version `'' @ got @ ''` not supported; expected `''
               @ cf_icp_version (e_cfg (xe_env X)) @ ''`'')))
      else Inr ())"

definition required_headers :: "gateway \<Rightarrow> headers \<Rightarrow> unit result" where
  "required_headers G hs =
     (if hs ''icp-request-id'' = None \<and> gw_require_request_id G then
        Inl (InvalidRequest ''ICP-Request-Id header required for this handler'')
      else if hs ''icp-idempotency-key'' = None \<and> gw_require_idempotency_key G then
        Inl (InvalidRequest ''ICP-Idempotency-Key header required for this handler'')
      else Inr ())"

definition ok_headers :: "gateway \<Rightarrow> headers \<Rightarrow> (string \<times> string) list \<Rightarrow> intent_execution \<Rightarrow> (string \<times> string) list" where
  "ok_headers G hs rl_headers ex =
     (let receipt = rb_receipt (ix_body ex) in
      (if rs_jws receipt = [] then []
       else header_if G ''icp-receipt'' (rs_jws receipt) @ header_if G ''icp-receipt-kid'' (rs_kid receipt))
      @ (if ix_replayed ex then
           (''idempotent-replayed'', ''true'')
           # (case hs ''icp-idempotency-key'' of Some key \<Rightarrow> header_if G ''idempotent-key'' key | None \<Rightarrow> [])
         else [])
      @ rl_headers)"

definition submit_input :: "gateway \<Rightarrow> headers \<Rightarrow> intent_envelope \<Rightarrow> api_key_info \<Rightarrow> agent_identifier \<Rightarrow> intent_input" where
  "submit_input G hs envelope tenant agent =
     for_icp envelope agent tenant (hs ''icp-mandate'')
       (case hs ''icp-request-id'' of Some r \<Rightarrow> r | None \<Rightarrow> ''req_'' @ gw_request_uuid G) (hs ''icp-trace-id'')"

text \<open>Everything after the per-tenant limit.\<close>

definition submit_admitted ::
  "exec_env \<Rightarrow> gateway \<Rightarrow> headers \<Rightarrow> intent_envelope \<Rightarrow> api_key_info \<Rightarrow> agent_identifier \<Rightarrow> (string \<times> string) list
     \<Rightarrow> service \<Rightarrow> reply exec \<times> service" where
  "submit_admitted X G hs envelope tenant agent rl_headers sv =
     (case required_headers G hs of
        Inl e \<Rightarrow> (Inr (error_reply e []), sv)
      | Inr _ \<Rightarrow>
          (case handle_intent_idempotent X (submit_input G hs envelope tenant agent) (hs ''icp-idempotency-key'') sv of
             (Inl Panic, sv') \<Rightarrow> (Inl Panic, sv')
           | (Inl (Fail e), sv') \<Rightarrow>
               (case into_body_with_intent_id e (en_intent_id envelope) of
                  (status, body) \<Rightarrow> (Inr (ErrorReply status body []), sv'))
           | (Inr ex, sv') \<Rightarrow>
               (Inr (OkReply (e_body_json (xe_env X) (ix_body ex)) (ok_headers G hs rl_headers ex)), sv')))"

definition authenticate :: "gateway \<Rightarrow> headers \<Rightarrow> (api_key_info \<times> agent_identifier) result" where
  "authenticate G hs =
     bind_result (resolve_tenant hs (gw_keys G) (gw_now G)) (\<lambda>tenant.
     bind_result (resolve_agent hs) (\<lambda>agent.
     bind_result (ensure_agent_allowed tenant agent) (\<lambda>_. Inr (tenant, agent))))"

definition submit_intent ::
  "exec_env \<Rightarrow> gateway \<Rightarrow> headers \<Rightarrow> intent_envelope \<Rightarrow> service \<Rightarrow> reply exec \<times> service" where
  "submit_intent X G hs envelope sv =
     (case check_pre_auth_rate_limit X (client_ip_for_rate_limit hs (gw_trust_proxy_headers G)) sv of
        (Inl e, sv1) \<Rightarrow> (Inr (error_reply e []), sv1)
      | (Inr (Denied limit retry_after), sv1) \<Rightarrow>
          (Inr (limited_reply G limit retry_after [(''x-ratelimit-scope'', ''pre-auth'')]), sv1)
      | (Inr (Allowed _ _ _), sv1) \<Rightarrow>
          (case authenticate G hs of
             Inl e \<Rightarrow> (Inr (error_reply e []), sv1)
           | Inr (tenant, agent) \<Rightarrow>
               (case version_error X G hs of
                  Inl e \<Rightarrow> (Inr (error_reply e []), sv1)
                | Inr _ \<Rightarrow>
                    (case check_tenant_rate_limit X tenant sv1 of
                       (Inl e, sv2) \<Rightarrow> (Inr (error_reply e []), sv2)
                     | (Inr (Denied limit retry_after), sv2) \<Rightarrow> (Inr (limited_reply G limit retry_after []), sv2)
                     | (Inr (Allowed limit remaining reset), sv2) \<Rightarrow>
                         submit_admitted X G hs envelope tenant agent
                           (header_if G ''x-ratelimit-limit'' (show_nat (unat limit))
                            @ header_if G ''x-ratelimit-remaining'' (show_nat (unat remaining))
                            @ header_if G ''x-ratelimit-reset'' (show_nat reset)) sv2))))"

section \<open>What an execution does to the state\<close>

lemma limits_keep:
  "check_tenant_rate_limit X tenant sv = (r, sv') \<Longrightarrow> sv_icp sv' = sv_icp sv \<and> sv_idempotency sv' = sv_idempotency sv"
  "check_pre_auth_rate_limit X b sv = (r, sv') \<Longrightarrow> sv_icp sv' = sv_icp sv \<and> sv_idempotency sv' = sv_idempotency sv"
  "enforce_tenant_limit X inp sv = (u, sv') \<Longrightarrow> sv_icp sv' = sv_icp sv \<and> sv_idempotency sv' = sv_idempotency sv"
  by (auto simp: check_tenant_rate_limit_def check_pre_auth_rate_limit_def enforce_tenant_limit_def apsnd_def
      map_prod_def split: prod.splits if_splits sum.splits rate_limit_decision.splits)

lemma execute_won_icp:
  "execute_won X inp k digest token sv = (r, sv') \<Longrightarrow> sv_icp sv' = snd (handle_intent (xe_env X) inp (sv_icp sv))"
  by (auto simp: execute_won_def split: prod.splits sum.splits fault.splits)

lemma execute_keyed_icp:
  "execute_keyed X inp key sv = (r, sv') \<Longrightarrow>
   sv_icp sv' = sv_icp sv \<or> sv_icp sv' = snd (handle_intent (xe_env X) inp (sv_icp sv))"
  by (auto simp: execute_keyed_def Let_def split: prod.splits sum.splits option.splits reserve_outcome.splits
      dest!: execute_won_icp)

text \<open>An execution runs the intent once or not at all.\<close>

lemma idempotent_icp:
  "handle_intent_idempotent X inp explicit_key sv = (r, sv') \<Longrightarrow>
   sv_icp sv' = sv_icp sv \<or> sv_icp sv' = snd (handle_intent (xe_env X) inp (sv_icp sv))"
  by (auto simp: handle_intent_idempotent_def split: sum.splits option.splits prod.splits
      dest!: execute_keyed_icp limits_keep(3))

text \<open>What is read back from the cache is marked as replayed.\<close>

lemma await_replayed: "await X k digest i n = Inr ex \<Longrightarrow> ix_replayed ex"
  by (induction n arbitrary: i) (auto simp: replay_def split: lookup_outcome.splits sum.splits)

lemma executed_fresh:
  assumes "execute_keyed X inp key sv = (Inr ex, sv')" "\<not> ix_replayed ex"
  obtains digest lease token st encoded s where
    "xe_digest X (in_envelope inp) = Inr digest"
    "idem_reserve (xe_faults X 0) (e_chrono (xe_env X)) (xe_token X) (in_tenant_id inp, key) digest (xe_now X 0) lease
       (sv_idempotency sv) = (Won token, st)"
    "handle_intent (xe_env X) inp (sv_icp sv) = (Inr (ix_body ex), s)" "xe_encode X (ix_body ex) = Inr encoded"
    "sv' = sv\<lparr>sv_icp := s, sv_idempotency := idem_store (xe_faults X 1) (e_chrono (xe_env X)) (in_tenant_id inp, key)
       digest \<lparr>cd_status = 200, cd_body = encoded\<rparr> (xe_now X 1) token st\<rparr>"
proof -
  obtain digest where digest: "xe_digest X (in_envelope inp) = Inr digest"
    using assms(1) by (auto simp: execute_keyed_def Let_def split: sum.splits)
  obtain lease where lease:
    "idempotency_lease (xe_env X) = Some lease"
    using assms(1) digest by (auto simp: execute_keyed_def Let_def split: option.splits)
  obtain r st where reserve:
    "idem_reserve (xe_faults X 0) (e_chrono (xe_env X)) (xe_token X) (in_tenant_id inp, key) digest (xe_now X 0) lease
       (sv_idempotency sv) = (r, st)"
    by (rule prod.exhaust)
  note run = assms(1) [unfolded execute_keyed_def Let_def digest lease sum.case option.case reserve prod.case]
  obtain token where r: "r = Won token"
    using run assms(2) by (cases r) (auto simp: replay_def dest: await_replayed split: sum.splits)
  show thesis
    using run [unfolded r reserve_outcome.case] reserve [unfolded r]
    by (auto simp: execute_won_def split: prod.splits sum.splits fault.splits intro!: that [OF digest])
qed

text \<open>The answer that a fresh execution leaves under its key.\<close>

lemma executed_recorded:
  assumes "execute_keyed X inp key sv = (Inr ex, sv1)" "\<not> ix_replayed ex"
    and "xe_digest X (in_envelope inp) = Inr d" "\<not> f_pool (xe_faults X 1)" "\<not> f_write (xe_faults X 1)"
  obtains encoded where "xe_encode X (ix_body ex) = Inr encoded"
    "idem_holds (e_chrono (xe_env X)) (sv_idempotency sv1) (in_tenant_id inp, key)
       (Some (completed_entry d \<lparr>cd_status = 200, cd_body = encoded\<rparr> (xe_now X 1)))"
    "is_ttl (sv_idempotency sv1) = is_ttl (sv_idempotency sv)"
proof -
  obtain lease token st encoded s where run:
      "idem_reserve (xe_faults X 0) (e_chrono (xe_env X)) (xe_token X) (in_tenant_id inp, key) d (xe_now X 0) lease
         (sv_idempotency sv) = (Won token, st)"
      "xe_encode X (ix_body ex) = Inr encoded"
      "sv1 = sv\<lparr>sv_icp := s, sv_idempotency := idem_store (xe_faults X 1) (e_chrono (xe_env X)) (in_tenant_id inp, key) d
         \<lparr>cd_status = 200, cd_body = encoded\<rparr> (xe_now X 1) token st\<rparr>"
    using executed_fresh [OF assms(1,2)] assms(3) by (metis sum.inject(2))
  show thesis
    using that [OF run(2)] idem_store_won [OF run(1) assms(4,5), of "\<lparr>cd_status = 200, cd_body = encoded\<rparr>" "xe_now X 1"]
      idem_won_entry [OF run(1)] run(3) by simp
qed

text \<open>The request after an answer was recorded under its key: replayed if it is the same, else a conflict.\<close>

lemma execute_keyed_answered:
  assumes "rfc3339_roundtrip (e_chrono (xe_env X))" "e_chrono (xe_env X') = e_chrono (xe_env X)"
    and first: "execute_keyed X inp key sv = (Inr ex, sv1)" "\<not> ix_replayed ex"
    and store: "sv_idempotency sv2 = sv_idempotency sv1" "in_tenant_id inp' = in_tenant_id inp"
    and digests: "xe_digest X (in_envelope inp) = Inr d" "xe_digest X' (in_envelope inp') = Inr d'"
    and faults: "\<not> f_pool (xe_faults X 1)" "\<not> f_write (xe_faults X 1)" "xe_faults X' 0 = no_faults"
    and decode: "\<And>encoded. xe_encode X (ix_body ex) = Inr encoded \<Longrightarrow> xe_decode X' encoded = Inr (ix_body ex)"
    and lease: "idempotency_lease (xe_env X') = Some lease"
    and time: "xe_now X' 0 - xe_now X 1 \<le> is_ttl (sv_idempotency sv)"
  shows "execute_keyed X' inp' key sv2 =
      ((if d' = d then Inr \<lparr>ix_body = ix_body ex, ix_replayed = True\<rparr> else Inl (Fail (idem_conflict key))), sv2)"
proof -
  let ?C = "e_chrono (xe_env X)" and ?k = "(in_tenant_id inp, key)"
  obtain encoded where run: "xe_encode X (ix_body ex) = Inr encoded"
      "idem_holds ?C (sv_idempotency sv1) ?k (Some (completed_entry d \<lparr>cd_status = 200, cd_body = encoded\<rparr> (xe_now X 1)))"
      "is_ttl (sv_idempotency sv1) = is_ttl (sv_idempotency sv)"
    by (rule executed_recorded [OF first digests(1) faults(1,2)])
  let ?c = "\<lparr>cd_status = 200, cd_body = encoded\<rparr>"
  have held: "idem_holds ?C (sv_idempotency sv2) ?k (Some (completed_entry d ?c (xe_now X 1)))"
    using run(2) store(1) by simp
  have "is_ttl (sv_idempotency sv2) = is_ttl (sv_idempotency sv)"
    using run(3) store(1) by simp
  then have "idem_reserve no_faults ?C (xe_token X') ?k d' (xe_now X' 0) lease (sv_idempotency sv2) =
      (if d' = d then RsReplay ?c else RsConflict, sv_idempotency sv2)"
    using idem_reserve_answered [OF held _ _ assms(1)] time by (simp add: u16_status_def)
  then show ?thesis
    using lease decode [OF run(1)]
    by (simp add: execute_keyed_def Let_def digests(2) assms(2) faults(3) store(2) replay_def)
qed

section \<open>Between an execution and its retry\<close>

text \<open>
  What may happen to the service while the answer under the key \<open>k\<close> lives, that is until \<open>until\<close>: requests of any
  tenants, under any keys, with any failures, except that a request under \<open>k\<close> itself reads the store; evictions; and
  whatever leaves the store of answers alone.
\<close>

inductive meanwhile :: "chrono \<Rightarrow> idem_key \<Rightarrow> time \<Rightarrow> service \<Rightarrow> service \<Rightarrow> bool" for C k until where
  quiet: "meanwhile C k until sv sv"
| request: "meanwhile C k until sv sv1 \<Longrightarrow> handle_intent_idempotent X inp ek sv1 = (r, sv2) \<Longrightarrow> e_chrono (xe_env X) = C \<Longrightarrow>
    (\<And>key. effective_key inp ek = Some key \<Longrightarrow> k = (in_tenant_id inp, key) \<Longrightarrow>
       \<not> f_read (xe_faults X 0) \<and> xe_now X 0 \<le> until) \<Longrightarrow> meanwhile C k until sv sv2"
| eviction: "meanwhile C k until sv sv1 \<Longrightarrow> now \<le> until \<Longrightarrow>
    meanwhile C k until sv (sv1\<lparr>sv_idempotency := snd (idem_prune F C now (sv_idempotency sv1))\<rparr>)"
| elsewhere: "meanwhile C k until sv sv1 \<Longrightarrow> sv_idempotency sv2 = sv_idempotency sv1 \<Longrightarrow> meanwhile C k until sv sv2"

definition answered_until :: "chrono \<Rightarrow> idem_key \<Rightarrow> string \<Rightarrow> cached_response \<Rightarrow> time \<Rightarrow> time \<Rightarrow> service \<Rightarrow> bool" where
  "answered_until C k d c t until sv \<longleftrightarrow>
     idem_holds C (sv_idempotency sv) k (Some (completed_entry d c t)) \<and> until = t + is_ttl (sv_idempotency sv)"

lemma execute_won_answered:
  assumes "execute_won X inp k' digest token sv = (r, sv')" "k' \<noteq> k" "e_chrono (xe_env X) = C"
    and "answered_until C k d c t until sv"
  shows "answered_until C k d c t until sv'"
  using assms idem_holds_other [of C _ k _ k'] unfolding execute_won_def answered_until_def
  by (auto split: prod.splits sum.splits fault.splits)

lemma execute_keyed_kept:
  assumes run: "execute_keyed X inp key sv = (r, sv')" and C: "rfc3339_roundtrip C" "e_chrono (xe_env X) = C"
    and c: "u16_status c" and held: "answered_until C k d c t until sv"
    and same: "k = (in_tenant_id inp, key) \<Longrightarrow> \<not> f_read (xe_faults X 0) \<and> xe_now X 0 \<le> until"
  shows "answered_until C k d c t until sv' \<and>
    (k = (in_tenant_id inp, key) \<longrightarrow> sv_icp sv' = sv_icp sv \<and> (\<forall>ex. r = Inr ex \<longrightarrow> ix_replayed ex))"
proof (cases "\<exists>digest lease. xe_digest X (in_envelope inp) = Inr digest \<and> idempotency_lease (xe_env X) = Some lease")
  case False
  then have "sv' = sv \<and> (\<exists>e. r = Inl e)"
    using run by (auto simp: execute_keyed_def Let_def split: sum.splits option.splits)
  then show ?thesis using held by auto
next
  case True
  then obtain digest lease where digest: "xe_digest X (in_envelope inp) = Inr digest"
    and lease: "idempotency_lease (xe_env X) = Some lease" by blast
  let ?k = "(in_tenant_id inp, key)"
  obtain r0 st where reserve: "idem_reserve (xe_faults X 0) C (xe_token X) ?k digest (xe_now X 0) lease (sv_idempotency sv) = (r0, st)"
    by (rule prod.exhaust)
  have "?k = k \<Longrightarrow> \<not> f_read (xe_faults X 0) \<and> xe_now X 0 - t \<le> is_ttl (sv_idempotency sv)"
    using same held by (auto simp: answered_until_def)
  note reserved = idem_holds_reserve [OF _ c C(1) this reserve, where d = d]
  have holds: "idem_holds C (sv_idempotency sv) k (Some (completed_entry d c t))"
    using held by (simp add: answered_until_def)
  have st: "answered_until C k d c t until (sv\<lparr>sv_idempotency := st\<rparr>)"
    using reserved [OF holds] held by (simp add: answered_until_def)
  have lost: "r0 \<noteq> Won tok" if "k = ?k" for tok
    using reserved [OF holds] that by simp
  note run = run [unfolded execute_keyed_def Let_def digest lease sum.case option.case C(2) reserve prod.case]
  show ?thesis
  proof (cases r0)
    case (Won tok)
    then show ?thesis
      using run lost execute_won_answered [OF _ _ C(2) st, of inp ?k digest tok r sv'] by auto
  next
    case InProgress
    then show ?thesis using run st by (auto dest: await_replayed)
  qed (use run st in \<open>auto simp: replay_def split: sum.splits\<close>)
qed

lemma idem_request_kept:
  assumes run: "handle_intent_idempotent X inp ek sv = (r, sv')" and C: "rfc3339_roundtrip C" "e_chrono (xe_env X) = C"
    and c: "u16_status c" and held: "answered_until C k d c t until sv"
    and same: "\<And>key. effective_key inp ek = Some key \<Longrightarrow> k = (in_tenant_id inp, key) \<Longrightarrow>
      \<not> f_read (xe_faults X 0) \<and> xe_now X 0 \<le> until"
  shows "answered_until C k d c t until sv' \<and>
    (\<forall>key. effective_key inp ek = Some key \<and> k = (in_tenant_id inp, key) \<longrightarrow>
       sv_icp sv' = sv_icp sv \<and> (\<forall>ex. r = Inr ex \<longrightarrow> ix_replayed ex))"
proof -
  obtain u sv0 where limit: "enforce_tenant_limit X inp sv = (u, sv0)" by (rule prod.exhaust)
  note kept = limits_keep(3) [OF limit]
  have held0: "answered_until C k d c t until sv0" using held kept by (simp add: answered_until_def)
  show ?thesis
  proof (cases u)
    case (Inl e)
    then show ?thesis using run limit held0 kept by (auto simp: handle_intent_idempotent_def)
  next
    case (Inr x)
    show ?thesis
    proof (cases "effective_key inp ek")
      case None
      then show ?thesis
        using run limit Inr held0
        by (auto simp: handle_intent_idempotent_def answered_until_def split: prod.splits sum.splits)
    next
      case (Some key)
      then have "execute_keyed X inp key sv0 = (r, sv')"
        using run limit Inr by (simp add: handle_intent_idempotent_def)
      from execute_keyed_kept [OF this C c held0 same [OF Some]] show ?thesis
        using Some kept by simp
    qed
  qed
qed

lemma meanwhile_answered:
  assumes "meanwhile C k until sv sv'" "answered_until C k d c t until sv"
    and "rfc3339_roundtrip C" "rfc3339_ordered C" "u16_status c"
  shows "answered_until C k d c t until sv'"
  using assms(1,2)
proof (induction rule: meanwhile.induct)
  case (request sv sv1 X inp ek r sv2)
  from idem_request_kept [OF request.hyps(2) assms(3) request.hyps(3) assms(5) request.IH [OF request.prems] request.hyps(4)]
  show ?case by simp
next
  case (eviction sv sv1 now F)
  then show ?case
    using idem_holds_prune [of C "sv_idempotency sv1" k d c t now F] assms(4) by (auto simp: answered_until_def)
qed (simp_all add: answered_until_def)

section \<open>Properties\<close>

text \<open>
  C35. A retry is not executed again, over either backend. A keyed request was executed and its answer recorded; after it
  came any requests by any tenants under any keys, with any failures, evictions, and whatever else leaves the store of
  answers alone. Then, within the life time of the answer, a request of the same tenant under the same key leaves
  transactions, ledger and every other store untouched, and if it succeeds it answers from the cache. Without a failure of
  its reservation the same request gets the same body, marked as replayed, and a different one is refused as a conflict.
  Two cases are left out, as they are executed again: a request after the life time of the answer, and one (the retry or
  one in between) whose read of the SQLite store fails, which counts as no row (\<open>unread_answer_is_claimed\<close>).
\<close>

theorem retry_is_replayed:
  assumes C: "rfc3339_roundtrip C" "rfc3339_ordered C" "e_chrono (xe_env X) = C" "e_chrono (xe_env X') = C"
    and first: "handle_intent_idempotent X inp ek sv = (Inr ex, sv1)" "\<not> ix_replayed ex"
    and key: "effective_key inp ek = Some key" "effective_key inp' ek' = Some key" "in_tenant_id inp' = in_tenant_id inp"
    and recorded: "xe_digest X (in_envelope inp) = Inr d" "\<not> f_pool (xe_faults X 1)" "\<not> f_write (xe_faults X 1)"
    and between: "meanwhile C (in_tenant_id inp, key) (xe_now X 1 + is_ttl (sv_idempotency sv)) sv1 sv2"
    and read: "\<not> f_read (xe_faults X' 0)" and time: "xe_now X' 0 \<le> xe_now X 1 + is_ttl (sv_idempotency sv)"
    and retry: "handle_intent_idempotent X' inp' ek' sv2 = (r, sv3)"
  shows "sv_icp sv3 = sv_icp sv2 \<and> (\<forall>ex'. r = Inr ex' \<longrightarrow> ix_replayed ex') \<and>
    (xe_faults X' 0 = no_faults \<and> fst (enforce_tenant_limit X' inp' sv2) = Inr () \<and> idempotency_lease (xe_env X') \<noteq> None \<and>
     (\<forall>encoded. xe_encode X (ix_body ex) = Inr encoded \<longrightarrow> xe_decode X' encoded = Inr (ix_body ex)) \<longrightarrow>
     (\<forall>d'. xe_digest X' (in_envelope inp') = Inr d' \<longrightarrow>
        r = (if d' = d then Inr \<lparr>ix_body = ix_body ex, ix_replayed = True\<rparr> else Inl (Fail (idem_conflict key)))))"
proof -
  let ?k = "(in_tenant_id inp, key)" and ?until = "xe_now X 1 + is_ttl (sv_idempotency sv)"
  obtain sv0 where sv0: "enforce_tenant_limit X inp sv = (Inr (), sv0)" "execute_keyed X inp key sv0 = (Inr ex, sv1)"
    using first(1) key(1) by (auto simp: handle_intent_idempotent_def split: prod.splits sum.splits)
  obtain encoded where run: "xe_encode X (ix_body ex) = Inr encoded"
      "idem_holds C (sv_idempotency sv1) ?k (Some (completed_entry d \<lparr>cd_status = 200, cd_body = encoded\<rparr> (xe_now X 1)))"
      "is_ttl (sv_idempotency sv1) = is_ttl (sv_idempotency sv0)"
    using executed_recorded [OF sv0(2) first(2) recorded] C(3) by blast
  let ?c = "\<lparr>cd_status = 200, cd_body = encoded\<rparr>"
  have c: "u16_status ?c" by (simp add: u16_status_def)
  have "answered_until C ?k d ?c (xe_now X 1) ?until sv1"
    using run(2,3) limits_keep(3) [OF sv0(1)] by (simp add: answered_until_def)
  from meanwhile_answered [OF between this C(1,2) c]
  have held: "answered_until C ?k d ?c (xe_now X 1) ?until sv2" .
  have kept: "sv_icp sv3 = sv_icp sv2 \<and> (\<forall>ex'. r = Inr ex' \<longrightarrow> ix_replayed ex')"
    using idem_request_kept [OF retry C(1,4) c held] read time key(2,3) by auto
  have "r = (if d' = d then Inr \<lparr>ix_body = ix_body ex, ix_replayed = True\<rparr> else Inl (Fail (idem_conflict key)))"
    if plain: "xe_faults X' 0 = no_faults" "fst (enforce_tenant_limit X' inp' sv2) = Inr ()" "idempotency_lease (xe_env X') \<noteq> None"
      and decode: "xe_decode X' encoded = Inr (ix_body ex)" and digest: "xe_digest X' (in_envelope inp') = Inr d'" for d'
  proof -
    obtain sv2' where limit: "enforce_tenant_limit X' inp' sv2 = (Inr (), sv2')"
      using plain(2) by (metis prod.collapse)
    obtain lease where lease: "idempotency_lease (xe_env X') = Some lease" using plain(3) by blast
    have "idem_holds C (sv_idempotency sv2') ?k (Some (completed_entry d ?c (xe_now X 1)))"
      "xe_now X' 0 - xe_now X 1 \<le> is_ttl (sv_idempotency sv2')"
      using held time limits_keep(3) [OF limit] by (simp_all add: answered_until_def)
    from idem_reserve_answered [OF this(1) c this(2) C(1), of "xe_token X'" d' lease]
    have "fst (execute_keyed X' inp' key sv2') =
        (if d' = d then Inr \<lparr>ix_body = ix_body ex, ix_replayed = True\<rparr> else Inl (Fail (idem_conflict key)))"
      by (simp add: execute_keyed_def Let_def digest lease C(4) plain(1) key(3) replay_def decode)
    moreover have "execute_keyed X' inp' key sv2' = (r, sv3)"
      using retry limit key(2) by (simp add: handle_intent_idempotent_def)
    ultimately show ?thesis by simp
  qed
  then show ?thesis using kept run(1) by blast
qed

definition demo_exec :: "intent_response_body \<Rightarrow> exec_env" where
  "demo_exec body = \<lparr>xe_env = demo_env, xe_digest = (\<lambda>e. Inr (en_intent e)), xe_encode = (\<lambda>_. Inr ''cached''),
     xe_decode = (\<lambda>_. Inr body), xe_token = ''tok'', xe_faults = (\<lambda>_. no_faults), xe_now = (\<lambda>i. 10),
     xe_found = (\<lambda>_. idem_in_memory), xe_distributed = None, xe_distributed_pre_auth = None, xe_poisoned = False,
     xe_poisoned_pre_auth = False, xe_instant = (\<lambda>i. 0)\<rparr>"

definition demo_service :: service where
  "demo_service = \<lparr>sv_icp = demo_state, sv_idempotency = idem_in_memory, sv_rate_limiter = per_minute 300,
     sv_pre_auth_limiter = per_minute 0\<rparr>"

lemma demo_effective_key: "effective_key (demo_input i) None = Some ''intent:agent:int_1''"
  by (simp add: effective_key_def demo_input_def for_icp_def demo_agent_def)

lemma demo_limit: "enforce_tenant_limit X (demo_input i) sv = (Inr (), sv)"
  by (simp add: enforce_tenant_limit_def demo_input_def for_icp_def)

lemma demo_lease: "idempotency_lease demo_env = Some (secs 60)"
  by (simp add: idempotency_lease_def demo_env_def demo_cfg_def chrono_demo_def wrap_i64_def)

lemma demo_execution:
  assumes "handle_intent demo_env (demo_input i) demo_state = (Inr body, s)"
  shows "\<exists>sv1. handle_intent_idempotent (demo_exec b) (demo_input i) None demo_service =
    (Inr \<lparr>ix_body = body, ix_replayed = False\<rparr>, sv1)"
  using assms demo_lease
  by (simp add: handle_intent_idempotent_def demo_limit demo_effective_key execute_keyed_def Let_def demo_exec_def
      demo_service_def idem_in_memory_def idem_reserve_def mem_reserve_def execute_won_def)

text \<open>A search, a purchase attempt under another key, an eviction, and the search again.\<close>

theorem retry_is_replayed_witness:
  "\<exists>body sv1 r2 sv2 r3 sv3. let X = demo_exec body; inp = demo_input ''intent.search'' in
     handle_intent_idempotent X inp None demo_service = (Inr \<lparr>ix_body = body, ix_replayed = False\<rparr>, sv1) \<and>
     handle_intent_idempotent X (demo_input ''intent.buy'') (Some ''other'') sv1 = (r2, sv2) \<and>
     handle_intent_idempotent X inp None (sv2\<lparr>sv_idempotency := snd (idem_prune no_faults chrono_demo 10 (sv_idempotency sv2))\<rparr>)
       = (r3, sv3) \<and> sv_icp sv3 = sv_icp sv2 \<and> r3 = Inr \<lparr>ix_body = body, ix_replayed = True\<rparr>"
proof -
  obtain body s where "handle_intent demo_env (demo_input ''intent.search'') demo_state = (Inr body, s)"
    using demo_searches by blast
  let ?X = "demo_exec body" and ?inp = "demo_input ''intent.search''" and ?buy = "demo_input ''intent.buy''"
  from demo_execution [OF \<open>handle_intent _ _ _ = _\<close>, of body] obtain sv1 where
    first: "handle_intent_idempotent ?X ?inp None demo_service = (Inr \<lparr>ix_body = body, ix_replayed = False\<rparr>, sv1)" by blast
  obtain r2 sv2 where second: "handle_intent_idempotent ?X ?buy (Some ''other'') sv1 = (r2, sv2)" by (rule prod.exhaust)
  let ?sv2 = "sv2\<lparr>sv_idempotency := snd (idem_prune no_faults chrono_demo 10 (sv_idempotency sv2))\<rparr>"
  obtain r3 sv3 where third: "handle_intent_idempotent ?X ?inp None ?sv2 = (r3, sv3)" by (rule prod.exhaust)
  have X: "e_chrono (xe_env ?X) = chrono_demo" "xe_now ?X i = 10" "xe_faults ?X i = no_faults"
    "xe_digest ?X (in_envelope ?inp) = Inr (en_intent (in_envelope ?inp))" for i
    by (simp_all add: demo_exec_def demo_env_def)
  have ttl: "is_ttl (sv_idempotency demo_service) = hours 24" "0 \<le> hours 24"
    by (simp_all add: demo_service_def idem_in_memory_def default_ttl_hours_def hours_def secs_def)
  have between: "meanwhile chrono_demo (in_tenant_id ?inp, ''intent:agent:int_1'')
      (xe_now ?X 1 + is_ttl (sv_idempotency demo_service)) sv1 ?sv2"
  proof (rule meanwhile.eviction)
    show "meanwhile chrono_demo (in_tenant_id ?inp, ''intent:agent:int_1'')
        (xe_now ?X 1 + is_ttl (sv_idempotency demo_service)) sv1 sv2"
      by (rule meanwhile.request [OF meanwhile.quiet second X(1)]) (simp add: effective_key_def Let_def)
  qed (use ttl in \<open>simp add: X\<close>)
  note P = retry_is_replayed [OF chrono_demo_ok(1,3) X(1) X(1) first _ demo_effective_key demo_effective_key refl X(4) _ _
      between _ _ third]
  have "sv_icp sv3 = sv_icp ?sv2 \<and> r3 = Inr \<lparr>ix_body = body, ix_replayed = True\<rparr>"
    using P demo_lease ttl by (simp add: X no_faults_def demo_limit) (simp add: demo_exec_def)
  then show ?thesis
    unfolding Let_def using first second third by simp blast
qed

text \<open>
  C36. What an attempt that won its claim leaves behind, over either backend: a failed intent gives the
  key up, so that the next attempt is let through at once; an answer that was recorded stands; a panic,
  or a body that cannot be encoded, leaves the claim pending until its lease is up. The intent ran
  once in every case.
\<close>

theorem claimed_attempt_outcome:
  assumes "enforce_tenant_limit X inp sv = (Inr (), sv0)" "effective_key inp ek = Some key"
    and "xe_digest X (in_envelope inp) = Inr d"
    and "idempotency_lease (xe_env X) = Some lease"
    and won: "idem_reserve (xe_faults X 0) (e_chrono (xe_env X)) (xe_token X) (in_tenant_id inp, key) d (xe_now X 0) lease
        (sv_idempotency sv0) = (Won token, st)"
    and faults: "\<not> f_pool (xe_faults X 1)" "\<not> f_write (xe_faults X 1)"
    and "handle_intent (xe_env X) inp (sv_icp sv0) = (r, s)"
    and "handle_intent_idempotent X inp ek sv = (r', sv')"
  shows "sv_icp sv' = s \<and>
    (case r of
       Inl (Fail e) \<Rightarrow> r' = Inl (Fail e) \<and>
         (\<forall>tok d' now lease'. fst (idem_reserve no_faults (e_chrono (xe_env X)) tok (in_tenant_id inp, key) d' now lease'
            (sv_idempotency sv')) = Won tok)
     | Inl Panic \<Rightarrow> r' = Inl Panic \<and> idem_holds (e_chrono (xe_env X)) (sv_idempotency sv') (in_tenant_id inp, key)
         (Some (pending_entry d (xe_now X 0) token))
     | Inr body \<Rightarrow>
         (case xe_encode X body of
            Inl e \<Rightarrow> r' = Inl (Fail (ProcessingError (''serialize for cache: '' @ e))) \<and>
              idem_holds (e_chrono (xe_env X)) (sv_idempotency sv') (in_tenant_id inp, key)
                (Some (pending_entry d (xe_now X 0) token))
          | Inr encoded \<Rightarrow> r' = Inr \<lparr>ix_body = body, ix_replayed = False\<rparr> \<and>
              idem_holds (e_chrono (xe_env X)) (sv_idempotency sv') (in_tenant_id inp, key)
                (Some (completed_entry d \<lparr>cd_status = 200, cd_body = encoded\<rparr> (xe_now X 1)))))"
proof -
  have run: "execute_won X inp (in_tenant_id inp, key) d token (sv0\<lparr>sv_idempotency := st\<rparr>) = (r', sv')"
    using assms(9) by (simp add: handle_intent_idempotent_def assms(1,2) execute_keyed_def Let_def assms(3,4) won)
  have pending: "idem_holds (e_chrono (xe_env X)) st (in_tenant_id inp, key) (Some (pending_entry d (xe_now X 0) token))"
    using idem_won_entry [OF won] by simp
  note free = idem_reserve_free [OF idem_release_won [OF won faults]]
  show ?thesis
  proof (cases r)
    case (Inl e)
    then show ?thesis
      using run assms(8) pending free by (cases e) (auto simp: execute_won_def)
  next
    case (Inr body)
    then show ?thesis
      using run assms(8) pending idem_store_won [OF won faults]
      by (cases "xe_encode X body") (auto simp: execute_won_def)
  qed
qed

lemma unknown_intent_fails: "\<exists>e. handle_intent demo_env (demo_input ''?'') demo_state = (Inl (Fail e), demo_state)"
proof -
  obtain e where "parse_intent ''?'' = Inl e"
    by (simp add: parse_intent_def trim_graphic graphic_def strip_prefix_def intent_of_name_def intent_names_def Let_def)
  then have "handle_intent demo_env (demo_input ''?'') demo_state = (Inl (Fail e), demo_state)"
    by (simp add: handle_intent_def andthen_def guard_def ret_def of_result_def demo_input_def for_icp_def demo_agent_def)
  then show ?thesis by blast
qed

theorem claimed_attempt_outcome_witness:
  "\<forall>b. \<exists>e sv'. handle_intent_idempotent (demo_exec b) (demo_input ''?'') None demo_service = (Inl (Fail e), sv') \<and>
     fst (idem_reserve no_faults chrono_demo ''next'' (''shop'', ''intent:agent:int_1'') ''?'' 11 (secs 60)
       (sv_idempotency sv')) = Won ''next''"
proof
  fix b
  obtain e where fails: "handle_intent demo_env (demo_input ''?'') demo_state = (Inl (Fail e), demo_state)"
    using unknown_intent_fails by blast
  obtain r sv' where run: "handle_intent_idempotent (demo_exec b) (demo_input ''?'') None demo_service = (r, sv')"
    by (rule prod.exhaust)
  obtain st where won: "idem_reserve (xe_faults (demo_exec b) 0) (e_chrono (xe_env (demo_exec b))) (xe_token (demo_exec b))
      (in_tenant_id (demo_input ''?''), ''intent:agent:int_1'') ''?'' (xe_now (demo_exec b) 0) (secs 60)
      (sv_idempotency demo_service) = (Won ''tok'', st)"
    by (simp add: demo_exec_def demo_service_def idem_in_memory_def idem_reserve_def mem_reserve_def)
  have "sv_icp demo_service = demo_state" "xe_env (demo_exec b) = demo_env"
    by (simp_all add: demo_service_def demo_exec_def)
  with claimed_attempt_outcome [OF demo_limit demo_effective_key _ _ won _ _ _ run, of "Inl (Fail e)" demo_state] fails demo_lease
  show "\<exists>e sv'. handle_intent_idempotent (demo_exec b) (demo_input ''?'') None demo_service = (Inl (Fail e), sv') \<and>
     fst (idem_reserve no_faults chrono_demo ''next'' (''shop'', ''intent:agent:int_1'') ''?'' 11 (secs 60)
       (sv_idempotency sv')) = Won ''next''"
    using run by (simp add: demo_exec_def no_faults_def demo_env_def demo_input_def for_icp_def demo_tenant_def)
qed

section \<open>The endpoint lets nobody else in\<close>

lemma submit_admitted_icp:
  assumes "submit_admitted X G hs envelope tenant agent rls sv = (r, sv')"
  shows "sv_icp sv' = sv_icp sv \<or>
    sv_icp sv' = snd (handle_intent (xe_env X) (submit_input G hs envelope tenant agent) (sv_icp sv))"
  using assms
  by (auto simp: submit_admitted_def split: sum.splits prod.splits fault.splits dest!: idempotent_icp)

lemma submit_intent_icp:
  assumes "submit_intent X G hs envelope sv = (r, sv')"
  shows "sv_icp sv' = sv_icp sv \<or> (\<exists>tenant agent. authenticate G hs = Inr (tenant, agent) \<and>
    version_error X G hs = Inr () \<and>
    sv_icp sv' = snd (handle_intent (xe_env X) (submit_input G hs envelope tenant agent) (sv_icp sv)))"
  using assms
  by (auto simp: submit_intent_def split: prod.splits sum.splits rate_limit_decision.splits
      dest!: submit_admitted_icp limits_keep)

lemma wrong_agent_unchanged:
  "en_agent_id (in_envelope inp) \<noteq> in_agent_raw inp \<Longrightarrow> snd (handle_intent E inp s) = s"
  by (simp add: handle_intent_def andthen_def guard_def raise_def)

text \<open>
  The endpoint, with validated API keys: whatever a request changes in the stores, it changes as a
  step of the tenant whose unexpired key it presented, in the name of an agent which that key
  permits and which both the header and the envelope name, in the protocol version of the handler
  where that is required. A request without these, or over its limits, changes nothing.
\<close>

lemma endpoint_admits_only_tenants:
  assumes "icp_ok (sv_icp sv)" "key_store_try_new ks = Inr (gw_keys G)"
    and "submit_intent X G hs envelope sv = (r, sv')"
  shows "sv_icp sv' = sv_icp sv \<or>
    (\<exists>k \<in> set ks. hs ''authorization'' = Some (''Bearer '' @ ak_key k) \<and> \<not> is_expired_at k (gw_now G) \<and>
       hs ''icp-agent-id'' = Some (en_agent_id envelope) \<and> permits_agent k (en_agent_id envelope) \<and>
       (gw_require_icp_version G \<longrightarrow> hs ''icp-version'' = Some (cf_icp_version (e_cfg (xe_env X)))) \<and>
       call_steps (ak_tenant_id k) (new_ids (xe_env X) (submit_input G hs envelope k (parse_agent (en_agent_id envelope))))
         (sv_icp sv) (sv_icp sv') \<and> icp_ok (sv_icp sv'))"
proof (cases "sv_icp sv' = sv_icp sv")
  case False
  obtain tenant agent where run: "authenticate G hs = Inr (tenant, agent)" "version_error X G hs = Inr ()"
      "sv_icp sv' = snd (handle_intent (xe_env X) (submit_input G hs envelope tenant agent) (sv_icp sv))"
    using submit_intent_icp [OF assms(3)] False by blast
  let ?inp = "submit_input G hs envelope tenant agent"
  have tenant: "resolve_tenant hs (gw_keys G) (gw_now G) = Inr tenant" "permits_agent tenant (ag_raw agent)"
    and agent: "resolve_agent hs = Inr agent"
    using run(1) by (auto simp: authenticate_def bind_result_def ensure_agent_allowed_def split: sum.splits if_splits)
  have named: "en_agent_id envelope = ag_raw agent"
    using wrong_agent_unchanged [of ?inp] run(3) False by (auto simp: submit_input_def for_icp_def)
  have raw: "hs ''icp-agent-id'' = Some (ag_raw agent)" "agent = parse_agent (ag_raw agent)"
    using agent by (auto simp: resolve_agent_def parse_agent_def split: option.splits)
  have "call_steps (in_tenant_id ?inp) (new_ids (xe_env X) ?inp) (sv_icp sv) (sv_icp sv')"
    "icp_ok (sv_icp sv')"
    using handle_intent_steps [OF assms(1) surjective_pairing] handle_intent_ok [OF assms(1) surjective_pairing]
      run(3) by simp_all
  moreover have "in_tenant_id ?inp = ak_tenant_id tenant"
    by (simp add: submit_input_def for_icp_def)
  ultimately show ?thesis
    using resolve_valid_keys [OF assms(2)] tenant run(2) named raw
    by (auto simp: version_error_def split: if_splits option.splits)
qed simp

definition demo_gateway :: gateway where
  "demo_gateway = \<lparr>gw_keys = key_store_demo, gw_trust_proxy_headers = False, gw_require_icp_version = True,
     gw_require_request_id = False, gw_require_idempotency_key = False, gw_request_uuid = ''r'', gw_now = 5,
     gw_header_ok = (\<lambda>_. True)\<rparr>"

definition demo_headers :: headers where
  "demo_headers = [''authorization'' \<mapsto> ''Bearer icp_demo_key_123'', ''icp-agent-id'' \<mapsto> ''agent'',
     ''icp-version'' \<mapsto> ''2026-04-21'']"

lemma demo_resolves: "resolve_tenant demo_headers (gw_keys demo_gateway) (gw_now demo_gateway) = Inr demo_api_key"
  using resolve_valid_keys [OF demo_key_valid, of demo_headers 5 demo_api_key]
  by (simp add: demo_headers_def demo_api_key_def is_expired_at_def demo_gateway_def)

definition demo_envelope :: intent_envelope where
  "demo_envelope = in_envelope (demo_input ''intent.search'')"

lemma demo_submits:
  "\<exists>js hds sv'. submit_intent (demo_exec b) demo_gateway demo_headers demo_envelope demo_service = (Inr (OkReply js hds), sv') \<and>
     sv_icp sv' \<noteq> demo_state"
proof -
  have tenant: "resolve_tenant demo_headers key_store_demo 5 = Inr demo_api_key"
    using demo_resolves by (simp add: demo_gateway_def)
  let ?inp = "submit_input demo_gateway demo_headers demo_envelope demo_api_key (parse_agent ''agent'')"
  have "ends (handle_intent demo_env ?inp) demo_state (\<lambda>_ s. ic_bus s \<noteq> []) (\<lambda>_ _. False)"
    by (simp add: handle_intent_def wp parses do_search_def publish_outcome_def issue_receipt_def
        is_state_change_def emit_def Let_def demo_input_def for_icp_def demo_agent_def submit_input_def
        demo_envelope_def parse_agent_def)
  then obtain body s where run: "handle_intent demo_env ?inp demo_state = (Inr body, s)" "ic_bus s \<noteq> []"
    by (auto simp: ends_def split: prod.splits sum.splits)
  have "s \<noteq> demo_state" using run(2) by (auto simp: demo_state_def)
  have auth: "authenticate demo_gateway demo_headers = Inr (demo_api_key, parse_agent ''agent'')"
    using tenant
    by (simp add: authenticate_def bind_result_def demo_gateway_def resolve_agent_def demo_headers_def
        ensure_agent_allowed_def permits_agent_def demo_api_key_def)
  have version: "version_error (demo_exec b) demo_gateway demo_headers = Inr ()"
    by (simp add: version_error_def demo_gateway_def demo_headers_def demo_exec_def demo_env_def demo_cfg_def)
  have pre: "\<exists>x y z. check_pre_auth_rate_limit (demo_exec b) ip demo_service = (Inr (Allowed x y z), demo_service)" for ip
    by (simp add: check_pre_auth_rate_limit_def check_rate_limit_def demo_exec_def demo_service_def rl_check_def per_minute_def)
  obtain x y z sv1 where limit: "check_tenant_rate_limit (demo_exec b) demo_api_key demo_service = (Inr (Allowed x y z), sv1)"
    by (simp add: check_tenant_rate_limit_def check_rate_limit_def demo_exec_def demo_service_def rl_check_def
        per_minute_def demo_api_key_def check_at_def bucket_step_def Let_def since_def secs_def)
  have sv1: "sv_icp sv1 = demo_state" "sv_idempotency sv1 = idem_in_memory"
    using limits_keep(1) [OF limit] by (simp_all add: demo_service_def)
  have "effective_key ?inp None = Some ''intent:agent:int_1''" "enforce_tenant_limit (demo_exec b) ?inp sv1 = (Inr (), sv1)"
    by (simp_all add: effective_key_def submit_input_def for_icp_def demo_envelope_def demo_input_def parse_agent_def
        enforce_tenant_limit_def)
  then obtain ex sv2 where "handle_intent_idempotent (demo_exec b) ?inp None sv1 = (Inr ex, sv2)" "sv_icp sv2 = s"
    using run(1) sv1 demo_lease
    by (auto simp: handle_intent_idempotent_def execute_keyed_def Let_def demo_exec_def
        idem_in_memory_def idem_reserve_def mem_reserve_def execute_won_def)
  then have "\<exists>js hds. submit_admitted (demo_exec b) demo_gateway demo_headers demo_envelope demo_api_key
      (parse_agent ''agent'') rls sv1 = (Inr (OkReply js hds), sv2)" for rls
    by (simp add: submit_admitted_def required_headers_def demo_gateway_def demo_headers_def)
  then have "\<exists>js hds. submit_intent (demo_exec b) demo_gateway demo_headers demo_envelope demo_service =
      (Inr (OkReply js hds), sv2)"
    using pre [of "client_ip_for_rate_limit demo_headers (gw_trust_proxy_headers demo_gateway)"]
    by (auto simp: submit_intent_def auth version limit)
  then show ?thesis
    using \<open>sv_icp sv2 = s\<close> \<open>s \<noteq> demo_state\<close> by blast
qed

end
