(* ===== verification/Compat.thy ===== *)
theory Compat
  imports Execution
begin

text \<open>
  What the two facades of foreign checkout protocols share (\<open>src/compat/acp.rs\<close>, \<open>src/compat/ucp.rs\<close>): the
  JSON of a transaction (the derived serialisers of \<open>src/models.rs\<close>), the identity a call acts under, the run of
  an intent for it, the reference it leaves on the transaction and the headers of an answer. The locale \<open>facade\<close>
  is what both promise to the proof that their calls stay within one tenant.
\<close>

section \<open>JSON of the models\<close>

definition json_opt :: "('a \<Rightarrow> json) \<Rightarrow> 'a option \<Rightarrow> json" where
  "json_opt f x = (case x of Some v \<Rightarrow> f v | None \<Rightarrow> JNull)"

text \<open>\<open>skip_serializing_if = "Option::is_none"\<close>.\<close>

definition json_field :: "string \<Rightarrow> ('a \<Rightarrow> json) \<Rightarrow> 'a option \<Rightarrow> (string \<times> json) list" where
  "json_field k f x = (case x of Some v \<Rightarrow> [(k, f v)] | None \<Rightarrow> [])"

text \<open>\<open>v["k"]\<close>.\<close>

definition json_index :: "json \<Rightarrow> string \<Rightarrow> json" where
  "json_index v k = (case json_get v k of Some x \<Rightarrow> x | None \<Rightarrow> JNull)"

definition json_text :: "json \<Rightarrow> string \<Rightarrow> string option" where
  "json_text v k = Option.bind (json_get v k) json_as_str"

definition money_json :: "money \<Rightarrow> json" where
  "money_json x = JObj ((''amount_minor'', JInt (amount_minor x)) # json_field ''amount_display'' JStr (amount_display x)
     @ [(''currency'', JStr (money_currency x))])"

definition address_json :: "address \<Rightarrow> json" where
  "address_json a = JObj [(''name'', json_opt JStr (ad_name a)), (''line_one'', json_opt JStr (ad_line_one a)),
     (''line_two'', json_opt JStr (ad_line_two a)), (''city'', json_opt JStr (ad_city a)),
     (''state'', json_opt JStr (ad_state a)), (''postal_code'', json_opt JStr (ad_postal_code a)),
     (''country'', json_opt JStr (ad_country a)), (''phone_number'', json_opt JStr (ad_phone_number a)),
     (''email'', json_opt JStr (ad_email a))]"

definition buyer_json :: "buyer \<Rightarrow> json" where
  "buyer_json b = JObj [(''first_name'', json_opt JStr (by_first_name b)), (''last_name'', json_opt JStr (by_last_name b)),
     (''email'', json_opt JStr (by_email b)), (''phone_number'', json_opt JStr (by_phone_number b)),
     (''principal_did'', json_opt JStr (by_principal_did b))]"

definition line_item_json :: "line_item \<Rightarrow> json" where
  "line_item_json li = JObj [(''id'', JStr (li_id li)), (''sku'', JStr (li_sku li)), (''name'', JStr (li_name li)),
     (''quantity'', JInt (li_quantity li)), (''unit_price'', money_json (li_unit_price li)),
     (''subtotal'', money_json (li_subtotal li)), (''tax'', json_opt money_json (li_tax li)),
     (''total'', money_json (li_total li))]"

definition totals_json :: "totals \<Rightarrow> json" where
  "totals_json t = JObj [(''subtotal'', json_opt money_json (to_subtotal t)), (''discount'', json_opt money_json (to_discount t)),
     (''shipping'', json_opt money_json (to_shipping t)), (''tax'', json_opt money_json (to_tax t)),
     (''total'', json_opt money_json (to_total t))]"

text \<open>\<open>ts\<close> is the JSON text of an instant (\<open>chrono\<close>).\<close>

definition txn_json :: "(time \<Rightarrow> string) \<Rightarrow> transaction \<Rightarrow> json" where
  "txn_json ts t = JObj
     ([(''id'', JStr (txn_id t)), (''state'', JStr (transaction_state_wire_name (txn_state t))),
       (''agent_id'', JStr (txn_agent_id t)), (''tenant_id'', JStr (txn_tenant_id t))]
      @ json_field ''mandate_jti'' JStr (txn_mandate_jti t)
      @ [(''currency'', JStr (txn_currency t))]
      @ json_field ''jurisdiction'' JStr (txn_jurisdiction t)
      @ [(''buyer'', buyer_json (txn_buyer t)), (''ship_to'', json_opt address_json (txn_ship_to t)),
         (''bill_to'', json_opt address_json (txn_bill_to t)),
         (''line_items'', JArr (map line_item_json (txn_line_items t))), (''totals'', totals_json (txn_totals t))]
      @ json_field ''order_id'' JStr (txn_order_id t)
      @ json_field ''quote_expires_at'' (\<lambda>x. JStr (ts x)) (txn_quote_expires_at t)
      @ [(''created_at'', JStr (ts (txn_created_at t))), (''updated_at'', JStr (ts (txn_updated_at t))),
         (''external_refs'', JObj (map (apsnd JStr) (txn_external_refs t)))])"

section \<open>Reading it back\<close>

definition amount_at :: "json \<Rightarrow> string \<Rightarrow> i64 option" where
  "amount_at totals k = Option.bind (Option.bind (json_get totals k) (\<lambda>v. json_get v ''amount_minor'')) json_as_i64"

definition non_null :: "json option \<Rightarrow> json option" where
  "non_null x = (case x of Some JNull \<Rightarrow> None | _ \<Rightarrow> x)"

definition lines_of :: "json \<Rightarrow> json list" where
  "lines_of txn = (case Option.bind (json_get txn ''line_items'') json_as_array of Some vs \<Rightarrow> vs | None \<Rightarrow> [])"

text \<open>The texts of time stamps, and the derived deserialiser of \<open>LineItem\<close>.\<close>

record wire =
  wi_time :: "time \<Rightarrow> string"
  wi_line_item :: "json \<Rightarrow> line_item option"

section \<open>Who calls\<close>

record compat_context =
  cc_tenant :: api_key_info
  cc_agent :: agent_identifier
  cc_request_id :: string
  cc_trace_id :: "string option"

text \<open>\<open>build_context\<close>, with the version header of the protocol, what it has to say, the refusal of
  another version, and the prefix of the agent that the facade makes up for the tenant.\<close>

definition compat_context_of ::
  "string \<Rightarrow> string \<Rightarrow> (string \<Rightarrow> api_error) \<Rightarrow> string \<Rightarrow> gateway \<Rightarrow> headers \<Rightarrow> compat_context result" where
  "compat_context_of version_header version refusal agent_prefix G hs =
     bind_result (resolve_tenant hs (gw_keys G) (gw_now G)) (\<lambda>tenant.
     bind_result (case hs version_header of
        Some v \<Rightarrow> if v \<noteq> version then Inl (refusal v) else Inr () | None \<Rightarrow> Inr ()) (\<lambda>_.
     let agent = parse_agent (agent_prefix @ ak_tenant_id tenant) in
     bind_result (ensure_agent_allowed tenant agent) (\<lambda>_.
       Inr \<lparr>cc_tenant = tenant, cc_agent = agent,
         cc_request_id = (case hs ''request-id'' of Some r \<Rightarrow> r | None \<Rightarrow> ''req_'' @ gw_request_uuid G),
         cc_trace_id = hs ''traceparent''\<rparr>)))"

definition base_envelope :: "compat_context \<Rightarrow> string \<Rightarrow> json \<Rightarrow> intent_envelope" where
  "base_envelope c intent params =
     \<lparr>en_intent = intent, en_intent_id = None, en_transaction_id = None, en_agent_id = ag_raw (cc_agent c),
      en_mandate_jti = None, en_params = params, en_context = intent_context_default\<rparr>"

definition compat_input :: "compat_context \<Rightarrow> intent_envelope \<Rightarrow> intent_input" where
  "compat_input c envelope = for_compat envelope (cc_agent c) (cc_tenant c) (cc_request_id c) (cc_trace_id c)"

section \<open>The run of an intent\<close>

type_synonym 'a serving = "service \<Rightarrow> 'a exec \<times> service"

definition and_serve :: "'a serving \<Rightarrow> ('a \<Rightarrow> 'b serving) \<Rightarrow> 'b serving" where
  "and_serve m f = (\<lambda>sv. case m sv of (Inl e, sv') \<Rightarrow> (Inl e, sv') | (Inr x, sv') \<Rightarrow> f x sv')"

definition answer_with :: "'a exec \<Rightarrow> 'a serving" where
  "answer_with r = (\<lambda>sv. (r, sv))"

definition run_with_envelope :: "exec_env \<Rightarrow> compat_context \<Rightarrow> intent_envelope \<Rightarrow> string option \<Rightarrow> json serving" where
  "run_with_envelope X c envelope key =
     and_serve (handle_intent_idempotent X (compat_input c envelope) key)
       (\<lambda>ex. answer_with (Inr (e_body_json (xe_env X) (ix_body ex))))"

text \<open>The reference to the session on the stored transaction, under its own clock reading.\<close>

definition stamped_txn :: "exec_env \<Rightarrow> string \<Rightarrow> transaction \<Rightarrow> transaction" where
  "stamped_txn X key t = t\<lparr>txn_external_refs := st_put key (txn_id t) (txn_external_refs t),
     txn_updated_at := e_now (xe_env X) 8\<rparr>"

definition stamp_external_ref :: "exec_env \<Rightarrow> json \<Rightarrow> string \<Rightarrow> unit serving" where
  "stamp_external_ref X txn key = (\<lambda>sv. case json_text txn ''id'' of
      None \<Rightarrow> (Inr (), sv)
    | Some tid \<Rightarrow> (Inr (), sv\<lparr>sv_icp := snd (txn_update tid (stamped_txn X key) (sv_icp sv))\<rparr>))"

definition stamp_receipt_headers :: "gateway \<Rightarrow> json \<Rightarrow> (string \<times> string) list" where
  "stamp_receipt_headers G body =
     (case json_get body ''receipt'' of
        None \<Rightarrow> []
      | Some receipt \<Rightarrow>
          (case json_text receipt ''jws'' of
             Some v \<Rightarrow> if v = [] then [] else header_if G ''icp-receipt'' v | None \<Rightarrow> [])
          @ (case json_text receipt ''kid'' of
               Some v \<Rightarrow> if v = [] then [] else header_if G ''icp-receipt-kid'' v | None \<Rightarrow> []))"

record 'v compat_reply =
  cr_status :: nat
  cr_headers :: "(string \<times> string) list"
  cr_view :: 'v

definition compat_response ::
  "string \<Rightarrow> string \<Rightarrow> gateway \<Rightarrow> nat \<Rightarrow> string \<Rightarrow> 'v \<Rightarrow> json option \<Rightarrow> 'v compat_reply" where
  "compat_response version_header version G status request_id v receipt_src =
     \<lparr>cr_status = status,
      cr_headers = (version_header, version) # header_if G ''request-id'' request_id
        @ (case receipt_src of Some src \<Rightarrow> stamp_receipt_headers G src | None \<Rightarrow> []),
      cr_view = v\<rparr>"

text \<open>The read of a session: another tenant's is as absent as an unknown one.\<close>

definition stored_session :: "string \<Rightarrow> compat_context \<Rightarrow> string \<Rightarrow> transaction serving" where
  "stored_session what c tid = (\<lambda>sv. case st_get (ic_txns (sv_icp sv)) tid of
      None \<Rightarrow> (Inl (Fail (ResourceNotFound (what @ '' '' @ tid))), sv)
    | Some t \<Rightarrow>
        if txn_tenant_id t \<noteq> ak_tenant_id (cc_tenant c) then (Inl (Fail (ResourceNotFound (what @ '' '' @ tid))), sv)
        else (Inr t, sv))"

section \<open>What a facade may do\<close>

text \<open>The body that goes out carries the transaction as its derived serialiser writes it.\<close>

definition body_shows_txn :: "(time \<Rightarrow> string) \<Rightarrow> env \<Rightarrow> bool" where
  "body_shows_txn ts E \<longleftrightarrow> (\<forall>b. json_get (e_body_json E b) ''transaction'' = Some (txn_json ts (rb_transaction b)))"

text \<open>Every move of a state by a facade is one intent of its tenant and, if the intent succeeded, the
  stamp on the transaction that the intent answered with.\<close>

definition ran :: "exec_env \<Rightarrow> compat_context \<Rightarrow> icp \<Rightarrow> icp \<Rightarrow> bool" where
  "ran X c s s' \<longleftrightarrow> s' = s \<or>
     (\<exists>envelope r s1. en_intent_id envelope = None \<and> en_transaction_id envelope = None \<and>
        en_agent_id envelope = ag_raw (cc_agent c) \<and>
        handle_intent (xe_env X) (compat_input c envelope) s = (r, s1) \<and>
        (s' = s1 \<or> (\<exists>body key. r = Inr body \<and>
           s' = snd (txn_update (txn_id (rb_transaction body)) (stamped_txn X key) s1))))"

lemma ran_refl: "ran X c s s"
  by (simp add: ran_def)

lemma answer_with_run: "answer_with x sv = (r, sv') \<longleftrightarrow> r = x \<and> sv' = sv"
  by (auto simp: answer_with_def)

lemma and_serve_run:
  "and_serve m f sv = (r, sv') \<longleftrightarrow>
    (\<exists>e. r = Inl e \<and> m sv = (Inl e, sv')) \<or> (\<exists>x sv1. m sv = (Inr x, sv1) \<and> f x sv1 = (r, sv'))"
  by (auto simp: and_serve_def split: prod.splits sum.splits)

lemma stored_session_run: "stored_session what c tid sv = (r, sv') \<Longrightarrow> sv' = sv"
  by (auto simp: stored_session_def split: option.splits if_splits)

definition own_envelope :: "compat_context \<Rightarrow> intent_envelope \<Rightarrow> bool" where
  "own_envelope c envelope \<longleftrightarrow> en_intent_id envelope = None \<and> en_transaction_id envelope = None \<and>
     en_agent_id envelope = ag_raw (cc_agent c)"

lemma own_base: "own_envelope c (base_envelope c intent params)"
  by (simp add: own_envelope_def base_envelope_def)

lemma run_with_envelope_ran:
  assumes "run_with_envelope X c envelope key sv = (r, sv')" "own_envelope c envelope"
  shows "ran X c (sv_icp sv) (sv_icp sv')"
proof -
  obtain r1 where "handle_intent_idempotent X (compat_input c envelope) key sv = (r1, sv')"
    using assms(1) by (auto simp: run_with_envelope_def and_serve_run answer_with_run)
  from idempotent_icp [OF this] show ?thesis
    using assms(2) by (cases "handle_intent (xe_env X) (compat_input c envelope) (sv_icp sv)")
      (auto simp: ran_def own_envelope_def)
qed

text \<open>Without a key an intent runs at once, and the body is what it answered.\<close>

lemma unkeyed_run:
  assumes "run_with_envelope X c envelope None sv = (Inr v, sv')" "own_envelope c envelope"
  shows "\<exists>body. handle_intent (xe_env X) (compat_input c envelope) (sv_icp sv) = (Inr body, sv_icp sv') \<and>
    v = e_body_json (xe_env X) body"
  using assms
  by (auto simp: run_with_envelope_def and_serve_run answer_with_run handle_intent_idempotent_def effective_key_def
      own_envelope_def compat_input_def for_compat_def split: prod.splits sum.splits dest!: limits_keep(3))

lemma txn_json_id: "json_text (txn_json ts t) ''id'' = Some (txn_id t)"
  by (simp add: json_text_def txn_json_def json_get_def json_as_str_def)

lemma stamped_run_ran:
  assumes "run_with_envelope X c envelope None sv = (Inr v, sv1)" "own_envelope c envelope" "body_shows_txn ts (xe_env X)"
    and "stamp_external_ref X (json_index v ''transaction'') key sv1 = (r, sv')"
  shows "ran X c (sv_icp sv) (sv_icp sv')"
proof -
  obtain body where run: "handle_intent (xe_env X) (compat_input c envelope) (sv_icp sv) = (Inr body, sv_icp sv1)"
    and v: "v = e_body_json (xe_env X) body"
    using unkeyed_run [OF assms(1,2)] by blast
  have "json_index v ''transaction'' = txn_json ts (rb_transaction body)"
    using assms(3) by (simp add: v json_index_def body_shows_txn_def)
  then have "sv_icp sv' = snd (txn_update (txn_id (rb_transaction body)) (stamped_txn X key) (sv_icp sv1))"
    using assms(4) by (auto simp: stamp_external_ref_def txn_json_id)
  then show ?thesis
    using run assms(2) unfolding ran_def own_envelope_def by blast
qed

text \<open>The identifiers that a call of a facade may create: it names none itself.\<close>

definition fresh_ids :: "env \<Rightarrow> string set" where
  "fresh_ids E = {p @ e_uuid E i |p i. p \<in> {''txn_'', ''sub_'', ''pq_''}}"

lemma own_new_ids: "own_envelope c envelope \<Longrightarrow> new_ids E (compat_input c envelope) = fresh_ids E"
  by (simp add: new_ids_def named_ids_def fresh_ids_def own_envelope_def compat_input_def for_compat_def del: append_Cons)

lemma compat_tenant [simp]: "in_tenant (compat_input c envelope) = cc_tenant c"
  by (simp add: compat_input_def for_compat_def)

lemma answered_stored:
  assumes "icp_ok s" "handle_intent E inp s = (Inr body, s1)"
  shows "st_get (ic_txns s1) (txn_id (rb_transaction body)) = Some (rb_transaction body) \<and>
    txn_tenant_id (rb_transaction body) = in_tenant_id inp"
proof -
  obtain i mandate out s' where served: "served E inp s i mandate out s' body s1"
    using ends_Inr [OF handle_intent_served [OF assms(1)] assms(2)] by blast
  then have body: "body = (response_body E inp i out)\<lparr>rb_receipt := rb_receipt body\<rparr>" and "ic_txns s1 = ic_txns s'"
    by (simp_all add: served_def published_def Let_def)
  moreover have "rb_transaction body = oc_transaction out"
    by (subst body) (simp add: response_body_def)
  ultimately show ?thesis
    using served by (simp add: served_def answer_def)
qed

lemma stamped_move: "txn_move t (stamped_txn X key t)"
  by (simp add: txn_move_def stamped_txn_def state_move_def)

lemma ran_steps:
  assumes "icp_ok s" "ran X c s s'"
  shows "call_steps (ak_tenant_id (cc_tenant c)) (fresh_ids (xe_env X)) s s' \<and> icp_ok s'"
proof -
  let ?steps = "call_steps (ak_tenant_id (cc_tenant c)) (fresh_ids (xe_env X))"
  have "?steps s s'"
  proof (cases "s' = s")
    case False
    obtain envelope r s1 where run: "own_envelope c envelope"
        "handle_intent (xe_env X) (compat_input c envelope) s = (r, s1)"
        "s' = s1 \<or> (\<exists>body key. r = Inr body \<and>
           s' = snd (txn_update (txn_id (rb_transaction body)) (stamped_txn X key) s1))"
      using assms(2) False unfolding ran_def own_envelope_def by blast
    have first: "?steps s s1"
      using handle_intent_steps [OF assms(1) run(2)] own_new_ids [OF run(1)] by simp
    have "?steps s1 s'"
      using run(3)
    proof (elim disjE exE conjE)
      fix body key
      assume r: "r = Inr body" and s': "s' = snd (txn_update (txn_id (rb_transaction body)) (stamped_txn X key) s1)"
      note stored = answered_stored [OF assms(1) run(2) [unfolded r]]
      have "call_step (ak_tenant_id (cc_tenant c)) (fresh_ids (xe_env X)) s1
          (s1\<lparr>ic_txns := st_put (txn_id (rb_transaction body)) (stamped_txn X key (rb_transaction body)) (ic_txns s1)\<rparr>)"
        using stored stamped_move by (intro call_step.work tenant_step.move_txn) auto
      then show ?thesis
        using stored by (simp add: s' txn_update_def r_into_rtranclp)
    qed simp
    with first show ?thesis by (rule rtranclp_trans)
  qed simp
  then show ?thesis
    using well_formed.steps_property assms(1) by blast
qed

section \<open>The contract of a facade\<close>

text \<open>A facade acts for the tenant of the key under the agent it makes up for it, refuses everything else
  without a change, and leaves what its intents leave.\<close>

locale facade =
  fixes agent_prefix :: string
    and context_of :: "gateway \<Rightarrow> headers \<Rightarrow> compat_context result"
    and serve :: "wire \<Rightarrow> exec_env \<Rightarrow> gateway \<Rightarrow> headers \<Rightarrow> 'call \<Rightarrow> 'reply serving"
  assumes context_key: "context_of G hs = Inr c \<Longrightarrow>
      resolve_tenant hs (gw_keys G) (gw_now G) = Inr (cc_tenant c) \<and>
      permits_agent (cc_tenant c) (agent_prefix @ ak_tenant_id (cc_tenant c)) \<and>
      ag_raw (cc_agent c) = agent_prefix @ ak_tenant_id (cc_tenant c)"
    and refused: "context_of G hs = Inl e \<Longrightarrow> serve W X G hs call sv = (Inl (Fail e), sv)"
    and serves: "context_of G hs = Inr c \<Longrightarrow> body_shows_txn (wi_time W) (xe_env X) \<Longrightarrow>
      serve W X G hs call sv = (r, sv') \<Longrightarrow> ran X c (sv_icp sv) (sv_icp sv')"
begin

lemma confined:
  assumes "icp_ok (sv_icp sv)" "key_store_try_new ks = Inr (gw_keys G)" "body_shows_txn (wi_time W) (xe_env X)"
    and "serve W X G hs call sv = (r, sv')"
  shows "(sv' = sv \<and> (\<exists>e. r = Inl (Fail e))) \<or>
    (\<exists>k \<in> set ks. hs ''authorization'' = Some (''Bearer '' @ ak_key k) \<and> \<not> is_expired_at k (gw_now G) \<and>
       permits_agent k (agent_prefix @ ak_tenant_id k) \<and>
       call_steps (ak_tenant_id k) (fresh_ids (xe_env X)) (sv_icp sv) (sv_icp sv') \<and> icp_ok (sv_icp sv'))"
proof (cases "context_of G hs")
  case (Inl e)
  then have "r = Inl (Fail e)" "sv' = sv" using refused [OF Inl] assms(4) by simp_all
  then show ?thesis by blast
next
  case (Inr c)
  show ?thesis
    using context_key [OF Inr] ran_steps [OF assms(1) serves [OF Inr assms(3,4)]] resolve_valid_keys [OF assms(2)]
    by blast
qed

end

text \<open>Both facades build their context alike.\<close>

lemma compat_context_key:
  "compat_context_of vh v refusal p G hs = Inr c \<Longrightarrow>
   resolve_tenant hs (gw_keys G) (gw_now G) = Inr (cc_tenant c) \<and>
   permits_agent (cc_tenant c) (p @ ak_tenant_id (cc_tenant c)) \<and> ag_raw (cc_agent c) = p @ ak_tenant_id (cc_tenant c)"
  by (auto simp: compat_context_of_def bind_result_def Let_def ensure_agent_allowed_def parse_agent_def
      split: sum.splits if_splits)

end
