(* ===== verification/Acp.thy ===== *)
theory Acp
  imports Compat
begin

text \<open>
  The ACP facade (\<open>src/compat/acp.rs\<close>): the wire types, the five session endpoints and the session view they
  answer with. A request body arrives as its deserialised value.
\<close>

section \<open>Wire types\<close>

record acp_buyer =
  ab_first_name :: "string option"
  ab_last_name :: "string option"
  ab_email :: "string option"
  ab_phone_number :: "string option"

record acp_address =
  aa_name :: "string option"
  aa_line_one :: "string option"
  aa_line_two :: "string option"
  aa_city :: "string option"
  aa_state :: "string option"
  aa_postal_code :: "string option"
  aa_country :: "string option"

record acp_item =
  ai_id :: string
  ai_quantity :: i64

record acp_payment_data =
  pd_token :: string
  pd_provider :: "string option"
  pd_billing_address :: "acp_address option"

record create_session_body =
  cs_buyer :: "acp_buyer option"
  cs_items :: "acp_item list"
  cs_fulfillment_address :: "acp_address option"

record update_session_body =
  us_buyer :: "acp_buyer option"
  us_items :: "acp_item list option"
  us_fulfillment_address :: "acp_address option"

record complete_session_body =
  cm_buyer :: "acp_buyer option"
  cm_payment_data :: "acp_payment_data option"

record session_line_item =
  sl_id :: string
  sl_item :: json
  sl_base_amount :: i64
  sl_discount :: i64
  sl_subtotal :: i64
  sl_tax :: i64
  sl_total :: i64

text \<open>Type, display text and amount.\<close>

record session_total =
  st_type :: string
  st_display_text :: string
  st_amount :: i64

record session_view =
  sw_id :: string
  sw_status :: string
  sw_currency :: string
  sw_buyer :: json
  sw_line_items :: "session_line_item list"
  sw_fulfillment_address :: "json option"
  sw_totals :: "session_total list"
  sw_messages :: "json list"
  sw_payment_provider :: json
  sw_order :: "json option"
  sw_links :: "json list"

section \<open>Translations\<close>

definition acp_map_buyer :: "acp_buyer \<Rightarrow> buyer" where
  "acp_map_buyer b = \<lparr>by_first_name = ab_first_name b, by_last_name = ab_last_name b, by_email = ab_email b,
     by_phone_number = ab_phone_number b, by_principal_did = None\<rparr>"

definition acp_map_address :: "acp_address \<Rightarrow> address" where
  "acp_map_address a = \<lparr>ad_name = aa_name a, ad_line_one = aa_line_one a, ad_line_two = aa_line_two a, ad_city = aa_city a,
     ad_state = aa_state a, ad_postal_code = aa_postal_code a, ad_country = aa_country a, ad_phone_number = None,
     ad_email = None\<rparr>"

definition acp_api_version :: string where
  "acp_api_version = ''2025-09-29''"

definition acp_agent_prefix :: string where
  "acp_agent_prefix = ''did:stateset:agent:acp-''"

definition acp_build_context :: "gateway \<Rightarrow> headers \<Rightarrow> compat_context result" where
  "acp_build_context = compat_context_of ''api-version'' acp_api_version
     (\<lambda>v. InvalidRequest (''API-Version `'' @ v @ ''` not supported by ACP compat; expected `'' @ acp_api_version @ ''`''))
     acp_agent_prefix"

section \<open>The view of a session\<close>

definition acp_build_totals :: "json \<Rightarrow> session_total list" where
  "acp_build_totals totals =
     (case amount_at totals ''subtotal'' of
        Some n \<Rightarrow> [\<lparr>st_type = ''items_base_amount'', st_display_text = ''Subtotal'', st_amount = n\<rparr>] | None \<Rightarrow> [])
     @ (case amount_at totals ''tax'' of
        Some n \<Rightarrow> [\<lparr>st_type = ''tax'', st_display_text = ''Tax'', st_amount = n\<rparr>] | None \<Rightarrow> [])
     @ (case amount_at totals ''total'' of
        Some n \<Rightarrow> [\<lparr>st_type = ''total'', st_display_text = ''Total'', st_amount = n\<rparr>] | None \<Rightarrow> [])"

text \<open>\<open>from_value\<close> is the derived deserialiser of \<open>LineItem\<close>.\<close>

definition acp_map_line_item :: "(json \<Rightarrow> line_item option) \<Rightarrow> json \<Rightarrow> session_line_item option" where
  "acp_map_line_item from_value v = map_option (\<lambda>li.
     \<lparr>sl_id = li_id li, sl_item = JObj [(''id'', JStr (li_sku li)), (''quantity'', JInt (li_quantity li))],
      sl_base_amount = amount_minor (li_unit_price li), sl_discount = 0, sl_subtotal = amount_minor (li_subtotal li),
      sl_tax = (case li_tax li of Some x \<Rightarrow> amount_minor x | None \<Rightarrow> 0), sl_total = amount_minor (li_total li)\<rparr>)
     (from_value v)"

definition acp_status_for :: "string option \<Rightarrow> string" where
  "acp_status_for state =
     (case state of
        None \<Rightarrow> ''not_ready_for_payment''
      | Some w \<Rightarrow>
          if w = ''quoted'' then ''not_ready_for_payment''
          else if w = ''authorized'' then ''ready_for_payment''
          else if w = ''completed'' \<or> w = ''captured'' \<or> w = ''fulfilled'' then ''completed''
          else if w = ''reversed'' \<or> w = ''canceled'' \<or> w = ''expired'' then ''canceled''
          else ''not_ready_for_payment'')"

definition session_view_of :: "(json \<Rightarrow> line_item option) \<Rightarrow> json \<Rightarrow> session_view" where
  "session_view_of from_value txn =
     \<lparr>sw_id = (case json_text txn ''id'' of Some s \<Rightarrow> s | None \<Rightarrow> []),
      sw_status = acp_status_for (json_text txn ''state''),
      sw_currency = (case json_text txn ''currency'' of Some s \<Rightarrow> s | None \<Rightarrow> ''USD''),
      sw_buyer = json_index txn ''buyer'',
      sw_line_items = List.map_filter (acp_map_line_item from_value) (lines_of txn),
      sw_fulfillment_address = non_null (json_get txn ''ship_to''),
      sw_totals = acp_build_totals (case json_get txn ''totals'' of Some v \<Rightarrow> v | None \<Rightarrow> JObj []),
      sw_messages = [],
      sw_payment_provider = JObj [(''provider'', JStr ''stateset''),
        (''supported_payment_methods'', JArr [JStr ''card'', JStr ''delegated_vault''])],
      sw_order = None,
      sw_links = []\<rparr>"

section \<open>Endpoints\<close>

type_synonym acp_reply = "session_view compat_reply"

definition acp_response :: "gateway \<Rightarrow> nat \<Rightarrow> compat_context \<Rightarrow> session_view \<Rightarrow> json option \<Rightarrow> acp_reply" where
  "acp_response G status c v receipt_src =
     compat_response ''api-version'' acp_api_version G status (cc_request_id c) v receipt_src"

text \<open>\<open>run_intent\<close>, and the answer with the session of the transaction that the intent answered with.\<close>

definition acp_run_intent :: "exec_env \<Rightarrow> compat_context \<Rightarrow> string \<Rightarrow> json \<Rightarrow> string option \<Rightarrow> json serving" where
  "acp_run_intent X c intent params key = run_with_envelope X c (base_envelope c intent params) key"

definition acp_session :: "wire \<Rightarrow> gateway \<Rightarrow> nat \<Rightarrow> compat_context \<Rightarrow> json \<Rightarrow> acp_reply" where
  "acp_session W G status c body =
     acp_response G status c (session_view_of (wi_line_item W) (json_index body ''transaction'')) (Some body)"

definition create_session :: "wire \<Rightarrow> exec_env \<Rightarrow> gateway \<Rightarrow> headers \<Rightarrow> create_session_body \<Rightarrow> acp_reply serving" where
  "create_session W X G hs body =
     and_serve (answer_with (lift_result (acp_build_context G hs))) (\<lambda>c.
     if cs_items body = [] then answer_with (Inl (Fail (InvalidRequest ''checkout_sessions: items required'')))
     else
       let params = JObj
         [(''items'', JArr (map (\<lambda>i. JObj [(''sku'', JStr (ai_id i)), (''quantity'', JInt (ai_quantity i))]) (cs_items body))),
          (''buyer'', buyer_json (case cs_buyer body of Some b \<Rightarrow> acp_map_buyer b | None \<Rightarrow> buyer_default)),
          (''ship_to'', json_opt address_json (map_option acp_map_address (cs_fulfillment_address body)))]
       in
       and_serve (acp_run_intent X c ''intent.quote'' params None) (\<lambda>quote.
       and_serve (stamp_external_ref X (json_index quote ''transaction'') ''acp_session_id'') (\<lambda>_.
         answer_with (Inr (acp_session W G 201 c quote)))))"

definition get_session :: "wire \<Rightarrow> exec_env \<Rightarrow> gateway \<Rightarrow> headers \<Rightarrow> string \<Rightarrow> acp_reply serving" where
  "get_session W X G hs sid =
     and_serve (answer_with (lift_result (acp_build_context G hs))) (\<lambda>c.
     and_serve (stored_session ''checkout_session'' c sid) (\<lambda>t.
       answer_with (Inr (acp_response G 200 c (session_view_of (wi_line_item W) (txn_json (wi_time W) t)) None))))"

definition update_session :: "wire \<Rightarrow> exec_env \<Rightarrow> gateway \<Rightarrow> headers \<Rightarrow> string \<Rightarrow> update_session_body \<Rightarrow> acp_reply serving" where
  "update_session W X G hs sid body =
     and_serve (answer_with (lift_result (acp_build_context G hs))) (\<lambda>c.
     let params = JObj ((''transaction_id'', JStr sid)
         # json_field ''buyer'' buyer_json (map_option acp_map_buyer (us_buyer body))
         @ json_field ''ship_to'' address_json (map_option acp_map_address (us_fulfillment_address body)))
     in
     and_serve (acp_run_intent X c ''intent.authorize'' params None) (\<lambda>v.
       answer_with (Inr (acp_session W G 200 c v))))"

definition acp_payment :: "acp_payment_data option \<Rightarrow> json" where
  "acp_payment p =
     (case p of
        Some p \<Rightarrow> JObj [(''method'', JStr ''delegated_vault''), (''token'', JStr (pd_token p)),
          (''provider'', json_opt JStr (pd_provider p))]
      | None \<Rightarrow> JObj [(''method'', JStr ''delegated_vault''), (''token'', JStr ''acp_unknown'')])"

definition complete_session :: "wire \<Rightarrow> exec_env \<Rightarrow> gateway \<Rightarrow> headers \<Rightarrow> string \<Rightarrow> complete_session_body \<Rightarrow> acp_reply serving" where
  "complete_session W X G hs sid body =
     and_serve (answer_with (lift_result (acp_build_context G hs))) (\<lambda>c.
     let params = JObj [(''transaction_id'', JStr sid), (''payment'', acp_payment (cm_payment_data body))] in
     and_serve (acp_run_intent X c ''intent.buy'' params (Some (''acp:complete:'' @ sid))) (\<lambda>v.
       let reply = acp_session W G 200 c v in
       answer_with (Inr (reply\<lparr>cr_view := (cr_view reply)\<lparr>sw_order := non_null (json_get v ''order'')\<rparr>\<rparr>))))"

definition cancel_session :: "wire \<Rightarrow> exec_env \<Rightarrow> gateway \<Rightarrow> headers \<Rightarrow> string \<Rightarrow> acp_reply serving" where
  "cancel_session W X G hs sid =
     and_serve (answer_with (lift_result (acp_build_context G hs))) (\<lambda>c.
     and_serve (acp_run_intent X c ''intent.return'' (JObj [(''transaction_id'', JStr sid)]) (Some (''acp:cancel:'' @ sid)))
       (\<lambda>v. answer_with (Inr (acp_session W G 200 c v))))"

datatype acp_call =
    CreateSession create_session_body | GetSession string | UpdateSession string update_session_body
  | CompleteSession string complete_session_body | CancelSession string

definition serve_acp :: "wire \<Rightarrow> exec_env \<Rightarrow> gateway \<Rightarrow> headers \<Rightarrow> acp_call \<Rightarrow> acp_reply serving" where
  "serve_acp W X G hs call =
     (case call of
        CreateSession b \<Rightarrow> create_session W X G hs b
      | GetSession i \<Rightarrow> get_session W X G hs i
      | UpdateSession i b \<Rightarrow> update_session W X G hs i b
      | CompleteSession i b \<Rightarrow> complete_session W X G hs i b
      | CancelSession i \<Rightarrow> cancel_session W X G hs i)"

section \<open>The contract\<close>

lemmas acp_endpoints = create_session_def get_session_def update_session_def complete_session_def cancel_session_def
  acp_run_intent_def

lemma serve_acp_ran:
  assumes "acp_build_context G hs = Inr c" "body_shows_txn (wi_time W) (xe_env X)" "serve_acp W X G hs call sv = (r, sv')"
  shows "ran X c (sv_icp sv) (sv_icp sv')"
  using assms(3) [unfolded serve_acp_def] assms(1)
  by (cases call)
    (auto simp: acp_endpoints and_serve_run answer_with_run Let_def ran_refl split: if_splits
      dest!: stored_session_run intro: run_with_envelope_ran own_base stamped_run_ran [OF _ own_base assms(2)])

lemma acp_refused: "acp_build_context G hs = Inl e \<Longrightarrow> serve_acp W X G hs call sv = (Inl (Fail e), sv)"
  by (cases call) (simp_all add: serve_acp_def acp_endpoints and_serve_def answer_with_def)

interpretation acp: facade acp_agent_prefix acp_build_context serve_acp
proof
  show "acp_build_context G hs = Inr c \<Longrightarrow>
      resolve_tenant hs (gw_keys G) (gw_now G) = Inr (cc_tenant c) \<and>
      permits_agent (cc_tenant c) (acp_agent_prefix @ ak_tenant_id (cc_tenant c)) \<and>
      ag_raw (cc_agent c) = acp_agent_prefix @ ak_tenant_id (cc_tenant c)" for G hs c
    unfolding acp_build_context_def by (rule compat_context_key)
qed (rule acp_refused serve_acp_ran; assumption)+

end
