(* ===== verification/Ucp.thy ===== *)
theory Ucp
  imports Compat
begin

text \<open>
  The UCP facade (\<open>src/compat/ucp.rs\<close>): the wire types, the five checkout endpoints, the checkout resource they
  answer with and the discovery document. A request body arrives as its deserialised value.
\<close>

section \<open>Wire types\<close>

record item_ref =
  ir_id :: string

record line_item_input =
  ii_item :: item_ref
  ii_quantity :: "32 word"
  ii_id :: "string option"

record ucp_buyer =
  ub_first_name :: "string option"
  ub_last_name :: "string option"
  ub_email :: "string option"
  ub_phone_number :: "string option"

record ucp_address =
  ua_name :: "string option"
  ua_line_one :: "string option"
  ua_line_two :: "string option"
  ua_city :: "string option"
  ua_state :: "string option"
  ua_postal_code :: "string option"
  ua_country :: "string option"

record fulfillment_input =
  fi_address :: "ucp_address option"

record payment_request_input =
  pi_selected_instrument_id :: "string option"

record create_checkout_body =
  cb_line_items :: "line_item_input list"
  cb_buyer :: "ucp_buyer option"
  cb_currency :: string
  cb_payment :: "payment_request_input option"
  cb_fulfillment :: "fulfillment_input option"

record update_checkout_body =
  ud_line_items :: "line_item_input list option"
  ud_buyer :: "ucp_buyer option"
  ud_fulfillment :: "fulfillment_input option"

record payment_data =
  pm_instrument_type :: string
  pm_token :: "string option"
  pm_handler_id :: "string option"
  pm_brand :: "string option"
  pm_last_digits :: "string option"

record complete_checkout_body =
  cp_payment_data :: payment_data

record capability_ref =
  cr_name :: string
  cr_version :: string

record ucp_response_meta =
  um_version :: string
  um_capabilities :: "capability_ref list"

record ucp_total =
  ut_total_type :: string
  ut_display_text :: string
  ut_amount :: i64

record ucp_link =
  lk_link_type :: string
  lk_url :: string

record item_response_brief =
  ib_id :: string
  ib_title :: string
  ib_price :: i64

record line_item_response =
  lr_id :: string
  lr_item :: item_response_brief
  lr_quantity :: i64
  lr_totals :: "ucp_total list"

record checkout_response =
  co_ucp :: ucp_response_meta
  co_id :: string
  co_status :: string
  co_currency :: string
  co_line_items :: "line_item_response list"
  co_totals :: "ucp_total list"
  co_buyer :: "json option"
  co_fulfillment :: "json option"
  co_payment :: json
  co_links :: "ucp_link list"
  co_order :: "json option"

section \<open>Translations\<close>

definition ucp_map_buyer :: "ucp_buyer \<Rightarrow> buyer" where
  "ucp_map_buyer b = \<lparr>by_first_name = ub_first_name b, by_last_name = ub_last_name b, by_email = ub_email b,
     by_phone_number = ub_phone_number b, by_principal_did = None\<rparr>"

definition ucp_map_address :: "ucp_address \<Rightarrow> address" where
  "ucp_map_address a = \<lparr>ad_name = ua_name a, ad_line_one = ua_line_one a, ad_line_two = ua_line_two a, ad_city = ua_city a,
     ad_state = ua_state a, ad_postal_code = ua_postal_code a, ad_country = ua_country a, ad_phone_number = None,
     ad_email = None\<rparr>"

definition ucp_version :: string where
  "ucp_version = ''2026-01-11''"

definition ucp_agent_prefix :: string where
  "ucp_agent_prefix = ''did:stateset:agent:ucp-''"

definition ucp_build_context :: "gateway \<Rightarrow> headers \<Rightarrow> compat_context result" where
  "ucp_build_context = compat_context_of ''ucp-version'' ucp_version
     (\<lambda>v. InvalidRequest (''UCP-Version `'' @ v @ ''` not supported; expected `'' @ ucp_version @ ''`''))
     ucp_agent_prefix"

section \<open>The checkout resource\<close>

definition ucp_status_for :: "string \<Rightarrow> string" where
  "ucp_status_for w =
     (if w = ''draft'' \<or> w = ''quoted'' then ''incomplete''
      else if w = ''authorized'' then ''ready_for_complete''
      else if w = ''captured'' \<or> w = ''fulfilled'' \<or> w = ''completed'' then ''completed''
      else if w = ''reversed'' \<or> w = ''canceled'' \<or> w = ''expired'' then ''canceled''
      else ''incomplete'')"

definition ucp_total_of :: "string \<Rightarrow> string \<Rightarrow> i64 option \<Rightarrow> ucp_total list" where
  "ucp_total_of kind display amount =
     (case amount of Some n \<Rightarrow> [\<lparr>ut_total_type = kind, ut_display_text = display, ut_amount = n\<rparr>] | None \<Rightarrow> [])"

definition ucp_build_totals :: "json \<Rightarrow> ucp_total list" where
  "ucp_build_totals totals =
     ucp_total_of ''subtotal'' ''Subtotal'' (amount_at totals ''subtotal'')
     @ ucp_total_of ''shipping'' ''Shipping'' (amount_at totals ''shipping'')
     @ ucp_total_of ''tax'' ''Tax'' (amount_at totals ''tax'')
     @ ucp_total_of ''total'' ''Total'' (amount_at totals ''total'')"

definition ucp_map_line_item :: "(json \<Rightarrow> line_item option) \<Rightarrow> json \<Rightarrow> line_item_response option" where
  "ucp_map_line_item from_value v = map_option (\<lambda>li.
     let tax_minor = (case li_tax li of Some x \<Rightarrow> amount_minor x | None \<Rightarrow> 0) in
     \<lparr>lr_id = li_id li,
      lr_item = \<lparr>ib_id = li_sku li, ib_title = li_name li, ib_price = amount_minor (li_unit_price li)\<rparr>,
      lr_quantity = li_quantity li,
      lr_totals =
        ucp_total_of ''subtotal'' ''Subtotal'' (Some (amount_minor (li_subtotal li)))
        @ (if 0 < tax_minor then ucp_total_of ''tax'' ''Tax'' (Some tax_minor) else [])
        @ ucp_total_of ''total'' ''Total'' (Some (amount_minor (li_total li)))\<rparr>)
     (from_value v)"

definition is_empty_object :: "json \<Rightarrow> bool" where
  "is_empty_object v = (case v of JObj kvs \<Rightarrow> list_all (\<lambda>(_, x). x = JNull) kvs | _ \<Rightarrow> False)"

definition checkout_response_of :: "(json \<Rightarrow> line_item option) \<Rightarrow> json \<Rightarrow> checkout_response" where
  "checkout_response_of from_value txn =
     \<lparr>co_ucp = \<lparr>um_version = ucp_version,
        um_capabilities = [\<lparr>cr_name = ''dev.ucp.shopping'', cr_version = ucp_version\<rparr>]\<rparr>,
      co_id = (case json_text txn ''id'' of Some s \<Rightarrow> s | None \<Rightarrow> []),
      co_status = ucp_status_for (case json_text txn ''state'' of Some s \<Rightarrow> s | None \<Rightarrow> ''draft''),
      co_currency = (case json_text txn ''currency'' of Some s \<Rightarrow> s | None \<Rightarrow> ''USD''),
      co_line_items = List.map_filter (ucp_map_line_item from_value) (lines_of txn),
      co_totals = ucp_build_totals (case json_get txn ''totals'' of Some v \<Rightarrow> v | None \<Rightarrow> JObj []),
      co_buyer = (case non_null (json_get txn ''buyer'') of
          Some v \<Rightarrow> if is_empty_object v then None else Some v | None \<Rightarrow> None),
      co_fulfillment = map_option (\<lambda>addr. JObj [(''methods'', JArr []), (''available_methods'', JArr []), (''address'', addr)])
        (non_null (json_get txn ''ship_to'')),
      co_payment = JObj
        [(''handlers'', JArr [JObj [(''id'', JStr ''card''), (''type'', JStr ''card'')],
            JObj [(''id'', JStr ''delegated_vault''), (''type'', JStr ''delegated_vault'')]]),
         (''instruments'', JArr [])],
      co_links = [],
      co_order = None\<rparr>"

section \<open>Endpoints\<close>

type_synonym ucp_reply = "checkout_response compat_reply"

definition ucp_response :: "gateway \<Rightarrow> nat \<Rightarrow> compat_context \<Rightarrow> checkout_response \<Rightarrow> json option \<Rightarrow> ucp_reply" where
  "ucp_response G status c v receipt_src =
     compat_response ''ucp-version'' ucp_version G status (cc_request_id c) v receipt_src"

definition ucp_run_intent :: "exec_env \<Rightarrow> compat_context \<Rightarrow> string \<Rightarrow> json \<Rightarrow> string option \<Rightarrow> json serving" where
  "ucp_run_intent X c intent params key = run_with_envelope X c (base_envelope c intent params) key"

definition ucp_checkout :: "wire \<Rightarrow> gateway \<Rightarrow> nat \<Rightarrow> compat_context \<Rightarrow> json \<Rightarrow> ucp_reply" where
  "ucp_checkout W G status c body =
     ucp_response G status c (checkout_response_of (wi_line_item W) (json_index body ''transaction'')) (Some body)"

definition create_checkout :: "wire \<Rightarrow> exec_env \<Rightarrow> gateway \<Rightarrow> headers \<Rightarrow> create_checkout_body \<Rightarrow> ucp_reply serving" where
  "create_checkout W X G hs body =
     and_serve (answer_with (lift_result (ucp_build_context G hs))) (\<lambda>c.
     if cb_line_items body = [] then answer_with (Inl (Fail (InvalidRequest ''checkout: line_items must be non-empty'')))
     else
       let params = JObj
         [(''items'', JArr (map (\<lambda>li. JObj [(''sku'', JStr (ir_id (ii_item li))), (''quantity'', JInt (sint (ii_quantity li)))])
            (cb_line_items body))),
          (''buyer'', buyer_json (case cb_buyer body of Some b \<Rightarrow> ucp_map_buyer b | None \<Rightarrow> buyer_default)),
          (''ship_to'', json_opt address_json
             (map_option ucp_map_address (Option.bind (cb_fulfillment body) fi_address)))];
         envelope = base_envelope c ''intent.quote'' params
       in
       and_serve (run_with_envelope X c (envelope\<lparr>en_context := (en_context envelope)\<lparr>cx_currency := Some (cb_currency body)\<rparr>\<rparr>) None)
         (\<lambda>quote.
       and_serve (stamp_external_ref X (json_index quote ''transaction'') ''ucp_session_id'') (\<lambda>_.
         answer_with (Inr (ucp_checkout W G 201 c quote)))))"

definition get_checkout :: "wire \<Rightarrow> exec_env \<Rightarrow> gateway \<Rightarrow> headers \<Rightarrow> string \<Rightarrow> ucp_reply serving" where
  "get_checkout W X G hs sid =
     and_serve (answer_with (lift_result (ucp_build_context G hs))) (\<lambda>c.
     and_serve (stored_session ''checkout-session'' c sid) (\<lambda>t.
       answer_with (Inr (ucp_response G 200 c (checkout_response_of (wi_line_item W) (txn_json (wi_time W) t)) None))))"

definition update_checkout :: "wire \<Rightarrow> exec_env \<Rightarrow> gateway \<Rightarrow> headers \<Rightarrow> string \<Rightarrow> update_checkout_body \<Rightarrow> ucp_reply serving" where
  "update_checkout W X G hs sid body =
     and_serve (answer_with (lift_result (ucp_build_context G hs))) (\<lambda>c.
     let params = JObj ((''transaction_id'', JStr sid)
         # json_field ''buyer'' buyer_json (map_option ucp_map_buyer (ud_buyer body))
         @ json_field ''ship_to'' address_json
             (map_option ucp_map_address (Option.bind (ud_fulfillment body) fi_address)))
     in
     and_serve (ucp_run_intent X c ''intent.authorize'' params None) (\<lambda>v.
       answer_with (Inr (ucp_checkout W G 200 c v))))"

definition ucp_payment :: "payment_data \<Rightarrow> json" where
  "ucp_payment p =
     (let token = (case pm_token p of Some t \<Rightarrow> t | None \<Rightarrow> []) in
      if pm_instrument_type p = ''delegated_vault'' \<or> pm_instrument_type p = ''vault_token'' then
        JObj [(''method'', JStr ''delegated_vault''), (''token'', JStr token), (''provider'', json_opt JStr (pm_handler_id p))]
      else if pm_instrument_type p = ''stablecoin'' then
        JObj [(''method'', JStr ''stablecoin''), (''asset'', JStr ''USDC''),
          (''chain'', JStr (case pm_handler_id p of Some h \<Rightarrow> h | None \<Rightarrow> ''base'')), (''from'', JStr token)]
      else
        JObj [(''method'', JStr ''card''), (''token'', json_opt JStr (pm_token p)),
          (''last_digits'', json_opt JStr (pm_last_digits p)), (''brand'', json_opt JStr (pm_brand p))])"

definition complete_checkout :: "wire \<Rightarrow> exec_env \<Rightarrow> gateway \<Rightarrow> headers \<Rightarrow> string \<Rightarrow> complete_checkout_body \<Rightarrow> ucp_reply serving" where
  "complete_checkout W X G hs sid body =
     and_serve (answer_with (lift_result (ucp_build_context G hs))) (\<lambda>c.
     let params = JObj [(''transaction_id'', JStr sid), (''payment'', ucp_payment (cp_payment_data body))] in
     and_serve (ucp_run_intent X c ''intent.buy'' params (Some (''ucp:complete:'' @ sid))) (\<lambda>v.
       let reply = ucp_checkout W G 200 c v in
       answer_with (Inr (reply\<lparr>cr_view := (cr_view reply)\<lparr>co_order := non_null (json_get v ''order'')\<rparr>\<rparr>))))"

definition cancel_checkout :: "wire \<Rightarrow> exec_env \<Rightarrow> gateway \<Rightarrow> headers \<Rightarrow> string \<Rightarrow> ucp_reply serving" where
  "cancel_checkout W X G hs sid =
     and_serve (answer_with (lift_result (ucp_build_context G hs))) (\<lambda>c.
     and_serve (ucp_run_intent X c ''intent.return'' (JObj [(''transaction_id'', JStr sid)]) (Some (''ucp:cancel:'' @ sid)))
       (\<lambda>v. answer_with (Inr (ucp_checkout W G 200 c v))))"

definition ucp_discovery :: "string \<Rightarrow> json" where
  "ucp_discovery base = JObj
     [(''ucp'', JObj
        [(''profile'', JStr ''https://spec.ucp.dev/profile/shopping/2026-01-11''), (''version'', JStr ucp_version),
         (''capabilities'', JArr [JObj [(''name'', JStr ''dev.ucp.shopping''), (''version'', JStr ucp_version)]]),
         (''services'', JObj [(''dev.ucp.shopping'', JObj
            [(''version'', JStr ucp_version), (''spec'', JStr ''https://spec.ucp.dev/shopping''),
             (''rest'', JObj [(''endpoint'', JStr (base @ ''/checkout-sessions''))]),
             (''intents'', JArr (map JStr
               [''intent.quote'', ''intent.authorize'', ''intent.buy'', ''intent.track'', ''intent.return'']))])])]),
      (''compat'', JObj [(''icp_base_url'', JStr base), (''acp_base_url'', JStr base)])]"

datatype ucp_call =
    CreateCheckout create_checkout_body | GetCheckout string | UpdateCheckout string update_checkout_body
  | CompleteCheckout string complete_checkout_body | CancelCheckout string

definition serve_ucp :: "wire \<Rightarrow> exec_env \<Rightarrow> gateway \<Rightarrow> headers \<Rightarrow> ucp_call \<Rightarrow> ucp_reply serving" where
  "serve_ucp W X G hs call =
     (case call of
        CreateCheckout b \<Rightarrow> create_checkout W X G hs b
      | GetCheckout i \<Rightarrow> get_checkout W X G hs i
      | UpdateCheckout i b \<Rightarrow> update_checkout W X G hs i b
      | CompleteCheckout i b \<Rightarrow> complete_checkout W X G hs i b
      | CancelCheckout i \<Rightarrow> cancel_checkout W X G hs i)"

section \<open>The contract\<close>

lemmas ucp_endpoints = create_checkout_def get_checkout_def update_checkout_def complete_checkout_def cancel_checkout_def
  ucp_run_intent_def

lemma serve_ucp_ran:
  assumes "ucp_build_context G hs = Inr c" "body_shows_txn (wi_time W) (xe_env X)" "serve_ucp W X G hs call sv = (r, sv')"
  shows "ran X c (sv_icp sv) (sv_icp sv')"
proof -
  have own: "own_envelope c ((base_envelope c i p)\<lparr>en_context := x\<rparr>)" for i p x
    by (simp add: own_envelope_def base_envelope_def)
  note run = assms(3) [unfolded serve_ucp_def]
  show ?thesis
    using run assms(1)
    by (cases call)
      (auto simp: ucp_endpoints and_serve_run answer_with_run Let_def ran_refl split: if_splits
        dest!: stored_session_run intro: run_with_envelope_ran own_base own stamped_run_ran [OF _ own assms(2)])
qed

lemma ucp_refused: "ucp_build_context G hs = Inl e \<Longrightarrow> serve_ucp W X G hs call sv = (Inl (Fail e), sv)"
  by (cases call) (simp_all add: serve_ucp_def ucp_endpoints and_serve_def answer_with_def)

interpretation ucp: facade ucp_agent_prefix ucp_build_context serve_ucp
proof
  show "ucp_build_context G hs = Inr c \<Longrightarrow>
      resolve_tenant hs (gw_keys G) (gw_now G) = Inr (cc_tenant c) \<and>
      permits_agent (cc_tenant c) (ucp_agent_prefix @ ak_tenant_id (cc_tenant c)) \<and>
      ag_raw (cc_agent c) = ucp_agent_prefix @ ak_tenant_id (cc_tenant c)" for G hs c
    unfolding ucp_build_context_def by (rule compat_context_key)
qed (rule ucp_refused serve_ucp_ran; assumption)+

end
