(* ===== verification/Facades.thy ===== *)
theory Facades
  imports Acp Ucp
begin

text \<open>
  Both facades together, as the router mounts them (\<open>src/app.rs\<close>): their calls stay within the tenant of the key,
  and a checkout session is paid at most once through them.
\<close>

section \<open>The routes\<close>

datatype compat_call = Acp acp_call | Ucp ucp_call

datatype compat_answer = AcpSession acp_reply | UcpCheckout ucp_reply

definition serve_compat :: "wire \<Rightarrow> exec_env \<Rightarrow> gateway \<Rightarrow> headers \<Rightarrow> compat_call \<Rightarrow> compat_answer serving" where
  "serve_compat W X G hs call =
     (case call of
        Acp a \<Rightarrow> and_serve (serve_acp W X G hs a) (\<lambda>r. answer_with (Inr (AcpSession r)))
      | Ucp u \<Rightarrow> and_serve (serve_ucp W X G hs u) (\<lambda>r. answer_with (Inr (UcpCheckout r))))"

text \<open>The agent a call acts as, which calls only read, and which session a call completes.\<close>

definition call_prefix :: "compat_call \<Rightarrow> string" where
  "call_prefix call = (case call of Acp _ \<Rightarrow> acp_agent_prefix | Ucp _ \<Rightarrow> ucp_agent_prefix)"

definition is_read :: "compat_call \<Rightarrow> bool" where
  "is_read call \<longleftrightarrow> (case call of Acp (GetSession _) \<Rightarrow> True | Ucp (GetCheckout _) \<Rightarrow> True | _ \<Rightarrow> False)"

definition completes :: "compat_call \<Rightarrow> string option" where
  "completes call = (case call of
      Acp (CompleteSession sid _) \<Rightarrow> Some sid | Ucp (CompleteCheckout sid _) \<Rightarrow> Some sid | _ \<Rightarrow> None)"

section \<open>Within one tenant\<close>

lemma reads_keep:
  assumes "is_read call" "serve_compat W X G hs call sv = (r, sv')"
  shows "sv' = sv"
  using assms
  by (auto simp: is_read_def serve_compat_def serve_acp_def serve_ucp_def get_session_def get_checkout_def and_serve_run
      answer_with_run dest!: stored_session_run split: compat_call.splits acp_call.splits ucp_call.splits)

lemma facade_steps:
  assumes "icp_ok (sv_icp sv)" "key_store_try_new ks = Inr (gw_keys G)" "body_shows_txn (wi_time W) (xe_env X)"
    and "serve_compat W X G hs call sv = (r, sv')"
  shows "(sv' = sv \<and> (\<exists>e. r = Inl (Fail e))) \<or>
    (\<exists>k \<in> set ks. hs ''authorization'' = Some (''Bearer '' @ ak_key k) \<and> \<not> is_expired_at k (gw_now G) \<and>
       permits_agent k (call_prefix call @ ak_tenant_id k) \<and>
       call_steps (ak_tenant_id k) (fresh_ids (xe_env X)) (sv_icp sv) (sv_icp sv') \<and> icp_ok (sv_icp sv'))"
proof -
  have through: "\<exists>r1. m sv = (r1, sv') \<and> (\<forall>e. r1 = Inl e \<longrightarrow> r = Inl e)"
    if "and_serve m (\<lambda>x. answer_with (Inr (g x))) sv = (r, sv')" for m :: "'x serving" and g :: "'x \<Rightarrow> compat_answer"
    using that by (auto simp: and_serve_run answer_with_run)
  show ?thesis
  proof (cases call)
    case (Acp a)
    obtain r1 where "serve_acp W X G hs a sv = (r1, sv')" "\<forall>e. r1 = Inl e \<longrightarrow> r = Inl e"
      using through assms(4) unfolding serve_compat_def Acp compat_call.case by blast
    with acp.confined [OF assms(1-3)] show ?thesis
      unfolding Acp call_prefix_def compat_call.case by blast
  next
    case (Ucp u)
    obtain r1 where "serve_ucp W X G hs u sv = (r1, sv')" "\<forall>e. r1 = Inl e \<longrightarrow> r = Inl e"
      using through assms(4) unfolding serve_compat_def Ucp compat_call.case by blast
    with ucp.confined [OF assms(1-3)] show ?thesis
      unfolding Ucp call_prefix_def compat_call.case by blast
  qed
qed

text \<open>
  C19. Whatever a call of a facade changes in the stores, it changes as a step of the tenant whose unexpired key it
  presented, as the agent the facade makes up for that tenant, which the key must permit; it never
  names an aggregate it creates, so it cannot take over another one. A read changes nothing at all, and neither
  does a call without such a key, which is refused.
\<close>

theorem compat_calls_confined:
  assumes "icp_ok (sv_icp sv)" "key_store_try_new ks = Inr (gw_keys G)" "body_shows_txn (wi_time W) (xe_env X)"
    and "serve_compat W X G hs call sv = (r, sv')"
  shows "((sv' = sv \<and> (\<exists>e. r = Inl (Fail e))) \<or>
    (\<exists>k \<in> set ks. hs ''authorization'' = Some (''Bearer '' @ ak_key k) \<and> \<not> is_expired_at k (gw_now G) \<and>
       permits_agent k (call_prefix call @ ak_tenant_id k) \<and>
       call_steps (ak_tenant_id k) (fresh_ids (xe_env X)) (sv_icp sv) (sv_icp sv') \<and> icp_ok (sv_icp sv'))) \<and>
    (is_read call \<longrightarrow> sv' = sv)"
  using facade_steps [OF assms] reads_keep [OF _ assms(4)] by blast
section \<open>Calls in between\<close>

text \<open>Any calls of the dispatcher and of the two facades, one after the other, by any tenants, none of which
  creates something under the identifier \<open>k\<close>.\<close>

inductive interleaved :: "string \<Rightarrow> icp \<Rightarrow> icp \<Rightarrow> bool" for k where
  idle: "interleaved k s s"
| dispatched: "interleaved k s s1 \<Longrightarrow> handle_intent E inp s1 = (r, s2) \<Longrightarrow> k \<notin> new_ids E inp \<Longrightarrow> interleaved k s s2"
| through_facade: "interleaved k s (sv_icp sv1) \<Longrightarrow> key_store_try_new ks = Inr (gw_keys G) \<Longrightarrow>
    body_shows_txn (wi_time W) (xe_env X) \<Longrightarrow> serve_compat W X G hs call sv1 = (r, sv2) \<Longrightarrow>
    k \<notin> fresh_ids (xe_env X) \<Longrightarrow> interleaved k s (sv_icp sv2)"

lemma interleaved_finals: "interleaved k s s' \<Longrightarrow> icp_ok s \<Longrightarrow> finals_kept (- {k}) s s' \<and> icp_ok s'"
proof (induction rule: interleaved.induct)
  case (idle s)
  then show ?case by (simp add: finality.R_refl)
next
  case (dispatched s s1 E inp r s2)
  then have "finals_kept (- {k}) s s1" "icp_ok s1" by blast+
  moreover have "finals_kept (- {k}) s1 s2"
    using finality.steps_property [OF handle_intent_steps [OF \<open>icp_ok s1\<close> dispatched.hyps(2)]] dispatched.hyps(3)
    by (rule finals_kept_subset)
  ultimately show ?case
    using finals_kept_trans handle_intent_ok [OF \<open>icp_ok s1\<close> dispatched.hyps(2)] by blast
next
  case (through_facade s sv1 ks G W X hs call r sv2)
  then have kept: "finals_kept (- {k}) s (sv_icp sv1)" and ok: "icp_ok (sv_icp sv1)" by blast+
  have "finals_kept (- {k}) (sv_icp sv1) (sv_icp sv2) \<and> icp_ok (sv_icp sv2)"
    using facade_steps [OF ok through_facade.hyps(2-4)]
      finals_kept_subset [OF finality.steps_property through_facade.hyps(5)] ok
    by (auto simp: finality.R_refl)
  then show ?case using finals_kept_trans kept by blast
qed

section \<open>What a session shows\<close>

lemma txn_json_texts:
  "json_text (txn_json ts t) ''state'' = Some (transaction_state_wire_name (txn_state t))"
  "json_text (txn_json ts t) ''currency'' = Some (txn_currency t)"
  "json_get (txn_json ts t) ''totals'' = Some (totals_json (txn_totals t))"
  "lines_of (txn_json ts t) = map line_item_json (txn_line_items t)"
  by (simp_all add: json_text_def txn_json_def json_get_def json_as_str_def json_as_array_def lines_of_def json_field_def
      map_of_append split: option.split)

lemma total_shown:
  "\<forall>m. to_total x = Some m \<longrightarrow> in_i64 (amount_minor m) \<Longrightarrow>
   amount_at (totals_json x) ''total'' = map_option amount_minor (to_total x)"
  by (simp add: amount_at_def totals_json_def json_get_def json_opt_def money_json_def json_as_i64_def split: option.split)

text \<open>Both facades show the transaction under its id and currency, with all of its lines where the deserialiser
  reads back what the serialiser wrote, and agree on whether it is paid or closed.\<close>

lemma views_of_txn:
  fixes ts :: "time \<Rightarrow> string"
  assumes "\<forall>li \<in> set (txn_line_items t). from_value (line_item_json li) = Some li"
  defines "v \<equiv> session_view_of from_value (txn_json ts t)" and "w \<equiv> checkout_response_of from_value (txn_json ts t)"
  shows "sw_id v = txn_id t" "co_id w = txn_id t" "sw_currency v = txn_currency t" "co_currency w = txn_currency t"
    and "sw_status v = ''completed'' \<longleftrightarrow> txn_state t \<in> {Captured, Fulfilled, Completed}"
    and "co_status w = ''completed'' \<longleftrightarrow> txn_state t \<in> {Captured, Fulfilled, Completed}"
    and "sw_status v = ''canceled'' \<longleftrightarrow> co_status w = ''canceled''"
    and "map sl_total (sw_line_items v) = map (\<lambda>li. amount_minor (li_total li)) (txn_line_items t)"
    and "map lr_quantity (co_line_items w) = map li_quantity (txn_line_items t)"
proof -
  have lines: "List.map_filter f (map line_item_json lis) = map (\<lambda>li. g li) lis"
    if "\<forall>li \<in> set lis. f (line_item_json li) = Some (g li)" for f :: "json \<Rightarrow> 'x option" and g lis
    using that by (induction lis) (auto simp: map_filter_simps)
  show "sw_id v = txn_id t" "co_id w = txn_id t" "sw_currency v = txn_currency t" "co_currency w = txn_currency t"
    by (simp_all add: v_def w_def session_view_of_def checkout_response_of_def txn_json_id txn_json_texts)
  show "sw_status v = ''completed'' \<longleftrightarrow> txn_state t \<in> {Captured, Fulfilled, Completed}"
    "co_status w = ''completed'' \<longleftrightarrow> txn_state t \<in> {Captured, Fulfilled, Completed}"
    "sw_status v = ''canceled'' \<longleftrightarrow> co_status w = ''canceled''"
    by (cases "txn_state t"; simp add: v_def w_def session_view_of_def checkout_response_of_def txn_json_texts
        acp_status_for_def ucp_status_for_def)+
  have "List.map_filter (acp_map_line_item from_value) (map line_item_json (txn_line_items t)) =
      map (\<lambda>li. the (acp_map_line_item from_value (line_item_json li))) (txn_line_items t)"
    using assms(1) by (intro lines) (simp add: acp_map_line_item_def)
  then show "map sl_total (sw_line_items v) = map (\<lambda>li. amount_minor (li_total li)) (txn_line_items t)"
    using assms(1) by (simp add: v_def session_view_of_def txn_json_texts) (simp add: acp_map_line_item_def)
  have "List.map_filter (ucp_map_line_item from_value) (map line_item_json (txn_line_items t)) =
      map (\<lambda>li. the (ucp_map_line_item from_value (line_item_json li))) (txn_line_items t)"
    using assms(1) by (intro lines) (simp add: ucp_map_line_item_def Let_def)
  then show "map lr_quantity (co_line_items w) = map li_quantity (txn_line_items t)"
    using assms(1) by (simp add: w_def checkout_response_of_def txn_json_texts) (simp add: ucp_map_line_item_def Let_def)
qed

text \<open>The list of totals shows no discount, so after one its entries do not add up to the total.\<close>

lemma discount_not_shown:
  defines "x \<equiv> \<lparr>to_subtotal = Some (money_new 100 ''USD''), to_discount = Some (money_new 30 ''USD''), to_shipping = None,
    to_tax = Some (money_new 6 ''USD''), to_total = Some (money_new 76 ''USD'')\<rparr>"
  shows "map st_amount (acp_build_totals (totals_json x)) = [100, 6, 76]"
    and "map ut_amount (ucp_build_totals (totals_json x)) = [100, 6, 76]"
  by (simp_all add: x_def acp_build_totals_def ucp_build_totals_def ucp_total_of_def amount_at_def totals_json_def
      json_get_def json_opt_def money_json_def json_as_i64_def in_i64_def i64_min_def i64_max_def)

section \<open>A session is paid once\<close>

text \<open>Documented of the derived deserialiser: the parameters of a purchase name the session they were written for.\<close>

definition buy_params_named :: "parsers \<Rightarrow> bool" where
  "buy_params_named P \<longleftrightarrow> (\<forall>sid pay p.
     pa_buy P (JObj [(''transaction_id'', JStr sid), (''payment'', pay)]) = Inr p \<longrightarrow> bp_transaction_id p = sid)"

definition open_for_payment :: "icp \<Rightarrow> string \<Rightarrow> bool" where
  "open_for_payment s sid \<longleftrightarrow>
     (\<exists>t. st_get (ic_txns s) sid = Some t \<and> (txn_state t = Quoted \<or> txn_state t = Authorized))"

definition buys :: "intent_input \<Rightarrow> string \<Rightarrow> bool" where
  "buys inp sid \<longleftrightarrow> en_intent (in_envelope inp) = ''intent.buy'' \<and> in_skip_mandate_check inp \<and>
     (\<exists>pay. en_params (in_envelope inp) = JObj [(''transaction_id'', JStr sid), (''payment'', pay)])"

lemma buy_gate:
  assumes "buys inp sid"
    and "en_agent_id (in_envelope inp) = in_agent_raw inp \<Longrightarrow> ends (do_buy E inp None) s
      (\<lambda>out s'. ends (publish_outcome E inp IBuy None out) s' Q F) F"
    and "\<And>e. F (Fail e) s"
  shows "ends (handle_intent E inp) s Q F"
  using assms parses(3)
  by (auto simp: handle_intent_def wp buys_def simp del: append_Cons split: option.split sum.split)

lemma closed_session_kept:
  assumes "buy_params_named (e_parse E)" "buys inp sid" "\<not> open_for_payment s sid"
  shows "snd (handle_intent E inp s) = s"
proof -
  have "ends (do_buy E inp None) s (\<lambda>_ _. False) (\<lambda>e s'. s' = s)"
  proof (cases "pa_buy (e_parse E) (en_params (in_envelope inp))")
    case (Inl e)
    then show ?thesis unfolding do_buy_def ends_andthen by (simp add: wp del: append_Cons)
  next
    case (Inr p)
    then have "bp_transaction_id p = sid"
      using assms(1,2) by (auto simp: buys_def buy_params_named_def)
    then show ?thesis
      using assms(3) unfolding do_buy_def ends_andthen Let_def ends_options ends_lookups ends_basic
      by (auto simp: Inr ends_basic open_for_payment_def simp del: append_Cons split: sum.split option.split)
  qed
  then have "ends (handle_intent E inp) s (\<lambda>_ _. False) (\<lambda>e s'. s' = s)"
    using assms(2) by (intro buy_gate) (auto elim: ends_mono)
  then show ?thesis by (auto simp: ends_def split: prod.splits sum.splits)
qed

lemma paid_session_completed:
  assumes "buy_params_named (e_parse E)" "buys inp sid" "handle_intent E inp s = (Inr body, s')"
  shows "\<exists>t. st_get (ic_txns s') sid = Some t \<and> txn_state t = Completed \<and> txn_tenant_id t = in_tenant_id inp"
proof -
  have "ends (do_buy E inp None) s
      (\<lambda>out s'. \<exists>t. st_get (ic_txns s') sid = Some t \<and> txn_state t = Completed \<and> txn_tenant_id t = in_tenant_id inp)
      (\<lambda>_ _. True)"
    using assms(1,2)
    by (intro ends_mono [OF do_buy_effect])
      (auto simp: bought_def bought_txn_def buys_def buy_params_named_def)
  then have "ends (handle_intent E inp) s
      (\<lambda>_ s'. \<exists>t. st_get (ic_txns s') sid = Some t \<and> txn_state t = Completed \<and> txn_tenant_id t = in_tenant_id inp)
      (\<lambda>_ _. True)"
    using assms(2)
    by (intro buy_gate) (auto elim!: ends_mono intro!: ends_mono [OF publish_effect] simp: published_def Let_def)
  from ends_Inr [OF this assms(3)] show ?thesis .
qed

lemma completed_closed: "st_get (ic_txns s) sid = Some t \<Longrightarrow> txn_state t = Completed \<Longrightarrow> interleaved sid s s' \<Longrightarrow> icp_ok s \<Longrightarrow>
    \<not> open_for_payment s' sid"
  using interleaved_finals [of sid s s'] unfolding finals_kept_def open_for_payment_def txn_settled_def
  by (fastforce simp: pre_auth_def)

text \<open>A completion is one idempotent run of the purchase of its session, or is refused.\<close>

definition purchase_run :: "exec_env \<Rightarrow> string \<Rightarrow> service \<Rightarrow> 'a exec \<Rightarrow> service \<Rightarrow> bool" where
  "purchase_run X sid sv r sv' \<longleftrightarrow> sv' = sv \<or>
     (\<exists>inp key r1. buys inp sid \<and> handle_intent_idempotent X inp (Some key) sv = (r1, sv') \<and> (\<forall>e. r1 = Inl e \<longrightarrow> r = Inl e))"

lemma purchase_run_refl: "sv' = sv \<Longrightarrow> purchase_run X sid sv r sv'"
  by (simp add: purchase_run_def)

lemma purchase_run_mono:
  assumes "purchase_run X sid sv r1 sv'" "\<forall>e. r1 = Inl e \<longrightarrow> r = Inl e"
  shows "purchase_run X sid sv r sv'"
  using assms(1) unfolding purchase_run_def
proof (elim disjE exE conjE)
  fix inp key r0
  assume "buys inp sid" "handle_intent_idempotent X inp (Some key) sv = (r0, sv')" "\<forall>e. r0 = Inl e \<longrightarrow> r1 = Inl e"
  moreover from this(3) assms(2) have "\<forall>e. r0 = Inl e \<longrightarrow> r = Inl e" by simp
  ultimately show "sv' = sv \<or> (\<exists>inp key r1. buys inp sid \<and> handle_intent_idempotent X inp (Some key) sv = (r1, sv') \<and>
      (\<forall>e. r1 = Inl e \<longrightarrow> r = Inl e))" by blast
qed simp

lemma purchase_runI:
  assumes "and_serve (run_with_envelope X c (base_envelope c ''intent.buy''
      (JObj [(''transaction_id'', JStr sid), (''payment'', pay)])) (Some key)) (\<lambda>v. answer_with (Inr (g v))) sv = (r, sv')"
  shows "purchase_run X sid sv r sv'"
proof -
  let ?inp = "compat_input c (base_envelope c ''intent.buy'' (JObj [(''transaction_id'', JStr sid), (''payment'', pay)]))"
  have "buys ?inp sid" by (simp add: buys_def compat_input_def for_compat_def base_envelope_def)
  moreover obtain r1 where "handle_intent_idempotent X ?inp (Some key) sv = (r1, sv')" "\<forall>e. r1 = Inl e \<longrightarrow> r = Inl e"
    using assms unfolding run_with_envelope_def and_serve_run answer_with_run by blast
  ultimately show ?thesis unfolding purchase_run_def by blast
qed

lemma gated_purchase:
  assumes "and_serve (answer_with ctx) (\<lambda>c. and_serve (run_with_envelope X c (base_envelope c ''intent.buy''
      (JObj [(''transaction_id'', JStr sid), (''payment'', pay)])) (Some key)) (\<lambda>v. answer_with (Inr (g c v)))) sv = (r, sv')"
  shows "purchase_run X sid sv r sv'"
proof (cases ctx)
  case (Inl e)
  then show ?thesis using assms by (simp add: and_serve_def answer_with_def purchase_run_def)
next
  case (Inr c)
  have "and_serve (answer_with (Inr c)) f sv = f c sv" for f :: "compat_context \<Rightarrow> 'a serving"
    by (simp add: and_serve_def answer_with_def)
  from assms [unfolded Inr this] show ?thesis by (rule purchase_runI)
qed

lemma complete_runs:
  "complete_session W X G hs sid b sv = (r, sv') \<Longrightarrow> purchase_run X sid sv r sv'"
  "complete_checkout W X G hs sid b' sv = (q, sv') \<Longrightarrow> purchase_run X sid sv q sv'"
  unfolding complete_session_def complete_checkout_def Let_def acp_run_intent_def ucp_run_intent_def
  by (erule gated_purchase)+

lemma completion_run:
  assumes "completes call = Some sid" "serve_compat W X G hs call sv = (r, sv')"
  shows "purchase_run X sid sv r sv'"
proof (cases call)
  case (Acp a)
  then obtain b where a: "a = CompleteSession sid b"
    using assms(1) by (cases a) (auto simp: completes_def)
  obtain r1 where "complete_session W X G hs sid b sv = (r1, sv')" "\<forall>e. r1 = Inl e \<longrightarrow> r = Inl e"
    using assms(2) unfolding serve_compat_def Acp a compat_call.case serve_acp_def acp_call.case and_serve_run answer_with_run
    by blast
  then show ?thesis using complete_runs(1) purchase_run_mono by blast
next
  case (Ucp u)
  then obtain b where u: "u = CompleteCheckout sid b"
    using assms(1) by (cases u) (auto simp: completes_def)
  obtain r1 where "complete_checkout W X G hs sid b sv = (r1, sv')" "\<forall>e. r1 = Inl e \<longrightarrow> r = Inl e"
    using assms(2) unfolding serve_compat_def Ucp u compat_call.case serve_ucp_def ucp_call.case and_serve_run answer_with_run
    by blast
  then show ?thesis using complete_runs(2) purchase_run_mono by blast
qed

lemma idempotent_success:
  assumes "handle_intent_idempotent X inp (Some key) sv = (Inr ex, sv')"
  shows "sv_icp sv' = sv_icp sv \<or> handle_intent (xe_env X) inp (sv_icp sv) = (Inr (ix_body ex), sv_icp sv')"
proof -
  obtain sv1 where lim: "enforce_tenant_limit X inp sv = (Inr (), sv1)"
    using assms by (auto simp: handle_intent_idempotent_def split: prod.splits sum.splits)
  note same = limits_keep(3) [OF lim]
  show ?thesis
  proof (cases "effective_key inp (Some key)")
    case None
    then show ?thesis
      using assms same by (auto simp: handle_intent_idempotent_def lim split: prod.splits sum.splits)
  next
    case (Some k)
    then have run: "execute_keyed X inp k sv1 = (Inr ex, sv')"
      using assms by (simp add: handle_intent_idempotent_def lim)
    show ?thesis
    proof (cases "ix_replayed ex")
      case True
      then have "sv_icp sv' = sv_icp sv1"
        using run by (auto simp: execute_keyed_def execute_won_def Let_def split: sum.splits option.splits prod.splits
            reserve_outcome.splits fault.splits)
      then show ?thesis using same by simp
    next
      case False
      show ?thesis
        by (rule executed_fresh [OF run False]) (simp add: same)
    qed
  qed
qed

text \<open>
  C4. A checkout session is paid at most once through the facades. Once a completion of it changed the stores and
  answered, the session is completed; and after any further calls of the dispatcher and of the facades, by any tenants,
  of which none is a search, describe or quote that names the session as its transaction and none draws its identifier
  as a fresh one, no completion of it on either facade, with whatever payment data, key, clock and failures, changes
  any store. The excluded calls are real: a search, describe or quote sent to the dispatcher with the session as its
  transaction replaces it by an unpaid one (\<open>fresh_transaction\<close> in \<open>src/service/helpers.rs\<close>, lemma
  \<open>search_overwrites_foreign_transaction\<close>), and that one can be paid again; the facades themselves never name
  what they create.
\<close>

theorem session_paid_once:
  assumes "icp_ok (sv_icp sv)" "buy_params_named (e_parse (xe_env X))" "buy_params_named (e_parse (xe_env X'))"
    and first: "completes call = Some sid" "serve_compat W X G hs call sv = (Inr reply, sv1)" "sv_icp sv1 \<noteq> sv_icp sv"
    and between: "interleaved sid (sv_icp sv1) (sv_icp sv2)"
    and second: "completes call' = Some sid" "serve_compat W' X' G' hs' call' sv2 = (r, sv3)"
  shows "(\<exists>t. st_get (ic_txns (sv_icp sv1)) sid = Some t \<and> txn_state t = Completed) \<and> sv_icp sv3 = sv_icp sv2"
proof -
  obtain inp key ex where run: "buys inp sid" "handle_intent_idempotent X inp (Some key) sv = (Inr ex, sv1)"
    using completion_run [OF first(1,2)] first(3) unfolding purchase_run_def by (metis sum.exhaust sum.simps(4))
  then have paid: "handle_intent (xe_env X) inp (sv_icp sv) = (Inr (ix_body ex), sv_icp sv1)"
    using idempotent_success first(3) by blast
  then obtain t where t: "st_get (ic_txns (sv_icp sv1)) sid = Some t" "txn_state t = Completed"
    using paid_session_completed [OF assms(2) run(1)] by blast
  then have closed: "\<not> open_for_payment (sv_icp sv2) sid"
    using completed_closed between handle_intent_ok [OF assms(1) paid] by blast
  have "sv_icp sv3 = sv_icp sv2"
    using completion_run [OF second] closed_session_kept [OF assms(3) _ closed] idempotent_icp
    unfolding purchase_run_def by metis
  with t show ?thesis by blast
qed

section \<open>A completion to look at\<close>

definition compat_env :: env where
  "compat_env = demo_env\<lparr>
     e_parse := demo_parsers\<lparr>pa_buy := \<lambda>v. case json_text v ''transaction_id'' of
         Some s \<Rightarrow> Inr \<lparr>bp_transaction_id = s, bp_payment = Card (Some ''tok'') None None\<rparr> | None \<Rightarrow> Inl ''transaction_id''\<rparr>,
     e_body_json := \<lambda>b. JObj [(''transaction'', txn_json (\<lambda>_. []) (rb_transaction b))],
     e_sig_lib := demo_sig_lib\<lparr>sl_claims_to_jcs := \<lambda>_. Inr ''c''\<rparr>\<rparr>"

definition compat_exec :: "intent_response_body \<Rightarrow> exec_env" where
  "compat_exec b = (demo_exec b)\<lparr>xe_env := compat_env\<rparr>"

definition compat_state :: icp where
  "compat_state = demo_state\<lparr>ic_txns := [(''txn_1'', demo_txn\<lparr>txn_tenant_id := ''merchant_demo''\<rparr>)]\<rparr>"

definition compat_service :: service where
  "compat_service = demo_service\<lparr>sv_icp := compat_state\<rparr>"

definition demo_wire :: wire where
  "demo_wire = \<lparr>wi_time = \<lambda>_. [], wi_line_item = \<lambda>_. None\<rparr>"

definition demo_completion :: compat_call where
  "demo_completion = Acp (CompleteSession ''txn_1'' \<lparr>cm_buyer = None, cm_payment_data = None\<rparr>)"

definition demo_context :: compat_context where
  "demo_context = \<lparr>cc_tenant = demo_api_key, cc_agent = parse_agent (acp_agent_prefix @ ''merchant_demo''),
     cc_request_id = ''req_r'', cc_trace_id = None\<rparr>"

lemma demo_context_built: "acp_build_context demo_gateway demo_headers = Inr demo_context"
proof -
  have "demo_headers ''api-version'' = None" "demo_headers ''request-id'' = None" "demo_headers ''traceparent'' = None"
    "ak_tenant_id demo_api_key = ''merchant_demo''" "gw_request_uuid demo_gateway = ''r''"
    "permits_agent demo_api_key x" for x
    by (simp_all add: demo_headers_def demo_api_key_def demo_gateway_def permits_agent_def)
  then show ?thesis
    using demo_resolves
    by (simp add: acp_build_context_def compat_context_of_def bind_result_def Let_def ensure_agent_allowed_def demo_context_def)
qed

definition demo_purchase :: intent_input where
  "demo_purchase = compat_input demo_context (base_envelope demo_context ''intent.buy''
     (JObj [(''transaction_id'', JStr ''txn_1''), (''payment'', acp_payment None)]))"

lemma demo_purchase_runs: "\<exists>body s. handle_intent compat_env demo_purchase compat_state = (Inr body, s) \<and> ic_bus s \<noteq> []"
proof -
  have card: "validate_payment_instrument (Card (Some ''tok'') None None) ''simulated'' = Inr ()"
    by (simp add: validate_payment_instrument_def require_non_empty_def trim_graphic graphic_def)
  have named: "pa_buy (e_parse compat_env) (en_params (in_envelope demo_purchase)) =
      Inr \<lparr>bp_transaction_id = ''txn_1'', bp_payment = Card (Some ''tok'') None None\<rparr>"
    by (simp add: compat_env_def demo_purchase_def compat_input_def for_compat_def base_envelope_def json_text_def
        json_get_def json_as_str_def)
  have buy: "ends (do_buy compat_env demo_purchase None) compat_state (\<lambda>_ _. True) (\<lambda>_ _. False)"
    unfolding do_buy_def ends_andthen Let_def ends_options ends_lookups ends_basic ends_quote_open named
    by (simp add: wp compat_env_def demo_env_def demo_cfg_def card compat_state_def demo_state_def st_get_def demo_txn_def
        fresh_transaction_def ensure_not_subscription_linked_def quote_expired_def reserve_mandate_spend_def
        demo_purchase_def demo_context_def demo_api_key_def persist_order_for_transaction_def is_production_def
        eq_ignore_ascii_case_def)
  have publish: "ends (publish_outcome compat_env demo_purchase i None out) s (\<lambda>_ s. ic_bus s \<noteq> []) (\<lambda>_ _. False)" for i out s
    by (simp add: publish_outcome_def issue_receipt_def enqueue_webhook_def emit_def wp Let_def sign_receipt_def
        compat_env_def demo_env_def demo_sig_lib_def demo_signer_def demo_header_def)
  have "buys demo_purchase ''txn_1''" "en_agent_id (in_envelope demo_purchase) = in_agent_raw demo_purchase"
    by (simp_all add: buys_def demo_purchase_def compat_input_def for_compat_def base_envelope_def)
  then have "ends (handle_intent compat_env demo_purchase) compat_state (\<lambda>_ s. ic_bus s \<noteq> []) (\<lambda>_ _. False)"
    using parses(3) by (auto simp: handle_intent_def wp buys_def simp del: append_Cons split: option.split sum.split
        intro: ends_mono [OF buy] publish)
  then show ?thesis by (auto simp: ends_def split: prod.splits sum.splits)
qed

lemma demo_completes:
  "\<exists>reply sv1. serve_compat demo_wire (compat_exec b) demo_gateway demo_headers demo_completion compat_service =
      (Inr reply, sv1) \<and> sv_icp sv1 \<noteq> compat_state"
proof -
  obtain body s where run: "handle_intent compat_env demo_purchase compat_state = (Inr body, s)" "ic_bus s \<noteq> []"
    using demo_purchase_runs by blast
  have moved: "s \<noteq> compat_state" using run(2) by (auto simp: compat_state_def demo_state_def)
  let ?sv = compat_service
  have fields: "in_tenant demo_purchase = demo_api_key" "in_skip_rate_limit demo_purchase = False"
    "effective_key demo_purchase (Some ''acp:complete:txn_1'') = Some ''acp:complete:txn_1''"
    by (simp_all add: demo_purchase_def demo_context_def compat_input_def for_compat_def effective_key_def)
  have "\<exists>sv0. enforce_tenant_limit (compat_exec b) demo_purchase ?sv = (Inr (), sv0) \<and> sv_icp sv0 = compat_state \<and>
      sv_idempotency sv0 = idem_in_memory"
    by (simp add: enforce_tenant_limit_def fields check_tenant_rate_limit_def check_rate_limit_def compat_exec_def demo_exec_def
        compat_service_def demo_service_def rl_check_def per_minute_def demo_api_key_def check_at_def bucket_step_def
        Let_def since_def secs_def)
  then obtain sv0 where sv0: "enforce_tenant_limit (compat_exec b) demo_purchase ?sv = (Inr (), sv0)"
      "sv_icp sv0 = compat_state" "sv_idempotency sv0 = idem_in_memory" by blast
  have lease: "idempotency_lease compat_env = Some (secs 60)"
    using demo_lease by (simp add: idempotency_lease_def compat_env_def)
  have "\<exists>ex sv1. handle_intent_idempotent (compat_exec b) demo_purchase (Some ''acp:complete:txn_1'') ?sv = (Inr ex, sv1) \<and>
      sv_icp sv1 = s"
    using run(1) sv0 lease
    by (simp add: handle_intent_idempotent_def fields execute_keyed_def Let_def compat_exec_def demo_exec_def
        idem_in_memory_def idem_reserve_def mem_reserve_def execute_won_def)
  then obtain ex sv1 where ex: "handle_intent_idempotent (compat_exec b) demo_purchase (Some ''acp:complete:txn_1'') ?sv =
      (Inr ex, sv1)" "sv_icp sv1 = s" by blast
  have "\<exists>reply. complete_session demo_wire (compat_exec b) demo_gateway demo_headers ''txn_1''
      \<lparr>cm_buyer = None, cm_payment_data = None\<rparr> ?sv = (Inr reply, sv1)"
    using ex(1)
    by (simp add: complete_session_def demo_context_built and_serve_def answer_with_def Let_def acp_run_intent_def
        run_with_envelope_def demo_purchase_def)
  then show ?thesis
    using moved ex(2)
    by (auto simp: serve_compat_def demo_completion_def serve_acp_def and_serve_def answer_with_def)
qed

lemma compat_state_ok: "icp_ok (sv_icp compat_service)"
  using demo_state_ok
  by (simp add: compat_service_def compat_state_def demo_state_def icp_ok_def st_ok_def keyed_by_def st_get_def demo_txn_def)

lemma compat_env_laws: "body_shows_txn (wi_time demo_wire) (xe_env (compat_exec b))"
    "buy_params_named (e_parse (xe_env (compat_exec b)))"
  by (auto simp: body_shows_txn_def buy_params_named_def compat_exec_def compat_env_def demo_wire_def json_get_def
      json_text_def json_as_str_def)

theorem compat_calls_confined_witness:
  "\<forall>b. \<exists>reply sv1. serve_compat demo_wire (compat_exec b) demo_gateway demo_headers demo_completion compat_service =
      (Inr reply, sv1) \<and>
    call_steps ''merchant_demo'' (fresh_ids compat_env) compat_state (sv_icp sv1) \<and> sv_icp sv1 \<noteq> compat_state"
proof
  fix b
  obtain reply sv1 where run: "serve_compat demo_wire (compat_exec b) demo_gateway demo_headers demo_completion compat_service =
      (Inr reply, sv1)" "sv_icp sv1 \<noteq> compat_state"
    using demo_completes by blast
  have facts: "key_store_try_new [demo_api_key] = Inr (gw_keys demo_gateway)" "ak_tenant_id demo_api_key = ''merchant_demo''"
    "sv_icp compat_service = compat_state" "xe_env (compat_exec b) = compat_env"
    using demo_key_valid by (simp_all add: demo_gateway_def demo_api_key_def compat_service_def compat_exec_def)
  show "\<exists>reply sv1. serve_compat demo_wire (compat_exec b) demo_gateway demo_headers demo_completion compat_service =
      (Inr reply, sv1) \<and>
    call_steps ''merchant_demo'' (fresh_ids compat_env) compat_state (sv_icp sv1) \<and> sv_icp sv1 \<noteq> compat_state"
    using compat_calls_confined [OF compat_state_ok facts(1) compat_env_laws(1) run(1)] run
    by (auto simp: facts(2-))
qed

text \<open>Another exchange, whose fresh identifiers are not the session's.\<close>

definition other_exec :: "intent_response_body \<Rightarrow> exec_env" where
  "other_exec b = (compat_exec b)\<lparr>xe_env := compat_env\<lparr>e_uuid := \<lambda>_. ''fresh''\<rparr>\<rparr>"

lemma other_exec_laws: "body_shows_txn (wi_time demo_wire) (xe_env (other_exec b))"
    "''txn_1'' \<notin> fresh_ids (xe_env (other_exec b))"
  by (auto simp: other_exec_def fresh_ids_def body_shows_txn_def compat_env_def demo_wire_def json_get_def
      json_text_def json_as_str_def)

theorem session_paid_once_witness:
  "\<forall>b call. \<exists>reply sv1 t. serve_compat demo_wire (compat_exec b) demo_gateway demo_headers demo_completion compat_service =
      (Inr reply, sv1) \<and> st_get (ic_txns (sv_icp sv1)) ''txn_1'' = Some t \<and> txn_state t = Completed \<and>
    (let sv2 = snd (serve_compat demo_wire (other_exec b) demo_gateway demo_headers call sv1) in
       sv_icp (snd (serve_compat demo_wire (compat_exec b) demo_gateway demo_headers demo_completion sv2)) = sv_icp sv2)"
proof (intro allI)
  fix b call
  obtain reply sv1 where run: "serve_compat demo_wire (compat_exec b) demo_gateway demo_headers demo_completion compat_service =
      (Inr reply, sv1)" "sv_icp sv1 \<noteq> compat_state"
    using demo_completes by blast
  have start: "sv_icp sv1 \<noteq> sv_icp compat_service"
    using run(2) by (simp add: compat_service_def)
  have named: "completes demo_completion = Some ''txn_1''"
    by (simp add: completes_def demo_completion_def)
  have keys: "key_store_try_new [demo_api_key] = Inr (gw_keys demo_gateway)"
    using demo_key_valid by (simp add: demo_gateway_def)
  note between = interleaved.through_facade [OF interleaved.idle keys other_exec_laws(1) surjective_pairing other_exec_laws(2)]
  from session_paid_once [OF compat_state_ok compat_env_laws(2,2) named run(1) start between named surjective_pairing] run
  show "\<exists>reply sv1 t. serve_compat demo_wire (compat_exec b) demo_gateway demo_headers demo_completion compat_service =
      (Inr reply, sv1) \<and> st_get (ic_txns (sv_icp sv1)) ''txn_1'' = Some t \<and> txn_state t = Completed \<and>
    (let sv2 = snd (serve_compat demo_wire (other_exec b) demo_gateway demo_headers call sv1) in
       sv_icp (snd (serve_compat demo_wire (compat_exec b) demo_gateway demo_headers demo_completion sv2)) = sv_icp sv2)"
    unfolding Let_def by blast
qed

end
