(* ===== verification/Mcp.thy ===== *)
theory Mcp
  imports Compat
begin

text \<open>
  The MCP surface (\<open>src/mcp.rs\<close>): JSON-RPC 2.0, the catalogue of tools, one tool per intent, and the call of a
  tool; and the stdio server over the same dispatcher (\<open>src/bin/icp_mcp_stdio.rs\<close>).
\<close>

section \<open>JSON-RPC\<close>

record json_rpc_request =
  jq_jsonrpc :: string
  jq_id :: "json option"
  jq_method :: string
  jq_params :: "json option"

record json_rpc_error =
  je_code :: int
  je_message :: string
  je_data :: "json option"

record json_rpc_response =
  jp_jsonrpc :: string
  jp_id :: "json option"
  jp_result :: "json option"
  jp_error :: "json_rpc_error option"

definition rpc_ok :: "json option \<Rightarrow> json \<Rightarrow> json_rpc_response" where
  "rpc_ok i result = \<lparr>jp_jsonrpc = ''2.0'', jp_id = i, jp_result = Some result, jp_error = None\<rparr>"

definition rpc_err :: "json option \<Rightarrow> int \<Rightarrow> string \<Rightarrow> json_rpc_response" where
  "rpc_err i code message = \<lparr>jp_jsonrpc = ''2.0'', jp_id = i, jp_result = None,
     jp_error = Some \<lparr>je_code = code, je_message = message, je_data = None\<rparr>\<rparr>"

section \<open>Tools\<close>

fun description_for :: "intent \<Rightarrow> string" where
  "description_for ISearch = ''Search products in the merchant's catalog. Read-only; does not require a mandate.''"
| "description_for IDescribe = ''Fetch a product's full description by SKU or product id. Read-only.''"
| "description_for IQuote =
     ''Price a basket: returns a `quoted` transaction with totals (subtotal ''
     @ ''+ tax + total). Scope: `quote`.''"
| "description_for INegotiate = ''Counter-offer pricing on an existing quote. Scope: `quote`.''"
| "description_for IAuthorize = ''Authorize an existing quoted transaction for payment. Scope: `buy`.''"
| "description_for IBuy = ''Complete purchase of an authorized transaction. Requires `payment`. Scope: `buy`.''"
| "description_for IPay = ''Alias for intent.buy.''"
| "description_for ISubscribe = ''Start a recurring subscription against the transaction. Scope: `subscribe`.''"
| "description_for IRenew = ''Renew an existing subscription. Scope: `subscribe`.''"
| "description_for IPause = ''Pause an active subscription. Scope: `subscribe`.''"
| "description_for ICancelSubscription = ''Cancel a subscription. Scope: `subscribe`.''"
| "description_for ITrack = ''Fetch current transaction/order status (shipping, fulfillment). Read-only.''"
| "description_for IConfirmReceipt =
     ''Acknowledge physical receipt of goods (triggers escrow release for ''
     @ ''A2A/stablecoin).''"
| "description_for IReturn = ''Initiate a return against a completed transaction. Scope: `return`.''"
| "description_for IRefundRequest = ''Request a refund against a completed order. Scope: `return`.''"
| "description_for IA2aPay = ''Pay another agent directly (peer commerce). Scope: `pay_peer`.''"
| "description_for IA2aQuote = ''Ask another agent to quote a service. Scope: `pay_peer`.''"

text \<open>Schemas of a type, of an object with properties, and of one that requires some of them.\<close>

definition of_type :: "string \<Rightarrow> json" where
  "of_type ty = JObj [(''type'', JStr ty)]"

definition object_with :: "(string \<times> json) list \<Rightarrow> json" where
  "object_with properties = JObj [(''type'', JStr ''object''), (''properties'', JObj properties)]"

definition object_requiring :: "string list \<Rightarrow> (string \<times> json) list \<Rightarrow> json" where
  "object_requiring required properties = JObj [(''type'', JStr ''object''), (''required'', JArr (map JStr required)),
     (''properties'', JObj properties)]"

definition array_of :: "json \<Rightarrow> json" where
  "array_of items = JObj [(''type'', JStr ''array''), (''items'', items)]"

definition search_schema :: json where
  "search_schema = object_with
     [(''query'', JObj [(''type'', JStr ''string''), (''description'', JStr ''Free-text search query'')]),
      (''filters'', JObj [(''type'', JStr ''object''), (''description'',
         JStr (''Structured filters (brand, category, price_min, '' @ bytes [0xE2, 0x80, 0xA6] @ '')''))]),
      (''limit'', JObj [(''type'', JStr ''integer''), (''minimum'', JInt 1), (''maximum'', JInt 100)]),
      (''cursor'', of_type ''string'')]"

definition quote_schema :: json where
  "quote_schema = object_requiring [''items'']
     [(''items'', array_of (object_requiring [''sku'', ''quantity'']
        [(''sku'', of_type ''string''),
         (''quantity'', JObj [(''type'', JStr ''integer''), (''minimum'', JInt 1)]),
         (''unit_price_hint'', object_with [(''amount_minor'', of_type ''integer''), (''currency'', of_type ''string'')])])),
      (''buyer'', of_type ''object''), (''ship_to'', of_type ''object''),
      (''currency'', JObj [(''type'', JStr ''string''), (''default'', JStr ''USD'')]),
      (''jurisdiction'', of_type ''string'')]"

definition buy_schema :: json where
  "buy_schema = object_requiring [''transaction_id'', ''payment'']
     [(''transaction_id'', of_type ''string''),
      (''payment'', object_requiring [''method'']
        [(''method'', JObj [(''type'', JStr ''string''),
            (''enum'', JArr (map JStr [''card'', ''delegated_vault'', ''stablecoin'', ''a2a'']))]),
         (''token'', of_type ''string''), (''last_digits'', of_type ''string''), (''brand'', of_type ''string''),
         (''provider'', of_type ''string''), (''asset'', of_type ''string''), (''chain'', of_type ''string''),
         (''from'', of_type ''string''), (''peer_agent_id'', of_type ''string'')])]"

definition input_schema_for :: "intent \<Rightarrow> json" where
  "input_schema_for i =
     (case i of
        ISearch \<Rightarrow> search_schema
      | IDescribe \<Rightarrow> object_with [(''product_id'', of_type ''string''), (''sku'', of_type ''string'')]
      | IQuote \<Rightarrow> quote_schema
      | IAuthorize \<Rightarrow> object_requiring [''transaction_id'']
          [(''transaction_id'', of_type ''string''), (''buyer'', of_type ''object''), (''ship_to'', of_type ''object''),
           (''bill_to'', of_type ''object'')]
      | IBuy \<Rightarrow> buy_schema
      | IPay \<Rightarrow> buy_schema
      | ITrack \<Rightarrow> object_with [(''transaction_id'', of_type ''string''), (''order_id'', of_type ''string'')]
      | _ \<Rightarrow>
          if i = IReturn \<or> i = IRefundRequest then object_requiring [''transaction_id'']
            [(''transaction_id'', of_type ''string''), (''order_id'', of_type ''string''),
             (''line_item_ids'', array_of (of_type ''string'')), (''reason'', of_type ''string'')]
          else JObj [(''type'', JStr ''object''), (''description'',
            JStr ''Accepts any ICP intent params for this intent; see docs/specification/ICP_SPEC.md'')])"

text \<open>No wire name repeats the prefix that \<open>trim_start_matches\<close> takes off.\<close>

definition tool_name :: "intent \<Rightarrow> string" where
  "tool_name i = ''icp_'' @ (case strip_prefix ''intent.'' (wire_name i) of Some n \<Rightarrow> n | None \<Rightarrow> wire_name i)"

definition tool_for_intent :: "intent \<Rightarrow> json" where
  "tool_for_intent i = JObj [(''name'', JStr (tool_name i)), (''description'', JStr (description_for i)),
     (''inputSchema'', input_schema_for i)]"

definition tool_catalog :: "json list" where
  "tool_catalog = map tool_for_intent (filter is_implemented core_intents)"

section \<open>The call of a tool\<close>

definition mcp_agent_prefix :: string where
  "mcp_agent_prefix = ''did:stateset:agent:mcp-''"

definition mcp_tenant :: "gateway \<Rightarrow> headers \<Rightarrow> (int \<times> string) + (api_key_info \<times> agent_identifier)" where
  "mcp_tenant G hs =
     (case Option.bind (hs ''authorization'') (strip_prefix ''Bearer '') of
        None \<Rightarrow> Inl (-32001, ''Bearer token required for MCP tool call'')
      | Some bearer \<Rightarrow>
     (case key_lookup bearer (gw_keys G) of
        None \<Rightarrow> Inl (-32001, ''unknown API key'')
      | Some tenant \<Rightarrow>
          if is_expired_at tenant (gw_now G) then Inl (-32001, ''API key expired'')
          else
            let agent = parse_agent (mcp_agent_prefix @ ak_tenant_id tenant) in
            if \<not> permits_agent tenant (ag_raw agent) then
              Inl (-32001, ''agent `'' @ ag_raw agent @ ''` is not allowed for this API key'')
            else Inr (tenant, agent)))"

definition mcp_tool :: "json \<Rightarrow> (int \<times> string) + (intent \<times> json)" where
  "mcp_tool params =
     (case json_text params ''name'' of
        None \<Rightarrow> Inl (-32602, ''tools/call: params.name required'')
      | Some name \<Rightarrow>
     (case strip_prefix ''icp_'' name of
        None \<Rightarrow> Inl (-32602, ''unknown tool: '' @ name)
      | Some intent_name \<Rightarrow>
     (case parse_intent (''intent.'' @ intent_name) of
        Inl e \<Rightarrow> Inl (-32602, ''unknown tool: '' @ display_error e)
      | Inr i \<Rightarrow> Inr (i, case json_get params ''arguments'' of Some a \<Rightarrow> a | None \<Rightarrow> JObj []))))"

definition mcp_context :: "json \<Rightarrow> intent_context" where
  "mcp_context arguments =
     (let c = (case json_text arguments ''currency'' of
          Some s \<Rightarrow> intent_context_default\<lparr>cx_currency := Some s\<rparr> | None \<Rightarrow> intent_context_default)
      in case json_text arguments ''jurisdiction'' of Some s \<Rightarrow> c\<lparr>cx_jurisdiction := Some s\<rparr> | None \<Rightarrow> c)"

definition mcp_idem_key :: "intent \<Rightarrow> string option \<Rightarrow> string option" where
  "mcp_idem_key i transaction_id =
     (case transaction_id of
        Some tid \<Rightarrow> if is_state_change i then Some (''mcp:'' @ wire_name i @ '':'' @ tid) else None
      | None \<Rightarrow> None)"

definition mcp_input :: "gateway \<Rightarrow> api_key_info \<Rightarrow> agent_identifier \<Rightarrow> intent \<Rightarrow> json \<Rightarrow> intent_input" where
  "mcp_input G tenant agent i arguments =
     for_compat
       \<lparr>en_intent = wire_name i, en_intent_id = None, en_transaction_id = json_text arguments ''transaction_id'',
        en_agent_id = ag_raw agent, en_mandate_jti = None, en_params = arguments, en_context = mcp_context arguments\<rparr>
       agent tenant (''req_'' @ gw_request_uuid G) None"

definition error_json :: "api_error_payload \<Rightarrow> json" where
  "error_json p = JObj [(''error'', JObj
     ([(''type'', JStr (ep_type p)), (''code'', JStr (ep_code p)), (''message'', JStr (ep_message p))]
      @ json_field ''param'' JStr (ep_param p) @ json_field ''intent_id'' JStr (ep_intent_id p)
      @ [(''retriable'', JBool (ep_retriable p))] @ json_field ''docs_url'' JStr (ep_docs_url p)))]"

definition tool_result :: "string \<Rightarrow> bool \<Rightarrow> json \<Rightarrow> json" where
  "tool_result message is_error structured = JObj
     [(''content'', JArr [JObj [(''type'', JStr ''text''), (''text'', JStr message)]]),
      (''isError'', JBool is_error), (''structuredContent'', structured)]"

definition body_summary :: "intent_response_body \<Rightarrow> string" where
  "body_summary body = ''intent='' @ rb_intent body @ '' transaction='' @ txn_id (rb_transaction body)
     @ '' state='' @ transaction_state_wire_name (txn_state (rb_transaction body))
     @ '' receipt_jti='' @ rs_jti (rb_receipt body)"

definition handle_tools_call ::
  "exec_env \<Rightarrow> gateway \<Rightarrow> headers \<Rightarrow> json option \<Rightarrow> ((int \<times> string) + json) serving" where
  "handle_tools_call X G hs params = (\<lambda>sv.
     case params of
       None \<Rightarrow> (Inr (Inl (-32602, ''tools/call: params required'')), sv)
     | Some params \<Rightarrow>
     (case mcp_tool params of
        Inl e \<Rightarrow> (Inr (Inl e), sv)
      | Inr (i, arguments) \<Rightarrow>
     (case mcp_tenant G hs of
        Inl e \<Rightarrow> (Inr (Inl e), sv)
      | Inr (tenant, agent) \<Rightarrow>
     (case handle_intent_idempotent X (mcp_input G tenant agent i arguments)
          (mcp_idem_key i (json_text arguments ''transaction_id'')) sv of
        (Inl Panic, sv') \<Rightarrow> (Inl Panic, sv')
      | (Inl (Fail e), sv') \<Rightarrow>
          (let p = snd (into_body e) in (Inr (Inr (tool_result (ep_message p) True (error_json p))), sv'))
      | (Inr ex, sv') \<Rightarrow>
          (Inr (Inr (tool_result (body_summary (ix_body ex)) False (e_body_json (xe_env X) (ix_body ex)))), sv')))))"

section \<open>The dispatcher\<close>

text \<open>The version of the package in \<open>Cargo.toml\<close>.\<close>

definition package_version :: string where
  "package_version = ''0.6.0''"

definition handle_initialize :: "json option \<Rightarrow> json_rpc_response" where
  "handle_initialize i = rpc_ok i (JObj
     [(''protocolVersion'', JStr ''2024-11-05''),
      (''capabilities'', JObj
        [(''tools'', JObj [(''listChanged'', JBool False)]),
         (''resources'', JObj [(''listChanged'', JBool False), (''subscribe'', JBool False)]),
         (''prompts'', JObj [(''listChanged'', JBool False)]), (''logging'', JObj [])]),
      (''serverInfo'', JObj
        [(''name'', JStr ''stateset-icp-handler''), (''version'', JStr package_version),
         (''icp_version'', JStr icp_version_const)]),
      (''instructions'', JStr
        (''Call tools/list to discover every ICP intent as a tool. Each tool accepts the intent's param schema. ''
         @ ''Results wrap the full ICP response body; state-changing tools include a signed receipt.''))])"

definition mcp_dispatch :: "exec_env \<Rightarrow> gateway \<Rightarrow> headers \<Rightarrow> json_rpc_request \<Rightarrow> json_rpc_response serving" where
  "mcp_dispatch X G hs req = (\<lambda>sv.
     let i = jq_id req; method = jq_method req in
     if jq_jsonrpc req \<noteq> ''2.0'' then
       (Inr (rpc_err i (-32600) (''jsonrpc must be '' @ bytes [0x22] @ ''2.0'' @ bytes [0x22])), sv)
     else if method = ''initialize'' then (Inr (handle_initialize i), sv)
     else if method = ''initialized'' \<or> method = ''notifications/initialized'' then (Inr (rpc_ok i (JObj [])), sv)
     else if method = ''ping'' then (Inr (rpc_ok i (JObj [])), sv)
     else if method = ''tools/list'' then (Inr (rpc_ok i (JObj [(''tools'', JArr tool_catalog)])), sv)
     else if method = ''tools/call'' then
       (case handle_tools_call X G hs (jq_params req) sv of
          (Inl e, sv') \<Rightarrow> (Inl e, sv')
        | (Inr (Inl (code, message)), sv') \<Rightarrow> (Inr (rpc_err i code message), sv')
        | (Inr (Inr result), sv') \<Rightarrow> (Inr (rpc_ok i result), sv'))
     else if method = ''resources/list'' then (Inr (rpc_ok i (JObj [(''resources'', JArr [])])), sv)
     else if method = ''prompts/list'' then (Inr (rpc_ok i (JObj [(''prompts'', JArr [])])), sv)
     else (Inr (rpc_err i (-32601) (''method not found: '' @ method)), sv))"

section \<open>The stdio server\<close>

record stdio_args =
  sa_api_key :: string
  sa_agent_id :: string
  sa_commerce_db :: "string option"
  sa_require_mandate :: bool
  sa_verify_signatures :: bool

datatype args_outcome = ArgsOk stdio_args | ArgsError string | ArgsHelp

text \<open>What the flags set; \<open>it.next()\<close> takes the argument after a flag, where there is one.\<close>

record arg_slots =
  sl_api_key :: "string option"
  sl_agent_id :: "string option"
  sl_commerce_db :: "string option"
  sl_require_mandate :: bool
  sl_verify_signatures :: bool

definition finish_args :: "arg_slots \<Rightarrow> args_outcome" where
  "finish_args s =
     (case sl_api_key s of
        None \<Rightarrow> ArgsError ''--api-key required''
      | Some key \<Rightarrow>
     (case sl_agent_id s of
        None \<Rightarrow> ArgsError ''--agent-id required''
      | Some agent \<Rightarrow> ArgsOk \<lparr>sa_api_key = key, sa_agent_id = agent, sa_commerce_db = sl_commerce_db s,
          sa_require_mandate = sl_require_mandate s, sa_verify_signatures = sl_verify_signatures s\<rparr>))"

definition next_arg :: "string list \<Rightarrow> string option" where
  "next_arg it = (case it of a # _ \<Rightarrow> Some a | [] \<Rightarrow> None)"

function scan_args :: "arg_slots \<Rightarrow> string list \<Rightarrow> args_outcome" where
  "scan_args s [] = finish_args s"
| "scan_args s (a # it) =
     (if a = ''--api-key'' then scan_args (s\<lparr>sl_api_key := next_arg it\<rparr>) (tl it)
      else if a = ''--agent-id'' then scan_args (s\<lparr>sl_agent_id := next_arg it\<rparr>) (tl it)
      else if a = ''--commerce-db'' then scan_args (s\<lparr>sl_commerce_db := next_arg it\<rparr>) (tl it)
      else if a = ''--require-mandate'' then scan_args (s\<lparr>sl_require_mandate := True\<rparr>) it
      else if a = ''--verify-signatures'' then scan_args (s\<lparr>sl_verify_signatures := True\<rparr>) it
      else if a = ''--help'' \<or> a = ''-h'' then ArgsHelp
      else ArgsError (''unknown argument: '' @ a))"
  by pat_completeness auto
termination by (relation "measure (\<lambda>(_, it). length it)") auto

definition parse_args :: "string list \<Rightarrow> args_outcome" where
  "parse_args args = scan_args \<lparr>sl_api_key = None, sl_agent_id = None, sl_commerce_db = None,
     sl_require_mandate = False, sl_verify_signatures = False\<rparr> args"

text \<open>The parts of the configuration that the flags set; \<open>base\<close> is \<open>Config::for_test\<close>.\<close>

definition stdio_config :: "config \<Rightarrow> stdio_args \<Rightarrow> config" where
  "stdio_config base a = base\<lparr>cf_require_mandate := sa_require_mandate a,
     cf_verify_mandate_signatures := sa_verify_signatures a\<rparr>"

text \<open>The key table the binary makes up: one key, of a tenant named after the agent; only quotes are escaped.\<close>

definition escape_quotes :: "string \<Rightarrow> string" where
  "escape_quotes s = concat (map (\<lambda>c. if c = CHR 0x22 then [CHR 0x5C, CHR 0x22] else [c]) s)"

definition stdio_tenant :: "stdio_args \<Rightarrow> string" where
  "stdio_tenant a = ''mcp-'' @ escape_quotes (map (\<lambda>c. if c = CHR '':'' then CHR ''-'' else c) (sa_agent_id a))"

definition quoted :: "string \<Rightarrow> string" where
  "quoted s = [CHR 0x22] @ s @ [CHR 0x22]"

definition stdio_keys_json :: "stdio_args \<Rightarrow> string" where
  "stdio_keys_json a =
     ''[{'' @ quoted ''key'' @ '':'' @ quoted (escape_quotes (sa_api_key a)) @ '','' @
     quoted ''tenant_id'' @ '':'' @ quoted (stdio_tenant a) @ '','' @
     quoted ''name'' @ '':'' @ quoted ''icp-mcp-stdio'' @ ''}]''"

text \<open>\<open>header_ok\<close> tells whether a text may be a header value.\<close>

definition synth_headers :: "(string \<Rightarrow> bool) \<Rightarrow> stdio_args \<Rightarrow> headers" where
  "synth_headers header_ok a =
     (let h = [''authorization'' \<mapsto> ''Bearer '' @ sa_api_key a]
      in if header_ok (sa_agent_id a) then h(''icp-agent-id'' \<mapsto> sa_agent_id a) else h)"

text \<open>The loop over the lines of the input, with the environment of each; the answers in order, and whether it
  went through to the end of the input.\<close>

fun stdio_session ::
  "(nat \<Rightarrow> exec_env) \<Rightarrow> (string \<Rightarrow> string + json_rpc_request) \<Rightarrow> gateway \<Rightarrow> headers \<Rightarrow> nat \<Rightarrow> string list \<Rightarrow> service
    \<Rightarrow> json_rpc_response list \<times> bool \<times> service" where
  "stdio_session Xs parse G hs n [] sv = ([], True, sv)"
| "stdio_session Xs parse G hs n (line # ls) sv =
     (if trim line = [] then stdio_session Xs parse G hs (Suc n) ls sv
      else case parse line of
        Inl e \<Rightarrow> apfst ((#) (rpc_err None (-32700) (''parse error: '' @ e))) (stdio_session Xs parse G hs (Suc n) ls sv)
      | Inr req \<Rightarrow>
          (case mcp_dispatch (Xs n) G hs req sv of
             (Inl _, sv') \<Rightarrow> ([], False, sv')
           | (Inr resp, sv') \<Rightarrow> apfst ((#) resp) (stdio_session Xs parse G hs (Suc n) ls sv')))"

section \<open>The catalogue and the calls\<close>

text \<open>A tool that is listed can be called under its name, and runs the intent it was listed for.\<close>

lemma listed_tool_called:
  "mcp_tool (JObj [(''name'', JStr (tool_name i)), (''arguments'', a)]) = Inr (i, a)"
proof -
  obtain n where n: "wire_name i = ''intent.'' @ n" by (cases i) simp_all
  have strip: "strip_prefix q (q @ n) = Some n" for q :: string by (simp add: strip_prefix_Some)
  have "tool_name i = ''icp_'' @ n" unfolding tool_name_def n strip by simp
  then have "json_text (JObj [(''name'', JStr (tool_name i)), (''arguments'', a)]) ''name'' = Some (''icp_'' @ n)"
    by (simp add: json_text_def json_get_def json_as_str_def)
  moreover have "strip_prefix ''icp_'' (''icp_'' @ n) = Some n" by (rule strip)
  moreover have "parse_intent (''intent.'' @ n) = Inr i" using parse_wire [of i] by (simp add: n)
  ultimately show ?thesis
    unfolding mcp_tool_def by (simp add: json_get_def del: append_Cons)
qed

lemma tools_distinct: "distinct (map tool_name core_intents)" "length tool_catalog = 17"
  by (simp_all add: core_intents_def tool_name_def strip_prefix_def tool_catalog_def all_implemented)

text \<open>The mandate gate is off for every tool call, whatever \<open>--require-mandate\<close> says.\<close>

lemma mcp_skips_mandates:
  "admit_mandate (E\<lparr>e_cfg := stdio_config base a\<rparr>) (mcp_input G tenant agent i arguments) i s = (Inr None, s)"
  by (simp add: admit_mandate_def mcp_input_def for_compat_def ret_def split: option.split)

text \<open>A notification gets an answer, also over stdio.\<close>

lemma notification_answered:
  assumes "jq_jsonrpc req = ''2.0''" "jq_method req = ''notifications/initialized''" "jq_id req = None"
    and "parse line = Inr req" "trim line \<noteq> []"
  shows "stdio_session Xs parse G hs n [line] sv = ([rpc_ok None (JObj [])], True, sv)"
  using assms by (simp add: mcp_dispatch_def)

text \<open>The key of a call that changes state is made of the intent and the transaction alone.\<close>

lemma mcp_key_of_call:
  "is_state_change i \<Longrightarrow> json_text arguments ''transaction_id'' = Some tid \<Longrightarrow>
   effective_key (mcp_input G tenant agent i arguments) (mcp_idem_key i (json_text arguments ''transaction_id'')) =
     Some (''mcp:'' @ wire_name i @ '':'' @ tid)"
  by (simp add: effective_key_def mcp_idem_key_def)

text \<open>So a second counter-offer on a transaction is refused as a conflict while the answer to the first is kept.\<close>

lemma second_offer_refused:
  fixes tenant agent arguments arguments' G G' tid
  defines "inp \<equiv> mcp_input G tenant agent INegotiate arguments"
    and "inp' \<equiv> mcp_input G' tenant agent INegotiate arguments'" and "key \<equiv> ''mcp:intent.negotiate:'' @ tid"
  assumes "rfc3339_roundtrip (e_chrono (xe_env X))" "e_chrono (xe_env X') = e_chrono (xe_env X)"
    and "json_text arguments' ''transaction_id'' = Some tid"
    and first: "execute_keyed X inp key sv = (Inr ex, sv1)" "\<not> ix_replayed ex"
    and digests: "xe_digest X (in_envelope inp) = Inr d" "xe_digest X' (in_envelope inp') = Inr d'" "d' \<noteq> d"
    and faults: "\<not> f_pool (xe_faults X 1)" "\<not> f_write (xe_faults X 1)" "xe_faults X' 0 = no_faults"
    and decode: "\<And>encoded. xe_encode X (ix_body ex) = Inr encoded \<Longrightarrow> xe_decode X' encoded = Inr (ix_body ex)"
    and lease: "idempotency_lease (xe_env X') = Some lease"
    and limit: "enforce_tenant_limit X' inp' sv1 = (Inr (), sv2)"
    and time: "xe_now X' 0 - xe_now X 1 \<le> is_ttl (sv_idempotency sv)"
  shows "handle_intent_idempotent X' inp' (mcp_idem_key INegotiate (json_text arguments' ''transaction_id'')) sv1 =
    (Inl (Fail (idem_conflict key)), sv2)"
proof -
  have "effective_key inp' (mcp_idem_key INegotiate (json_text arguments' ''transaction_id'')) = Some key"
    using mcp_key_of_call [OF _ assms(6)] unfolding inp'_def key_def by (simp add: is_state_change_def)
  moreover have "execute_keyed X' inp' key sv2 = (Inl (Fail (idem_conflict key)), sv2)"
    using execute_keyed_answered [OF assms(4,5) first _ _ digests(1,2) faults decode lease time, of sv2] digests(3)
      limits_keep(3) [OF limit]
    by (simp add: inp_def inp'_def mcp_input_def for_compat_def)
  ultimately show ?thesis by (simp add: handle_intent_idempotent_def limit)
qed

section \<open>Within one tenant\<close>

lemma mcp_tenant_key:
  assumes "mcp_tenant G hs = Inr (tenant, agent)"
  shows "resolve_tenant hs (gw_keys G) (gw_now G) = Inr tenant \<and>
    permits_agent tenant (mcp_agent_prefix @ ak_tenant_id tenant) \<and> ag_raw agent = mcp_agent_prefix @ ak_tenant_id tenant"
  using assms
  by (auto simp: mcp_tenant_def resolve_tenant_def Let_def parse_agent_def split: option.splits if_splits)

text \<open>The identifiers a call may create: a search, describe or quote may name one as the transaction of its arguments.\<close>

definition call_ids :: "env \<Rightarrow> json option \<Rightarrow> string set" where
  "call_ids E params = fresh_ids E \<union> (case params of
      Some p \<Rightarrow>
        (case mcp_tool p of
           Inr (i, arguments) \<Rightarrow>
             if i \<in> {ISearch, IDescribe, IQuote} then set_option (json_text arguments ''transaction_id'') else {}
         | Inl _ \<Rightarrow> {})
    | None \<Rightarrow> {})"

lemma mcp_new_ids:
  "mcp_tool p = Inr (i, arguments) \<Longrightarrow> new_ids E (mcp_input G tenant agent i arguments) = call_ids E (Some p)"
  by (auto simp: call_ids_def new_ids_def named_ids_def fresh_ids_def mcp_input_def for_compat_def parse_wire
      simp del: append_Cons split: if_splits)

lemma tools_call_confined:
  assumes "icp_ok (sv_icp sv)" "handle_tools_call X G hs params sv = (r, sv')"
  shows "(sv' = sv \<and> (\<exists>e. r = Inr (Inl e))) \<or>
    (\<exists>tenant agent. mcp_tenant G hs = Inr (tenant, agent) \<and>
       call_steps (ak_tenant_id tenant) (call_ids (xe_env X) params) (sv_icp sv) (sv_icp sv') \<and> icp_ok (sv_icp sv'))"
proof (cases "\<exists>p i arguments tenant agent. params = Some p \<and> mcp_tool p = Inr (i, arguments) \<and> mcp_tenant G hs = Inr (tenant, agent)")
  case True
  then obtain p i arguments tenant agent where call: "params = Some p" "mcp_tool p = Inr (i, arguments)"
      "mcp_tenant G hs = Inr (tenant, agent)" by blast
  let ?inp = "mcp_input G tenant agent i arguments"
  obtain r1 where "handle_intent_idempotent X ?inp (mcp_idem_key i (json_text arguments ''transaction_id'')) sv = (r1, sv')"
    using assms(2) by (auto simp: handle_tools_call_def call Let_def split: prod.splits sum.splits fault.splits)
  then have "sv_icp sv' = sv_icp sv \<or> sv_icp sv' = snd (handle_intent (xe_env X) ?inp (sv_icp sv))"
    by (rule idempotent_icp)
  moreover have "in_tenant ?inp = tenant" by (simp add: mcp_input_def for_compat_def)
  ultimately have "call_steps (ak_tenant_id tenant) (call_ids (xe_env X) params) (sv_icp sv) (sv_icp sv') \<and> icp_ok (sv_icp sv')"
    using handle_intent_steps [OF assms(1) surjective_pairing, where E = "xe_env X" and inp = ?inp] mcp_new_ids [OF call(2)]
      handle_intent_ok [OF assms(1) surjective_pairing, where E = "xe_env X" and inp = ?inp] assms(1)
    by (auto simp: call(1))
  then show ?thesis using call(3) by blast
next
  case False
  then show ?thesis
    using assms(2) by (auto simp: handle_tools_call_def split: option.splits sum.splits prod.splits)
qed

lemma dispatch_confined:
  assumes "icp_ok (sv_icp sv)" "mcp_dispatch X G hs req sv = (r, sv')"
  shows "sv' = sv \<or>
    (\<exists>tenant agent. mcp_tenant G hs = Inr (tenant, agent) \<and>
       call_steps (ak_tenant_id tenant) (call_ids (xe_env X) (jq_params req)) (sv_icp sv) (sv_icp sv') \<and>
       icp_ok (sv_icp sv'))"
proof (cases "jq_jsonrpc req = ''2.0'' \<and> jq_method req = ''tools/call''")
  case True
  then obtain r1 where "handle_tools_call X G hs (jq_params req) sv = (r1, sv')"
    using assms(2) by (auto simp: mcp_dispatch_def Let_def split: prod.splits sum.splits)
  from tools_call_confined [OF assms(1) this] show ?thesis by blast
next
  case False
  then show ?thesis using assms(2) by (auto simp: mcp_dispatch_def Let_def split: if_splits)
qed

end
