(* ===== verification/State_Store.thy ===== *)
theory State_Store
  imports Service_State "HOL-Library.Multiset"
begin

text \<open>
  The document stores of transactions, subscriptions and peer quotes (\<open>src/state_store.rs\<close>): the
  generic store over a map or over a SQLite table of JSON payloads with index columns, the three
  stores with their columns, the tenant lists, and the queries of the sweepers. The handlers of
  the other theories use the map; here the table is shown to be that map.
\<close>

section \<open>The generic store\<close>

text \<open>A row: its payload, and its index columns, blank where they were never written. The text of
  the payload is only ever written and read by the JSON codec: its type is a parameter.\<close>

record 'p doc_row =
  dr_payload :: 'p
  dr_cols :: "string \<Rightarrow> string"

type_synonym 'p doc_table = "(string, 'p doc_row) store"

text \<open>The JSON codec of the documents.\<close>

record ('v, 'p) json_codec =
  jc_write :: "'v \<Rightarrow> string + 'p"
  jc_read :: "'p \<Rightarrow> string + 'v"

definition json_roundtrip :: "('v, 'p) json_codec \<Rightarrow> bool" where
  "json_roundtrip J \<longleftrightarrow> (\<forall>v. \<exists>s. jc_write J v = Inr s \<and> jc_read J s = Inr v)"

type_synonym index = "(string \<times> string) list"

definition write_index :: "index \<Rightarrow> (string \<Rightarrow> string) \<Rightarrow> string \<Rightarrow> string" where
  "write_index ix cols = fold (\<lambda>(c, v) f. f(c := v)) ix cols"

definition deserialize_payload :: "('v, 'p) json_codec \<Rightarrow> 'p \<Rightarrow> 'v option" where
  "deserialize_payload J s = (case jc_read J s of Inr v \<Rightarrow> Some v | Inl _ \<Rightarrow> None)"

definition doc_insert ::
  "db_faults \<Rightarrow> ('v, 'p) json_codec \<Rightarrow> string \<Rightarrow> 'v \<Rightarrow> index \<Rightarrow> 'p doc_table \<Rightarrow> 'p doc_table" where
  "doc_insert F J k v ix tab =
     (case jc_write J v of
        Inl _ \<Rightarrow> tab
      | Inr json \<Rightarrow>
          if f_pool F \<or> f_write F then tab
          else st_put k \<lparr>dr_payload = json,
            dr_cols = write_index ix (case st_get tab k of Some r \<Rightarrow> dr_cols r | None \<Rightarrow> (\<lambda>_. []))\<rparr> tab)"

definition doc_get :: "db_faults \<Rightarrow> ('v, 'p) json_codec \<Rightarrow> string \<Rightarrow> 'p doc_table \<Rightarrow> 'v option" where
  "doc_get F J k tab =
     (if f_pool F \<or> f_read F then None
      else Option.bind (st_get tab k) (\<lambda>r. deserialize_payload J (dr_payload r)))"

definition doc_update ::
  "db_faults \<Rightarrow> ('v, 'p) json_codec \<Rightarrow> string \<Rightarrow> ('v \<Rightarrow> 'v) \<Rightarrow> ('v \<Rightarrow> index) \<Rightarrow> 'p doc_table \<Rightarrow> 'v option \<times> 'p doc_table" where
  "doc_update F J k f index_of tab =
     (if f_pool F \<or> f_begin F \<or> f_read F then (None, tab)
      else case st_get tab k of
        None \<Rightarrow> (None, tab)
      | Some r \<Rightarrow>
          (case deserialize_payload J (dr_payload r) of
             None \<Rightarrow> (None, tab)
           | Some v0 \<Rightarrow>
               let v = f v0 in
               (case jc_write J v of
                  Inl _ \<Rightarrow> (None, tab)
                | Inr json \<Rightarrow>
                    if f_write F \<or> f_commit F then (None, tab)
                    else (Some v, st_put k \<lparr>dr_payload = json, dr_cols = write_index (index_of v) (dr_cols r)\<rparr> tab))))"

text \<open>\<open>LIMIT\<close> takes the limit as an \<open>i64\<close>, where a negative one is none.\<close>

definition usize_max :: nat where
  "usize_max = 18446744073709551615"

definition sql_limit :: "nat \<Rightarrow> 'a list \<Rightarrow> 'a list" where
  "sql_limit n xs = (if wrap_i64 (int n) < 0 then xs else take n xs)"

definition read_docs :: "('v, 'p) json_codec \<Rightarrow> 'p doc_table \<Rightarrow> 'v list" where
  "read_docs J rows = List.map_filter (\<lambda>(_, r). deserialize_payload J (dr_payload r)) rows"

text \<open>A query without \<open>ORDER BY\<close> returns its rows in some order of the database, \<open>scan\<close>.\<close>

definition any_order :: "('p doc_table \<Rightarrow> 'p doc_table) \<Rightarrow> bool" where
  "any_order scan \<longleftrightarrow> (\<forall>rows. mset (scan rows) = mset rows)"

definition doc_list ::
  "db_faults \<Rightarrow> ('v, 'p) json_codec \<Rightarrow> ('p doc_table \<Rightarrow> 'p doc_table) \<Rightarrow> nat \<Rightarrow> 'p doc_table \<Rightarrow> 'v list" where
  "doc_list F J scan limit tab = (if f_pool F \<or> f_read F then [] else read_docs J (sql_limit limit (scan tab)))"

definition mem_list :: "nat \<Rightarrow> (string, 'v) store \<Rightarrow> 'v list" where
  "mem_list limit m = take limit (st_values m)"

definition doc_len :: "db_faults \<Rightarrow> 'p doc_table \<Rightarrow> nat" where
  "doc_len F tab = (if f_pool F \<or> f_read F then 0 else length tab)"

text \<open>Rows from before the metadata columns have a blank tenant.\<close>

definition has_legacy_rows :: "db_faults \<Rightarrow> 'p doc_table \<Rightarrow> bool" where
  "has_legacy_rows F tab = (if f_pool F \<or> f_read F then False
     else list_ex (\<lambda>(_, r). dr_cols r ''tenant_id'' = []) tab)"

section \<open>The three stores\<close>

definition txn_index :: "chrono \<Rightarrow> transaction \<Rightarrow> index" where
  "txn_index C t =
     [(''updated_at'', ch_to_rfc3339 C (txn_updated_at t)), (''tenant_id'', txn_tenant_id t),
      (''created_at'', ch_to_rfc3339 C (txn_created_at t)), (''state'', transaction_state_wire_name (txn_state t)),
      (''quote_expires_at'', case txn_quote_expires_at t of Some e \<Rightarrow> ch_to_rfc3339 C e | None \<Rightarrow> [])]"

definition sub_index :: "chrono \<Rightarrow> subscription \<Rightarrow> index" where
  "sub_index C x =
     [(''updated_at'', ch_to_rfc3339 C (sub_updated_at x)), (''tenant_id'', sub_tenant_id x),
      (''created_at'', ch_to_rfc3339 C (sub_created_at x)), (''status'', subscription_status_wire_name (sub_status x)),
      (''next_charge_at'', ch_to_rfc3339 C (sub_next_charge_at x)),
      (''payment_present'', if sub_payment_instrument x \<noteq> None then ''1'' else ''0'')]"

definition quote_index :: "chrono \<Rightarrow> peer_quote \<Rightarrow> index" where
  "quote_index C q =
     [(''updated_at'', ch_to_rfc3339 C (pq_updated_at q)), (''tenant_id'', pq_tenant_id q),
      (''created_at'', ch_to_rfc3339 C (pq_created_at q)), (''status'', peer_quote_status_wire_name (pq_status q)),
      (''expires_at'', ch_to_rfc3339 C (pq_expires_at q))]"

definition txn_due :: "time \<Rightarrow> transaction \<Rightarrow> bool" where
  "txn_due now t \<longleftrightarrow> (txn_state t = Draft \<or> txn_state t = Quoted) \<and>
     (case txn_quote_expires_at t of Some e \<Rightarrow> e \<le> now | None \<Rightarrow> False)"

definition sub_due :: "time \<Rightarrow> subscription \<Rightarrow> bool" where
  "sub_due now x \<longleftrightarrow> (sub_status x = Active \<or> sub_status x = Trialing) \<and> sub_next_charge_at x \<le> now \<and>
     sub_payment_instrument x \<noteq> None"

definition quote_due :: "time \<Rightarrow> peer_quote \<Rightarrow> bool" where
  "quote_due now q \<longleftrightarrow> (pq_status q = Pending \<or> pq_status q = PqQuoted) \<and> pq_expires_at q \<le> now"

text \<open>The conditions of the indexed queries.\<close>

definition text_due :: "chrono \<Rightarrow> time \<Rightarrow> string \<Rightarrow> bool" where
  "text_due C now s \<longleftrightarrow> s \<noteq> [] \<and> \<not> text_less (ch_to_rfc3339 C now) s"

definition txn_row_due :: "chrono \<Rightarrow> time \<Rightarrow> 'p doc_row \<Rightarrow> bool" where
  "txn_row_due C now r \<longleftrightarrow> (dr_cols r ''state'' = ''draft'' \<or> dr_cols r ''state'' = ''quoted'') \<and>
     text_due C now (dr_cols r ''quote_expires_at'')"

definition sub_row_due :: "chrono \<Rightarrow> time \<Rightarrow> 'p doc_row \<Rightarrow> bool" where
  "sub_row_due C now r \<longleftrightarrow> (dr_cols r ''status'' = ''active'' \<or> dr_cols r ''status'' = ''trialing'') \<and>
     dr_cols r ''payment_present'' = ''1'' \<and> text_due C now (dr_cols r ''next_charge_at'')"

definition quote_row_due :: "chrono \<Rightarrow> time \<Rightarrow> 'p doc_row \<Rightarrow> bool" where
  "quote_row_due C now r \<longleftrightarrow> (dr_cols r ''status'' = ''pending'' \<or> dr_cols r ''status'' = ''quoted'') \<and>
     text_due C now (dr_cols r ''expires_at'')"

text \<open>What the sweepers read, on the map and on the table.\<close>

definition mem_list_due :: "('v \<Rightarrow> bool) \<Rightarrow> (string, 'v) store \<Rightarrow> 'v list" where
  "mem_list_due due m = filter due (mem_list usize_max m)"

definition sql_list_due ::
  "db_faults \<Rightarrow> ('v, 'p) json_codec \<Rightarrow> ('p doc_table \<Rightarrow> 'p doc_table) \<Rightarrow> ('v \<Rightarrow> bool) \<Rightarrow> ('p doc_row \<Rightarrow> bool)
     \<Rightarrow> 'p doc_table \<Rightarrow> 'v list" where
  "sql_list_due F J scan due row_due tab =
     (if has_legacy_rows F tab then filter due (doc_list F J scan usize_max tab)
      else if f_pool F \<or> f_read F then []
      else read_docs J (scan (filter (\<lambda>(_, r). row_due r) tab)))"

definition txn_list_due_for_expiry ::
  "db_faults \<Rightarrow> (transaction, 'p) json_codec \<Rightarrow> ('p doc_table \<Rightarrow> 'p doc_table) \<Rightarrow> chrono \<Rightarrow> time \<Rightarrow> 'p doc_table
     \<Rightarrow> transaction list" where
  "txn_list_due_for_expiry F J scan C now = sql_list_due F J scan (txn_due now) (txn_row_due C now)"

definition sub_list_due_for_renewal ::
  "db_faults \<Rightarrow> (subscription, 'p) json_codec \<Rightarrow> ('p doc_table \<Rightarrow> 'p doc_table) \<Rightarrow> chrono \<Rightarrow> time \<Rightarrow> 'p doc_table
     \<Rightarrow> subscription list" where
  "sub_list_due_for_renewal F J scan C now = sql_list_due F J scan (sub_due now) (sub_row_due C now)"

definition quote_list_due_for_expiry ::
  "db_faults \<Rightarrow> (peer_quote, 'p) json_codec \<Rightarrow> ('p doc_table \<Rightarrow> 'p doc_table) \<Rightarrow> chrono \<Rightarrow> time \<Rightarrow> 'p doc_table
     \<Rightarrow> peer_quote list" where
  "quote_list_due_for_expiry F J scan C now = sql_list_due F J scan (quote_due now) (quote_row_due C now)"

section \<open>The tenant lists\<close>

text \<open>
  The three stores list alike; \<open>doc_fields\<close> gives the accessors and the name of the status column.
  \<open>ord\<close> is the order in which the database returns rows ordered by descending creation text.
\<close>

record 'v doc_fields =
  df_id :: "'v \<Rightarrow> string"
  df_tenant :: "'v \<Rightarrow> string"
  df_created :: "'v \<Rightarrow> time"
  df_status :: "'v \<Rightarrow> string"
  df_status_column :: string

definition txn_fields :: "transaction doc_fields" where
  "txn_fields = \<lparr>df_id = txn_id, df_tenant = txn_tenant_id, df_created = txn_created_at,
     df_status = (\<lambda>t. transaction_state_wire_name (txn_state t)), df_status_column = ''state''\<rparr>"

definition sub_fields :: "subscription doc_fields" where
  "sub_fields = \<lparr>df_id = sub_id, df_tenant = sub_tenant_id, df_created = sub_created_at,
     df_status = (\<lambda>x. subscription_status_wire_name (sub_status x)), df_status_column = ''status''\<rparr>"

definition quote_fields :: "peer_quote doc_fields" where
  "quote_fields = \<lparr>df_id = pq_id, df_tenant = pq_tenant_id, df_created = pq_created_at,
     df_status = (\<lambda>q. peer_quote_status_wire_name (pq_status q)), df_status_column = ''status''\<rparr>"

definition of_tenant :: "'v doc_fields \<Rightarrow> string \<Rightarrow> string option \<Rightarrow> 'v \<Rightarrow> bool" where
  "of_tenant D tenant status v \<longleftrightarrow> df_tenant D v = tenant \<and>
     (case status of Some s \<Rightarrow> df_status D v = s | None \<Rightarrow> True)"

text \<open>Newest first, as a stable sort.\<close>

definition newest :: "'v doc_fields \<Rightarrow> nat \<Rightarrow> 'v list \<Rightarrow> 'v list" where
  "newest D limit vs = take limit (sort_key (\<lambda>v. - df_created D v) vs)"

definition mem_list_for_tenant ::
  "'v doc_fields \<Rightarrow> string \<Rightarrow> nat \<Rightarrow> string option \<Rightarrow> (string, 'v) store \<Rightarrow> 'v list" where
  "mem_list_for_tenant D tenant limit status m =
     newest D limit (filter (of_tenant D tenant status) (mem_list usize_max m))"

definition merge_legacy :: "'v doc_fields \<Rightarrow> string \<Rightarrow> string option \<Rightarrow> 'v list \<Rightarrow> 'v list \<Rightarrow> 'v list" where
  "merge_legacy D tenant status indexed scanned =
     indexed @ rev (fst (fold (\<lambda>v (out, seen).
         if of_tenant D tenant status v \<and> df_id D v \<notin> set seen then (v # out, df_id D v # seen) else (out, seen))
       scanned ([], map (df_id D) indexed)))"

definition sql_list_for_tenant_indexed ::
  "db_faults \<Rightarrow> ('v, 'p) json_codec \<Rightarrow> 'v doc_fields \<Rightarrow> ('p doc_table \<Rightarrow> 'p doc_table) \<Rightarrow> string \<Rightarrow> nat \<Rightarrow> string option
     \<Rightarrow> 'p doc_table \<Rightarrow> 'v list" where
  "sql_list_for_tenant_indexed F J D ord tenant limit status tab =
     (if f_pool F \<or> f_read F then []
      else read_docs J (sql_limit limit (ord (filter (\<lambda>(_, r). dr_cols r ''tenant_id'' = tenant \<and>
        (case status of Some s \<Rightarrow> dr_cols r (df_status_column D) = s | None \<Rightarrow> True)) tab))))"

definition sql_list_for_tenant ::
  "db_faults \<Rightarrow> ('v, 'p) json_codec \<Rightarrow> 'v doc_fields \<Rightarrow> ('p doc_table \<Rightarrow> 'p doc_table) \<Rightarrow> ('p doc_table \<Rightarrow> 'p doc_table)
     \<Rightarrow> string \<Rightarrow> nat \<Rightarrow> string option \<Rightarrow> 'p doc_table \<Rightarrow> 'v list" where
  "sql_list_for_tenant F J D ord scan tenant limit status tab =
     (let rows = sql_list_for_tenant_indexed F J D ord tenant limit status tab
      in newest D limit
        (if length rows < limit \<and> has_legacy_rows F tab
         then merge_legacy D tenant status rows (doc_list F J scan usize_max tab) else rows))"

definition orders_newest :: "('p doc_table \<Rightarrow> 'p doc_table) \<Rightarrow> bool" where
  "orders_newest ord \<longleftrightarrow> (\<forall>rows. mset (ord rows) = mset rows \<and>
     sorted_wrt (\<lambda>(_, r) (_, r'). \<not> text_less (dr_cols r ''created_at'') (dr_cols r' ''created_at'')) (ord rows))"

record status_counts_of =
  sc_trialing :: nat
  sc_active :: nat
  sc_paused :: nat
  sc_canceled :: nat
  sc_past_due :: nat

definition count_status :: "subscription list \<Rightarrow> subscription_status \<Rightarrow> nat" where
  "count_status xs st = length (filter (\<lambda>x. sub_status x = st) xs)"

definition scan_status_counts :: "subscription list \<Rightarrow> status_counts_of" where
  "scan_status_counts xs = \<lparr>sc_trialing = count_status xs Trialing, sc_active = count_status xs Active,
     sc_paused = count_status xs Paused, sc_canceled = count_status xs SubCanceled,
     sc_past_due = count_status xs PastDue\<rparr>"

definition rows_with_status :: "'p doc_table \<Rightarrow> string \<Rightarrow> nat" where
  "rows_with_status tab s = length (filter (\<lambda>(_, r). dr_cols r ''status'' = s) tab)"

definition sub_status_counts ::
  "db_faults \<Rightarrow> (subscription, 'p) json_codec \<Rightarrow> ('p doc_table \<Rightarrow> 'p doc_table) \<Rightarrow> 'p doc_table \<Rightarrow> status_counts_of" where
  "sub_status_counts F J scan tab =
     (if has_legacy_rows F tab then scan_status_counts (doc_list F J scan usize_max tab)
      else if f_pool F \<or> f_read F then \<lparr>sc_trialing = 0, sc_active = 0, sc_paused = 0, sc_canceled = 0, sc_past_due = 0\<rparr>
      else \<lparr>sc_trialing = rows_with_status tab ''trialing'', sc_active = rows_with_status tab ''active'',
        sc_paused = rows_with_status tab ''paused'', sc_canceled = rows_with_status tab ''canceled'',
        sc_past_due = rows_with_status tab ''past_due''\<rparr>)"

section \<open>The table is the map\<close>

definition doc_row_of :: "('v, 'p) json_codec \<Rightarrow> ('v \<Rightarrow> index) \<Rightarrow> 'v \<Rightarrow> 'p doc_row" where
  "doc_row_of J ix v = \<lparr>dr_payload = projr (jc_write J v),
     dr_cols = write_index (ix v) (\<lambda>_. [])\<rparr>"

definition docs_of :: "('v, 'p) json_codec \<Rightarrow> ('v \<Rightarrow> index) \<Rightarrow> (string, 'v) store \<Rightarrow> 'p doc_table" where
  "docs_of J ix m = map (\<lambda>(k, v). (k, doc_row_of J ix v)) m"

text \<open>Every document writes the same columns, so an update leaves no old value behind.\<close>

definition same_columns :: "('v \<Rightarrow> index) \<Rightarrow> bool" where
  "same_columns ix \<longleftrightarrow> (\<forall>v w f. write_index (ix v) (write_index (ix w) f) = write_index (ix v) f)"

lemma index_columns:
  "same_columns (txn_index C)" "same_columns (sub_index C)" "same_columns (quote_index C)"
  by (simp_all add: same_columns_def write_index_def txn_index_def sub_index_def quote_index_def fun_eq_iff)

lemma read_doc [simp]: "json_roundtrip J \<Longrightarrow> deserialize_payload J (dr_payload (doc_row_of J ix v)) = Some v"
proof -
  assume "json_roundtrip J"
  then obtain s where "jc_write J v = Inr s" "jc_read J s = Inr v" by (auto simp: json_roundtrip_def)
  then show ?thesis by (simp add: doc_row_of_def deserialize_payload_def)
qed

lemma docs_of_get [simp]: "st_get (docs_of J ix m) k = map_option (doc_row_of J ix) (st_get m k)"
  by (simp add: docs_of_def st_get_def map_of_map)

lemma docs_of_put: "st_put k (doc_row_of J ix v) (docs_of J ix m) = docs_of J ix (st_put k v m)"
  by (induction m) (auto simp: docs_of_def st_put_def)

lemma written_row:
  assumes "json_roundtrip J" "same_columns ix"
  obtains s where "jc_write J v = Inr s"
    "\<lparr>dr_payload = s, dr_cols = write_index (ix v) (dr_cols (doc_row_of J ix w))\<rparr> = doc_row_of J ix v"
    "\<lparr>dr_payload = s, dr_cols = write_index (ix v) (\<lambda>_. [])\<rparr> = doc_row_of J ix v"
proof -
  obtain s where "jc_write J v = Inr s" using assms(1) by (auto simp: json_roundtrip_def)
  then show thesis
    by (rule that [of s]) (use assms(2) \<open>jc_write J v = Inr s\<close> in \<open>simp_all add: doc_row_of_def same_columns_def\<close>)
qed

lemma doc_insert_map:
  assumes "json_roundtrip J" "same_columns ix"
  shows "doc_insert no_faults J k v (ix v) (docs_of J ix m) = docs_of J ix (st_put k v m)"
proof (cases "st_get m k")
  case None
  obtain s where "jc_write J v = Inr s" "\<lparr>dr_payload = s, dr_cols = write_index (ix v) (\<lambda>_. [])\<rparr> = doc_row_of J ix v"
    using written_row [OF assms, of v] by blast
  then show ?thesis using None by (simp add: doc_insert_def no_faults_def docs_of_put)
next
  case (Some w)
  obtain s where "jc_write J v = Inr s"
    "\<lparr>dr_payload = s, dr_cols = write_index (ix v) (dr_cols (doc_row_of J ix w))\<rparr> = doc_row_of J ix v"
    using written_row [OF assms, of v w] by blast
  then show ?thesis using Some by (simp add: doc_insert_def no_faults_def docs_of_put)
qed

lemma doc_get_map: "json_roundtrip J \<Longrightarrow> doc_get no_faults J k (docs_of J ix m) = st_get m k"
  by (cases "st_get m k") (simp_all add: doc_get_def no_faults_def)

lemma doc_update_map:
  assumes "json_roundtrip J" "same_columns ix"
  shows "doc_update no_faults J k f ix (docs_of J ix m) =
    (map_option f (st_get m k), docs_of J ix (case st_get m k of Some v \<Rightarrow> st_put k (f v) m | None \<Rightarrow> m))"
proof (cases "st_get m k")
  case (Some w)
  obtain s where "jc_write J (f w) = Inr s"
    "\<lparr>dr_payload = s, dr_cols = write_index (ix (f w)) (dr_cols (doc_row_of J ix w))\<rparr> = doc_row_of J ix (f w)"
    using written_row [OF assms, of "f w" w] by blast
  then show ?thesis
    using Some assms(1) by (simp add: doc_update_def no_faults_def Let_def docs_of_put)
qed (simp add: doc_update_def no_faults_def)

text \<open>A failing call changes nothing.\<close>

lemma doc_faults_keep:
  "f_pool F \<or> f_write F \<Longrightarrow> doc_insert F J k v ix tab = tab"
  "f_pool F \<or> f_begin F \<or> f_read F \<or> f_write F \<or> f_commit F \<Longrightarrow> doc_update F J k f index_of tab = (None, tab)"
  by (auto simp: doc_insert_def doc_update_def Let_def split: sum.split option.split)

lemma sql_limit_all [simp]: "sql_limit usize_max xs = xs"
  by (simp add: sql_limit_def usize_max_def wrap_i64_def)

lemma read_docs_filter:
  "json_roundtrip J \<Longrightarrow> read_docs J (filter (\<lambda>(_, r). P r) (docs_of J ix m)) =
     filter (\<lambda>v. P (doc_row_of J ix v)) (st_values m)"
  by (induction m) (auto simp: read_docs_def docs_of_def st_values_def map_filter_simps)

lemma read_docs_all: "json_roundtrip J \<Longrightarrow> read_docs J (docs_of J ix m) = st_values m"
  using read_docs_filter [of J "\<lambda>_. True" ix m] by (simp add: case_prod_beta')


lemma cols_doc_row: "dr_cols (doc_row_of J ix v) = write_index (ix v) (\<lambda>_. [])"
  by (simp add: doc_row_of_def)

lemma rfc3339_not_blank: "rfc3339_ordered C \<Longrightarrow> ch_to_rfc3339 C t \<noteq> []"
proof
  assume "rfc3339_ordered C" "ch_to_rfc3339 C t = []"
  then have "text_less (ch_to_rfc3339 C (t - 1)) []" unfolding rfc3339_ordered_def by (metis diff_less_eq less_add_one)
  then show False by (cases "ch_to_rfc3339 C (t - 1)") simp_all
qed

lemma text_due_iff: "rfc3339_ordered C \<Longrightarrow> text_due C now (ch_to_rfc3339 C t) \<longleftrightarrow> t \<le> now"
  using rfc3339_not_blank [of C t] by (auto simp: text_due_def rfc3339_ordered_def)

lemma row_due_iff:
  assumes "rfc3339_ordered C"
  shows "txn_row_due C now (doc_row_of J (txn_index C) t) = txn_due now t"
    and "sub_row_due C now (doc_row_of J' (sub_index C) x) = sub_due now x"
    and "quote_row_due C now (doc_row_of J'' (quote_index C) q) = quote_due now q"
proof -
  show "txn_row_due C now (doc_row_of J (txn_index C) t) = txn_due now t"
    using assms
    by (cases "txn_state t"; cases "txn_quote_expires_at t")
      (simp_all add: txn_row_due_def txn_due_def cols_doc_row write_index_def txn_index_def text_due_iff,
       simp_all add: text_due_def)
  show "sub_row_due C now (doc_row_of J' (sub_index C) x) = sub_due now x"
    using assms
    by (cases "sub_status x") (auto simp: sub_row_due_def sub_due_def cols_doc_row write_index_def sub_index_def text_due_iff)
  show "quote_row_due C now (doc_row_of J'' (quote_index C) q) = quote_due now q"
    using assms
    by (cases "pq_status q") (simp_all add: quote_row_due_def quote_due_def cols_doc_row write_index_def quote_index_def text_due_iff)
qed

section \<open>Tenant lists\<close>

text \<open>The index columns a tenant list reads are those of the document.\<close>

definition fields_indexed :: "chrono \<Rightarrow> 'v doc_fields \<Rightarrow> ('v \<Rightarrow> index) \<Rightarrow> bool" where
  "fields_indexed C D ix \<longleftrightarrow> (\<forall>v. let cols = write_index (ix v) (\<lambda>_. []) in
     cols ''tenant_id'' = df_tenant D v \<and> cols (df_status_column D) = df_status D v \<and>
     cols ''created_at'' = ch_to_rfc3339 C (df_created D v))"

lemma fields_are_indexed:
  "fields_indexed C txn_fields (txn_index C)" "fields_indexed C sub_fields (sub_index C)"
  "fields_indexed C quote_fields (quote_index C)"
  by (simp_all add: fields_indexed_def write_index_def txn_index_def sub_index_def quote_index_def
      txn_fields_def sub_fields_def quote_fields_def Let_def)

lemma read_written:
  assumes "json_roundtrip J" "\<forall>p \<in> set rows. \<exists>v. snd p = doc_row_of J ix v"
  shows "\<exists>vs. map snd rows = map (doc_row_of J ix) vs \<and> read_docs J rows = vs"
  using assms(2)
proof (induction rows)
  case (Cons p rows)
  then obtain v vs where "snd p = doc_row_of J ix v" "map snd rows = map (doc_row_of J ix) vs" "read_docs J rows = vs"
    by auto
  then show ?case
    using assms(1) by (intro exI [of _ "v # vs"]) (cases p, simp add: read_docs_def map_filter_simps)
qed (simp add: read_docs_def map_filter_simps)

lemma sort_key_sorted: "sorted (map f xs) \<Longrightarrow> sort_key f xs = xs"
  by (induction xs) (simp_all add: insort_is_Cons)

lemma mset_map_filter: "mset (List.map_filter f xs) = image_mset (the \<circ> f) (filter_mset (\<lambda>x. f x \<noteq> None) (mset xs))"
  by (induction xs) (auto simp: map_filter_simps split: option.splits)

lemma read_docs_mset: "mset rows = mset rows' \<Longrightarrow> mset (read_docs J rows) = mset (read_docs J rows')"
  by (simp add: read_docs_def mset_map_filter)

text \<open>The sweepers read the same documents, whether or not the table has rows without metadata.\<close>

lemma list_due_map:
  assumes "json_roundtrip J" "any_order scan" "\<And>v. row_due (doc_row_of J ix v) = due v" "length m \<le> usize_max"
  shows "mset (sql_list_due no_faults J scan due row_due (docs_of J ix m)) = mset (mem_list_due due m)"
proof -
  have scanned: "mset (read_docs J (scan rows)) = mset (read_docs J rows)" for rows
    using assms(2) by (intro read_docs_mset) (simp add: any_order_def)
  have all: "mem_list_due due m = filter due (st_values m)"
    using assms(4) by (simp add: mem_list_due_def mem_list_def st_values_def)
  show ?thesis
  proof (cases "has_legacy_rows no_faults (docs_of J ix m)")
    case True
    then show ?thesis
      using scanned [of "docs_of J ix m"]
      by (simp add: sql_list_due_def doc_list_def no_faults_def all read_docs_all [OF assms(1)])
  next
    case False
    then show ?thesis
      using scanned by (simp add: sql_list_due_def no_faults_def all read_docs_filter [OF assms(1)] assms(3))
  qed
qed

lemma read_docs_take:
  assumes "json_roundtrip J" "\<forall>p \<in> set rows. \<exists>v. snd p = doc_row_of J ix v"
  shows "read_docs J (take n rows) = take n (read_docs J rows)"
  using assms(2)
proof (induction rows arbitrary: n)
  case (Cons p rows)
  then show ?case
    using assms(1) by (cases n; cases p) (auto simp: read_docs_def map_filter_simps)
qed (simp add: read_docs_def map_filter_simps)

text \<open>Up to the order of documents created at the same time, the table lists what the map lists.\<close>

lemma tenant_list_map:
  fixes J :: "('v, 'p) json_codec"
  assumes J: "json_roundtrip J" and C: "rfc3339_ordered C" and D: "fields_indexed C D ix" and ord: "orders_newest ord"
    and limit: "limit \<le> 9223372036854775807" and size: "length m \<le> usize_max"
    and tenants: "\<forall>v \<in> set (st_values m). df_tenant D v \<noteq> []"
  shows "map (df_created D) (sql_list_for_tenant no_faults J D ord scan tenant limit status (docs_of J ix m)) =
      map (df_created D) (mem_list_for_tenant D tenant limit status m) \<and>
    set (sql_list_for_tenant no_faults J D ord scan tenant limit status (docs_of J ix m)) \<subseteq>
      {v \<in> set (st_values m). of_tenant D tenant status v}"
proof -
  let ?key = "\<lambda>v. - df_created D v"
  define P where "P r \<longleftrightarrow> dr_cols r ''tenant_id'' = tenant \<and>
    (case status of Some s \<Rightarrow> dr_cols r (df_status_column D) = s | None \<Rightarrow> True)" for r :: "'p doc_row"
  define found where "found = filter (of_tenant D tenant status) (st_values m)"
  define rows where "rows = ord (filter (\<lambda>(_, r). P r) (docs_of J ix m))"
  have cols: "dr_cols (doc_row_of J ix v) ''tenant_id'' = df_tenant D v"
    "dr_cols (doc_row_of J ix v) (df_status_column D) = df_status D v"
    "dr_cols (doc_row_of J ix v) ''created_at'' = ch_to_rfc3339 C (df_created D v)" for v
    using D by (simp_all add: fields_indexed_def cols_doc_row Let_def)
  have rows: "mset rows = mset (filter (\<lambda>(_, r). P r) (docs_of J ix m))"
    "sorted_wrt (\<lambda>(_, r) (_, r'). \<not> text_less (dr_cols r ''created_at'') (dr_cols r' ''created_at'')) rows"
    using ord by (simp_all add: orders_newest_def rows_def)
  have written: "\<forall>p \<in> set rows. \<exists>v. snd p = doc_row_of J ix v"
    using rows(1) [THEN mset_eq_setD] by (auto simp: docs_of_def)
  obtain vs where vs: "map snd rows = map (doc_row_of J ix) vs" "read_docs J rows = vs"
    using read_written [OF J written] by blast
  have "mset vs = mset (read_docs J (filter (\<lambda>(_, r). P r) (docs_of J ix m)))"
    unfolding vs(2) [symmetric] using rows(1) by (rule read_docs_mset)
  also have "read_docs J (filter (\<lambda>(_, r). P r) (docs_of J ix m)) = found"
    by (cases status) (simp_all add: read_docs_filter [OF J] found_def P_def cols of_tenant_def [abs_def])
  finally have same: "mset vs = mset found" .
  have "sorted_wrt (\<lambda>r r'. \<not> text_less (dr_cols r ''created_at'') (dr_cols r' ''created_at'')) (map snd rows)"
    using rows(2) by (simp add: sorted_wrt_map case_prod_beta')
  then have "sorted (map ?key vs)"
    using C by (simp add: vs(1) sorted_wrt_map cols rfc3339_ordered_def not_less)
  then have still: "sort_key ?key (take n vs) = take n vs" for n
    by (intro sort_key_sorted) (simp add: take_map [symmetric] sorted_wrt_take)
  have no_legacy: "\<not> has_legacy_rows no_faults (docs_of J ix m)"
    using tenants by (auto simp: has_legacy_rows_def no_faults_def docs_of_def cols st_values_def list_ex_iff)
  have indexed: "sql_list_for_tenant_indexed no_faults J D ord tenant limit status (docs_of J ix m) = take limit vs"
    using limit read_docs_take [OF J written, of limit]
    by (simp add: sql_list_for_tenant_indexed_def no_faults_def sql_limit_def wrap_i64_def vs(2)
        rows_def [symmetric] P_def [symmetric])
  have sql: "sql_list_for_tenant no_faults J D ord scan tenant limit status (docs_of J ix m) = take limit vs"
    by (simp add: sql_list_for_tenant_def indexed Let_def no_legacy newest_def still)
  have mem: "mem_list_for_tenant D tenant limit status m = take limit (sort_key ?key found)"
    using size by (simp add: mem_list_for_tenant_def newest_def mem_list_def found_def st_values_def)
  have "mset (map ?key vs) = mset (map ?key found)" by (simp add: same)
  then have "sort (map ?key found) = map ?key vs"
    using \<open>sorted (map ?key vs)\<close> by (rule properties_for_sort)
  moreover have "sort (map ?key found) = map ?key (sort_key ?key found)"
    by (rule properties_for_sort) simp_all
  ultimately have "map uminus (map ?key vs) = map uminus (map ?key (sort_key ?key found))" by simp
  then have "map (df_created D) vs = map (df_created D) (sort_key ?key found)" by (simp add: comp_def)
  moreover have "set (take limit vs) \<subseteq> set found"
    using set_take_subset [of limit vs] same [THEN mset_eq_setD] by simp
  ultimately show ?thesis
    by (simp add: sql mem take_map [symmetric]) (auto simp: found_def)
qed

section \<open>Properties\<close>

text \<open>
  C38. The SQLite document stores are the in-memory ones: inserting, reading and updating a document
  change the rows of the table exactly as the entries of the map, index columns included, and the
  sweepers find the same transactions, subscriptions and quotes due, each as often, although they select on the
  text of the columns; in which order is left to the database, as their queries have no \<open>ORDER BY\<close>.
\<close>

theorem tables_refine_maps:
  assumes "json_roundtrip Jt" "json_roundtrip Js" "json_roundtrip Jq" "rfc3339_ordered C"
    and "length mt \<le> usize_max" "length ms \<le> usize_max" "length mq \<le> usize_max"
    and "any_order scan_t" "any_order scan_s" "any_order scan_q"
  shows "doc_insert no_faults Jt (txn_id t) t (txn_index C t) (docs_of Jt (txn_index C) mt) =
      docs_of Jt (txn_index C) (st_put (txn_id t) t mt) \<and>
    doc_get no_faults Jt k (docs_of Jt (txn_index C) mt) = st_get mt k \<and>
    doc_update no_faults Jt k f (txn_index C) (docs_of Jt (txn_index C) mt) =
      (map_option f (st_get mt k),
       docs_of Jt (txn_index C) (case st_get mt k of Some v \<Rightarrow> st_put k (f v) mt | None \<Rightarrow> mt)) \<and>
    doc_update no_faults Js k g (sub_index C) (docs_of Js (sub_index C) ms) =
      (map_option g (st_get ms k),
       docs_of Js (sub_index C) (case st_get ms k of Some v \<Rightarrow> st_put k (g v) ms | None \<Rightarrow> ms)) \<and>
    doc_update no_faults Jq k h (quote_index C) (docs_of Jq (quote_index C) mq) =
      (map_option h (st_get mq k),
       docs_of Jq (quote_index C) (case st_get mq k of Some v \<Rightarrow> st_put k (h v) mq | None \<Rightarrow> mq)) \<and>
    mset (txn_list_due_for_expiry no_faults Jt scan_t C now (docs_of Jt (txn_index C) mt)) = mset (mem_list_due (txn_due now) mt) \<and>
    mset (sub_list_due_for_renewal no_faults Js scan_s C now (docs_of Js (sub_index C) ms)) = mset (mem_list_due (sub_due now) ms) \<and>
    mset (quote_list_due_for_expiry no_faults Jq scan_q C now (docs_of Jq (quote_index C) mq)) = mset (mem_list_due (quote_due now) mq)"
  using doc_insert_map [OF assms(1) index_columns(1)] doc_get_map [OF assms(1)]
    doc_update_map [OF assms(1) index_columns(1)] doc_update_map [OF assms(2) index_columns(2)]
    doc_update_map [OF assms(3) index_columns(3)]
    list_due_map [where row_due = "txn_row_due C now" and due = "txn_due now", OF assms(1) assms(8) row_due_iff(1) [OF assms(4)] assms(5)]
    list_due_map [where row_due = "sub_row_due C now" and due = "sub_due now", OF assms(2) assms(9) row_due_iff(2) [OF assms(4)] assms(6)]
    list_due_map [where row_due = "quote_row_due C now" and due = "quote_due now", OF assms(3) assms(10) row_due_iff(3) [OF assms(4)] assms(7)]
  by (simp add: txn_list_due_for_expiry_def sub_list_due_for_renewal_def quote_list_due_for_expiry_def)

text \<open>The identity as the codec, and a transaction whose quote has expired.\<close>

definition due_txn :: transaction where
  "due_txn = \<lparr>txn_id = ''txn_1'', txn_state = Quoted, txn_agent_id = ''agent'', txn_tenant_id = ''shop'',
     txn_mandate_jti = None, txn_currency = ''USD'', txn_jurisdiction = None, txn_buyer = buyer_default,
     txn_ship_to = None, txn_bill_to = None, txn_line_items = [], txn_totals = totals_default,
     txn_order_id = None, txn_quote_expires_at = Some 5, txn_created_at = 1, txn_updated_at = 1,
     txn_external_refs = []\<rparr>"

definition demo_codec :: "('v, 'v) json_codec" where
  "demo_codec = \<lparr>jc_write = Inr, jc_read = Inr\<rparr>"

lemma demo_codec_roundtrip: "json_roundtrip demo_codec"
  by (simp add: json_roundtrip_def demo_codec_def)

theorem tables_refine_maps_witness:
  "txn_list_due_for_expiry no_faults demo_codec rev chrono_demo 9
     (docs_of demo_codec (txn_index chrono_demo) [(''txn_1'', due_txn)]) = [due_txn]"
proof -
  have small: "length [(''txn_1'', due_txn)] \<le> usize_max" "length ([] :: (string, subscription) store) \<le> usize_max"
    "length ([] :: (string, peer_quote) store) \<le> usize_max"
    by (simp_all add: usize_max_def)
  have "mem_list_due (txn_due 9) [(''txn_1'', due_txn)] = [due_txn]"
    by (simp add: mem_list_due_def mem_list_def usize_max_def st_values_def txn_due_def due_txn_def)
  moreover have "any_order rev" by (simp add: any_order_def)
  ultimately have "mset (txn_list_due_for_expiry no_faults demo_codec rev chrono_demo 9
      (docs_of demo_codec (txn_index chrono_demo) [(''txn_1'', due_txn)])) = mset [due_txn]"
    using tables_refine_maps [OF demo_codec_roundtrip demo_codec_roundtrip demo_codec_roundtrip chrono_demo_ok(3) small]
    by metis
  then show ?thesis by simp
qed

end
