(* ===== verification/Tenant_Api.thy ===== *)
theory Tenant_Api
  imports Execution State_Store Destination
begin

text \<open>
  The query endpoints (\<open>src/handlers/queries.rs\<close>) and the webhook administration
  (\<open>src/handlers/webhook_admin.rs\<close>) over the in-memory stores, and what a tenant sees through them. An answer is
  the value that \<open>serde_json\<close> writes out.
\<close>

section \<open>Filters and pages\<close>

record 'v page =
  pg_data :: "'v list"
  pg_count :: nat

definition page_of :: "'v list \<Rightarrow> 'v page" where
  "page_of vs = \<lparr>pg_data = vs, pg_count = length vs\<rparr>"

definition page_limit :: "nat option \<Rightarrow> nat" where
  "page_limit limit = min (case limit of Some n \<Rightarrow> n | None \<Rightarrow> 100) 500"

text \<open>The UTF-8 bytes of an em dash and a quotation mark.\<close>

definition em_dash :: string where
  "em_dash = bytes [0xE2, 0x80, 0x94]"

definition unknown_filter :: "string \<Rightarrow> string \<Rightarrow> string \<Rightarrow> api_error" where
  "unknown_filter what other expected = InvalidRequest
     (''unknown '' @ what @ '' filter '' @ bytes [0x27] @ other @ bytes [0x27] @ '' '' @ em_dash
      @ '' expected one of '' @ expected)"

definition parse_transaction_state_filter :: "string \<Rightarrow> transaction_state result" where
  "parse_transaction_state_filter s =
     (case map_of [(''draft'', Draft), (''quoted'', Quoted), (''authorized'', Authorized), (''captured'', Captured),
         (''fulfilled'', Fulfilled), (''completed'', Completed), (''reversed'', Reversed), (''canceled'', Canceled),
         (''expired'', Expired)] s of
        Some st \<Rightarrow> Inr st
      | None \<Rightarrow> Inl (unknown_filter ''state'' s
          ''draft|quoted|authorized|captured|fulfilled|completed|reversed|canceled|expired''))"

definition parse_subscription_status_filter :: "string \<Rightarrow> subscription_status result" where
  "parse_subscription_status_filter s =
     (case map_of [(''trialing'', Trialing), (''active'', Active), (''paused'', Paused), (''canceled'', SubCanceled),
         (''past_due'', PastDue)] s of
        Some st \<Rightarrow> Inr st
      | None \<Rightarrow> Inl (unknown_filter ''status'' s ''trialing|active|paused|canceled|past_due''))"

definition parse_peer_quote_status_filter :: "string \<Rightarrow> peer_quote_status result" where
  "parse_peer_quote_status_filter s =
     (case map_of [(''pending'', Pending), (''quoted'', PqQuoted), (''accepted'', Accepted), (''expired'', PqExpired),
         (''rejected'', Rejected)] s of
        Some st \<Rightarrow> Inr st
      | None \<Rightarrow> Inl (unknown_filter ''status'' s ''pending|quoted|accepted|expired|rejected''))"

definition parse_status_filter :: "string \<Rightarrow> delivery_status result" where
  "parse_status_filter s =
     (case map_of [(''pending'', DsPending), (''in_flight'', InFlight), (''delivered'', Delivered), (''failed'', Failed),
         (''dead_lettered'', DeadLettered)] s of
        Some st \<Rightarrow> Inr st
      | None \<Rightarrow> Inl (unknown_filter ''status'' s ''pending|in_flight|delivered|failed|dead_lettered''))"

definition filter_param :: "(string \<Rightarrow> 'a result) \<Rightarrow> string option \<Rightarrow> 'a option result" where
  "filter_param parse q =
     (case q of
        None \<Rightarrow> Inr None
      | Some s \<Rightarrow> if s = [] then Inr None else bind_result (parse s) (\<lambda>x. Inr (Some x)))"

section \<open>Queries\<close>

definition list_transactions :: "gateway \<Rightarrow> headers \<Rightarrow> string option \<Rightarrow> nat option \<Rightarrow> icp \<Rightarrow> transaction page result" where
  "list_transactions G hs state limit s =
     bind_result (resolve_tenant hs (gw_keys G) (gw_now G)) (\<lambda>tenant.
     bind_result (filter_param parse_transaction_state_filter state) (\<lambda>f.
       Inr (page_of (mem_list_for_tenant txn_fields (ak_tenant_id tenant) (page_limit limit)
         (map_option transaction_state_wire_name f) (ic_txns s)))))"

definition get_transaction :: "gateway \<Rightarrow> headers \<Rightarrow> string \<Rightarrow> icp \<Rightarrow> transaction result" where
  "get_transaction G hs tid s =
     bind_result (resolve_tenant hs (gw_keys G) (gw_now G)) (\<lambda>tenant.
       case st_get (ic_txns s) tid of
         Some t \<Rightarrow> if txn_tenant_id t = ak_tenant_id tenant then Inr t else Inl (ResourceNotFound (''transaction '' @ tid))
       | None \<Rightarrow> Inl (ResourceNotFound (''transaction '' @ tid)))"

definition list_subscriptions :: "gateway \<Rightarrow> headers \<Rightarrow> string option \<Rightarrow> nat option \<Rightarrow> icp \<Rightarrow> subscription page result" where
  "list_subscriptions G hs status limit s =
     bind_result (resolve_tenant hs (gw_keys G) (gw_now G)) (\<lambda>tenant.
     bind_result (filter_param parse_subscription_status_filter status) (\<lambda>f.
       Inr (page_of (mem_list_for_tenant sub_fields (ak_tenant_id tenant) (page_limit limit)
         (map_option subscription_status_wire_name f) (ic_subs s)))))"

definition get_subscription :: "gateway \<Rightarrow> headers \<Rightarrow> string \<Rightarrow> icp \<Rightarrow> subscription result" where
  "get_subscription G hs sid s =
     bind_result (resolve_tenant hs (gw_keys G) (gw_now G)) (\<lambda>tenant.
       case st_get (ic_subs s) sid of
         Some x \<Rightarrow> if sub_tenant_id x = ak_tenant_id tenant then Inr x else Inl (ResourceNotFound (''subscription '' @ sid))
       | None \<Rightarrow> Inl (ResourceNotFound (''subscription '' @ sid)))"

definition list_peer_quotes :: "gateway \<Rightarrow> headers \<Rightarrow> string option \<Rightarrow> nat option \<Rightarrow> icp \<Rightarrow> peer_quote page result" where
  "list_peer_quotes G hs status limit s =
     bind_result (resolve_tenant hs (gw_keys G) (gw_now G)) (\<lambda>tenant.
     bind_result (filter_param parse_peer_quote_status_filter status) (\<lambda>f.
       Inr (page_of (mem_list_for_tenant quote_fields (ak_tenant_id tenant) (page_limit limit)
         (map_option peer_quote_status_wire_name f) (ic_quotes s)))))"

definition get_peer_quote :: "gateway \<Rightarrow> headers \<Rightarrow> string \<Rightarrow> icp \<Rightarrow> peer_quote result" where
  "get_peer_quote G hs qid s =
     bind_result (resolve_tenant hs (gw_keys G) (gw_now G)) (\<lambda>tenant.
       case st_get (ic_quotes s) qid of
         Some q \<Rightarrow> if pq_tenant_id q = ak_tenant_id tenant then Inr q else Inl (ResourceNotFound (''peer_quote '' @ qid))
       | None \<Rightarrow> Inl (ResourceNotFound (''peer_quote '' @ qid)))"

text \<open>A receipt belongs to the tenant of the transaction it was signed over, at the time of the query.\<close>

definition receipt_owner :: "icp \<Rightarrow> stored_receipt \<Rightarrow> string option" where
  "receipt_owner s r = map_option txn_tenant_id (st_get (ic_txns s) (ri_transaction_id (rc_icp (st_claims r))))"

definition list_receipts :: "gateway \<Rightarrow> headers \<Rightarrow> string option \<Rightarrow> nat option \<Rightarrow> icp \<Rightarrow> stored_receipt page result" where
  "list_receipts G hs intent limit s =
     bind_result (resolve_tenant hs (gw_keys G) (gw_now G)) (\<lambda>tenant.
       let n = page_limit limit;
           raw = receipt_list_recent (min (n * 3) 1500) (ic_receipts s)
       in Inr (page_of (take n
            (filter (\<lambda>r. receipt_owner s r = Some (ak_tenant_id tenant))
              (filter (\<lambda>r. case intent of Some want \<Rightarrow> ri_intent (rc_icp (st_claims r)) = want | None \<Rightarrow> True) raw)))))"

definition get_receipt :: "gateway \<Rightarrow> headers \<Rightarrow> string \<Rightarrow> icp \<Rightarrow> stored_receipt result" where
  "get_receipt G hs jti s =
     bind_result (resolve_tenant hs (gw_keys G) (gw_now G)) (\<lambda>tenant.
       case receipt_get jti (ic_receipts s) of
         None \<Rightarrow> Inl (ResourceNotFound (''receipt '' @ jti))
       | Some r \<Rightarrow>
           if receipt_owner s r \<noteq> Some (ak_tenant_id tenant) then Inl (ResourceNotFound (''receipt '' @ jti)) else Inr r)"

definition get_mandate_usage :: "gateway \<Rightarrow> headers \<Rightarrow> string \<Rightarrow> icp \<Rightarrow> (string \<times> i64 \<times> time option) result" where
  "get_mandate_usage G hs jti s =
     bind_result (resolve_tenant hs (gw_keys G) (gw_now G)) (\<lambda>tenant.
       case try_usage_for_tenant (mem_usage (ic_ledger s) jti) (ak_tenant_id tenant) of
         None \<Rightarrow> Inl (ResourceNotFound (''mandate_usage '' @ jti))
       | Some u \<Rightarrow> Inr (jti, spent_minor u, window_start u))"

section \<open>Webhook administration\<close>

record api_env =
  ap_gateway :: gateway
  ap_parse_url :: "string \<Rightarrow> parsed_url option"
  ap_allow_insecure :: bool
  ap_uuid :: string
  ap_now :: time

definition list_webhook_deliveries :: "gateway \<Rightarrow> headers \<Rightarrow> string option \<Rightarrow> nat option \<Rightarrow> icp \<Rightarrow> webhook_delivery page result" where
  "list_webhook_deliveries G hs status limit s =
     bind_result (resolve_tenant hs (gw_keys G) (gw_now G)) (\<lambda>tenant.
     bind_result (filter_param parse_status_filter status) (\<lambda>f.
       Inr (page_of (ob_list_recent_for_tenant (ak_tenant_id tenant) (page_limit limit) f (ic_outbox s)))))"

definition get_webhook_delivery :: "gateway \<Rightarrow> headers \<Rightarrow> string \<Rightarrow> icp \<Rightarrow> webhook_delivery result" where
  "get_webhook_delivery G hs did s =
     bind_result (resolve_tenant hs (gw_keys G) (gw_now G)) (\<lambda>tenant.
       case ob_get_for_tenant did (ak_tenant_id tenant) (ic_outbox s) of
         None \<Rightarrow> Inl (ResourceNotFound (''webhook_delivery '' @ did)) | Some d \<Rightarrow> Inr d)"

text \<open>The operations that write: a request without a valid key changes nothing.\<close>

definition as_tenant ::
  "api_env \<Rightarrow> headers \<Rightarrow> (api_key_info \<Rightarrow> icp \<Rightarrow> 'a result \<times> icp) \<Rightarrow> icp \<Rightarrow> 'a result \<times> icp" where
  "as_tenant A hs f s =
     (case resolve_tenant hs (gw_keys (ap_gateway A)) (gw_now (ap_gateway A)) of
        Inl e \<Rightarrow> (Inl e, s) | Inr tenant \<Rightarrow> f tenant s)"

definition retry_webhook_delivery :: "api_env \<Rightarrow> headers \<Rightarrow> string \<Rightarrow> icp \<Rightarrow> webhook_delivery result \<times> icp" where
  "retry_webhook_delivery A hs did = as_tenant A hs (\<lambda>tenant s.
     case reset_for_retry_for_tenant did (ak_tenant_id tenant) (ap_now A) (ic_outbox s) of
       (r, ob) \<Rightarrow>
         (case r of
            Inr d \<Rightarrow> Inr d
          | Inl RetryNotFound \<Rightarrow> Inl (ResourceNotFound (''webhook_delivery '' @ did))
          | Inl e \<Rightarrow> Inl (PreconditionFailed (retry_message e)),
          s\<lparr>ic_outbox := ob\<rparr>))"

definition validate_webhook_url :: "api_env \<Rightarrow> string \<Rightarrow> unit result" where
  "validate_webhook_url A url =
     (case validate_destination_url (ap_parse_url A) url (ap_allow_insecure A) of
        Inl e \<Rightarrow> Inl (InvalidRequest e) | Inr _ \<Rightarrow> Inr ())"

definition empty_secret :: api_error where
  "empty_secret = InvalidRequest (''secret must be non-empty '' @ em_dash
     @ '' events are HMAC-signed and the receiver needs the same secret to verify'')"

definition create_webhook_subscriber ::
  "api_env \<Rightarrow> headers \<Rightarrow> string \<Rightarrow> string \<Rightarrow> icp \<Rightarrow> webhook_subscriber result \<times> icp" where
  "create_webhook_subscriber A hs url secret = as_tenant A hs (\<lambda>tenant s.
     case validate_webhook_url A (trim url) of
       Inl e \<Rightarrow> (Inl e, s)
     | Inr _ \<Rightarrow>
         if trim secret = [] then (Inl empty_secret, s)
         else
           let sub = \<lparr>ws_id = ''whsub_'' @ ap_uuid A, ws_tenant_id = ak_tenant_id tenant, ws_url = trim url,
                 ws_secret = Some secret, ws_active = True, ws_created_at = ap_now A, ws_updated_at = ap_now A\<rparr>
           in (Inr sub, s\<lparr>ic_subscribers := ws_insert sub (ic_subscribers s)\<rparr>))"

definition redacted :: "webhook_subscriber \<Rightarrow> webhook_subscriber" where
  "redacted x = x\<lparr>ws_secret := None\<rparr>"

definition list_webhook_subscribers :: "gateway \<Rightarrow> headers \<Rightarrow> icp \<Rightarrow> webhook_subscriber page result" where
  "list_webhook_subscribers G hs s =
     bind_result (resolve_tenant hs (gw_keys G) (gw_now G)) (\<lambda>tenant.
       Inr (page_of (map redacted (ws_list_for_tenant (ak_tenant_id tenant) (ic_subscribers s)))))"

definition no_subscriber :: "string \<Rightarrow> api_error" where
  "no_subscriber wid = ResourceNotFound (''webhook_subscriber '' @ wid)"

definition get_webhook_subscriber :: "gateway \<Rightarrow> headers \<Rightarrow> string \<Rightarrow> icp \<Rightarrow> webhook_subscriber result" where
  "get_webhook_subscriber G hs wid s =
     bind_result (resolve_tenant hs (gw_keys G) (gw_now G)) (\<lambda>tenant.
       case st_get (ic_subscribers s) wid of
         None \<Rightarrow> Inl (no_subscriber wid)
       | Some x \<Rightarrow> if ws_tenant_id x \<noteq> ak_tenant_id tenant then Inl (no_subscriber wid) else Inr (redacted x))"

text \<open>The existence and owner check of the operations on one subscriber.\<close>

definition own_subscriber ::
  "api_key_info \<Rightarrow> string \<Rightarrow> (icp \<Rightarrow> 'a result \<times> icp) \<Rightarrow> icp \<Rightarrow> 'a result \<times> icp" where
  "own_subscriber tenant wid f s =
     (case st_get (ic_subscribers s) wid of
        None \<Rightarrow> (Inl (no_subscriber wid), s)
      | Some x \<Rightarrow> if ws_tenant_id x \<noteq> ak_tenant_id tenant then (Inl (no_subscriber wid), s) else f s)"

definition store_subscriber ::
  "string \<Rightarrow> (subscribers \<Rightarrow> webhook_subscriber option \<times> subscribers) \<Rightarrow> icp \<Rightarrow> webhook_subscriber result \<times> icp" where
  "store_subscriber wid op s =
     (case op (ic_subscribers s) of
        (None, subs) \<Rightarrow> (Inl (no_subscriber wid), s\<lparr>ic_subscribers := subs\<rparr>)
      | (Some x, subs) \<Rightarrow> (Inr (redacted x), s\<lparr>ic_subscribers := subs\<rparr>))"

definition update_webhook_subscriber ::
  "api_env \<Rightarrow> headers \<Rightarrow> string \<Rightarrow> string option \<Rightarrow> string option \<Rightarrow> icp \<Rightarrow> webhook_subscriber result \<times> icp" where
  "update_webhook_subscriber A hs wid url secret = as_tenant A hs (\<lambda>tenant s.
     case (case map_option trim url of Some u \<Rightarrow> validate_webhook_url A u | None \<Rightarrow> Inr ()) of
       Inl e \<Rightarrow> (Inl e, s)
     | Inr _ \<Rightarrow>
         if map_option trim secret = Some [] then (Inl empty_secret, s)
         else own_subscriber tenant wid
           (store_subscriber wid (ws_patch wid (map_option trim url) (map_option trim secret) (ap_now A))) s)"

definition set_webhook_subscriber_active ::
  "api_env \<Rightarrow> headers \<Rightarrow> string \<Rightarrow> bool \<Rightarrow> icp \<Rightarrow> webhook_subscriber result \<times> icp" where
  "set_webhook_subscriber_active A hs wid active = as_tenant A hs (\<lambda>tenant.
     own_subscriber tenant wid (store_subscriber wid (ws_set_active wid active (ap_now A))))"

definition delete_webhook_subscriber :: "api_env \<Rightarrow> headers \<Rightarrow> string \<Rightarrow> icp \<Rightarrow> string result \<times> icp" where
  "delete_webhook_subscriber A hs wid = as_tenant A hs (\<lambda>tenant.
     own_subscriber tenant wid (\<lambda>s. (Inr wid, s\<lparr>ic_subscribers := snd (ws_delete wid (ic_subscribers s))\<rparr>)))"

section \<open>The routes\<close>

datatype api_call =
    ListTransactions "string option" "nat option" | GetTransaction string
  | ListSubscriptions "string option" "nat option" | GetSubscription string
  | ListPeerQuotes "string option" "nat option" | GetPeerQuote string
  | ListReceipts "string option" "nat option" | GetReceipt string
  | GetMandateUsage string
  | ListDeliveries "string option" "nat option" | GetDelivery string | RetryDelivery string
  | CreateSubscriber string string | ListSubscribers | GetSubscriber string
  | UpdateSubscriber string "string option" "string option"
  | EnableSubscriber string | DisableSubscriber string | DeleteSubscriber string

datatype api_answer =
    Transactions "transaction page" | ATransaction transaction
  | SubscriptionsPage "subscription page" | ASubscription subscription
  | PeerQuotes "peer_quote page" | APeerQuote peer_quote
  | ReceiptsPage "stored_receipt page" | AReceipt stored_receipt
  | MandateUsage string i64 "time option"
  | Deliveries "webhook_delivery page" | ADelivery webhook_delivery
  | Subscribers "webhook_subscriber page" | ASubscriber webhook_subscriber
  | DeletedSubscriber string

definition answer :: "('a \<Rightarrow> api_answer) \<Rightarrow> 'a result \<Rightarrow> api_answer result" where
  "answer f r = bind_result r (\<lambda>x. Inr (f x))"

definition serve_api :: "api_env \<Rightarrow> headers \<Rightarrow> api_call \<Rightarrow> icp \<Rightarrow> api_answer result \<times> icp" where
  "serve_api A hs call s =
     (let G = ap_gateway A in
      case call of
        ListTransactions f n \<Rightarrow> (answer Transactions (list_transactions G hs f n s), s)
      | GetTransaction k \<Rightarrow> (answer ATransaction (get_transaction G hs k s), s)
      | ListSubscriptions f n \<Rightarrow> (answer SubscriptionsPage (list_subscriptions G hs f n s), s)
      | GetSubscription k \<Rightarrow> (answer ASubscription (get_subscription G hs k s), s)
      | ListPeerQuotes f n \<Rightarrow> (answer PeerQuotes (list_peer_quotes G hs f n s), s)
      | GetPeerQuote k \<Rightarrow> (answer APeerQuote (get_peer_quote G hs k s), s)
      | ListReceipts f n \<Rightarrow> (answer ReceiptsPage (list_receipts G hs f n s), s)
      | GetReceipt k \<Rightarrow> (answer AReceipt (get_receipt G hs k s), s)
      | GetMandateUsage k \<Rightarrow> (answer (\<lambda>(j, n, w). MandateUsage j n w) (get_mandate_usage G hs k s), s)
      | ListDeliveries f n \<Rightarrow> (answer Deliveries (list_webhook_deliveries G hs f n s), s)
      | GetDelivery k \<Rightarrow> (answer ADelivery (get_webhook_delivery G hs k s), s)
      | RetryDelivery k \<Rightarrow> apfst (answer ADelivery) (retry_webhook_delivery A hs k s)
      | CreateSubscriber url secret \<Rightarrow> apfst (answer ASubscriber) (create_webhook_subscriber A hs url secret s)
      | ListSubscribers \<Rightarrow> (answer Subscribers (list_webhook_subscribers G hs s), s)
      | GetSubscriber k \<Rightarrow> (answer ASubscriber (get_webhook_subscriber G hs k s), s)
      | UpdateSubscriber k url secret \<Rightarrow> apfst (answer ASubscriber) (update_webhook_subscriber A hs k url secret s)
      | EnableSubscriber k \<Rightarrow> apfst (answer ASubscriber) (set_webhook_subscriber_active A hs k True s)
      | DisableSubscriber k \<Rightarrow> apfst (answer ASubscriber) (set_webhook_subscriber_active A hs k False s)
      | DeleteSubscriber k \<Rightarrow> apfst (answer DeletedSubscriber) (delete_webhook_subscriber A hs k s))"

section \<open>What a tenant sees\<close>

text \<open>The rows of one tenant in a store, and the part of the state that the tenant owns.\<close>

definition owned :: "('v \<Rightarrow> string) \<Rightarrow> string \<Rightarrow> (string, 'v) store \<Rightarrow> (string, 'v) store" where
  "owned owner T m = filter (\<lambda>(_, v). owner v = T) m"

definition visible_receipts :: "string \<Rightarrow> icp \<Rightarrow> receipts" where
  "visible_receipts T s = filter (\<lambda>(_, r). receipt_owner s r = Some T) (ic_receipts s)"

definition view :: "string \<Rightarrow> icp \<Rightarrow> icp" where
  "view T s = s\<lparr>ic_txns := owned txn_tenant_id T (ic_txns s), ic_subs := owned sub_tenant_id T (ic_subs s),
     ic_quotes := owned pq_tenant_id T (ic_quotes s), ic_ledger := owned usage_tenant_id T (ic_ledger s),
     ic_receipts := visible_receipts T s, ic_outbox := owned dl_tenant_id T (ic_outbox s),
     ic_subscribers := owned ws_tenant_id T (ic_subscribers s)\<rparr>"

definition api_ok :: "icp \<Rightarrow> bool" where
  "api_ok s \<longleftrightarrow> icp_ok s \<and> st_ok (ic_ledger s) \<and> st_ok (ic_receipts s) \<and> st_ok (ic_outbox s) \<and>
     st_ok (ic_subscribers s) \<and>
     length (ic_txns s) \<le> usize_max \<and> length (ic_subs s) \<le> usize_max \<and> length (ic_quotes s) \<le> usize_max"

lemma owned_get:
  "st_ok m \<Longrightarrow> st_get (owned owner T m) k =
     (case st_get m k of Some v \<Rightarrow> if owner v = T then Some v else None | None \<Rightarrow> None)"
  unfolding owned_def by (rule st_get_filter)

lemma owned_values: "st_values (owned owner T m) = filter (\<lambda>v. owner v = T) (st_values m)"
  by (induction m) (auto simp: owned_def st_values_def)

lemma owned_list:
  assumes "length m \<le> usize_max"
  shows "mem_list_for_tenant D T limit status (owned (df_tenant D) T m) = mem_list_for_tenant D T limit status m"
proof -
  have "length (owned (df_tenant D) T m) \<le> usize_max"
    using assms length_filter_le [of _ m] by (metis owned_def order_trans)
  then have all: "mem_list usize_max (owned (df_tenant D) T m) = st_values (owned (df_tenant D) T m)"
    "mem_list usize_max m = st_values m"
    using assms by (simp_all add: mem_list_def st_values_def)
  show ?thesis
    unfolding mem_list_for_tenant_def all owned_values by (simp add: of_tenant_def [abs_def] conj_commute)
qed

text \<open>A write to a row of one tenant, seen by the others and by the tenant.\<close>

lemma owned_put_other:
  assumes "owner v \<noteq> T" "\<And>w. st_get m k = Some w \<Longrightarrow> owner w \<noteq> T"
  shows "owned owner T (st_put k v m) = owned owner T m"
  using assms(2)
proof (induction m)
  case (Cons p m)
  then show ?case
    using assms(1) by (cases p) (auto simp: owned_def st_put_def st_get_def split: if_splits)
qed (simp add: owned_def st_put_def assms(1))

lemma owned_put_own:
  assumes "owner v = T" "\<And>w. st_get m k = Some w \<Longrightarrow> owner w = T" "st_ok m"
  shows "owned owner T (st_put k v m) = st_put k v (owned owner T m)"
  using assms(2,3)
proof (induction m)
  case (Cons p m)
  then show ?case
    using assms(1) by (cases p) (auto simp: owned_def st_put_def st_get_def st_ok_def split: if_splits)
qed (simp add: owned_def st_put_def assms(1))

lemma owned_remove: "owned owner T (st_remove k m) = st_remove k (owned owner T m)"
  by (simp add: owned_def st_remove_def AList.delete_eq filter_filter conj_commute case_prod_beta)

lemma owned_remove_other:
  assumes "st_ok m" "\<And>w. st_get m k = Some w \<Longrightarrow> owner w \<noteq> T"
  shows "owned owner T (st_remove k m) = owned owner T m"
proof -
  have "st_get (owned owner T m) k = None"
    using assms by (auto simp: owned_get split: option.splits)
  then have "k \<notin> fst ` set (owned owner T m)"
    by (simp add: st_get_def map_of_eq_None_iff)
  then show ?thesis
    unfolding owned_remove by (simp add: st_remove_def delete_id)
qed

section \<open>Every call is one on the view of its tenant\<close>

lemma view_simps [simp]:
  "ic_txns (view T s) = owned txn_tenant_id T (ic_txns s)" "ic_subs (view T s) = owned sub_tenant_id T (ic_subs s)"
  "ic_quotes (view T s) = owned pq_tenant_id T (ic_quotes s)" "ic_ledger (view T s) = owned usage_tenant_id T (ic_ledger s)"
  "ic_receipts (view T s) = visible_receipts T s" "ic_outbox (view T s) = owned dl_tenant_id T (ic_outbox s)"
  "ic_subscribers (view T s) = owned ws_tenant_id T (ic_subscribers s)"
  by (simp_all add: view_def)

lemma view_outbox: "view T (s\<lparr>ic_outbox := ob\<rparr>) = (view T s)\<lparr>ic_outbox := owned dl_tenant_id T ob\<rparr>"
  by (simp add: view_def visible_receipts_def receipt_owner_def)

lemma view_subscribers: "view T (s\<lparr>ic_subscribers := m\<rparr>) = (view T s)\<lparr>ic_subscribers := owned ws_tenant_id T m\<rparr>"
  by (simp add: view_def visible_receipts_def receipt_owner_def)

lemma api_okD:
  assumes "api_ok s"
  shows "st_ok (ic_txns s)" "st_ok (ic_subs s)" "st_ok (ic_quotes s)" "st_ok (ic_ledger s)" "st_ok (ic_receipts s)"
    "st_ok (ic_outbox s)" "st_ok (ic_subscribers s)" "length (ic_txns s) \<le> usize_max"
    "length (ic_subs s) \<le> usize_max" "length (ic_quotes s) \<le> usize_max"
  using assms by (simp_all add: api_ok_def icp_ok_def)

lemma owned_gets:
  assumes "api_ok s"
  shows "st_get (owned txn_tenant_id T (ic_txns s)) k =
      (case st_get (ic_txns s) k of Some v \<Rightarrow> if txn_tenant_id v = T then Some v else None | None \<Rightarrow> None)"
    "st_get (owned sub_tenant_id T (ic_subs s)) k =
      (case st_get (ic_subs s) k of Some v \<Rightarrow> if sub_tenant_id v = T then Some v else None | None \<Rightarrow> None)"
    "st_get (owned pq_tenant_id T (ic_quotes s)) k =
      (case st_get (ic_quotes s) k of Some v \<Rightarrow> if pq_tenant_id v = T then Some v else None | None \<Rightarrow> None)"
    "st_get (owned usage_tenant_id T (ic_ledger s)) k =
      (case st_get (ic_ledger s) k of Some v \<Rightarrow> if usage_tenant_id v = T then Some v else None | None \<Rightarrow> None)"
    "st_get (owned dl_tenant_id T (ic_outbox s)) k =
      (case st_get (ic_outbox s) k of Some v \<Rightarrow> if dl_tenant_id v = T then Some v else None | None \<Rightarrow> None)"
    "st_get (owned ws_tenant_id T (ic_subscribers s)) k =
      (case st_get (ic_subscribers s) k of Some v \<Rightarrow> if ws_tenant_id v = T then Some v else None | None \<Rightarrow> None)"
    "st_get (visible_receipts T s) k =
      (case st_get (ic_receipts s) k of Some r \<Rightarrow> if receipt_owner s r = Some T then Some r else None | None \<Rightarrow> None)"
  using api_okD [OF assms] by (simp_all add: owned_get visible_receipts_def st_get_filter)

lemma receipt_owner_view:
  "api_ok s \<Longrightarrow> receipt_owner (view T s) r = Some T \<longleftrightarrow> receipt_owner s r = Some T"
  by (auto simp: receipt_owner_def owned_gets split: option.splits)

text \<open>Reads.\<close>

lemma view_lists:
  assumes "api_ok s"
  shows "mem_list_for_tenant txn_fields T n f (owned txn_tenant_id T (ic_txns s)) = mem_list_for_tenant txn_fields T n f (ic_txns s)"
    "mem_list_for_tenant sub_fields T n f (owned sub_tenant_id T (ic_subs s)) = mem_list_for_tenant sub_fields T n f (ic_subs s)"
    "mem_list_for_tenant quote_fields T n f (owned pq_tenant_id T (ic_quotes s)) = mem_list_for_tenant quote_fields T n f (ic_quotes s)"
    "ob_list_recent_for_tenant T n ds (owned dl_tenant_id T (ic_outbox s)) = ob_list_recent_for_tenant T n ds (ic_outbox s)"
    "ws_list_for_tenant T (owned ws_tenant_id T (ic_subscribers s)) = ws_list_for_tenant T (ic_subscribers s)"
  using owned_list [OF api_okD(8) [OF assms], of txn_fields] owned_list [OF api_okD(9) [OF assms], of sub_fields]
    owned_list [OF api_okD(10) [OF assms], of quote_fields]
  by (simp_all add: txn_fields_def sub_fields_def quote_fields_def ob_list_recent_for_tenant_def
      ws_list_for_tenant_def owned_values)

lemma view_reads:
  assumes key: "resolve_tenant hs (gw_keys G) (gw_now G) = Inr k" and ok: "api_ok s"
  defines "v \<equiv> view (ak_tenant_id k) s"
  shows "list_transactions G hs f n v = list_transactions G hs f n s"
    "list_subscriptions G hs f n v = list_subscriptions G hs f n s"
    "list_peer_quotes G hs f n v = list_peer_quotes G hs f n s"
    "list_webhook_deliveries G hs f n v = list_webhook_deliveries G hs f n s"
    "list_webhook_subscribers G hs v = list_webhook_subscribers G hs s"
  by (simp_all add: v_def list_transactions_def list_subscriptions_def list_peer_quotes_def
      list_webhook_deliveries_def list_webhook_subscribers_def key view_lists [OF ok])

lemma view_gets:
  assumes key: "resolve_tenant hs (gw_keys G) (gw_now G) = Inr k" and ok: "api_ok s"
  defines "v \<equiv> view (ak_tenant_id k) s"
  shows "get_transaction G hs i v = get_transaction G hs i s" "get_subscription G hs i v = get_subscription G hs i s"
    "get_peer_quote G hs i v = get_peer_quote G hs i s" "get_webhook_delivery G hs i v = get_webhook_delivery G hs i s"
    "get_webhook_subscriber G hs i v = get_webhook_subscriber G hs i s" "get_receipt G hs i v = get_receipt G hs i s"
    "get_mandate_usage G hs i v = get_mandate_usage G hs i s"
proof -
  show "get_mandate_usage G hs i v = get_mandate_usage G hs i s"
    by (auto simp: v_def get_mandate_usage_def key owned_gets [OF ok] mem_usage_def try_usage_for_tenant_def
        usage_default_def split: option.splits)
  show "get_receipt G hs i v = get_receipt G hs i s"
    by (simp add: v_def get_receipt_def key receipt_get_def owned_gets [OF ok] receipt_owner_view [OF ok]
        split: option.splits)
qed (auto simp: v_def get_transaction_def get_subscription_def get_peer_quote_def get_webhook_delivery_def
    get_webhook_subscriber_def ob_get_for_tenant_def key owned_gets [OF ok] split: option.splits)

text \<open>Writes.\<close>

lemma retry_view:
  assumes "st_ok ob"
  shows "reset_for_retry_for_tenant i T now (owned dl_tenant_id T ob) =
    apsnd (owned dl_tenant_id T) (reset_for_retry_for_tenant i T now ob)"
proof (cases "\<exists>d. st_get ob i = Some d \<and> dl_tenant_id d = T")
  case True
  then obtain d where d: "st_get ob i = Some d" "dl_tenant_id d = T" by blast
  have "owned dl_tenant_id T (st_put i (reset_delivery now d) ob) = st_put i (reset_delivery now d) (owned dl_tenant_id T ob)"
    using d assms by (intro owned_put_own) (auto simp: reset_delivery_def)
  then show ?thesis
    using d assms
    by (simp add: reset_for_retry_for_tenant_def reset_for_retry_def owned_get ob_update_def Let_def
        split: delivery_status.split)
next
  case False
  then show ?thesis
    using assms by (auto simp: reset_for_retry_for_tenant_def owned_get split: option.splits)
qed

lemma retry_others:
  assumes "T' \<noteq> T"
  shows "owned dl_tenant_id T' (snd (reset_for_retry_for_tenant i T now ob)) = owned dl_tenant_id T' ob"
proof (cases "\<exists>d. st_get ob i = Some d \<and> dl_tenant_id d = T")
  case True
  then obtain d where d: "st_get ob i = Some d" "dl_tenant_id d = T" by blast
  have "owned dl_tenant_id T' (st_put i (reset_delivery now d) ob) = owned dl_tenant_id T' ob"
    using d assms by (intro owned_put_other) (auto simp: reset_delivery_def)
  then show ?thesis
    using d by (simp add: reset_for_retry_for_tenant_def reset_for_retry_def ob_update_def Let_def
        split: delivery_status.split)
next
  case False
  then show ?thesis by (auto simp: reset_for_retry_for_tenant_def split: option.splits)
qed

text \<open>An operation on one subscriber replaces its row, keeping id and tenant, or removes it.\<close>

definition row_op :: "string \<Rightarrow> (webhook_subscriber \<Rightarrow> webhook_subscriber) \<Rightarrow> (subscribers \<Rightarrow> webhook_subscriber option \<times> subscribers) \<Rightarrow> bool" where
  "row_op i f op \<longleftrightarrow> (\<forall>x. ws_tenant_id (f x) = ws_tenant_id x) \<and>
     (\<forall>m. op m = (case st_get m i of Some x \<Rightarrow> (Some (f x), st_put i (f x) m) | None \<Rightarrow> (None, m)))"

lemma patch_row: "\<exists>f. row_op i f (ws_patch i url secret now)"
  unfolding row_op_def ws_patch_def Let_def
  by (rule exI [where x = "\<lambda>x. (let s1 = (case url of Some u \<Rightarrow> x\<lparr>ws_url := u\<rparr> | None \<Rightarrow> x);
      s2 = (case secret of Some sec \<Rightarrow> s1\<lparr>ws_secret := Some sec\<rparr> | None \<Rightarrow> s1) in s2\<lparr>ws_updated_at := now\<rparr>)"])
    (auto simp: Let_def split: option.splits)

lemma active_row: "\<exists>f. row_op i f (ws_set_active i b now)"
  unfolding row_op_def ws_set_active_def Let_def
  by (rule exI [where x = "\<lambda>x. x\<lparr>ws_active := b, ws_updated_at := now\<rparr>"]) (auto split: option.splits)

lemma own_store_view:
  assumes "row_op i f op" "api_ok s" "ak_tenant_id k = T"
  shows "own_subscriber k i (store_subscriber i op) (view T s) = apsnd (view T) (own_subscriber k i (store_subscriber i op) s)"
proof (cases "\<exists>x. st_get (ic_subscribers s) i = Some x \<and> ws_tenant_id x = T")
  case True
  then obtain x where x: "st_get (ic_subscribers s) i = Some x" "ws_tenant_id x = T" by blast
  have "owned ws_tenant_id T (st_put i (f x) (ic_subscribers s)) = st_put i (f x) (owned ws_tenant_id T (ic_subscribers s))"
    using x assms api_okD(7) [OF assms(2)] by (intro owned_put_own) (auto simp: row_op_def)
  then show ?thesis
    using x assms by (simp add: own_subscriber_def store_subscriber_def owned_gets row_op_def view_subscribers)
next
  case False
  then show ?thesis
    using assms by (auto simp: own_subscriber_def owned_gets split: option.splits)
qed

lemma own_store_others:
  assumes "row_op i f op" "ak_tenant_id k \<noteq> T'"
  shows "view T' (snd (own_subscriber k i (store_subscriber i op) s)) = view T' s"
proof (cases "\<exists>x. st_get (ic_subscribers s) i = Some x \<and> ws_tenant_id x = ak_tenant_id k")
  case True
  then obtain x where x: "st_get (ic_subscribers s) i = Some x" "ws_tenant_id x = ak_tenant_id k" by blast
  have "owned ws_tenant_id T' (st_put i (f x) (ic_subscribers s)) = owned ws_tenant_id T' (ic_subscribers s)"
    using x assms by (intro owned_put_other) (auto simp: row_op_def)
  then show ?thesis
    using x assms by (simp add: own_subscriber_def store_subscriber_def row_op_def view_subscribers)
next
  case False
  then show ?thesis by (auto simp: own_subscriber_def split: option.splits)
qed

lemma serve_unauthenticated:
  "resolve_tenant hs (gw_keys (ap_gateway A)) (gw_now (ap_gateway A)) = Inl e \<Longrightarrow> serve_api A hs call s = (Inl e, s)"
  by (cases call)
    (simp_all add: serve_api_def answer_def list_transactions_def get_transaction_def list_subscriptions_def
      get_subscription_def list_peer_quotes_def get_peer_quote_def list_receipts_def get_receipt_def get_mandate_usage_def
      list_webhook_deliveries_def get_webhook_delivery_def list_webhook_subscribers_def get_webhook_subscriber_def
      retry_webhook_delivery_def create_webhook_subscriber_def update_webhook_subscriber_def
      set_webhook_subscriber_active_def delete_webhook_subscriber_def as_tenant_def)

text \<open>The five operations that write, on the view and for the others.\<close>

definition commutes :: "string \<Rightarrow> (icp \<Rightarrow> 'a \<times> icp) \<Rightarrow> icp \<Rightarrow> bool" where
  "commutes T f s \<longleftrightarrow> f (view T s) = apsnd (view T) (f s) \<and> (\<forall>T'. T' \<noteq> T \<longrightarrow> view T' (snd (f s)) = view T' s)"

lemma retry_commutes:
  assumes "resolve_tenant hs (gw_keys (ap_gateway A)) (gw_now (ap_gateway A)) = Inr k" "api_ok s"
  shows "commutes (ak_tenant_id k) (retry_webhook_delivery A hs i) s"
proof -
  let ?T = "ak_tenant_id k"
  obtain r ob where r: "reset_for_retry_for_tenant i ?T (ap_now A) (ic_outbox s) = (r, ob)" by (rule prod.exhaust)
  have others: "owned dl_tenant_id T' ob = owned dl_tenant_id T' (ic_outbox s)" if "T' \<noteq> ?T" for T'
    using retry_others [OF that, of i "ap_now A" "ic_outbox s"] by (simp add: r)
  show ?thesis
    using retry_view [OF api_okD(6) [OF assms(2)], of i ?T "ap_now A"] others assms(1)
    by (simp add: commutes_def retry_webhook_delivery_def as_tenant_def r view_outbox)
qed

lemma create_commutes:
  assumes "resolve_tenant hs (gw_keys (ap_gateway A)) (gw_now (ap_gateway A)) = Inr k" "api_ok s"
    and "st_get (ic_subscribers s) (''whsub_'' @ ap_uuid A) = None"
  shows "commutes (ak_tenant_id k) (create_webhook_subscriber A hs url secret) s"
proof -
  let ?x = "\<lparr>ws_id = ''whsub_'' @ ap_uuid A, ws_tenant_id = ak_tenant_id k, ws_url = trim url,
      ws_secret = Some secret, ws_active = True, ws_created_at = ap_now A, ws_updated_at = ap_now A\<rparr>"
  have own: "owned ws_tenant_id (ak_tenant_id k) (ws_insert ?x (ic_subscribers s)) =
      ws_insert ?x (owned ws_tenant_id (ak_tenant_id k) (ic_subscribers s))"
    unfolding ws_insert_def using assms(3) api_okD(7) [OF assms(2)] by (intro owned_put_own) simp_all
  have others: "owned ws_tenant_id T' (ws_insert ?x (ic_subscribers s)) = owned ws_tenant_id T' (ic_subscribers s)"
    if "T' \<noteq> ak_tenant_id k" for T'
    unfolding ws_insert_def using assms(3) that by (intro owned_put_other) auto
  show ?thesis
    using assms(1) own others
    by (auto simp: commutes_def create_webhook_subscriber_def as_tenant_def view_subscribers Let_def
        split: sum.split intro!: icp.equality)
qed

lemma update_commutes:
  assumes "resolve_tenant hs (gw_keys (ap_gateway A)) (gw_now (ap_gateway A)) = Inr k" "api_ok s"
  shows "commutes (ak_tenant_id k) (update_webhook_subscriber A hs i url secret) s"
    and "commutes (ak_tenant_id k) (set_webhook_subscriber_active A hs i b) s"
proof -
  obtain f where f: "row_op i f (ws_patch i (map_option trim url) (map_option trim secret) (ap_now A))"
    using patch_row by blast
  show "commutes (ak_tenant_id k) (update_webhook_subscriber A hs i url secret) s"
    using assms(1) own_store_view [OF f assms(2) refl, of k] own_store_others [OF f, of k]
    by (auto simp: commutes_def update_webhook_subscriber_def as_tenant_def split: sum.split)
  obtain g where g: "row_op i g (ws_set_active i b (ap_now A))"
    using active_row by blast
  show "commutes (ak_tenant_id k) (set_webhook_subscriber_active A hs i b) s"
    using assms(1) own_store_view [OF g assms(2) refl, of k] own_store_others [OF g, of k]
    by (auto simp: commutes_def set_webhook_subscriber_active_def as_tenant_def)
qed

lemma delete_commutes:
  assumes "resolve_tenant hs (gw_keys (ap_gateway A)) (gw_now (ap_gateway A)) = Inr k" "api_ok s"
  shows "commutes (ak_tenant_id k) (delete_webhook_subscriber A hs i) s"
proof (cases "\<exists>x. st_get (ic_subscribers s) i = Some x \<and> ws_tenant_id x = ak_tenant_id k")
  case True
  then obtain x where x: "st_get (ic_subscribers s) i = Some x" "ws_tenant_id x = ak_tenant_id k" by blast
  have others: "owned ws_tenant_id T' (st_remove i (ic_subscribers s)) = owned ws_tenant_id T' (ic_subscribers s)"
    if "T' \<noteq> ak_tenant_id k" for T'
    using x that api_okD(7) [OF assms(2)] by (intro owned_remove_other) auto
  show ?thesis
    using x assms others
    by (auto simp: commutes_def delete_webhook_subscriber_def as_tenant_def own_subscriber_def owned_gets ws_delete_def
        view_subscribers owned_remove intro!: icp.equality)
next
  case False
  then show ?thesis
    using assms
    by (auto simp: commutes_def delete_webhook_subscriber_def as_tenant_def own_subscriber_def owned_gets split: option.splits)
qed

lemma commutes_answer: "commutes T f s \<Longrightarrow> commutes T (\<lambda>s. apfst g (f s)) s"
  by (simp add: commutes_def apfst_def apsnd_def map_prod_def case_prod_beta prod_eq_iff)

section \<open>Properties\<close>

lemma listed_receipts:
  assumes "resolve_tenant hs (gw_keys G) (gw_now G) = Inr k"
  shows "\<exists>p. list_receipts G hs intent limit s = Inr p \<and> length (pg_data p) \<le> page_limit limit \<and>
    (\<forall>r \<in> set (pg_data p). r \<in> set (st_values (ic_receipts s)) \<and> receipt_owner s r = Some (ak_tenant_id k) \<and>
       (\<forall>want. intent = Some want \<longrightarrow> ri_intent (rc_icp (st_claims r)) = want))"
  using assms
  by (auto simp: list_receipts_def Let_def page_of_def receipt_list_recent_def dest!: in_set_takeD)

text \<open>
  C3. A call of any query or administration endpoint without a valid key reads and changes nothing. Under the key of a
  tenant it changes no row of another tenant, and, except for the list of receipts, it is a function of what its tenant
  owns: the answer, and the change to the tenant's rows, are those on the state cut down to these rows. The list of
  receipts changes nothing and shows stored receipts over the tenant's own transactions only, of the intent asked for and
  within the limit; which of them it shows depends on all tenants, as it looks at the latest receipts of all of them
  (\<open>older_receipts_hidden\<close>). The identifier drawn for a new webhook registration is taken to be unused.
\<close>

theorem calls_confined_to_tenant:
  assumes "api_ok s" and "st_get (ic_subscribers s) (''whsub_'' @ ap_uuid A) = None"
  shows "case resolve_tenant hs (gw_keys (ap_gateway A)) (gw_now (ap_gateway A)) of
      Inl e \<Rightarrow> serve_api A hs call s = (Inl e, s)
    | Inr k \<Rightarrow>
        (\<forall>T'. T' \<noteq> ak_tenant_id k \<longrightarrow> view T' (snd (serve_api A hs call s)) = view T' s) \<and>
        (case call of
           ListReceipts intent limit \<Rightarrow>
             \<exists>p. serve_api A hs call s = (Inr (ReceiptsPage p), s) \<and> length (pg_data p) \<le> page_limit limit \<and>
               (\<forall>r \<in> set (pg_data p). r \<in> set (st_values (ic_receipts s)) \<and>
                  (\<exists>t. st_get (ic_txns s) (ri_transaction_id (rc_icp (st_claims r))) = Some t \<and>
                     txn_tenant_id t = ak_tenant_id k) \<and>
                  (\<forall>want. intent = Some want \<longrightarrow> ri_intent (rc_icp (st_claims r)) = want))
         | _ \<Rightarrow> serve_api A hs call (view (ak_tenant_id k) s) = apsnd (view (ak_tenant_id k)) (serve_api A hs call s))"
proof (cases "resolve_tenant hs (gw_keys (ap_gateway A)) (gw_now (ap_gateway A))")
  case (Inl e)
  then show ?thesis using serve_unauthenticated by simp
next
  case (Inr k)
  note writes = retry_commutes [OF Inr assms(1)] create_commutes [OF Inr assms] update_commutes [OF Inr assms(1)]
    delete_commutes [OF Inr assms(1)]
  show ?thesis
  proof (cases "\<exists>f n. call = ListReceipts f n")
    case True
    then obtain f n where call: "call = ListReceipts f n" by blast
    obtain p where p: "list_receipts (ap_gateway A) hs f n s = Inr p \<and> length (pg_data p) \<le> page_limit n \<and>
      (\<forall>r \<in> set (pg_data p). r \<in> set (st_values (ic_receipts s)) \<and> receipt_owner s r = Some (ak_tenant_id k) \<and>
       (\<forall>want. f = Some want \<longrightarrow> ri_intent (rc_icp (st_claims r)) = want))"
      using listed_receipts [OF Inr, of f n s] by blast
    then have "serve_api A hs call s = (Inr (ReceiptsPage p), s)"
      by (simp add: call serve_api_def answer_def)
    moreover have "\<exists>t. st_get (ic_txns s) (ri_transaction_id (rc_icp (st_claims r))) = Some t \<and>
        txn_tenant_id t = ak_tenant_id k" if "r \<in> set (pg_data p)" for r
      using p that by (simp add: receipt_owner_def)
    ultimately show ?thesis
      using p by (simp add: call Inr)
  next
    case False
    then have "commutes (ak_tenant_id k) (serve_api A hs call) s"
      using writes [THEN commutes_answer] view_reads [OF Inr assms(1)] view_gets [OF Inr assms(1)]
      by (cases call) (simp_all add: serve_api_def [abs_def] commutes_def)
    then show ?thesis using False Inr by (cases call) (simp_all add: commutes_def)
  qed
qed

definition demo_api :: api_env where
  "demo_api = \<lparr>ap_gateway = demo_gateway,
     ap_parse_url = (\<lambda>u. Some \<lparr>pu_scheme = ''https'', pu_host = Some u, pu_username = [], pu_password = None, pu_port = None\<rparr>),
     ap_allow_insecure = True, ap_uuid = ''u'', ap_now = 7\<rparr>"

lemma demo_api_ok: "api_ok demo_state"
  using demo_state_ok by (simp add: api_ok_def demo_state_def usize_max_def)

theorem calls_confined_to_tenant_witness:
  "\<exists>x s'. serve_api demo_api demo_headers (CreateSubscriber ''hook'' ''key'') demo_state = (Inr (ASubscriber x), s') \<and>
     ic_subscribers s' \<noteq> [] \<and> view ''shop'' s' = view ''shop'' demo_state"
proof -
  have key: "resolve_tenant demo_headers (gw_keys (ap_gateway demo_api)) (gw_now (ap_gateway demo_api)) = Inr demo_api_key"
    using demo_resolves by (simp add: demo_api_def)
  have trims: "trim ''hook'' = ''hook''" "trim ''key'' = ''key''"
    by (simp_all add: trim_graphic graphic_def)
  let ?x = "\<lparr>ws_id = ''whsub_u'', ws_tenant_id = ''merchant_demo'', ws_url = ''hook'', ws_secret = Some ''key'',
      ws_active = True, ws_created_at = 7, ws_updated_at = 7\<rparr>"
  have run: "serve_api demo_api demo_headers (CreateSubscriber ''hook'' ''key'') demo_state =
      (Inr (ASubscriber ?x), demo_state\<lparr>ic_subscribers := [(''whsub_u'', ?x)]\<rparr>)"
    using demo_resolves
    by (simp add: serve_api_def create_webhook_subscriber_def as_tenant_def demo_api_def trims validate_webhook_url_def
        validate_destination_url_def answer_def ws_insert_def st_put_def demo_state_def demo_api_key_def Let_def)
  have "view ''shop'' (snd (serve_api demo_api demo_headers (CreateSubscriber ''hook'' ''key'') demo_state)) = view ''shop'' demo_state"
    using calls_confined_to_tenant [OF demo_api_ok, of demo_api demo_headers "CreateSubscriber ''hook'' ''key''"] key
    by (simp add: demo_state_def demo_api_key_def)
  then show ?thesis using run by force
qed

text \<open>The list of receipts may miss receipts of the tenant when others have newer ones.\<close>

definition receipt_at :: "i64 \<Rightarrow> string \<Rightarrow> stored_receipt" where
  "receipt_at iat tid = \<lparr>st_jti = tid, st_kid = [], st_jws = [], st_body_digest = [],
     st_claims = demo_claims\<lparr>rc_iat := iat, rc_icp := (rc_icp demo_claims)\<lparr>ri_transaction_id := tid\<rparr>\<rparr>\<rparr>"

lemma older_receipts_hidden:
  defines "s \<equiv> demo_state\<lparr>ic_txns := [(''a'', due_txn\<lparr>txn_tenant_id := ''merchant_demo''\<rparr>), (''b'', due_txn)],
    ic_receipts := [(''r1'', receipt_at 1 ''a''), (''r2'', receipt_at 2 ''b''), (''r3'', receipt_at 3 ''b''), (''r4'', receipt_at 4 ''b'')]\<rparr>"
  shows "list_receipts demo_gateway demo_headers None (Some 1) s = Inr \<lparr>pg_data = [], pg_count = 0\<rparr>"
    and "get_receipt demo_gateway demo_headers ''r1'' s = Inr (receipt_at 1 ''a'')"
  by (simp_all add: s_def list_receipts_def get_receipt_def demo_resolves page_limit_def receipt_list_recent_def
      st_values_def receipt_owner_def receipt_at_def receipt_get_def st_get_def due_txn_def demo_api_key_def page_of_def
      numeral_3_eq_3)

end
