(* ===== verification/Grpc.thy ===== *)
theory Grpc
  imports Tenant_Api
begin

text \<open>
  The gRPC surface (\<open>src/grpc.rs\<close>, messages of \<open>proto/icp_handler/v1/icp_handler.proto\<close>): the submission of an intent,
  the event stream, the reads, and the status an error becomes. The codecs of the payloads are parameters.
\<close>

section \<open>Status and metadata\<close>

datatype grpc_status =
    InvalidArgument string | Unauthenticated string | PermissionDenied string | ResourceExhausted string
  | NotFound string | AlreadyExists string | StatusFailedPrecondition string | Unavailable string | InternalError string

type_synonym 'a status = "grpc_status + 'a"

text \<open>The value of a key, which need not be text.\<close>

type_synonym metadata = "string \<Rightarrow> string option option"

definition md_text :: "metadata \<Rightarrow> string \<Rightarrow> string option" where
  "md_text md k = Option.bind (md k) (\<lambda>v. v)"

fun api_error_to_status :: "api_error \<Rightarrow> grpc_status" where
  "api_error_to_status (InvalidRequest m) = InvalidArgument m"
| "api_error_to_status (AuthenticationFailed m) = Unauthenticated m"
| "api_error_to_status (MandateInvalid m) = Unauthenticated m"
| "api_error_to_status (MandateOutOfScope m) = PermissionDenied m"
| "api_error_to_status (MandateBudgetExceeded m) = ResourceExhausted m"
| "api_error_to_status (IntentNotSupported m) = NotFound m"
| "api_error_to_status (ResourceNotFound m) = NotFound m"
| "api_error_to_status (Conflict m) = AlreadyExists m"
| "api_error_to_status (IdempotencyConflict m) = AlreadyExists m"
| "api_error_to_status (PreconditionFailed m) = StatusFailedPrecondition m"
| "api_error_to_status RateLimited = ResourceExhausted ''rate limited''"
| "api_error_to_status (EngineUnavailable m) = Unavailable m"
| "api_error_to_status (ProcessingError m) = InternalError m"

definition extract_bearer_metadata :: "metadata \<Rightarrow> string option" where
  "extract_bearer_metadata md =
     map_option (\<lambda>v. case strip_prefix ''Bearer '' v of Some r \<Rightarrow> r | None \<Rightarrow> v)
       (Option.bind (case md ''authorization'' of Some v \<Rightarrow> Some v | None \<Rightarrow> md ''x-api-key'') (\<lambda>v. v))"

definition authenticate_bearer :: "gateway \<Rightarrow> string \<Rightarrow> api_key_info status" where
  "authenticate_bearer G bearer =
     (case key_lookup bearer (gw_keys G) of
        None \<Rightarrow> Inl (Unauthenticated ''unknown API key'')
      | Some tenant \<Rightarrow>
          if is_expired_at tenant (gw_now G) then Inl (Unauthenticated ''API key expired'') else Inr tenant)"

definition grpc_tenant :: "gateway \<Rightarrow> metadata \<Rightarrow> api_key_info status" where
  "grpc_tenant G md =
     (case extract_bearer_metadata md of
        None \<Rightarrow> Inl (Unauthenticated ''missing bearer token'') | Some key \<Rightarrow> authenticate_bearer G key)"

definition grpc_agent_allowed :: "api_key_info \<Rightarrow> agent_identifier \<Rightarrow> unit status" where
  "grpc_agent_allowed tenant agent =
     (if permits_agent tenant (ag_raw agent) then Inr ()
      else Inl (Unauthenticated (''agent `'' @ ag_raw agent @ ''` is not allowed for this API key'')))"

definition grpc_client_id_for_rate_limit :: "metadata \<Rightarrow> bool \<Rightarrow> string" where
  "grpc_client_id_for_rate_limit md trust_proxy_headers =
     (let forwarded = (if trust_proxy_headers then
            (case md_text md ''x-forwarded-for'' of Some xff \<Rightarrow> trim (hd (split_on CHR '','' xff)) | None \<Rightarrow> [])
            else []);
          real = (if trust_proxy_headers then
            (case md_text md ''x-real-ip'' of Some ip \<Rightarrow> trim ip | None \<Rightarrow> []) else [])
      in if forwarded \<noteq> [] then forwarded else if real \<noteq> [] then real else ''grpc'')"

section \<open>Submission of an intent\<close>

record grpc_envelope =
  ge_icp_version :: string
  ge_agent_id :: string
  ge_request_id :: string
  ge_idempotency_key :: string
  ge_mandate_jws :: string
  ge_trace_id :: string

record intent_request =
  gi_envelope :: "grpc_envelope option"
  gi_payload_json :: string

record intent_response =
  gr_payload_json :: string
  gr_receipt_jws :: string
  gr_receipt_kid :: string

text \<open>\<open>serde_json\<close>: the envelope in the payload, and the bytes of what goes out.\<close>

record grpc_codec =
  gc_envelope :: "string \<Rightarrow> string + intent_envelope"
  gc_body :: "intent_response_body \<Rightarrow> string + string"
  gc_txn :: "transaction \<Rightarrow> string + string"
  gc_claims :: "receipt_claims \<Rightarrow> string + string"
  gc_usage :: "i64 \<Rightarrow> time option \<Rightarrow> string + string"
  gc_payload :: "json \<Rightarrow> string"

definition serialized :: "string + string \<Rightarrow> string status" where
  "serialized r = (case r of Inl e \<Rightarrow> Inl (InternalError (''serialize: '' @ e)) | Inr s \<Rightarrow> Inr s)"

definition text_or :: "string option \<Rightarrow> string \<Rightarrow> string option" where
  "text_or alt s = (if s = [] then alt else Some s)"

text \<open>What a request must carry after the limits: the checks of \<open>submit_intent\<close> in their order.\<close>

definition grpc_input ::
  "exec_env \<Rightarrow> gateway \<Rightarrow> grpc_codec \<Rightarrow> api_key_info \<Rightarrow> intent_request \<Rightarrow> (intent_input \<times> string option) status" where
  "grpc_input X G K tenant req =
     (case gi_envelope req of
        None \<Rightarrow> Inl (InvalidArgument ''envelope required'')
      | Some ge \<Rightarrow>
          if gw_require_icp_version G \<and> ge_icp_version ge \<noteq> cf_icp_version (e_cfg (xe_env X)) then
            Inl (InvalidArgument (''ICP version `'' @ ge_icp_version ge @ ''` not supported; expected `''
              @ cf_icp_version (e_cfg (xe_env X)) @ ''`''))
          else if gw_require_request_id G \<and> ge_request_id ge = [] then Inl (InvalidArgument ''request_id required'')
          else if gw_require_idempotency_key G \<and> ge_idempotency_key ge = [] then
            Inl (InvalidArgument ''idempotency_key required'')
          else (case gc_envelope K (gi_payload_json req) of
            Inl e \<Rightarrow> Inl (InvalidArgument (''payload_json: '' @ e))
          | Inr envelope \<Rightarrow>
              if ge_agent_id ge = [] then Inl (Unauthenticated ''agent_id required'')
              else
                let agent = parse_agent (ge_agent_id ge) in
                bind_result (grpc_agent_allowed tenant agent) (\<lambda>_.
                  Inr (for_icp envelope agent tenant (text_or None (ge_mandate_jws ge))
                      (case text_or None (ge_request_id ge) of Some r \<Rightarrow> r | None \<Rightarrow> ''req_'' @ gw_request_uuid G)
                      (text_or None (ge_trace_id ge)),
                    text_or None (ge_idempotency_key ge)))))"

definition grpc_submit_intent ::
  "exec_env \<Rightarrow> gateway \<Rightarrow> grpc_codec \<Rightarrow> metadata \<Rightarrow> intent_request \<Rightarrow> service
    \<Rightarrow> intent_response status exec \<times> service" where
  "grpc_submit_intent X G K md req sv =
     (case check_pre_auth_rate_limit X (grpc_client_id_for_rate_limit md (gw_trust_proxy_headers G)) sv of
        (Inl e, sv1) \<Rightarrow> (Inr (Inl (api_error_to_status e)), sv1)
      | (Inr (Denied limit retry_after), sv1) \<Rightarrow>
          (Inr (Inl (ResourceExhausted (''pre-auth rate limited: limit '' @ show_nat (unat limit) @ ''/min, retry after ''
             @ show_nat retry_after @ ''s''))), sv1)
      | (Inr (Allowed _ _ _), sv1) \<Rightarrow>
     (case grpc_tenant G md of
        Inl e \<Rightarrow> (Inr (Inl e), sv1)
      | Inr tenant \<Rightarrow>
     (case check_tenant_rate_limit X tenant sv1 of
        (Inl e, sv2) \<Rightarrow> (Inr (Inl (api_error_to_status e)), sv2)
      | (Inr (Denied limit retry_after), sv2) \<Rightarrow>
          (Inr (Inl (ResourceExhausted (''rate limited: limit '' @ show_nat (unat limit) @ ''/min, retry after ''
             @ show_nat retry_after @ ''s''))), sv2)
      | (Inr (Allowed _ _ _), sv2) \<Rightarrow>
     (case grpc_input X G K tenant req of
        Inl e \<Rightarrow> (Inr (Inl e), sv2)
      | Inr (inp, key) \<Rightarrow>
     (case handle_intent_idempotent X inp key sv2 of
        (Inl Panic, sv3) \<Rightarrow> (Inl Panic, sv3)
      | (Inl (Fail e), sv3) \<Rightarrow> (Inr (Inl (api_error_to_status e)), sv3)
      | (Inr ex, sv3) \<Rightarrow>
          (Inr (bind_result (serialized (gc_body K (ix_body ex))) (\<lambda>payload.
             Inr \<lparr>gr_payload_json = payload, gr_receipt_jws = rs_jws (rb_receipt (ix_body ex)),
               gr_receipt_kid = rs_kid (rb_receipt (ix_body ex))\<rparr>)), sv3))))))"

section \<open>Reads\<close>

definition grpc_get_transaction :: "gateway \<Rightarrow> grpc_codec \<Rightarrow> metadata \<Rightarrow> string \<Rightarrow> icp \<Rightarrow> string status" where
  "grpc_get_transaction G K md tid s =
     bind_result (grpc_tenant G md) (\<lambda>tenant.
       case st_get (ic_txns s) tid of
         None \<Rightarrow> Inl (NotFound ''transaction not found'')
       | Some t \<Rightarrow>
           if txn_tenant_id t \<noteq> ak_tenant_id tenant then Inl (NotFound ''transaction not found'')
           else serialized (gc_txn K t))"

text \<open>The signature, the key id and the claims.\<close>

definition grpc_get_receipt :: "gateway \<Rightarrow> grpc_codec \<Rightarrow> metadata \<Rightarrow> string \<Rightarrow> icp \<Rightarrow> (string \<times> string \<times> string) status" where
  "grpc_get_receipt G K md jti s =
     bind_result (grpc_tenant G md) (\<lambda>tenant.
       case receipt_get jti (ic_receipts s) of
         None \<Rightarrow> Inl (NotFound ''receipt not found'')
       | Some r \<Rightarrow>
           if receipt_owner s r \<noteq> Some (ak_tenant_id tenant) then Inl (NotFound ''receipt not found'')
           else bind_result (serialized (gc_claims K (st_claims r))) (\<lambda>payload. Inr (st_jws r, st_kid r, payload)))"

record verify_receipt_response =
  vr_valid :: bool
  vr_kid :: string
  vr_reason :: string
  vr_payload_json :: string

definition grpc_verify_receipt ::
  "env \<Rightarrow> gateway \<Rightarrow> grpc_codec \<Rightarrow> metadata \<Rightarrow> string \<Rightarrow> string \<Rightarrow> icp \<Rightarrow> verify_receipt_response status" where
  "grpc_verify_receipt E G K md jws expected s =
     bind_result (grpc_tenant G md) (\<lambda>tenant.
       let kid = sn_kid (e_signer E) in
       case verify_receipt (e_sig_lib E) (e_signer E) jws (text_or None expected) of
         Inl reason \<Rightarrow> Inr \<lparr>vr_valid = False, vr_kid = kid, vr_reason = reason, vr_payload_json = []\<rparr>
       | Inr claims \<Rightarrow>
           if map_option txn_tenant_id (st_get (ic_txns s) (ri_transaction_id (rc_icp claims))) \<noteq> Some (ak_tenant_id tenant)
           then Inr \<lparr>vr_valid = False, vr_kid = kid, vr_reason = ''receipt does not belong to caller tenant'',
             vr_payload_json = []\<rparr>
           else bind_result (serialized (gc_claims K claims)) (\<lambda>payload.
             Inr \<lparr>vr_valid = True, vr_kid = kid, vr_reason = [], vr_payload_json = payload\<rparr>))"

definition grpc_get_mandate_usage :: "gateway \<Rightarrow> grpc_codec \<Rightarrow> metadata \<Rightarrow> string \<Rightarrow> icp \<Rightarrow> string status" where
  "grpc_get_mandate_usage G K md jti s =
     bind_result (grpc_tenant G md) (\<lambda>tenant.
       case try_usage_for_tenant (mem_usage (ic_ledger s) jti) (ak_tenant_id tenant) of
         None \<Rightarrow> Inl (NotFound ''mandate usage not found'')
       | Some u \<Rightarrow> serialized (gc_usage K (spent_minor u) (window_start u)))"

text \<open>The event stream: the request says which tenant; each event of the bus, with the state at the time
  it is received, becomes a message or is left out.\<close>

record event_message =
  em_id :: string
  em_type :: string
  em_transaction_id :: string
  em_occurred_at :: string
  em_payload_json :: string

definition stream_event :: "chrono \<Rightarrow> grpc_codec \<Rightarrow> string \<Rightarrow> icp \<Rightarrow> event \<Rightarrow> event_message option" where
  "stream_event C K tenant_id s ev =
     (if \<not> event_belongs_to_tenant s ev tenant_id then None
      else Some \<lparr>em_id = et_id ev, em_type = et_type ev,
        em_transaction_id = (case et_transaction_id ev of Some t \<Rightarrow> t | None \<Rightarrow> []),
        em_occurred_at = ch_to_rfc3339 C (et_occurred_at ev), em_payload_json = gc_payload K (et_payload ev)\<rparr>)"

definition grpc_stream_events ::
  "chrono \<Rightarrow> gateway \<Rightarrow> grpc_codec \<Rightarrow> metadata \<Rightarrow> (icp \<times> event) list \<Rightarrow> event_message list status" where
  "grpc_stream_events C G K md received =
     bind_result (grpc_tenant G md) (\<lambda>tenant.
       Inr (List.map_filter (\<lambda>(s, ev). stream_event C K (ak_tenant_id tenant) s ev) received))"

section \<open>Within one tenant\<close>

text \<open>The key a request presents, as a bearer token or bare, in either of two places.\<close>

lemma grpc_tenant_key:
  assumes "key_store_try_new ks = Inr (gw_keys G)" "grpc_tenant G md = Inr k"
  shows "k \<in> set ks \<and> extract_bearer_metadata md = Some (ak_key k) \<and> \<not> is_expired_at k (gw_now G)"
proof -
  obtain bearer where bearer: "extract_bearer_metadata md = Some bearer" "key_lookup bearer (gw_keys G) = Some k"
      "\<not> is_expired_at k (gw_now G)"
    using assms(2) by (auto simp: grpc_tenant_def authenticate_bearer_def split: option.splits if_splits)
  have "resolve_tenant [''authorization'' \<mapsto> ''Bearer '' @ bearer] (gw_keys G) (gw_now G) = Inr k"
    using bearer(2,3) strip_prefix_Some [of "''Bearer ''" "''Bearer '' @ bearer" bearer]
    by (simp add: resolve_tenant_def del: append_Cons)
  then show ?thesis
    using resolve_valid_keys [OF assms(1)] bearer by auto
qed

lemma grpc_submit_icp:
  assumes "grpc_submit_intent X G K md req sv = (r, sv')"
  shows "sv_icp sv' = sv_icp sv \<or> (\<exists>tenant inp key. grpc_tenant G md = Inr tenant \<and>
    grpc_input X G K tenant req = Inr (inp, key) \<and> sv_icp sv' = snd (handle_intent (xe_env X) inp (sv_icp sv)))"
  using assms
  by (auto simp: grpc_submit_intent_def split: prod.splits sum.splits rate_limit_decision.splits fault.splits
      dest!: idempotent_icp limits_keep)

lemma grpc_input_tenant:
  assumes "grpc_input X G K tenant req = Inr (inp, key)"
  shows "in_tenant inp = tenant \<and> permits_agent tenant (in_agent_raw inp) \<and> \<not> in_skip_mandate_check inp"
  using assms
  by (auto simp: grpc_input_def Let_def bind_result_def grpc_agent_allowed_def for_icp_def split: option.splits if_splits
      sum.splits)

end
