(* ===== verification/Server.thy ===== *)
theory Server
  imports Facades Mcp Grpc Tenant_Api
begin

text \<open>
  The handler as its clients see it: every entry point that can change a store (the routes of \<open>src/app.rs\<close> and
  the gRPC service), a request as a value, and the requests of all clients as one sequence. Its theorem says what
  the whole of it keeps apart: what a tenant owns is out of reach for requests without a key of that tenant.
\<close>

section \<open>Requests\<close>

record server_env =
  se_exec :: exec_env
  se_api :: api_env
  se_wire :: wire
  se_codec :: grpc_codec
  se_acp_enabled :: bool
  se_ucp_enabled :: bool
  se_mcp_enabled :: bool

abbreviation se_gateway :: "server_env \<Rightarrow> gateway" where
  "se_gateway V \<equiv> ap_gateway (se_api V)"

datatype request =
    Submit headers intent_envelope
  | Api headers api_call
  | Checkout headers compat_call
  | Rpc headers json_rpc_request
  | GrpcSubmit metadata intent_request

datatype response =
    Replied "reply exec"
  | ApiReplied "api_answer result"
  | CheckoutReplied "compat_answer exec"
  | RpcReplied "json_rpc_response exec"
  | GrpcReplied "intent_response status exec"
  | NotRouted

definition compat_enabled :: "server_env \<Rightarrow> compat_call \<Rightarrow> bool" where
  "compat_enabled V call = (case call of Acp _ \<Rightarrow> se_acp_enabled V | Ucp _ \<Rightarrow> se_ucp_enabled V)"

definition serve_request :: "server_env \<Rightarrow> request \<Rightarrow> service \<Rightarrow> response \<times> service" where
  "serve_request V req sv =
     (let X = se_exec V; G = se_gateway V in
      case req of
        Submit hs envelope \<Rightarrow> apfst Replied (submit_intent X G hs envelope sv)
      | Api hs call \<Rightarrow>
          (case serve_api (se_api V) hs call (sv_icp sv) of (r, s) \<Rightarrow> (ApiReplied r, sv\<lparr>sv_icp := s\<rparr>))
      | Checkout hs call \<Rightarrow>
          if compat_enabled V call then apfst CheckoutReplied (serve_compat (se_wire V) X G hs call sv)
          else (NotRouted, sv)
      | Rpc hs q \<Rightarrow> if se_mcp_enabled V then apfst RpcReplied (mcp_dispatch X G hs q sv) else (NotRouted, sv)
      | GrpcSubmit md q \<Rightarrow> apfst GrpcReplied (grpc_submit_intent X G (se_codec V) md q sv))"

fun run_server :: "(server_env \<times> request) list \<Rightarrow> service \<Rightarrow> service" where
  "run_server [] sv = sv"
| "run_server ((V, req) # rs) sv = run_server rs (snd (serve_request V req sv))"

section \<open>Who acts, and on what\<close>

definition bearer_of :: "headers \<Rightarrow> string option" where
  "bearer_of hs = Option.bind (hs ''authorization'') (strip_prefix ''Bearer '')"

definition presented_key :: "request \<Rightarrow> string option" where
  "presented_key req = (case req of
      Submit hs _ \<Rightarrow> bearer_of hs | Api hs _ \<Rightarrow> bearer_of hs | Checkout hs _ \<Rightarrow> bearer_of hs
    | Rpc hs _ \<Rightarrow> bearer_of hs | GrpcSubmit md _ \<Rightarrow> extract_bearer_metadata md)"

definition acts_for :: "api_key_info list \<Rightarrow> server_env \<Rightarrow> request \<Rightarrow> string \<Rightarrow> bool" where
  "acts_for ks V req T \<longleftrightarrow> (\<exists>k \<in> set ks. ak_tenant_id k = T \<and> presented_key req = Some (ak_key k) \<and>
     \<not> is_expired_at k (gw_now (se_gateway V)))"

text \<open>The identifiers a request may create: those it draws, and the one it names as a search, describe or quote.\<close>

definition request_ids :: "server_env \<Rightarrow> request \<Rightarrow> string set" where
  "request_ids V req = fresh_ids (xe_env (se_exec V)) \<union>
     (case req of
        Submit _ envelope \<Rightarrow> named_ids envelope
      | Api _ call \<Rightarrow> (case call of CreateSubscriber _ _ \<Rightarrow> {''whsub_'' @ ap_uuid (se_api V)} | _ \<Rightarrow> {})
      | Checkout _ _ \<Rightarrow> {}
      | Rpc _ q \<Rightarrow> call_ids (xe_env (se_exec V)) (jq_params q)
      | GrpcSubmit _ q \<Rightarrow>
          (case gc_envelope (se_codec V) (gi_payload_json q) of Inr envelope \<Rightarrow> named_ids envelope | Inl _ \<Rightarrow> {}))"

text \<open>Nothing of tenant \<open>T\<close> outside \<open>I\<close> is changed or gone, and nothing new is there in its name.\<close>

definition rows_kept :: "('v \<Rightarrow> string) \<Rightarrow> string \<Rightarrow> string set \<Rightarrow> (string, 'v) store \<Rightarrow> (string, 'v) store \<Rightarrow> bool" where
  "rows_kept owner T I m m' \<longleftrightarrow>
     (\<forall>k v. k \<notin> I \<longrightarrow> st_get m k = Some v \<longrightarrow> owner v = T \<longrightarrow> st_get m' k = Some v) \<and>
     (\<forall>k v. st_get m' k = Some v \<longrightarrow> owner v = T \<longrightarrow> st_get m k = Some v)"

definition tenant_kept :: "string \<Rightarrow> string set \<Rightarrow> icp \<Rightarrow> icp \<Rightarrow> bool" where
  "tenant_kept T I s s' \<longleftrightarrow>
     rows_kept txn_tenant_id T I (ic_txns s) (ic_txns s') \<and> rows_kept sub_tenant_id T I (ic_subs s) (ic_subs s') \<and>
     rows_kept pq_tenant_id T I (ic_quotes s) (ic_quotes s') \<and>
     rows_kept ws_tenant_id T I (ic_subscribers s) (ic_subscribers s')"

lemma rows_kept_refl: "rows_kept owner T I m m"
  by (simp add: rows_kept_def)

lemma rows_kept_trans:
  "rows_kept owner T I m m1 \<Longrightarrow> rows_kept owner T J m1 m2 \<Longrightarrow> rows_kept owner T (I \<union> J) m m2"
  unfolding rows_kept_def by blast

lemma rows_keptI:
  assumes "T \<noteq> T'" "I \<subseteq> J"
    and "\<forall>k v. k \<notin> I \<longrightarrow> st_get m k = Some v \<longrightarrow> owner v \<noteq> T' \<longrightarrow> st_get m' k = Some v"
    and "\<forall>k v. st_get m' k = Some v \<longrightarrow> owner v \<noteq> T' \<longrightarrow> st_get m k = Some v"
  shows "rows_kept owner T J m m'"
  using assms unfolding rows_kept_def by blast

lemma rows_kept_put:
  "\<forall>v'. st_get m k = Some v' \<longrightarrow> k \<in> I \<or> owner v' \<noteq> T \<Longrightarrow> owner v \<noteq> T \<Longrightarrow> rows_kept owner T I m (st_put k v m)"
  by (auto simp: rows_kept_def)

lemma rows_kept_remove:
  "\<forall>v'. st_get m k = Some v' \<longrightarrow> owner v' \<noteq> T \<Longrightarrow> rows_kept owner T I m (st_remove k m)"
  by (auto simp: rows_kept_def split: if_splits)

lemma tenant_kept_refl: "tenant_kept T I s s"
  by (simp add: tenant_kept_def rows_kept_refl)

lemma tenant_kept_trans:
  "tenant_kept T I s s1 \<Longrightarrow> tenant_kept T J s1 s2 \<Longrightarrow> tenant_kept T (I \<union> J) s s2"
  unfolding tenant_kept_def by (blast intro: rows_kept_trans)

section \<open>Every entry point keeps to its tenant\<close>

interpretation registry: step_property "\<lambda>s s'. ic_subscribers s' = ic_subscribers s" "call_step T I" for T I
proof
  show "call_step T I s s' \<Longrightarrow> ic_subscribers s' = ic_subscribers s" for s s' :: icp
    by (erule call_stepE, erule tenant_stepE) auto
qed simp_all

lemma steps_keep:
  assumes "call_steps T' I s s'" "T \<noteq> T'" "I \<subseteq> J"
  shows "tenant_kept T J s s'"
proof -
  note others = isolation.steps_property [OF assms(1), unfolded others_kept_def]
  note owners = ownership.steps_property [OF assms(1), unfolded owners_kept_def]
  have "rows_kept txn_tenant_id T J (ic_txns s) (ic_txns s')"
    by (rule rows_keptI [OF assms(2,3) others [THEN conjunct1] owners [THEN conjunct1]])
  moreover have "rows_kept sub_tenant_id T J (ic_subs s) (ic_subs s')"
    by (rule rows_keptI [OF assms(2,3) others [THEN conjunct2, THEN conjunct1] owners [THEN conjunct2, THEN conjunct1]])
  moreover have "rows_kept pq_tenant_id T J (ic_quotes s) (ic_quotes s')"
    by (rule rows_keptI [OF assms(2,3) others [THEN conjunct2, THEN conjunct2] owners [THEN conjunct2, THEN conjunct2]])
  ultimately show ?thesis
    using registry.steps_property [OF assms(1)] by (simp add: tenant_kept_def rows_kept_refl)
qed

lemma resolved_acts:
  assumes "key_store_try_new ks = Inr (gw_keys (se_gateway V))"
    and "resolve_tenant hs (gw_keys (se_gateway V)) (gw_now (se_gateway V)) = Inr k" "presented_key req = bearer_of hs"
  shows "acts_for ks V req (ak_tenant_id k)"
  using resolve_valid_keys [OF assms(1)] assms(2,3)
  by (auto simp: acts_for_def bearer_of_def strip_prefix_Some simp del: append_Cons)

text \<open>The administration calls write the outbox and the registry only, the latter on rows of the tenant.\<close>

lemma store_subscriber_kept:
  assumes "row_op i f op" "ak_tenant_id k \<noteq> T"
  shows "tenant_kept T I s (snd (own_subscriber k i (store_subscriber i op) s))"
  using assms
  by (auto simp: own_subscriber_def store_subscriber_def row_op_def tenant_kept_refl split: option.split)
    (auto simp: tenant_kept_def rows_kept_refl intro!: rows_kept_put)

lemma serve_api_kept:
  assumes "resolve_tenant hs (gw_keys (ap_gateway A)) (gw_now (ap_gateway A)) = Inr k" "ak_tenant_id k \<noteq> T"
    and "\<And>url secret. call = CreateSubscriber url secret \<Longrightarrow> ''whsub_'' @ ap_uuid A \<in> I"
  shows "tenant_kept T I s (snd (serve_api A hs call s))"
proof (cases call)
  case (CreateSubscriber url secret)
  have "rows_kept ws_tenant_id T I m (ws_insert x m)" if "ws_id x = ''whsub_'' @ ap_uuid A" "ws_tenant_id x \<noteq> T" for x m
    unfolding ws_insert_def using that assms(3) [OF CreateSubscriber] by (intro rows_kept_put) auto
  then show ?thesis
    using assms(1,2) unfolding CreateSubscriber
    by (auto simp: serve_api_def create_webhook_subscriber_def as_tenant_def tenant_kept_refl Let_def split: sum.split)
      (simp add: tenant_kept_def rows_kept_refl)
next
  case (UpdateSubscriber i url secret)
  obtain f where f: "row_op i f (ws_patch i (map_option trim url) (map_option trim secret) (ap_now A))"
    using patch_row by blast
  show ?thesis
    using assms(1) store_subscriber_kept [OF f assms(2)] unfolding UpdateSubscriber
    by (auto simp: serve_api_def update_webhook_subscriber_def as_tenant_def tenant_kept_refl split: sum.split)
next
  case (EnableSubscriber i)
  obtain f where f: "row_op i f (ws_set_active i True (ap_now A))" using active_row by blast
  show ?thesis
    using assms(1) store_subscriber_kept [OF f assms(2)] unfolding EnableSubscriber
    by (simp add: serve_api_def set_webhook_subscriber_active_def as_tenant_def)
next
  case (DisableSubscriber i)
  obtain f where f: "row_op i f (ws_set_active i False (ap_now A))" using active_row by blast
  show ?thesis
    using assms(1) store_subscriber_kept [OF f assms(2)] unfolding DisableSubscriber
    by (simp add: serve_api_def set_webhook_subscriber_active_def as_tenant_def)
next
  case (DeleteSubscriber i)
  show ?thesis
    using assms(1,2) unfolding DeleteSubscriber
    by (auto simp: serve_api_def delete_webhook_subscriber_def as_tenant_def own_subscriber_def ws_delete_def
        tenant_kept_refl split: option.split)
      (auto simp: tenant_kept_def rows_kept_refl intro!: rows_kept_remove)
next
  case (RetryDelivery i)
  show ?thesis
    using assms(1) unfolding RetryDelivery
    by (auto simp: serve_api_def retry_webhook_delivery_def as_tenant_def tenant_kept_def rows_kept_refl split: prod.split)
qed (auto simp: serve_api_def tenant_kept_refl)

text \<open>One intent of the tenant of a key the request presents.\<close>

lemma intent_kept:
  assumes "icp_ok (sv_icp sv)" "sv_icp sv' = sv_icp sv \<or> sv_icp sv' = snd (handle_intent E inp (sv_icp sv))"
    and "T \<noteq> in_tenant_id inp" "new_ids E inp \<subseteq> J"
  shows "tenant_kept T J (sv_icp sv) (sv_icp sv') \<and> icp_ok (sv_icp sv')"
  using assms(2)
proof
  assume ran: "sv_icp sv' = snd (handle_intent E inp (sv_icp sv))"
  show ?thesis
    using steps_keep [OF handle_intent_steps [OF assms(1) surjective_pairing] assms(3,4)]
      handle_intent_ok [OF assms(1) surjective_pairing, of E inp]
    by (simp add: ran)
qed (simp add: assms(1) tenant_kept_refl)

lemma submit_kept:
  assumes "icp_ok (sv_icp sv)" "key_store_try_new ks = Inr (gw_keys (se_gateway V))"
    and "\<not> acts_for ks V (Submit hs envelope) T"
    and "submit_intent (se_exec V) (se_gateway V) hs envelope sv = (r, sv')"
  shows "tenant_kept T (request_ids V (Submit hs envelope)) (sv_icp sv) (sv_icp sv') \<and> icp_ok (sv_icp sv')"
proof (cases "sv_icp sv' = sv_icp sv")
  case True
  then show ?thesis by (simp add: tenant_kept_refl assms(1))
next
  case False
  obtain tenant agent where run: "authenticate (se_gateway V) hs = Inr (tenant, agent)"
      "sv_icp sv' = snd (handle_intent (xe_env (se_exec V)) (submit_input (se_gateway V) hs envelope tenant agent) (sv_icp sv))"
    using submit_intent_icp [OF assms(4)] False by blast
  have "resolve_tenant hs (gw_keys (se_gateway V)) (gw_now (se_gateway V)) = Inr tenant"
    using run(1) by (auto simp: authenticate_def bind_result_def split: sum.splits)
  from resolved_acts [OF assms(2) this, where req = "Submit hs envelope"] have "T \<noteq> ak_tenant_id tenant"
    using assms(3) by (auto simp: presented_key_def)
  then show ?thesis
    using run(2) by (intro intent_kept [OF assms(1)])
      (auto simp: submit_input_def for_icp_def request_ids_def new_ids_def fresh_ids_def)
qed

lemma checkout_kept:
  assumes "icp_ok (sv_icp sv)" "key_store_try_new ks = Inr (gw_keys (se_gateway V))"
    and "body_shows_txn (wi_time (se_wire V)) (xe_env (se_exec V))"
    and "\<not> acts_for ks V (Checkout hs call) T"
    and "serve_compat (se_wire V) (se_exec V) (se_gateway V) hs call sv = (r, sv')"
  shows "tenant_kept T (request_ids V (Checkout hs call)) (sv_icp sv) (sv_icp sv') \<and> icp_ok (sv_icp sv')"
proof -
  let ?E = "xe_env (se_exec V)" and ?G = "se_gateway V"
  have "sv' = sv \<or> (\<exists>k \<in> set ks. hs ''authorization'' = Some (''Bearer '' @ ak_key k) \<and> \<not> is_expired_at k (gw_now ?G) \<and>
      call_steps (ak_tenant_id k) (fresh_ids ?E) (sv_icp sv) (sv_icp sv') \<and> icp_ok (sv_icp sv'))"
    using facade_steps [OF assms(1-3,5)] by blast
  then show ?thesis
  proof
    assume "\<exists>k \<in> set ks. hs ''authorization'' = Some (''Bearer '' @ ak_key k) \<and> \<not> is_expired_at k (gw_now ?G) \<and>
      call_steps (ak_tenant_id k) (fresh_ids ?E) (sv_icp sv) (sv_icp sv') \<and> icp_ok (sv_icp sv')"
    then obtain k where k: "k \<in> set ks" "hs ''authorization'' = Some (''Bearer '' @ ak_key k)"
        "\<not> is_expired_at k (gw_now ?G)" "call_steps (ak_tenant_id k) (fresh_ids ?E) (sv_icp sv) (sv_icp sv')"
        "icp_ok (sv_icp sv')"
      by blast
    have "resolve_tenant hs (gw_keys ?G) (gw_now ?G) = Inr k"
      using resolve_valid_keys [OF assms(2)] k(1-3) by blast
    from resolved_acts [OF assms(2) this, where req = "Checkout hs call"] have "T \<noteq> ak_tenant_id k"
      using assms(4) by (auto simp: presented_key_def)
    from steps_keep [OF k(4) this] show ?thesis
      using k(5) by (simp add: request_ids_def)
  qed (simp add: tenant_kept_refl assms(1))
qed

lemma rpc_kept:
  assumes "icp_ok (sv_icp sv)" "key_store_try_new ks = Inr (gw_keys (se_gateway V))"
    and "\<not> acts_for ks V (Rpc hs q) T"
    and "mcp_dispatch (se_exec V) (se_gateway V) hs q sv = (r, sv')"
  shows "tenant_kept T (request_ids V (Rpc hs q)) (sv_icp sv) (sv_icp sv') \<and> icp_ok (sv_icp sv')"
  using dispatch_confined [OF assms(1,4)]
proof
  assume "\<exists>tenant agent. mcp_tenant (se_gateway V) hs = Inr (tenant, agent) \<and>
    call_steps (ak_tenant_id tenant) (call_ids (xe_env (se_exec V)) (jq_params q)) (sv_icp sv) (sv_icp sv') \<and> icp_ok (sv_icp sv')"
  then obtain k agent where k: "mcp_tenant (se_gateway V) hs = Inr (k, agent)"
      "call_steps (ak_tenant_id k) (call_ids (xe_env (se_exec V)) (jq_params q)) (sv_icp sv) (sv_icp sv')" "icp_ok (sv_icp sv')"
    by blast
  from resolved_acts [OF assms(2) mcp_tenant_key [OF k(1), THEN conjunct1], where req = "Rpc hs q"]
  have "T \<noteq> ak_tenant_id k"
    using assms(3) by (auto simp: presented_key_def)
  from steps_keep [OF k(2) this] show ?thesis
    using k(3) by (simp add: request_ids_def)
qed (simp add: tenant_kept_refl assms(1))

lemma grpc_kept:
  assumes "icp_ok (sv_icp sv)" "key_store_try_new ks = Inr (gw_keys (se_gateway V))"
    and "\<not> acts_for ks V (GrpcSubmit md q) T"
    and "grpc_submit_intent (se_exec V) (se_gateway V) (se_codec V) md q sv = (r, sv')"
  shows "tenant_kept T (request_ids V (GrpcSubmit md q)) (sv_icp sv) (sv_icp sv') \<and> icp_ok (sv_icp sv')"
  using grpc_submit_icp [OF assms(4)]
proof
  assume "\<exists>tenant inp key. grpc_tenant (se_gateway V) md = Inr tenant \<and>
    grpc_input (se_exec V) (se_gateway V) (se_codec V) tenant q = Inr (inp, key) \<and>
    sv_icp sv' = snd (handle_intent (xe_env (se_exec V)) inp (sv_icp sv))"
  then obtain k inp key where k: "grpc_tenant (se_gateway V) md = Inr k"
      "grpc_input (se_exec V) (se_gateway V) (se_codec V) k q = Inr (inp, key)"
      "sv_icp sv' = snd (handle_intent (xe_env (se_exec V)) inp (sv_icp sv))"
    by blast
  have "T \<noteq> ak_tenant_id k"
    using grpc_tenant_key [OF assms(2) k(1)] assms(3) by (auto simp: acts_for_def presented_key_def)
  moreover have "gc_envelope (se_codec V) (gi_payload_json q) = Inr (in_envelope inp)"
    using k(2) by (auto simp: grpc_input_def Let_def bind_result_def for_icp_def split: option.splits if_splits sum.splits)
  ultimately show ?thesis
    using k(3) grpc_input_tenant [OF k(2)] by (intro intent_kept [OF assms(1)]) (auto simp: request_ids_def new_ids_def fresh_ids_def)
qed (simp add: tenant_kept_refl assms(1))

lemma serve_api_well_formed: "icp_ok s \<Longrightarrow> icp_ok (snd (serve_api A hs call s))"
proof -
  have "ic_txns s' = ic_txns s \<and> ic_subs s' = ic_subs s \<and> ic_quotes s' = ic_quotes s"
    if "serve_api A hs call s = (r, s')" for r s'
    using that
    by (cases call)
      (auto simp: serve_api_def retry_webhook_delivery_def create_webhook_subscriber_def update_webhook_subscriber_def
        set_webhook_subscriber_active_def delete_webhook_subscriber_def as_tenant_def own_subscriber_def store_subscriber_def
        Let_def split: sum.splits prod.splits option.splits if_splits)
  from this [OF surjective_pairing] show "icp_ok s \<Longrightarrow> icp_ok (snd (serve_api A hs call s))"
    by (simp add: icp_ok_def)
qed

lemma api_kept:
  assumes "icp_ok s" "key_store_try_new ks = Inr (gw_keys (se_gateway V))" "\<not> acts_for ks V (Api hs call) T"
  shows "tenant_kept T (request_ids V (Api hs call)) s (snd (serve_api (se_api V) hs call s)) \<and>
    icp_ok (snd (serve_api (se_api V) hs call s))"
proof (cases "resolve_tenant hs (gw_keys (se_gateway V)) (gw_now (se_gateway V))")
  case (Inl e)
  then show ?thesis using serve_unauthenticated [OF Inl] by (simp add: tenant_kept_refl assms(1))
next
  case (Inr k)
  have "ak_tenant_id k \<noteq> T"
    using resolved_acts [OF assms(2) Inr, where req = "Api hs call"] assms(3) by (auto simp: presented_key_def)
  from serve_api_kept [OF Inr this] serve_api_well_formed [OF assms(1)] show ?thesis
    by (simp add: request_ids_def)
qed

lemma request_kept:
  assumes "icp_ok (sv_icp sv)" "key_store_try_new ks = Inr (gw_keys (se_gateway V))"
    and "body_shows_txn (wi_time (se_wire V)) (xe_env (se_exec V))" "\<not> acts_for ks V req T"
  shows "tenant_kept T (request_ids V req) (sv_icp sv) (sv_icp (snd (serve_request V req sv))) \<and>
    icp_ok (sv_icp (snd (serve_request V req sv)))"
proof (cases req)
  case (Submit hs envelope)
  show ?thesis
    using submit_kept [OF assms(1,2) assms(4) [unfolded Submit] surjective_pairing] by (simp add: serve_request_def Submit)
next
  case (Api hs call)
  show ?thesis
    using api_kept [OF assms(1,2) assms(4) [unfolded Api]]
    by (simp add: serve_request_def Api Let_def case_prod_beta)
next
  case (Checkout hs call)
  show ?thesis
    using checkout_kept [OF assms(1-3) assms(4) [unfolded Checkout] surjective_pairing]
    by (simp add: serve_request_def Checkout tenant_kept_refl assms(1))
next
  case (Rpc hs q)
  show ?thesis
    using rpc_kept [OF assms(1,2) assms(4) [unfolded Rpc] surjective_pairing]
    by (simp add: serve_request_def Rpc tenant_kept_refl assms(1))
next
  case (GrpcSubmit md q)
  show ?thesis
    using grpc_kept [OF assms(1,2) assms(4) [unfolded GrpcSubmit] surjective_pairing] by (simp add: serve_request_def GrpcSubmit)
qed

section \<open>Properties\<close>

text \<open>
  C24. Tenant isolation of the whole server: over any sequence of requests on any of the entry points (HTTP intents,
  queries and administration, both checkout facades, MCP, gRPC), at any times and under any backend failures, none of
  which presents an unexpired key of tenant \<open>T\<close>, every transaction, subscription, peer quote and webhook registration of
  \<open>T\<close> stays as it was, and none appears in its name. Excepted from the first part are the \<open>request_ids\<close>: the transaction
  that a search, describe or quote names, which the handler replaces whoever owns it
  (\<open>search_overwrites_foreign_transaction\<close>), and the fresh identifiers that a request draws. The statement is about these
  four stores; receipts, the webhook outbox, the event bus and the usage of mandates are not in it.
\<close>

theorem server_isolates_tenants:
  assumes "icp_ok (sv_icp sv)"
    and "\<forall>(V, req) \<in> set rs. key_store_try_new ks = Inr (gw_keys (se_gateway V)) \<and>
      body_shows_txn (wi_time (se_wire V)) (xe_env (se_exec V)) \<and> \<not> acts_for ks V req T"
  shows "tenant_kept T (\<Union>(V, req) \<in> set rs. request_ids V req) (sv_icp sv) (sv_icp (run_server rs sv))"
  using assms
proof (induction rs arbitrary: sv)
  case (Cons x rs)
  obtain V req where x: "x = (V, req)" by (cases x)
  let ?sv1 = "snd (serve_request V req sv)"
  have first: "tenant_kept T (request_ids V req) (sv_icp sv) (sv_icp ?sv1) \<and> icp_ok (sv_icp ?sv1)"
    using Cons.prems by (intro request_kept [where ks = ks]) (auto simp: x)
  then have "tenant_kept T (\<Union>(V, req) \<in> set rs. request_ids V req) (sv_icp ?sv1) (sv_icp (run_server rs ?sv1))"
    using Cons.prems by (intro Cons.IH) auto
  from tenant_kept_trans [OF first [THEN conjunct1] this] show ?case
    by (simp add: x)
qed (simp add: tenant_kept_refl)

text \<open>A purchase by one tenant, seen by another, and an attempt without a key on each of the other entry points.\<close>

definition demo_server :: "intent_response_body \<Rightarrow> server_env" where
  "demo_server b = \<lparr>se_exec = compat_exec b, se_api = demo_api, se_wire = demo_wire,
     se_codec = \<lparr>gc_envelope = \<lambda>_. Inr demo_envelope, gc_body = \<lambda>_. Inr [], gc_txn = \<lambda>_. Inr [], gc_claims = \<lambda>_. Inr [],
       gc_usage = \<lambda>_ _. Inr [], gc_payload = \<lambda>_. []\<rparr>,
     se_acp_enabled = True, se_ucp_enabled = True, se_mcp_enabled = True\<rparr>"

definition stray_requests :: "request list" where
  "stray_requests = [Submit Map.empty demo_envelope, Api Map.empty (DeleteSubscriber ''w''), Checkout Map.empty demo_completion,
     Rpc Map.empty \<lparr>jq_jsonrpc = ''2.0'', jq_id = None, jq_method = ''tools/call'', jq_params = None\<rparr>]"

theorem server_isolates_tenants_witness:
  "\<forall>b. (let rs = map (Pair (demo_server b)) (Checkout demo_headers demo_completion # stray_requests);
          s' = sv_icp (run_server rs compat_service)
        in tenant_kept ''other'' (\<Union>(V, req) \<in> set rs. request_ids V req) compat_state s') \<and>
     (let rs = map (Pair (demo_server b)) stray_requests
      in tenant_kept ''merchant_demo'' (\<Union>(V, req) \<in> set rs. request_ids V req) compat_state
        (sv_icp (run_server rs compat_service)))"
proof
  fix b
  have keys: "key_store_try_new [demo_api_key] = Inr (gw_keys (se_gateway (demo_server b)))"
    using demo_key_valid by (simp add: demo_server_def demo_api_def demo_gateway_def)
  have laws: "body_shows_txn (wi_time (se_wire (demo_server b))) (xe_env (se_exec (demo_server b)))"
    using compat_env_laws(1) by (simp add: demo_server_def)
  have start: "sv_icp compat_service = compat_state" by (simp add: compat_service_def)
  have stray: "\<not> acts_for [demo_api_key] (demo_server b) req T" if "req \<in> set stray_requests" for req T
    using that by (auto simp: stray_requests_def acts_for_def presented_key_def bearer_of_def)
  have other: "\<not> acts_for [demo_api_key] (demo_server b) req ''other''" for req
    by (simp add: acts_for_def demo_api_key_def)
  show "(let rs = map (Pair (demo_server b)) (Checkout demo_headers demo_completion # stray_requests);
          s' = sv_icp (run_server rs compat_service)
        in tenant_kept ''other'' (\<Union>(V, req) \<in> set rs. request_ids V req) compat_state s') \<and>
     (let rs = map (Pair (demo_server b)) stray_requests
      in tenant_kept ''merchant_demo'' (\<Union>(V, req) \<in> set rs. request_ids V req) compat_state
        (sv_icp (run_server rs compat_service)))"
    using server_isolates_tenants [OF compat_state_ok, where ks = "[demo_api_key]" and T = "''other''" and
        rs = "map (Pair (demo_server b)) (Checkout demo_headers demo_completion # stray_requests)"]
      server_isolates_tenants [OF compat_state_ok, where ks = "[demo_api_key]" and T = "''merchant_demo''" and
        rs = "map (Pair (demo_server b)) stray_requests"] keys laws stray other
    unfolding Let_def start by (auto simp del: run_server.simps)
qed

end
