(* ===== verification/Lifecycle.thy ===== *)
theory Lifecycle
  imports Subscriptions Access State_Store
begin

text \<open>
  The background ticks (\<open>src/service/lifecycle.rs\<close>, driven by \<open>src/scheduler.rs\<close>): the renewal of due
  subscriptions with its dunning schedule, and the expiry of stale transactions and peer quotes.
  A tick settles the aggregates that were due when it started, one after the other; each
  iteration has an environment of its own. \<open>ts\<close> is the JSON form of an instant.
\<close>

section \<open>Renewals\<close>

definition max_renewal_failures :: u32 where
  "max_renewal_failures = 3"

definition dunning_max_attempts :: "config \<Rightarrow> u32" where
  "dunning_max_attempts c =
     (let schedule = cf_subscription_dunning_schedule_hours c
      in if schedule = [] then max_renewal_failures else sat_inc_u32 (of_nat (length schedule)))"

definition dunning_next_attempt :: "config \<Rightarrow> u32 \<Rightarrow> time \<Rightarrow> time option" where
  "dunning_next_attempt c failure_count now =
     (let schedule = cf_subscription_dunning_schedule_hours c
      in if schedule = [] then None
         else if failure_count = 0 then None
         else let idx = unat (failure_count - 1)
              in if idx < length schedule then Some (now + hours (int (unat (schedule ! idx)))) else None)"

definition scheduler_input :: "env \<Rightarrow> subscription \<Rightarrow> intent_input" where
  "scheduler_input E sub = for_compat
     \<lparr>en_intent = wire_name IRenew, en_intent_id = None, en_transaction_id = None,
      en_agent_id = sub_agent_id sub, en_mandate_jti = sub_mandate_jti sub, en_params = JNull,
      en_context = intent_context_default\<rparr>
     (parse_agent (sub_agent_id sub))
     \<lparr>ak_key = [], ak_tenant_id = sub_tenant_id sub, ak_name = ''subscription-scheduler'',
      ak_rate_limit_per_minute = None, ak_allowed_agents = None, ak_expires_at = None\<rparr>
     (''req_'' @ e_uuid E 0) None"

definition scheduler_charge :: "env \<Rightarrow> subscription \<Rightarrow> (transaction \<times> order_summary option) handler" where
  "scheduler_charge E sub =
     (case sub_payment_instrument sub of
        Some (A2A _ _) \<Rightarrow> raise (PreconditionFailed ''A2A payment instruments cannot be auto-renewed'')
      | _ \<Rightarrow> run_subscription_charge E (e_now E 0) (e_uuid E 1) (scheduler_input E sub) (sub_buyer sub)
               (sub_ship_to sub) (sub_items sub) (sub_currency sub))"

text \<open>The updates of a renewed and of a failed subscription \<open>x\<close>, from the snapshot \<open>sub\<close> of it.\<close>

definition auto_renewed :: "chrono \<Rightarrow> time \<Rightarrow> subscription \<Rightarrow> string \<Rightarrow> subscription \<Rightarrow> subscription" where
  "auto_renewed C now sub charge_id x =
     (let start = sub_current_period_end sub;
          until = period_advance (ch_add_months C) start (sub_cadence sub);
          x1 = (if sub_status x = Trialing then x\<lparr>sub_status := Active, sub_trial_end := None\<rparr> else x)
      in x1\<lparr>sub_current_period_start := start, sub_current_period_end := until, sub_next_charge_at := until,
            sub_charges_completed := sat_inc_u32 (sub_charges_completed sub),
            sub_last_transaction_id := Some charge_id, sub_failed_renewal_attempts := 0, sub_updated_at := now\<rparr>)"

definition dunned :: "config \<Rightarrow> time \<Rightarrow> subscription \<Rightarrow> subscription \<Rightarrow> subscription" where
  "dunned c now sub x =
     (let count = sat_inc_u32 (sub_failed_renewal_attempts sub);
          x1 = x\<lparr>sub_failed_renewal_attempts := count\<rparr>;
          x2 = (if dunning_max_attempts c \<le> count then x1\<lparr>sub_status := PastDue\<rparr>
                else case dunning_next_attempt c count now of
                  Some nx \<Rightarrow> x1\<lparr>sub_next_charge_at := nx\<rparr> | None \<Rightarrow> x1)
      in x2\<lparr>sub_updated_at := now\<rparr>)"

definition opt_json :: "('a \<Rightarrow> json) \<Rightarrow> 'a option \<Rightarrow> json" where
  "opt_json f x = (case x of Some v \<Rightarrow> f v | None \<Rightarrow> JNull)"

definition renewed_event ::
  "env \<Rightarrow> (time \<Rightarrow> json) \<Rightarrow> time \<Rightarrow> subscription \<Rightarrow> transaction \<Rightarrow> order_summary option \<Rightarrow> event" where
  "renewed_event E ts now sub txn order =
     (let until = period_advance (ch_add_months (e_chrono E)) (sub_current_period_end sub) (sub_cadence sub) in
     \<lparr>et_id = ''evt_'' @ e_uuid E 2, et_type = ''subscription.renewed'', et_transaction_id = Some (txn_id txn),
      et_order_id = (case order of Some o1 \<Rightarrow> Some (os_id o1) | None \<Rightarrow> txn_order_id txn),
      et_agent_id = Some (sub_agent_id sub), et_occurred_at = now,
      et_payload = JObj
        [(''subscription_id'', JStr (sub_id sub)), (''automatic'', JBool True), (''transaction_id'', JStr (txn_id txn)),
         (''cycle_number'', JInt (int (unat (sat_inc_u32 (sub_charges_completed sub))))),
         (''current_period_start'', ts (sub_current_period_end sub)), (''current_period_end'', ts until),
         (''next_charge_at'', ts until),
         (''amount_minor'', opt_json (\<lambda>m. JInt (amount_minor m)) (to_total (txn_totals txn))),
         (''currency'', JStr (case to_total (txn_totals txn) of Some m \<Rightarrow> money_currency m | None \<Rightarrow> txn_currency txn))]\<rparr>)"

definition past_due_event ::
  "env \<Rightarrow> (time \<Rightarrow> json) \<Rightarrow> time \<Rightarrow> subscription \<Rightarrow> subscription \<Rightarrow> api_error \<Rightarrow> event" where
  "past_due_event E ts now sub updated err =
     (let attempts = JInt (int (unat (sub_failed_renewal_attempts updated))) in
     \<lparr>et_id = ''evt_'' @ e_uuid E 2, et_type = ''subscription.past_due'', et_transaction_id = None,
      et_order_id = None, et_agent_id = Some (sub_agent_id sub), et_occurred_at = now,
      et_payload = JObj
        [(''subscription_id'', JStr (sub_id sub)), (''consecutive_failures'', attempts), (''attempts_made'', attempts),
         (''last_error'', JStr (display_error err)), (''last_attempt_at'', ts now),
         (''next_action'', JStr ''manual_renewal_required'')]\<rparr>)"

text \<open>An event of the background is queued for the tenant and put on the bus.\<close>

definition announce :: "env \<Rightarrow> event \<Rightarrow> string \<Rightarrow> unit handler" where
  "announce E ev tenant =
     andthen (enqueue_webhook E (e_now E 1) (\<lambda>k. e_uuid E (3 + k)) ev (Some tenant)) (\<lambda>_. emit ev)"

record scheduler_tick_report =
  st_scanned :: nat
  st_due :: nat
  st_renewed :: nat
  st_failed :: nat
  st_past_due :: nat

text \<open>An error of the charge is a value; a panic is not caught.\<close>

definition attempt :: "'a handler \<Rightarrow> (api_error + 'a) handler" where
  "attempt m = (\<lambda>s. case m s of
      (Inl (Fail e), s') \<Rightarrow> (Inr (Inl e), s')
    | (Inl Panic, s') \<Rightarrow> (Inl Panic, s')
    | (Inr x, s') \<Rightarrow> (Inr (Inr x), s'))"

definition settle_due ::
  "env \<Rightarrow> (time \<Rightarrow> json) \<Rightarrow> time \<Rightarrow> subscription \<Rightarrow> scheduler_tick_report \<Rightarrow> scheduler_tick_report handler" where
  "settle_due E ts now sub rep =
     andthen (attempt (scheduler_charge E sub)) (\<lambda>charge.
     case charge of
       Inr (txn, order) \<Rightarrow>
         andthen (sub_update (sub_id sub) (auto_renewed (e_chrono E) now sub (txn_id txn))) (\<lambda>_.
         andthen (announce E (renewed_event E ts now sub txn order) (sub_tenant_id sub)) (\<lambda>_.
           ret (rep\<lparr>st_renewed := Suc (st_renewed rep)\<rparr>)))
     | Inl err \<Rightarrow>
         andthen (sub_update (sub_id sub) (dunned (e_cfg E) now sub)) (\<lambda>updated.
         case updated of
           Some x \<Rightarrow>
             if sub_status x = PastDue then
               andthen (announce E (past_due_event E ts now sub x err) (sub_tenant_id sub)) (\<lambda>_.
                 ret (rep\<lparr>st_past_due := Suc (st_past_due rep), st_failed := Suc (st_failed rep)\<rparr>))
             else ret (rep\<lparr>st_failed := Suc (st_failed rep)\<rparr>)
         | None \<Rightarrow> ret (rep\<lparr>st_failed := Suc (st_failed rep)\<rparr>)))"

fun settle_all ::
  "(nat \<Rightarrow> env) \<Rightarrow> (time \<Rightarrow> json) \<Rightarrow> time \<Rightarrow> nat \<Rightarrow> subscription list \<Rightarrow> scheduler_tick_report
     \<Rightarrow> scheduler_tick_report handler" where
  "settle_all Es ts now i [] rep = ret rep"
| "settle_all Es ts now i (sub # subs) rep =
     andthen (settle_due (Es i) ts now sub rep) (\<lambda>rep'. settle_all Es ts now (Suc i) subs rep')"

definition tick_subscriptions ::
  "(nat \<Rightarrow> env) \<Rightarrow> (time \<Rightarrow> json) \<Rightarrow> time \<Rightarrow> scheduler_tick_report handler" where
  "tick_subscriptions Es ts now =
     andthen (asks (\<lambda>s. (mem_list_due (sub_due now) (ic_subs s), length (ic_subs s)))) (\<lambda>(due, total).
       settle_all Es ts now 0 due
         \<lparr>st_scanned = total, st_due = length due, st_renewed = 0, st_failed = 0, st_past_due = 0\<rparr>)"

section \<open>Expiries\<close>

record expiry_tick_report =
  xt_transactions_expired :: nat
  xt_peer_quotes_expired :: nat

definition txn_expired_event :: "env \<Rightarrow> (time \<Rightarrow> json) \<Rightarrow> time \<Rightarrow> transaction \<Rightarrow> event" where
  "txn_expired_event E ts now txn =
     \<lparr>et_id = ''evt_'' @ e_uuid E 2, et_type = ''transaction.expired'', et_transaction_id = Some (txn_id txn),
      et_order_id = None, et_agent_id = Some (txn_agent_id txn), et_occurred_at = now,
      et_payload = JObj
        [(''transaction_id'', JStr (txn_id txn)), (''expired_at'', ts now),
         (''previous_state'', JStr (transaction_state_wire_name (txn_state txn))),
         (''quote_expires_at'', opt_json ts (txn_quote_expires_at txn)),
         (''buyer_email'', opt_json JStr (by_email (txn_buyer txn))),
         (''amount_minor'', opt_json (\<lambda>m. JInt (amount_minor m)) (to_total (txn_totals txn))),
         (''currency'', JStr (case to_total (txn_totals txn) of Some m \<Rightarrow> money_currency m | None \<Rightarrow> txn_currency txn)),
         (''next_action'', JStr ''re_quote_required'')]\<rparr>"

definition quote_expired_event :: "env \<Rightarrow> (time \<Rightarrow> json) \<Rightarrow> time \<Rightarrow> peer_quote \<Rightarrow> event" where
  "quote_expired_event E ts now q =
     \<lparr>et_id = ''evt_'' @ e_uuid E 2, et_type = ''peer_quote.expired'', et_transaction_id = None,
      et_order_id = None, et_agent_id = Some (pq_requester_agent_id q), et_occurred_at = now,
      et_payload = JObj
        [(''peer_quote_id'', JStr (pq_id q)), (''expired_at'', ts now),
         (''previous_status'', JStr (peer_quote_status_wire_name (pq_status q))),
         (''requester_agent_id'', JStr (pq_requester_agent_id q)), (''peer_agent_id'', JStr (pq_peer_agent_id q)),
         (''service_kind'', JStr (a2a_service_kind_wire_name (as_kind (pq_service q)))),
         (''price_amount_minor'', opt_json (\<lambda>m. JInt (amount_minor m)) (pq_price q)),
         (''price_currency'', opt_json (\<lambda>m. JStr (money_currency m)) (pq_price q)),
         (''next_action'', JStr ''re_quote_required'')]\<rparr>"

definition expired_txn :: "time \<Rightarrow> transaction \<Rightarrow> transaction" where
  "expired_txn now t = t\<lparr>txn_state := Expired, txn_updated_at := now\<rparr>"

definition expired_quote :: "time \<Rightarrow> peer_quote \<Rightarrow> peer_quote" where
  "expired_quote now q = q\<lparr>pq_status := PqExpired, pq_updated_at := now\<rparr>"

fun expire_txns :: "(nat \<Rightarrow> env) \<Rightarrow> (time \<Rightarrow> json) \<Rightarrow> time \<Rightarrow> nat \<Rightarrow> transaction list \<Rightarrow> unit handler" where
  "expire_txns Es ts now i [] = ret ()"
| "expire_txns Es ts now i (txn # txns) =
     andthen (txn_update (txn_id txn) (expired_txn now)) (\<lambda>_.
     andthen (announce (Es i) (txn_expired_event (Es i) ts now txn) (txn_tenant_id txn)) (\<lambda>_.
       expire_txns Es ts now (Suc i) txns))"

fun expire_quotes :: "(nat \<Rightarrow> env) \<Rightarrow> (time \<Rightarrow> json) \<Rightarrow> time \<Rightarrow> nat \<Rightarrow> peer_quote list \<Rightarrow> unit handler" where
  "expire_quotes Es ts now i [] = ret ()"
| "expire_quotes Es ts now i (q # qs) =
     andthen (quote_update (pq_id q) (expired_quote now)) (\<lambda>_.
     andthen (announce (Es i) (quote_expired_event (Es i) ts now q) (pq_tenant_id q)) (\<lambda>_.
       expire_quotes Es ts now (Suc i) qs))"

definition tick_expiries :: "(nat \<Rightarrow> env) \<Rightarrow> (time \<Rightarrow> json) \<Rightarrow> time \<Rightarrow> expiry_tick_report handler" where
  "tick_expiries Es ts now =
     andthen (asks (\<lambda>s. mem_list_due (txn_due now) (ic_txns s))) (\<lambda>txns.
     andthen (expire_txns Es ts now 0 txns) (\<lambda>_.
     andthen (asks (\<lambda>s. mem_list_due (quote_due now) (ic_quotes s))) (\<lambda>qs.
     andthen (expire_quotes Es ts now (length txns) qs) (\<lambda>_.
       ret \<lparr>xt_transactions_expired = length txns, xt_peer_quotes_expired = length qs\<rparr>))))"

section \<open>What a tick does\<close>

lemma announce_run:
  "\<exists>ob. announce E ev tenant s = (Inr (), s\<lparr>ic_outbox := ob, ic_bus := ic_bus s @ [ev]\<rparr>)"
  by (simp add: announce_def enqueue_webhook_def emit_def modify_def andthen_def Let_def) blast

text \<open>Whether a charge succeeds does not depend on the stores; it adds its transaction only.\<close>

lemma scheduler_charge_run:
  "(\<exists>e. \<forall>s. scheduler_charge E sub s = (Inl (Fail e), s)) \<or>
   (\<exists>t o1. (\<forall>s. scheduler_charge E sub s = (Inr (t, o1), s\<lparr>ic_txns := st_put (txn_id t) t (ic_txns s)\<rparr>)) \<and>
      txn_state t = Completed \<and> txn_tenant_id t = sub_tenant_id sub \<and>
      (\<exists>ls. price_request_items (sub_items sub) (sub_currency sub) ''subscription.items'' = Inr (ls, txn_totals t)))"
proof (cases "\<exists>x y. sub_payment_instrument sub = Some (A2A x y)")
  case True
  then show ?thesis by (auto simp: scheduler_charge_def raise_def)
next
  case False
  then have run: "scheduler_charge E sub = run_subscription_charge E (e_now E 0) (e_uuid E 1) (scheduler_input E sub)
      (sub_buyer sub) (sub_ship_to sub) (sub_items sub) (sub_currency sub)"
    by (auto simp: scheduler_charge_def split: option.splits payment_instrument.splits)
  show ?thesis
  proof (cases "price_request_items (sub_items sub) (sub_currency sub) ''subscription.items''")
    case (Inl e)
    then show ?thesis by (simp add: run run_subscription_charge_def andthen_def of_result_def)
  next
    case (Inr p)
    obtain ls t where p: "p = (ls, t)" by (cases p)
    let ?t0 = "charge_txn (e_now E 0) (e_uuid E 1) (scheduler_input E sub) (sub_buyer sub) (sub_ship_to sub) (sub_currency sub) ls t"
    show ?thesis
    proof (cases "persist_order_for_transaction E ?t0")
      case (Inl e)
      then obtain e1 where "e = Fail e1" using persist_no_panic by (cases e) blast+
      then show ?thesis
        using Inr p Inl by (simp add: run run_subscription_charge_def andthen_def of_result_def of_exec_def Let_def)
    next
      case (Inr order)
      then show ?thesis
        using \<open>price_request_items _ _ _ = Inr p\<close> p
        by (simp add: run run_subscription_charge_def andthen_def of_result_def of_exec_def Let_def txn_insert_def
            modify_def ret_def charge_txn_def scheduler_input_def for_compat_def)
    qed
  qed
qed

definition settled_sub :: "env \<Rightarrow> time \<Rightarrow> icp \<Rightarrow> subscription \<Rightarrow> subscription \<Rightarrow> subscription" where
  "settled_sub E now s sub x = (case fst (scheduler_charge E sub s) of
      Inr (t, _) \<Rightarrow> auto_renewed (e_chrono E) now sub (txn_id t) x | Inl _ \<Rightarrow> dunned (e_cfg E) now sub x)"

lemma charge_result_state: "fst (scheduler_charge E sub s) = fst (scheduler_charge E sub s')"
  using scheduler_charge_run [of E sub] by (metis fst_conv)

lemma settled_sub_state: "settled_sub E now s = settled_sub E now s'"
  using charge_result_state [of E _ s s'] by (simp add: settled_sub_def fun_eq_iff)

text \<open>The transaction of the charge, put into the store \<open>m\<close>.\<close>

definition charge_put :: "env \<Rightarrow> icp \<Rightarrow> subscription \<Rightarrow> (string, transaction) store \<Rightarrow> (string, transaction) store" where
  "charge_put E s sub m =
     (case fst (scheduler_charge E sub s) of Inr (t, _) \<Rightarrow> st_put (txn_id t) t m | Inl _ \<Rightarrow> m)"

lemma charge_put_state: "charge_put E s = charge_put E s'"
  using charge_result_state [of E _ s s'] by (simp add: charge_put_def fun_eq_iff)

definition charged_ok :: "env \<Rightarrow> icp \<Rightarrow> subscription \<Rightarrow> bool" where
  "charged_ok E s sub = (case fst (scheduler_charge E sub s) of Inr _ \<Rightarrow> True | Inl _ \<Rightarrow> False)"

text \<open>What a tick leaves alone.\<close>

definition billing_only :: "icp \<Rightarrow> icp \<Rightarrow> bool" where
  "billing_only s s' \<longleftrightarrow> ic_quotes s' = ic_quotes s \<and> ic_ledger s' = ic_ledger s \<and> ic_receipts s' = ic_receipts s \<and>
     ic_subscribers s' = ic_subscribers s"

lemma settle_due_effect:
  assumes "settle_due E ts now sub rep s = (r, s')" "st_get (ic_subs s) (sub_id sub) = Some x"
  shows "\<exists>rep'. r = Inr rep' \<and> ic_subs s' = st_put (sub_id sub) (settled_sub E now s sub x) (ic_subs s) \<and> billing_only s s' \<and>
    ic_txns s' = charge_put E s sub (ic_txns s) \<and>
    st_scanned rep' = st_scanned rep \<and> st_due rep' = st_due rep \<and>
    st_renewed rep' = st_renewed rep + (if charged_ok E s sub then 1 else 0) \<and>
    st_failed rep' = st_failed rep + (if charged_ok E s sub then 0 else 1) \<and>
    st_past_due rep' = st_past_due rep + (if \<not> charged_ok E s sub \<and> sub_status (settled_sub E now s sub x) = PastDue then 1 else 0)"
  using scheduler_charge_run [of E sub]
proof
  assume "\<exists>e. \<forall>s. scheduler_charge E sub s = (Inl (Fail e), s)"
  then obtain e where e: "\<And>s. scheduler_charge E sub s = (Inl (Fail e), s)" by blast
  let ?s1 = "s\<lparr>ic_subs := st_put (sub_id sub) (dunned (e_cfg E) now sub x) (ic_subs s)\<rparr>"
  obtain ob where "announce E (past_due_event E ts now sub (dunned (e_cfg E) now sub x) e) (sub_tenant_id sub) ?s1 =
      (Inr (), ?s1\<lparr>ic_outbox := ob, ic_bus := ic_bus ?s1 @ [past_due_event E ts now sub (dunned (e_cfg E) now sub x) e]\<rparr>)"
    using announce_run by blast
  then show ?thesis
    using assms
    by (auto simp: settle_due_def andthen_def attempt_def e sub_update_def settled_sub_def charged_ok_def charge_put_def ret_def
        billing_only_def split: if_splits)
next
  assume "\<exists>t o1. (\<forall>s. scheduler_charge E sub s = (Inr (t, o1), s\<lparr>ic_txns := st_put (txn_id t) t (ic_txns s)\<rparr>)) \<and>
      txn_state t = Completed \<and> txn_tenant_id t = sub_tenant_id sub \<and>
      (\<exists>ls. price_request_items (sub_items sub) (sub_currency sub) ''subscription.items'' = Inr (ls, txn_totals t))"
  then obtain t o1 where ok: "\<And>s. scheduler_charge E sub s = (Inr (t, o1), s\<lparr>ic_txns := st_put (txn_id t) t (ic_txns s)\<rparr>)"
    by blast
  let ?s1 = "s\<lparr>ic_txns := st_put (txn_id t) t (ic_txns s),
      ic_subs := st_put (sub_id sub) (auto_renewed (e_chrono E) now sub (txn_id t) x) (ic_subs s)\<rparr>"
  obtain ob where "announce E (renewed_event E ts now sub t o1) (sub_tenant_id sub) ?s1 =
      (Inr (), ?s1\<lparr>ic_outbox := ob, ic_bus := ic_bus ?s1 @ [renewed_event E ts now sub t o1]\<rparr>)"
    using announce_run by blast
  then show ?thesis
    using assms
    by (auto simp: settle_due_def andthen_def attempt_def ok sub_update_def settled_sub_def charged_ok_def charge_put_def ret_def
        billing_only_def)
qed

lemma billing_only_trans: "billing_only s s1 \<Longrightarrow> billing_only s1 s2 \<Longrightarrow> billing_only s s2"
  by (simp add: billing_only_def)

lemma charged_ok_state: "charged_ok E s = charged_ok E s'"
  using charge_result_state [of E _ s s'] by (simp add: charged_ok_def fun_eq_iff)

definition ok_count :: "(nat \<Rightarrow> env) \<Rightarrow> icp \<Rightarrow> nat \<Rightarrow> subscription list \<Rightarrow> nat" where
  "ok_count Es s i subs = length (filter (\<lambda>j. charged_ok (Es (i + j)) s (subs ! j)) [0 ..< length subs])"

lemma ok_count_Cons:
  "ok_count Es s i (x # subs) = (if charged_ok (Es i) s x then 1 else 0) + ok_count Es s (Suc i) subs"
proof -
  have "[0 ..< length (x # subs)] = 0 # map Suc [0 ..< length subs]"
    by (simp add: upt_conv_Cons map_Suc_upt del: upt_Suc)
  then show ?thesis by (simp add: ok_count_def filter_map comp_def del: upt_Suc)
qed

definition charges_put ::
  "(nat \<Rightarrow> env) \<Rightarrow> icp \<Rightarrow> nat \<Rightarrow> subscription list \<Rightarrow> (string, transaction) store \<Rightarrow> (string, transaction) store" where
  "charges_put Es s i subs = fold (\<lambda>j. charge_put (Es (i + j)) s (subs ! j)) [0 ..< length subs]"

lemma charges_put_Cons: "charges_put Es s i (x # subs) m = charges_put Es s (Suc i) subs (charge_put (Es i) s x m)"
proof -
  have "[0 ..< length (x # subs)] = 0 # map Suc [0 ..< length subs]"
    by (simp add: upt_conv_Cons map_Suc_upt del: upt_Suc)
  then show ?thesis by (simp add: charges_put_def fold_map comp_def del: upt_Suc)
qed

text \<open>Every due subscription is settled once, by the result of its own charge.\<close>

lemma settle_all_effect:
  assumes "settle_all Es ts now i subs rep s = (r, s')" "distinct (map sub_id subs)"
    and "\<And>x. x \<in> set subs \<Longrightarrow> st_get (ic_subs s) (sub_id x) = Some x"
  shows "\<exists>rep'. r = Inr rep' \<and> billing_only s s' \<and> ic_txns s' = charges_put Es s0 i subs (ic_txns s) \<and>
    (\<forall>j < length subs. st_get (ic_subs s') (sub_id (subs ! j)) = Some (settled_sub (Es (i + j)) now s0 (subs ! j) (subs ! j))) \<and>
    (\<forall>k. k \<notin> sub_id ` set subs \<longrightarrow> st_get (ic_subs s') k = st_get (ic_subs s) k) \<and>
    st_scanned rep' = st_scanned rep \<and> st_due rep' = st_due rep \<and>
    st_renewed rep' = st_renewed rep + ok_count Es s0 i subs \<and>
    st_failed rep' = st_failed rep + (length subs - ok_count Es s0 i subs)"
  using assms
proof (induction subs arbitrary: i rep s)
  case Nil
  then show ?case by (auto simp: ret_def billing_only_def ok_count_def charges_put_def)
next
  case (Cons x subs)
  obtain r1 s1 where first: "settle_due (Es i) ts now x rep s = (r1, s1)" by (rule prod.exhaust)
  obtain rep1 where one: "r1 = Inr rep1" "ic_subs s1 = st_put (sub_id x) (settled_sub (Es i) now s x x) (ic_subs s)"
      "billing_only s s1" "st_scanned rep1 = st_scanned rep" "st_due rep1 = st_due rep"
      "st_renewed rep1 = st_renewed rep + (if charged_ok (Es i) s x then 1 else 0)"
      "st_failed rep1 = st_failed rep + (if charged_ok (Es i) s x then 0 else 1)"
      "ic_txns s1 = charge_put (Es i) s x (ic_txns s)"
    using settle_due_effect [OF first] Cons.prems(3) [of x] by auto
  have rest: "settle_all Es ts now (Suc i) subs rep1 s1 = (r, s')"
    using Cons.prems(1) first one(1) by (simp add: andthen_def)
  have ids: "sub_id x \<notin> sub_id ` set subs" "distinct (map sub_id subs)"
    using Cons.prems(2) by auto
  have there: "st_get (ic_subs s1) (sub_id y) = Some y" if "y \<in> set subs" for y
  proof -
    have "sub_id y \<noteq> sub_id x" using that ids(1) by (metis imageI)
    then show ?thesis using that Cons.prems(3) [of y] by (simp add: one(2))
  qed
  have le: "ok_count Es s0 (Suc i) subs \<le> length subs"
    unfolding ok_count_def by (rule order_trans [OF length_filter_le]) simp
  from Cons.IH [OF rest ids(2) there] obtain rep' where later: "r = Inr rep'" "billing_only s1 s'"
      "\<forall>j < length subs. st_get (ic_subs s') (sub_id (subs ! j)) = Some (settled_sub (Es (Suc i + j)) now s0 (subs ! j) (subs ! j))"
      "\<forall>k. k \<notin> sub_id ` set subs \<longrightarrow> st_get (ic_subs s') k = st_get (ic_subs s1) k"
      "st_scanned rep' = st_scanned rep1" "st_due rep' = st_due rep1"
      "st_renewed rep' = st_renewed rep1 + ok_count Es s0 (Suc i) subs"
      "st_failed rep' = st_failed rep1 + (length subs - ok_count Es s0 (Suc i) subs)"
      "ic_txns s' = charges_put Es s0 (Suc i) subs (ic_txns s1)"
    by blast
  have txns: "ic_txns s' = charges_put Es s0 i (x # subs) (ic_txns s)"
    using later(9) one(8) charge_put_state [of "Es i" s s0] by (simp add: charges_put_Cons)
  have head: "st_get (ic_subs s') (sub_id x) = Some (settled_sub (Es i) now s0 x x)"
    using later(4) ids(1) settled_sub_state [of "Es i" now s s0] by (simp add: one(2))
  have ok: "charged_ok (Es i) s x = charged_ok (Es i) s0 x"
    using charged_ok_state [of "Es i" s s0] by simp
  have all: "st_get (ic_subs s') (sub_id ((x # subs) ! j)) = Some (settled_sub (Es (i + j)) now s0 ((x # subs) ! j) ((x # subs) ! j))"
    if "j < length (x # subs)" for j
    using that head later(3) by (cases j) simp_all
  show ?case
    using later(1,5-8) one(4-7) billing_only_trans [OF one(3) later(2)] all later(4) le ok txns
    by (auto simp: ok_count_Cons one(2))
qed

lemma due_snapshot:
  assumes "st_ok m" "keyed_by key m" "length m \<le> usize_max"
  shows "distinct (map key (mem_list_due P m))"
    and "x \<in> set (mem_list_due P m) \<longleftrightarrow> st_get m (key x) = Some x \<and> P x"
proof -
  have keys: "map key (st_values m) = map fst m"
    using assms(1,2) by (fastforce simp: st_values_def keyed_by_def st_get_def st_ok_def)
  have due: "mem_list_due P m = filter P (st_values m)"
    using assms(3) by (simp add: mem_list_due_def mem_list_def st_values_def)
  show "distinct (map key (mem_list_due P m))"
    using assms(1) by (simp add: due distinct_map_filter keys st_ok_def)
  show "x \<in> set (mem_list_due P m) \<longleftrightarrow> st_get m (key x) = Some x \<and> P x"
    using st_values_get [OF assms(1), of x] keyed_byD [OF assms(2)] by (auto simp: due)
qed

section \<open>Properties\<close>

text \<open>The two outcomes on a subscription that was due, field by field.\<close>

lemma auto_renewed_due:
  assumes "sub_due now x"
  shows "auto_renewed C now x k x = x\<lparr>sub_status := Active,
    sub_trial_end := (if sub_status x = Trialing then None else sub_trial_end x),
    sub_current_period_start := sub_current_period_end x,
    sub_current_period_end := period_advance (ch_add_months C) (sub_current_period_end x) (sub_cadence x),
    sub_next_charge_at := period_advance (ch_add_months C) (sub_current_period_end x) (sub_cadence x),
    sub_charges_completed := sat_inc_u32 (sub_charges_completed x), sub_last_transaction_id := Some k,
    sub_failed_renewal_attempts := 0, sub_updated_at := now\<rparr>"
  using assms by (cases "sub_status x = Trialing") (auto simp: auto_renewed_def Let_def sub_due_def)

lemma sat_inc_u32_pos: "sat_inc_u32 n \<noteq> 0"
  by (simp add: sat_inc_u32_def) (metis add.commute add_eq_0_iff)

lemma dunned_due:
  assumes "h = cf_subscription_dunning_schedule_hours c" "n = sat_inc_u32 (sub_failed_renewal_attempts x)"
  shows "dunned c now x x = x\<lparr>sub_failed_renewal_attempts := n,
    sub_status := (if (if h = [] then 3 else sat_inc_u32 (of_nat (length h))) \<le> n then PastDue else sub_status x),
    sub_next_charge_at :=
      (if (if h = [] then 3 else sat_inc_u32 (of_nat (length h))) \<le> n \<or> length h \<le> unat (n - 1)
       then sub_next_charge_at x else now + hours (int (unat (h ! unat (n - 1))))),
    sub_updated_at := now\<rparr>"
  using sat_inc_u32_pos [of "sub_failed_renewal_attempts x"]
  by (simp add: assms dunned_def Let_def dunning_max_attempts_def max_renewal_failures_def dunning_next_attempt_def
      del: not_less add: not_less [symmetric])

lemma settled_fields:
  assumes "v = Some (settled_sub E now s x x)" "sub_due now x"
  shows "let h = cf_subscription_dunning_schedule_hours (e_cfg E);
      until = period_advance (ch_add_months (e_chrono E)) (sub_current_period_end x) (sub_cadence x);
      n = sat_inc_u32 (sub_failed_renewal_attempts x);
      limit = (if h = [] then 3 else sat_inc_u32 (of_nat (length h)))
    in case fst (scheduler_charge E x s) of
         Inr (t, _) \<Rightarrow>
           v = Some (x\<lparr>sub_status := Active,
             sub_trial_end := (if sub_status x = Trialing then None else sub_trial_end x),
             sub_current_period_start := sub_current_period_end x, sub_current_period_end := until,
             sub_next_charge_at := until, sub_charges_completed := sat_inc_u32 (sub_charges_completed x),
             sub_last_transaction_id := Some (txn_id t), sub_failed_renewal_attempts := 0, sub_updated_at := now\<rparr>) \<and>
           txn_state t = Completed \<and> txn_tenant_id t = sub_tenant_id x \<and>
           (\<exists>ls. price_request_items (sub_items x) (sub_currency x) ''subscription.items'' = Inr (ls, txn_totals t))
       | Inl _ \<Rightarrow>
           v = Some (x\<lparr>sub_failed_renewal_attempts := n,
             sub_status := (if limit \<le> n then PastDue else sub_status x),
             sub_next_charge_at := (if limit \<le> n \<or> length h \<le> unat (n - 1) then sub_next_charge_at x
               else now + hours (int (unat (h ! unat (n - 1))))),
             sub_updated_at := now\<rparr>)"
  using scheduler_charge_run [of E x]
proof
  assume "\<exists>e. \<forall>s. scheduler_charge E x s = (Inl (Fail e), s)"
  then obtain e where "fst (scheduler_charge E x s) = Inl (Fail e)" by fastforce
  then show ?thesis
    using assms(1) by (simp add: settled_sub_def dunned_due [OF refl refl] Let_def)
next
  assume "\<exists>t o1. (\<forall>s. scheduler_charge E x s = (Inr (t, o1), s\<lparr>ic_txns := st_put (txn_id t) t (ic_txns s)\<rparr>)) \<and>
      txn_state t = Completed \<and> txn_tenant_id t = sub_tenant_id x \<and>
      (\<exists>ls. price_request_items (sub_items x) (sub_currency x) ''subscription.items'' = Inr (ls, txn_totals t))"
  then obtain t o1 where "fst (scheduler_charge E x s) = Inr (t, o1)"
      "txn_state t = Completed \<and> txn_tenant_id t = sub_tenant_id x \<and>
      (\<exists>ls. price_request_items (sub_items x) (sub_currency x) ''subscription.items'' = Inr (ls, txn_totals t))"
    by fastforce
  then show ?thesis
    using assms(1) by (simp add: settled_sub_def auto_renewed_due [OF assms(2)] Let_def)
qed

text \<open>
  C39. A renewal tick settles exactly the subscriptions that are active or on trial, due and have a
  payment instrument, each by the result of its own charge. One whose charge succeeds is active, in the period that
  starts where its last one ended and ends one cadence later, where the next charge is due; the charge is counted and
  linked, the failed attempts are reset, and a trial is over. One whose charge fails counts one failed attempt more: it is
  past due once the attempts reach the limit (three without a dunning schedule, one more than its entries with one),
  and until then its next charge waits for the hours the schedule gives for this attempt. Nothing else of these
  subscriptions changes, and no other subscription, nor any peer quote or mandate ledger entry. The transactions of the
  successful charges, and no others, are stored: completed, of the subscription's tenant and at the price of its items.
  The tick cannot fail as a whole, and its report counts the outcomes.
\<close>

theorem renewal_tick_settles_due:
  assumes "icp_ok s" "length (ic_subs s) \<le> usize_max"
    and "tick_subscriptions Es ts now s = (r, s')" "due = mem_list_due (sub_due now) (ic_subs s)"
  shows "(\<forall>j < length due.
      let x = due ! j; h = cf_subscription_dunning_schedule_hours (e_cfg (Es j));
          until = period_advance (ch_add_months (e_chrono (Es j))) (sub_current_period_end x) (sub_cadence x);
          n = sat_inc_u32 (sub_failed_renewal_attempts x);
          limit = (if h = [] then 3 else sat_inc_u32 (of_nat (length h)))
      in case fst (scheduler_charge (Es j) x s) of
           Inr (t, _) \<Rightarrow>
             st_get (ic_subs s') (sub_id x) = Some (x\<lparr>sub_status := Active,
               sub_trial_end := (if sub_status x = Trialing then None else sub_trial_end x),
               sub_current_period_start := sub_current_period_end x, sub_current_period_end := until,
               sub_next_charge_at := until, sub_charges_completed := sat_inc_u32 (sub_charges_completed x),
               sub_last_transaction_id := Some (txn_id t), sub_failed_renewal_attempts := 0, sub_updated_at := now\<rparr>) \<and>
             txn_state t = Completed \<and> txn_tenant_id t = sub_tenant_id x \<and>
             (\<exists>ls. price_request_items (sub_items x) (sub_currency x) ''subscription.items'' = Inr (ls, txn_totals t))
         | Inl _ \<Rightarrow>
             st_get (ic_subs s') (sub_id x) = Some (x\<lparr>sub_failed_renewal_attempts := n,
               sub_status := (if limit \<le> n then PastDue else sub_status x),
               sub_next_charge_at := (if limit \<le> n \<or> length h \<le> unat (n - 1) then sub_next_charge_at x
                 else now + hours (int (unat (h ! unat (n - 1))))),
               sub_updated_at := now\<rparr>)) \<and>
    (\<forall>k. (\<forall>x. st_get (ic_subs s) k = Some x \<longrightarrow> \<not> sub_due now x) \<longrightarrow> st_get (ic_subs s') k = st_get (ic_subs s) k) \<and>
    (\<forall>x. x \<in> set due \<longleftrightarrow> st_get (ic_subs s) (sub_id x) = Some x \<and> sub_due now x) \<and>
    ic_txns s' = fold (\<lambda>j m. case fst (scheduler_charge (Es j) (due ! j) s) of
        Inr (t, _) \<Rightarrow> st_put (txn_id t) t m | Inl _ \<Rightarrow> m) [0 ..< length due] (ic_txns s) \<and>
    ic_quotes s' = ic_quotes s \<and> ic_ledger s' = ic_ledger s \<and>
    (\<exists>rep. r = Inr rep \<and> st_scanned rep = length (ic_subs s) \<and> st_due rep = length due \<and>
       st_renewed rep = length (filter (\<lambda>j. \<exists>t o1. fst (scheduler_charge (Es j) (due ! j) s) = Inr (t, o1)) [0 ..< length due]) \<and>
       st_renewed rep + st_failed rep = length due)"
proof -
  note ok = assms(1) [unfolded icp_ok_def] and small = assms(2)
  have subs: "st_ok (ic_subs s)" "keyed_by sub_id (ic_subs s)" using ok by simp_all
  note snap = due_snapshot [OF subs small, where P = "sub_due now", folded assms(4)]
  have le: "ok_count Es s 0 due \<le> length due"
    unfolding ok_count_def by (rule order_trans [OF length_filter_le]) simp
  have run: "settle_all Es ts now 0 due \<lparr>st_scanned = length (ic_subs s), st_due = length due, st_renewed = 0,
      st_failed = 0, st_past_due = 0\<rparr> s = (r, s')"
    using assms(3) by (simp add: tick_subscriptions_def andthen_def asks_def assms(4))
  have there: "st_get (ic_subs s) (sub_id x) = Some x" if "x \<in> set due" for x
    using snap(2) that by blast
  have other: "k \<notin> sub_id ` set due" if "\<forall>x. st_get (ic_subs s) k = Some x \<longrightarrow> \<not> sub_due now x" for k
    using snap(2) that by auto
  have oks: "charged_ok E s x = (\<exists>t o1. fst (scheduler_charge E x s) = Inr (t, o1))" for E x
    by (auto simp: charged_ok_def split: sum.split)
  from settle_all_effect [OF run snap(1) there, of s] obtain rep where effect:
    "r = Inr rep" "billing_only s s'" "ic_txns s' = charges_put Es s 0 due (ic_txns s)"
    "\<And>j. j < length due \<Longrightarrow> st_get (ic_subs s') (sub_id (due ! j)) = Some (settled_sub (Es j) now s (due ! j) (due ! j))"
    "\<And>k. k \<notin> sub_id ` set due \<Longrightarrow> st_get (ic_subs s') k = st_get (ic_subs s) k"
    "st_scanned rep = length (ic_subs s)" "st_due rep = length due" "st_renewed rep = ok_count Es s 0 due"
    "st_failed rep = length due - ok_count Es s 0 due"
    by auto
  show ?thesis
  proof (intro conjI allI impI, goal_cases)
    case (1 j)
    then have "sub_due now (due ! j)" using snap(2) nth_mem by blast
    from settled_fields [OF effect(4) [OF 1] this] show ?case by (simp only: Let_def)
  next
    case (2 k)
    then show ?case using effect(5) other by blast
  next
    case (3 x)
    then show ?case by (rule snap(2))
  next
    case 4
    then show ?case using effect(3) by (simp add: charges_put_def charge_put_def [abs_def])
  next
    case 7
    then show ?case using effect(1,6-9) le by (simp add: ok_count_def oks)
  qed (use effect(2) in \<open>simp_all add: billing_only_def\<close>)
qed

lemma due_snapshot_one: "P v \<Longrightarrow> mem_list_due P [(k, v)] = [v]"
  by (simp add: mem_list_due_def mem_list_def usize_max_def st_values_def)

definition renewal_state :: icp where
  "renewal_state = demo_state\<lparr>ic_subs := [(''sub_1'', demo_sub\<lparr>sub_payment_instrument := Some (Card (Some ''tok'') None None)\<rparr>)]\<rparr>"

lemma demo_charge:
  "\<exists>t o1. fst (scheduler_charge demo_env (demo_sub\<lparr>sub_payment_instrument := Some (Card (Some ''tok'') None None)\<rparr>) s) = Inr (t, o1)"
  by (simp add: scheduler_charge_def run_subscription_charge_def andthen_def of_result_def of_exec_def Let_def ret_def
      txn_insert_def modify_def sample_pricing sample_priced_def demo_sub_def new_subscription_def demo_env_def demo_cfg_def
      persist_order_for_transaction_def is_production_def eq_ignore_ascii_case_def)

theorem renewal_tick_settles_due_witness:
  "\<exists>r s' x. tick_subscriptions (\<lambda>_. demo_env) (\<lambda>_. JNull) (days 8) renewal_state = (r, s') \<and>
     st_get (ic_subs s') ''sub_1'' = Some x \<and> sub_current_period_start x = days 7 \<and> sub_charges_completed x = 2 \<and>
     (\<exists>rep. r = Inr rep \<and> st_renewed rep = 1)"
proof -
  let ?x = "demo_sub\<lparr>sub_payment_instrument := Some (Card (Some ''tok'') None None)\<rparr>"
  obtain r s' where run: "tick_subscriptions (\<lambda>_. demo_env) (\<lambda>_. JNull) (days 8) renewal_state = (r, s')"
    by (rule prod.exhaust)
  have subs: "ic_subs renewal_state = [(''sub_1'', ?x)]" by (simp add: renewal_state_def)
  have ok: "icp_ok renewal_state"
    using demo_state_ok by (simp add: icp_ok_def renewal_state_def st_ok_def keyed_by_def st_get_def demo_sub_def)
  have small: "length (ic_subs renewal_state) \<le> usize_max" by (simp add: subs usize_max_def)
  have due: "mem_list_due (sub_due (days 8)) (ic_subs renewal_state) = [?x]"
    unfolding subs by (rule due_snapshot_one) (simp add: sub_due_def demo_sub_def new_subscription_def days_def secs_def)
  have x: "sub_id ?x = ''sub_1''" "sub_current_period_end ?x = days 7" "sat_inc_u32 (sub_charges_completed ?x) = 2"
    by (simp_all add: demo_sub_def new_subscription_def sat_inc_u32_def)
  obtain t o1 where charge: "fst (scheduler_charge demo_env ?x renewal_state) = Inr (t, o1)"
    using demo_charge by blast
  note P = renewal_tick_settles_due [OF ok small run due [symmetric]]
  have "\<exists>y. st_get (ic_subs s') ''sub_1'' = Some y \<and> sub_current_period_start y = days 7 \<and> sub_charges_completed y = 2"
    using P [THEN conjunct1, rule_format, of 0] x charge by (simp add: Let_def)
  moreover have "\<exists>rep. r = Inr rep \<and> st_renewed rep = 1"
    using P charge by auto
  ultimately show ?thesis using run by blast
qed

text \<open>The sweeps of an expiry tick.\<close>

definition swept :: "('v \<Rightarrow> string) \<Rightarrow> ('v \<Rightarrow> 'v) \<Rightarrow> 'v list \<Rightarrow> (string, 'v) store \<Rightarrow> (string, 'v) store \<Rightarrow> bool" where
  "swept key f vs m m' \<longleftrightarrow>
     (\<forall>k. st_get m' k = (if k \<in> key ` set vs then map_option f (st_get m k) else st_get m k))"

lemma expire_txns_effect:
  "expire_txns Es ts now i txns s = (r, s') \<Longrightarrow> distinct (map txn_id txns) \<Longrightarrow>
   r = Inr () \<and> swept txn_id (expired_txn now) txns (ic_txns s) (ic_txns s') \<and>
   ic_subs s' = ic_subs s \<and> billing_only s s' \<and>
   map et_type (ic_bus s') = map et_type (ic_bus s) @ replicate (length txns) ''transaction.expired''"
proof (induction txns arbitrary: i s)
  case Nil
  then show ?case by (auto simp: ret_def swept_def billing_only_def)
next
  case (Cons t txns)
  let ?ev = "txn_expired_event (Es i) ts now t"
  obtain s1 u where upd: "txn_update (txn_id t) (expired_txn now) s = (Inr u, s1)"
      "swept txn_id (expired_txn now) [t] (ic_txns s) (ic_txns s1)" "ic_subs s1 = ic_subs s" "billing_only s s1"
      "ic_bus s1 = ic_bus s"
    by (cases "st_get (ic_txns s) (txn_id t)") (auto simp: txn_update_def swept_def billing_only_def)
  obtain ob where ann: "announce (Es i) ?ev (txn_tenant_id t) s1 = (Inr (), s1\<lparr>ic_outbox := ob, ic_bus := ic_bus s1 @ [?ev]\<rparr>)"
    using announce_run by blast
  have rest: "expire_txns Es ts now (Suc i) txns (s1\<lparr>ic_outbox := ob, ic_bus := ic_bus s1 @ [?ev]\<rparr>) = (r, s')"
    using Cons.prems(1) by (simp add: andthen_def upd(1) ann)
  have id: "txn_id t \<notin> txn_id ` set txns" "distinct (map txn_id txns)" using Cons.prems(2) by auto
  have ty: "et_type ?ev = ''transaction.expired''" by (simp add: txn_expired_event_def)
  from Cons.IH [OF rest id(2)] show ?case
    using upd(2-5) id(1) ty by (auto simp: swept_def billing_only_def)
qed

lemma expire_quotes_effect:
  "expire_quotes Es ts now i qs s = (r, s') \<Longrightarrow> distinct (map pq_id qs) \<Longrightarrow>
   r = Inr () \<and> swept pq_id (expired_quote now) qs (ic_quotes s) (ic_quotes s') \<and>
   ic_subs s' = ic_subs s \<and> ic_txns s' = ic_txns s \<and> ic_ledger s' = ic_ledger s \<and>
   map et_type (ic_bus s') = map et_type (ic_bus s) @ replicate (length qs) ''peer_quote.expired''"
proof (induction qs arbitrary: i s)
  case Nil
  then show ?case by (auto simp: ret_def swept_def)
next
  case (Cons q qs)
  let ?ev = "quote_expired_event (Es i) ts now q"
  obtain s1 u where upd: "quote_update (pq_id q) (expired_quote now) s = (Inr u, s1)"
      "swept pq_id (expired_quote now) [q] (ic_quotes s) (ic_quotes s1)" "ic_subs s1 = ic_subs s"
      "ic_txns s1 = ic_txns s" "ic_ledger s1 = ic_ledger s" "ic_bus s1 = ic_bus s"
    by (cases "st_get (ic_quotes s) (pq_id q)") (auto simp: quote_update_def swept_def)
  obtain ob where ann: "announce (Es i) ?ev (pq_tenant_id q) s1 = (Inr (), s1\<lparr>ic_outbox := ob, ic_bus := ic_bus s1 @ [?ev]\<rparr>)"
    using announce_run by blast
  have rest: "expire_quotes Es ts now (Suc i) qs (s1\<lparr>ic_outbox := ob, ic_bus := ic_bus s1 @ [?ev]\<rparr>) = (r, s')"
    using Cons.prems(1) by (simp add: andthen_def upd(1) ann)
  have id: "pq_id q \<notin> pq_id ` set qs" "distinct (map pq_id qs)" using Cons.prems(2) by auto
  have ty: "et_type ?ev = ''peer_quote.expired''" by (simp add: quote_expired_event_def)
  from Cons.IH [OF rest id(2)] show ?case
    using upd(2-6) id(1) ty by (auto simp: swept_def)
qed

lemma swept_due:
  assumes "st_ok m" "keyed_by key m" "length m \<le> usize_max" "swept key f (mem_list_due P m) m m'"
  shows "st_get m' k = map_option (\<lambda>v. if P v then f v else v) (st_get m k)"
proof -
  have "(k \<in> key ` set (mem_list_due P m)) = (\<exists>v. st_get m k = Some v \<and> P v)"
    using due_snapshot(2) [OF assms(1-3), of _ P] keyed_byD [OF assms(2)] by (auto simp: image_iff)
  then show ?thesis using assms(4) by (cases "st_get m k") (auto simp: swept_def)
qed

text \<open>
  C40. An expiry tick closes exactly the draft or quoted transactions and the pending or quoted peer
  quotes whose deadline has passed: each keeps everything but its state and its update time, nothing
  else changes, and one event per expiry is announced. Afterwards no open offer of either kind is past
  its deadline.
\<close>

theorem expiry_tick_closes_stale_offers:
  assumes "icp_ok s" "length (ic_txns s) \<le> usize_max" "length (ic_quotes s) \<le> usize_max"
    and "tick_expiries Es ts now s = (r, s')"
  shows "(\<forall>k. st_get (ic_txns s') k =
        map_option (\<lambda>t. if txn_due now t then t\<lparr>txn_state := Expired, txn_updated_at := now\<rparr> else t) (st_get (ic_txns s) k)) \<and>
    (\<forall>k. st_get (ic_quotes s') k =
        map_option (\<lambda>q. if quote_due now q then q\<lparr>pq_status := PqExpired, pq_updated_at := now\<rparr> else q) (st_get (ic_quotes s) k)) \<and>
    ic_subs s' = ic_subs s \<and> ic_ledger s' = ic_ledger s \<and>
    (\<forall>k t. st_get (ic_txns s') k = Some t \<longrightarrow> \<not> txn_due now t) \<and>
    (\<forall>k q. st_get (ic_quotes s') k = Some q \<longrightarrow> \<not> quote_due now q) \<and>
    (\<exists>rep. r = Inr rep \<and>
       map et_type (ic_bus s') = map et_type (ic_bus s) @
         replicate (xt_transactions_expired rep) ''transaction.expired'' @
         replicate (xt_peer_quotes_expired rep) ''peer_quote.expired'')"
proof -
  have ok: "st_ok (ic_txns s)" "keyed_by txn_id (ic_txns s)" "st_ok (ic_quotes s)" "keyed_by pq_id (ic_quotes s)"
    using assms(1) by (simp_all add: icp_ok_def)
  define txns where "txns = mem_list_due (txn_due now) (ic_txns s)"
  obtain r1 s1 where first: "expire_txns Es ts now 0 txns s = (r1, s1)" by (rule prod.exhaust)
  note T = expire_txns_effect [OF first [unfolded txns_def] due_snapshot(1) [OF ok(1,2) assms(2)]]
  have quotes: "ic_quotes s1 = ic_quotes s" using T by (simp add: billing_only_def)
  define qs where "qs = mem_list_due (quote_due now) (ic_quotes s)"
  obtain r2 s2 where second: "expire_quotes Es ts now (length txns) qs s1 = (r2, s2)" by (rule prod.exhaust)
  note Q = expire_quotes_effect [OF second [unfolded qs_def] due_snapshot(1) [OF ok(3,4) assms(3)]]
  have run: "r = Inr \<lparr>xt_transactions_expired = length txns, xt_peer_quotes_expired = length qs\<rparr>" "s' = s2"
    using assms(4) first second T Q
    by (simp_all add: tick_expiries_def andthen_def asks_def ret_def txns_def [symmetric] qs_def [symmetric] quotes)
  have txn: "st_get (ic_txns s') k = map_option (\<lambda>t. if txn_due now t then expired_txn now t else t) (st_get (ic_txns s) k)" for k
    using swept_due [OF ok(1,2) assms(2), of "expired_txn now" "txn_due now" "ic_txns s1" k] T Q run(2) by simp
  have quote: "st_get (ic_quotes s') k = map_option (\<lambda>q. if quote_due now q then expired_quote now q else q) (st_get (ic_quotes s) k)" for k
    using swept_due [OF ok(3,4) assms(3), of "expired_quote now" "quote_due now" "ic_quotes s2" k] Q run(2) by (simp add: quotes)
  have stale: "\<not> txn_due now (expired_txn now t)" "\<not> quote_due now (expired_quote now q)" for t q
    by (simp_all add: txn_due_def quote_due_def expired_txn_def expired_quote_def)
  have closed: "\<not> txn_due now t" if "st_get (ic_txns s') k = Some t" for k t
    using that txn [of k] stale(1) by (cases "st_get (ic_txns s) k") (auto split: if_splits)
  have closed': "\<not> quote_due now q" if "st_get (ic_quotes s') k = Some q" for k q
    using that quote [of k] stale(2) by (cases "st_get (ic_quotes s) k") (auto split: if_splits)
  have rest: "ic_subs s' = ic_subs s" "ic_ledger s' = ic_ledger s"
    "map et_type (ic_bus s') = map et_type (ic_bus s) @ replicate (length txns) ''transaction.expired'' @
       replicate (length qs) ''peer_quote.expired''"
    using T Q run(2) by (simp_all add: billing_only_def txns_def qs_def)
  have rep: "\<exists>rep. r = Inr rep \<and>
      map et_type (ic_bus s') = map et_type (ic_bus s) @
        replicate (xt_transactions_expired rep) ''transaction.expired'' @
        replicate (xt_peer_quotes_expired rep) ''peer_quote.expired''"
    unfolding run(1) by (rule exI, rule conjI [OF refl]) (simp add: rest(3))
  show ?thesis
    by (intro conjI allI impI txn [unfolded expired_txn_def] quote [unfolded expired_quote_def] closed closed'
        rest(1,2) rep)
qed

theorem expiry_tick_closes_stale_offers_witness:
  "\<exists>r s' t. tick_expiries (\<lambda>_. demo_env) (\<lambda>_. JNull) 9 (demo_state\<lparr>ic_txns := [(''txn_1'', due_txn)]\<rparr>) = (r, s') \<and>
     st_get (ic_txns s') ''txn_1'' = Some t \<and> txn_state t = Expired"
proof -
  let ?s = "demo_state\<lparr>ic_txns := [(''txn_1'', due_txn)]\<rparr>"
  obtain r s' where run: "tick_expiries (\<lambda>_. demo_env) (\<lambda>_. JNull) 9 ?s = (r, s')" by (rule prod.exhaust)
  have ok: "icp_ok ?s"
    using demo_state_ok by (simp add: icp_ok_def st_ok_def keyed_by_def st_get_def due_txn_def)
  have small: "length (ic_txns ?s) \<le> usize_max" "length (ic_quotes ?s) \<le> usize_max"
    by (simp_all add: usize_max_def demo_state_def)
  have old: "st_get (ic_txns ?s) ''txn_1'' = Some due_txn" "txn_due 9 due_txn"
    by (simp_all add: st_get_def txn_due_def due_txn_def)
  have "st_get (ic_txns s') ''txn_1'' = Some (due_txn\<lparr>txn_state := Expired, txn_updated_at := 9\<rparr>)"
    using spec [OF conjunct1 [OF expiry_tick_closes_stale_offers [OF ok small run]], of "''txn_1''"] old by simp
  then show ?thesis using run by force
qed

section \<open>The dunning schedule\<close>

text \<open>
  The cycle of failures of one subscription: with a schedule of \<open>n\<close> entries failure \<open>k\<close> waits for
  entry \<open>k\<close>, and failure \<open>n + 1\<close> is the first that makes it past due; with no schedule it is the third,
  and the date of the next charge never moves.
\<close>

lemma dunned_status:
  assumes "sub_status x \<noteq> PastDue"
  shows "sub_status (dunned c now sub x) = PastDue \<longleftrightarrow>
    dunning_max_attempts c \<le> sat_inc_u32 (sub_failed_renewal_attempts sub)"
  using assms by (auto simp: dunned_def Let_def split: option.splits)

lemma dunned_keeps:
  "sub_current_period_end (dunned c now sub x) = sub_current_period_end x \<and>
   sub_charges_completed (dunned c now sub x) = sub_charges_completed x \<and>
   sub_last_transaction_id (dunned c now sub x) = sub_last_transaction_id x"
  by (auto simp: dunned_def Let_def split: option.splits)

lemma dunning_waits:
  assumes "length (cf_subscription_dunning_schedule_hours c) < 2 ^ 32 - 1"
    and "n < length (cf_subscription_dunning_schedule_hours c)" "sub_failed_renewal_attempts sub = of_nat n"
  shows "sub_next_charge_at (dunned c now sub x) =
      now + hours (int (unat (cf_subscription_dunning_schedule_hours c ! n))) \<and>
    (sub_status x \<noteq> PastDue \<longrightarrow> sub_status (dunned c now sub x) \<noteq> PastDue)"
proof -
  let ?l = "cf_subscription_dunning_schedule_hours c"
  have n: "unat (of_nat n :: u32) = n" "unat (of_nat (length ?l) :: u32) = length ?l"
    using assms(1,2) by (simp_all add: unat_of_nat)
  have big: "(of_nat n :: u32) \<noteq> - 1" using n(1) unat_max_u32 assms(1,2) by auto
  have count: "sat_inc_u32 (sub_failed_renewal_attempts sub) = of_nat n + 1"
    using big by (simp add: sat_inc_u32_def assms(3))
  have some: "?l \<noteq> []" using assms(2) by auto
  have pos: "(of_nat n + 1 :: u32) \<noteq> 0"
    using big by (metis add.commute add_eq_0_iff)
  have early: "\<not> dunning_max_attempts c \<le> of_nat n + 1"
  proof -
    have "unat (of_nat n + 1 :: u32) = Suc n"
      using unat_sat_inc_u32 [of "of_nat n"] big assms(1,2) by (simp add: sat_inc_u32_def n(1))
    moreover have "unat (dunning_max_attempts c) = Suc (length ?l)"
      using assms(1) some by (simp add: dunning_max_attempts_def Let_def unat_sat_inc_u32 n(2))
    ultimately show ?thesis using assms(2) by (simp add: word_le_nat_alt)
  qed
  have nx: "dunning_next_attempt c (of_nat n + 1) now = Some (now + hours (int (unat (?l ! n))))"
    using assms(2) some pos by (simp add: dunning_next_attempt_def Let_def n(1))
  show ?thesis
    using early by (simp add: dunned_def count nx Let_def)
qed

lemma dunning_exhausted:
  assumes "length (cf_subscription_dunning_schedule_hours c) < 2 ^ 32 - 1"
    and "unat (sub_failed_renewal_attempts sub) \<ge> length (cf_subscription_dunning_schedule_hours c)"
    and "cf_subscription_dunning_schedule_hours c \<noteq> []"
  shows "sub_status (dunned c now sub x) = PastDue"
proof -
  let ?l = "cf_subscription_dunning_schedule_hours c"
  have "unat (dunning_max_attempts c) = Suc (length ?l)"
    using assms(1,3) by (simp add: dunning_max_attempts_def Let_def unat_sat_inc_u32 unat_of_nat)
  then have "dunning_max_attempts c \<le> sat_inc_u32 (sub_failed_renewal_attempts sub)"
    using assms(1,2) by (simp add: word_le_nat_alt unat_sat_inc_u32)
  then show ?thesis by (simp add: dunned_def Let_def)
qed

lemma undunned:
  assumes "cf_subscription_dunning_schedule_hours c = []"
  shows "sub_next_charge_at (dunned c now sub x) = sub_next_charge_at x \<and>
    (sub_status x \<noteq> PastDue \<longrightarrow>
      (sub_status (dunned c now sub x) = PastDue \<longleftrightarrow> 2 \<le> unat (sub_failed_renewal_attempts sub)))"
  using assms unat_sat_inc_u32 [of "sub_failed_renewal_attempts sub"]
  by (auto simp: dunned_def Let_def dunning_max_attempts_def max_renewal_failures_def dunning_next_attempt_def
      word_le_nat_alt)

end
