(* ===== verification/State_Db.thy ===== *)
theory State_Db
  imports Prelude
begin

text \<open>
  The database of the handler's own state (\<open>src/state_db.rs\<close>): the ladder of schema migrations, what each step
  declares, and the opening of the pool that runs the steps a database file does not have yet. The SQL the source
  uses is modelled on tables with their columns, keys, indexes and rows; any call to the database may fail, and a
  failed step is rolled back. The theorems show that an opening keeps every row and its type, that openings cut short
  leave a file the next one completes, and that a complete file is left alone.
\<close>

section \<open>Tables and the statements of the schema\<close>

datatype sql_cell = Null_Cell | Int_Cell int | Text_Cell string
datatype affinity = Text_Affinity | Integer_Affinity
datatype sql_default = No_Default | Constant sql_cell | Current_Timestamp

record column =
  col_name :: string
  col_type :: affinity
  col_not_null :: bool
  col_default :: sql_default

type_synonym sql_row = "(string \<times> sql_cell) list"

record db_table =
  tbl_columns :: "column list"
  tbl_key :: "string list"
  tbl_rows :: "sql_row list"

record database =
  db_tables :: "(string, db_table) store"
  db_indexes :: "(string, string \<times> string list) store"
    \<comment> \<open>the table and the columns of an index\<close>

abbreviation table_of :: "database \<Rightarrow> string \<Rightarrow> db_table option" where
  "table_of db t \<equiv> st_get (db_tables db) t"

definition column_names :: "db_table \<Rightarrow> string list" where
  "column_names tb = map col_name (tbl_columns tb)"

text \<open>\<open>CREATE TABLE IF NOT EXISTS\<close>, \<open>CREATE INDEX IF NOT EXISTS\<close> and \<open>ALTER TABLE .. ADD COLUMN\<close>.\<close>

datatype ddl =
    Create_Table string "column list" "string list"
  | Create_Index string string "string list"
  | Add_Column string column

datatype sql_error = Sqlite_Failure "string option" | Other_Error string

definition add_column :: "column \<Rightarrow> db_table \<Rightarrow> sql_error + db_table" where
  "add_column c tb =
     (if col_name c \<in> set (column_names tb)
      then Inl (Sqlite_Failure (Some (''duplicate column name: '' @ col_name c)))
      else case col_default c of
        Current_Timestamp \<Rightarrow> Inl (Sqlite_Failure (Some ''Cannot add a column with non-constant default''))
      | _ \<Rightarrow>
          let v = (case col_default c of Constant v \<Rightarrow> v | _ \<Rightarrow> Null_Cell) in
          if col_not_null c \<and> v = Null_Cell
          then Inl (Sqlite_Failure (Some ''Cannot add a NOT NULL column with default value NULL''))
          else Inr (tb\<lparr>tbl_columns := tbl_columns tb @ [c], tbl_rows := map (\<lambda>r. r @ [(col_name c, v)]) (tbl_rows tb)\<rparr>))"

fun run_ddl :: "ddl \<Rightarrow> database \<Rightarrow> sql_error + database" where
  "run_ddl (Create_Table t cols key) db =
     (case table_of db t of
        Some _ \<Rightarrow> Inr db
      | None \<Rightarrow> Inr (db\<lparr>db_tables := st_put t \<lparr>tbl_columns = cols, tbl_key = key, tbl_rows = []\<rparr> (db_tables db)\<rparr>))"
| "run_ddl (Create_Index ix t cols) db =
     (case table_of db t of
        None \<Rightarrow> Inl (Sqlite_Failure (Some (''no such table: main.'' @ t)))
      | Some tb \<Rightarrow>
          if st_get (db_indexes db) ix \<noteq> None then Inr db
          else if list_all (\<lambda>c. c \<in> set (column_names tb)) cols
          then Inr (db\<lparr>db_indexes := st_put ix (t, cols) (db_indexes db)\<rparr>)
          else Inl (Sqlite_Failure (Some (''table '' @ t @ '' has no such column''))))"
| "run_ddl (Add_Column t c) db =
     (case table_of db t of
        None \<Rightarrow> Inl (Sqlite_Failure (Some (''no such table: '' @ t)))
      | Some tb \<Rightarrow>
          (case add_column c tb of
             Inl e \<Rightarrow> Inl e
           | Inr tb' \<Rightarrow> Inr (db\<lparr>db_tables := st_put t tb' (db_tables db)\<rparr>)))"

text \<open>
  What else may go wrong: the pool cannot be built or gives no connection, or a statement, a transaction or a read
  fails at the disk. \<open>dk_text_now\<close> is the value SQLite gives \<open>CURRENT_TIMESTAMP\<close>.
\<close>

record disk =
  dk_build :: bool
  dk_acquire :: bool
  dk_ddl :: "ddl \<Rightarrow> sql_error option"
  dk_probe :: bool
  dk_read :: bool
  dk_begin :: "u32 \<Rightarrow> bool"
  dk_stamp :: "u32 \<Rightarrow> bool"
  dk_commit :: "u32 \<Rightarrow> bool"
  dk_text_now :: string

definition execute :: "disk \<Rightarrow> ddl \<Rightarrow> database \<Rightarrow> sql_error + database" where
  "execute D s db = (case dk_ddl D s of Some e \<Rightarrow> Inl e | None \<Rightarrow> run_ddl s db)"

fun execute_batch :: "disk \<Rightarrow> ddl list \<Rightarrow> database \<Rightarrow> sql_error + database" where
  "execute_batch D [] db = Inr db"
| "execute_batch D (s # ss) db = bind_result (execute D s db) (execute_batch D ss)"

text \<open>An \<open>INSERT\<close> that names some columns; the others take their default.\<close>

definition sql_violates :: "db_table \<Rightarrow> sql_row \<Rightarrow> bool" where
  "sql_violates tb r \<longleftrightarrow>
     list_ex (\<lambda>c. col_not_null c \<and> map_of r (col_name c) = Some Null_Cell) (tbl_columns tb) \<or>
     tbl_key tb \<noteq> [] \<and> list_ex (\<lambda>r'. list_all (\<lambda>k. map_of r' k = map_of r k) (tbl_key tb)) (tbl_rows tb)"

definition filled_row :: "disk \<Rightarrow> sql_row \<Rightarrow> column list \<Rightarrow> sql_row" where
  "filled_row D vals cols =
     map (\<lambda>c. (col_name c,
            case map_of vals (col_name c) of
              Some v \<Rightarrow> v
            | None \<Rightarrow> (case col_default c of
                Constant v \<Rightarrow> v | Current_Timestamp \<Rightarrow> Text_Cell (dk_text_now D) | No_Default \<Rightarrow> Null_Cell)))
       cols"

definition sql_insert :: "disk \<Rightarrow> string \<Rightarrow> sql_row \<Rightarrow> database \<Rightarrow> database option" where
  "sql_insert D t vals db =
     (case table_of db t of
        None \<Rightarrow> None
      | Some tb \<Rightarrow>
          if \<not> list_all (\<lambda>(n, _). n \<in> set (column_names tb)) vals then None
          else
            let r = filled_row D vals (tbl_columns tb) in
            if sql_violates tb r then None
            else Some (db\<lparr>db_tables := st_put t (tb\<lparr>tbl_rows := tbl_rows tb @ [r]\<rparr>) (db_tables db)\<rparr>))"

section \<open>The statements of the migrations\<close>

definition text_key :: "string \<Rightarrow> column" where
  "text_key n = \<lparr>col_name = n, col_type = Text_Affinity, col_not_null = False, col_default = No_Default\<rparr>"

definition text_required :: "string \<Rightarrow> column" where
  "text_required n = \<lparr>col_name = n, col_type = Text_Affinity, col_not_null = True, col_default = No_Default\<rparr>"

definition text_or_empty :: "string \<Rightarrow> column" where
  "text_or_empty n =
     \<lparr>col_name = n, col_type = Text_Affinity, col_not_null = True, col_default = Constant (Text_Cell '''')\<rparr>"

definition text_optional :: "string \<Rightarrow> column" where
  "text_optional n = \<lparr>col_name = n, col_type = Text_Affinity, col_not_null = False, col_default = No_Default\<rparr>"

definition int_required :: "string \<Rightarrow> column" where
  "int_required n = \<lparr>col_name = n, col_type = Integer_Affinity, col_not_null = True, col_default = No_Default\<rparr>"

definition int_or :: "int \<Rightarrow> string \<Rightarrow> column" where
  "int_or d n = \<lparr>col_name = n, col_type = Integer_Affinity, col_not_null = True, col_default = Constant (Int_Cell d)\<rparr>"

definition int_optional :: "string \<Rightarrow> column" where
  "int_optional n = \<lparr>col_name = n, col_type = Integer_Affinity, col_not_null = False, col_default = No_Default\<rparr>"

definition SCHEMA_V1 :: "ddl list" where
  "SCHEMA_V1 =
    [Create_Table ''mandate_usage''
       [text_key ''jti'', int_or 0 ''spent_minor'', text_optional ''window_start''] [''jti''],
     Create_Table ''receipts''
       [text_key ''jti'', text_required ''kid'', text_required ''jws'', text_required ''body_digest'',
        text_required ''claims_json'',
        \<lparr>col_name = ''created_at'', col_type = Text_Affinity, col_not_null = True, col_default = Current_Timestamp\<rparr>]
       [''jti''],
     Create_Table ''transactions''
       [text_key ''id'', text_required ''payload_json'', text_required ''updated_at'', text_or_empty ''tenant_id'',
        text_or_empty ''created_at'', text_or_empty ''state'', text_or_empty ''quote_expires_at''] [''id''],
     Create_Table ''subscriptions''
       [text_key ''id'', text_required ''payload_json'', text_required ''updated_at'', text_or_empty ''tenant_id'',
        text_or_empty ''created_at'', text_or_empty ''status'', text_or_empty ''next_charge_at'',
        int_or 0 ''payment_present''] [''id''],
     Create_Table ''peer_quotes''
       [text_key ''id'', text_required ''payload_json'', text_required ''updated_at'', text_or_empty ''tenant_id'',
        text_or_empty ''created_at'', text_or_empty ''status'', text_or_empty ''expires_at''] [''id''],
     Create_Table ''idempotency''
       [text_required ''tenant_id'', text_required ''idempotency_key'', text_required ''request_digest'',
        int_required ''response_status'', text_required ''response_body'', text_required ''created_at'']
       [''tenant_id'', ''idempotency_key''],
     Create_Index ''idx_idempotency_age'' ''idempotency'' [''created_at''],
     Create_Table ''webhook_deliveries''
       [text_key ''id'', text_required ''event_id'', text_required ''event_type'', text_required ''url'',
        text_required ''payload_json'', text_required ''status'', int_or 0 ''attempts'', int_required ''max_attempts'',
        text_required ''next_attempt_at'', int_optional ''last_status_code'', text_optional ''last_error'',
        text_required ''created_at'', text_required ''updated_at'', text_optional ''delivered_at'',
        text_or_empty ''tenant_id''] [''id''],
     Create_Index ''idx_webhook_status_next'' ''webhook_deliveries'' [''status'', ''next_attempt_at''],
     Create_Table ''webhook_subscribers''
       [text_key ''id'', text_required ''tenant_id'', text_required ''url'', text_required ''secret'',
        int_or 1 ''active'', text_required ''created_at'', text_required ''updated_at''] [''id''],
     Create_Index ''idx_webhook_subscribers_tenant_active'' ''webhook_subscribers'' [''tenant_id'', ''active'']]"

definition tenant_id_columns :: "(string \<times> column) list" where
  "tenant_id_columns =
    [(''transactions'', text_or_empty ''tenant_id''),
     (''subscriptions'', text_or_empty ''tenant_id''),
     (''peer_quotes'', text_or_empty ''tenant_id''),
     (''webhook_deliveries'', text_or_empty ''tenant_id''),
     (''mandate_usage'', text_or_empty ''tenant_id'')]"

definition query_columns :: "(string \<times> column) list" where
  "query_columns =
    [(''transactions'', text_or_empty ''created_at''),
     (''transactions'', text_or_empty ''state''),
     (''transactions'', text_or_empty ''quote_expires_at''),
     (''subscriptions'', text_or_empty ''created_at''),
     (''subscriptions'', text_or_empty ''status''),
     (''subscriptions'', text_or_empty ''next_charge_at''),
     (''subscriptions'', int_or 0 ''payment_present''),
     (''peer_quotes'', text_or_empty ''created_at''),
     (''peer_quotes'', text_or_empty ''status''),
     (''peer_quotes'', text_or_empty ''expires_at'')]"

definition INDEX_ADDITIONS :: "ddl list" where
  "INDEX_ADDITIONS =
    [Create_Index ''idx_webhook_deliveries_tenant_created'' ''webhook_deliveries'' [''tenant_id'', ''created_at''],
     Create_Index ''idx_transactions_tenant_created'' ''transactions'' [''tenant_id'', ''created_at''],
     Create_Index ''idx_transactions_tenant_state_created'' ''transactions'' [''tenant_id'', ''state'', ''created_at''],
     Create_Index ''idx_transactions_expiry_due'' ''transactions'' [''state'', ''quote_expires_at''],
     Create_Index ''idx_subscriptions_tenant_created'' ''subscriptions'' [''tenant_id'', ''created_at''],
     Create_Index ''idx_subscriptions_tenant_status_created'' ''subscriptions'' [''tenant_id'', ''status'', ''created_at''],
     Create_Index ''idx_subscriptions_renewal_due'' ''subscriptions'' [''status'', ''payment_present'', ''next_charge_at''],
     Create_Index ''idx_peer_quotes_tenant_created'' ''peer_quotes'' [''tenant_id'', ''created_at''],
     Create_Index ''idx_peer_quotes_tenant_status_created'' ''peer_quotes'' [''tenant_id'', ''status'', ''created_at''],
     Create_Index ''idx_peer_quotes_expiry_due'' ''peer_quotes'' [''status'', ''expires_at'']]"

definition reservation_columns :: "(string \<times> column) list" where
  "reservation_columns = [(''idempotency'', text_or_empty ''reservation_id'')]"

section \<open>The ladder\<close>

text \<open>The errors carry the context the code attaches to them.\<close>

datatype body_error =
    Apply_Initial_Schema sql_error
  | Additive_Column_Failed string column sql_error
  | Create_Index_Failed ddl sql_error

datatype open_error =
    Build_Pool
  | Acquire_Connection
  | Create_Schema_Migrations sql_error
  | Probe_Schema_Migrations
  | Read_Applied_Versions
  | Begin_Tx u32
  | Run_Migration u32 string body_error
  | Stamp_Migration u32
  | Commit_Migration u32

definition tolerated :: "sql_error \<Rightarrow> bool" where
  "tolerated e =
     (case e of
        Sqlite_Failure (Some msg) \<Rightarrow> sublist ''duplicate column name'' msg \<or> prefix ''no such table'' msg
      | _ \<Rightarrow> False)"

fun add_columns_idempotent :: "disk \<Rightarrow> (string \<times> column) list \<Rightarrow> database \<Rightarrow> body_error + database" where
  "add_columns_idempotent D [] db = Inr db"
| "add_columns_idempotent D ((t, c) # rest) db =
     (case execute D (Add_Column t c) db of
        Inr db' \<Rightarrow> add_columns_idempotent D rest db'
      | Inl e \<Rightarrow> if tolerated e then add_columns_idempotent D rest db else Inl (Additive_Column_Failed t c e))"

fun create_indexes :: "disk \<Rightarrow> ddl list \<Rightarrow> database \<Rightarrow> body_error + database" where
  "create_indexes D [] db = Inr db"
| "create_indexes D (s # ss) db =
     (case execute D s db of
        Inr db' \<Rightarrow> create_indexes D ss db'
      | Inl e \<Rightarrow> Inl (Create_Index_Failed s e))"

definition migration_v1_initial_schema :: "disk \<Rightarrow> database \<Rightarrow> body_error + database" where
  "migration_v1_initial_schema D db =
     (case execute_batch D SCHEMA_V1 db of Inl e \<Rightarrow> Inl (Apply_Initial_Schema e) | Inr db' \<Rightarrow> Inr db')"

definition migration_v2_tenant_id_columns :: "disk \<Rightarrow> database \<Rightarrow> body_error + database" where
  "migration_v2_tenant_id_columns D db = add_columns_idempotent D tenant_id_columns db"

definition migration_v3_query_columns_and_indexes :: "disk \<Rightarrow> database \<Rightarrow> body_error + database" where
  "migration_v3_query_columns_and_indexes D db =
     bind_result (add_columns_idempotent D query_columns db) (create_indexes D INDEX_ADDITIONS)"

definition migration_v4_idempotency_reservation_id :: "disk \<Rightarrow> database \<Rightarrow> body_error + database" where
  "migration_v4_idempotency_reservation_id D db = add_columns_idempotent D reservation_columns db"

record migration =
  mg_version :: u32
  mg_name :: string
  mg_body :: "disk \<Rightarrow> database \<Rightarrow> body_error + database"

definition MIGRATIONS :: "migration list" where
  "MIGRATIONS =
    [\<lparr>mg_version = 1, mg_name = ''initial_schema'', mg_body = migration_v1_initial_schema\<rparr>,
     \<lparr>mg_version = 2, mg_name = ''tenant_id_columns'', mg_body = migration_v2_tenant_id_columns\<rparr>,
     \<lparr>mg_version = 3, mg_name = ''denormalized_query_columns_and_indexes'',
      mg_body = migration_v3_query_columns_and_indexes\<rparr>,
     \<lparr>mg_version = 4, mg_name = ''idempotency_reservation_id'', mg_body = migration_v4_idempotency_reservation_id\<rparr>]"

text \<open>An \<open>INTEGER PRIMARY KEY\<close> is the row's number and never \<open>NULL\<close>.\<close>

definition stamp_columns :: "column list" where
  "stamp_columns =
    [int_required ''version'', text_required ''name'', text_required ''applied_at'']"

definition create_stamps :: ddl where
  "create_stamps = Create_Table ''schema_migrations'' stamp_columns [''version'']"

text \<open>The versions recorded, in order, each read as \<open>i64\<close> and cast to \<open>u32\<close>.\<close>

definition version_of :: "sql_row \<Rightarrow> int option" where
  "version_of r = (case map_of r ''version'' of Some (Int_Cell v) \<Rightarrow> Some v | _ \<Rightarrow> None)"

definition applied_versions_inner :: "disk \<Rightarrow> database \<Rightarrow> open_error + u32 list" where
  "applied_versions_inner D db =
     (if dk_probe D then Inl Probe_Schema_Migrations
      else case table_of db ''schema_migrations'' of
        None \<Rightarrow> Inr []
      | Some tb \<Rightarrow>
          if dk_read D \<or> list_ex (\<lambda>r. version_of r = None) (tbl_rows tb) then Inl Read_Applied_Versions
          else Inr (map word_of_int (sort (map (\<lambda>r. the (version_of r)) (tbl_rows tb)))))"

definition applied_versions :: "disk \<Rightarrow> database \<Rightarrow> open_error + u32 list" where
  "applied_versions D db = (if dk_acquire D then Inl Acquire_Connection else applied_versions_inner D db)"

text \<open>
  One step of the ladder, in a transaction: an error at any point rolls back what the step did, so the caller goes on
  with the database it had.
\<close>

definition apply_migration :: "disk \<Rightarrow> string \<Rightarrow> migration \<Rightarrow> database \<Rightarrow> open_error + database" where
  "apply_migration D now m db =
     (if dk_begin D (mg_version m) then Inl (Begin_Tx (mg_version m))
      else case mg_body m D db of
        Inl e \<Rightarrow> Inl (Run_Migration (mg_version m) (mg_name m) e)
      | Inr db' \<Rightarrow>
          (case sql_insert D ''schema_migrations''
                  [(''version'', Int_Cell (uint (mg_version m))), (''name'', Text_Cell (mg_name m)),
                   (''applied_at'', Text_Cell now)] db' of
             None \<Rightarrow> Inl (Stamp_Migration (mg_version m))
           | Some db'' \<Rightarrow>
               if dk_stamp D (mg_version m) then Inl (Stamp_Migration (mg_version m))
               else if dk_commit D (mg_version m) then Inl (Commit_Migration (mg_version m))
               else Inr db''))"

fun run_ladder :: "disk \<Rightarrow> string \<Rightarrow> u32 list \<Rightarrow> migration list \<Rightarrow> database \<Rightarrow> (open_error + unit) \<times> database" where
  "run_ladder D now applied [] db = (Inr (), db)"
| "run_ladder D now applied (m # ms) db =
     (if mg_version m \<in> set applied then run_ladder D now applied ms db
      else case apply_migration D now m db of
        Inl e \<Rightarrow> (Inl e, db)
      | Inr db' \<Rightarrow> run_ladder D now applied ms db')"

definition run_migrations :: "disk \<Rightarrow> string \<Rightarrow> database \<Rightarrow> (open_error + unit) \<times> database" where
  "run_migrations D now db =
     (case execute D create_stamps db of
        Inl e \<Rightarrow> (Inl (Create_Schema_Migrations e), db)
      | Inr db1 \<Rightarrow>
          (case applied_versions_inner D db1 of
             Inl e \<Rightarrow> (Inl e, db1)
           | Inr applied \<Rightarrow> run_ladder D now applied MIGRATIONS db1))"

definition migrate :: "disk \<Rightarrow> string \<Rightarrow> database \<Rightarrow> (open_error + unit) \<times> database" where
  "migrate D now db = (if dk_acquire D then (Inl Acquire_Connection, db) else run_migrations D now db)"

text \<open>
  Opening the pool: a pool of one connection for \<open>:memory:\<close>, so that the database lives as long as the pool, and of
  sixteen for a file. The first component is the size of the pool. The database \<open>db\<close> is what the file holds; one in
  memory starts empty at every opening.
\<close>

definition empty_db :: database where
  "empty_db = \<lparr>db_tables = [], db_indexes = []\<rparr>"

definition found_at :: "string \<Rightarrow> database \<Rightarrow> database" where
  "found_at path db = (if path = '':memory:'' then empty_db else db)"

definition open_pool :: "disk \<Rightarrow> string \<Rightarrow> string \<Rightarrow> database \<Rightarrow> (open_error + nat) \<times> database" where
  "open_pool D now path db =
     (if dk_build D then (Inl Build_Pool, found_at path db)
      else case migrate D now (found_at path db) of
        (Inl e, db') \<Rightarrow> (Inl e, db')
      | (Inr _, db') \<Rightarrow> (Inr (if path = '':memory:'' then 1 else 16), db'))"

text \<open>The outermost context of an error, which is what the caller prints.\<close>

fun open_context :: "open_error \<Rightarrow> string" where
  "open_context Build_Pool = ''build state pool''"
| "open_context Acquire_Connection = ''acquire state conn for migration''"
| "open_context _ = ''apply state migrations''"

section \<open>Types of rows\<close>

definition cell_typed :: "column \<Rightarrow> sql_cell \<Rightarrow> bool" where
  "cell_typed c v =
     (case v of
        Null_Cell \<Rightarrow> \<not> col_not_null c
      | Int_Cell _ \<Rightarrow> col_type c = Integer_Affinity
      | Text_Cell _ \<Rightarrow> col_type c = Text_Affinity)"

definition row_typed :: "column list \<Rightarrow> sql_row \<Rightarrow> bool" where
  "row_typed cols r \<longleftrightarrow> list_all2 (\<lambda>c (n, v). n = col_name c \<and> cell_typed c v) cols r"

definition table_typed :: "db_table \<Rightarrow> bool" where
  "table_typed tb \<longleftrightarrow>
     distinct (column_names tb) \<and> set (tbl_key tb) \<subseteq> set (column_names tb) \<and>
     (\<forall>r \<in> set (tbl_rows tb). row_typed (tbl_columns tb) r)"

definition index_ok :: "database \<Rightarrow> string \<times> string list \<Rightarrow> bool" where
  "index_ok db ix \<longleftrightarrow> (\<exists>tb. table_of db (fst ix) = Some tb \<and> set (snd ix) \<subseteq> set (column_names tb))"

text \<open>
  The types of a database: every row of every table has a value of its type for each column and no other, every index
  is on columns that exist, and the table of the stamps, if there, is the one the ladder makes.
\<close>

definition db_typed :: "database \<Rightarrow> bool" where
  "db_typed db \<longleftrightarrow>
     (\<forall>t tb. table_of db t = Some tb \<longrightarrow> table_typed tb) \<and>
     (\<forall>n ix. st_get (db_indexes db) n = Some ix \<longrightarrow> index_ok db ix) \<and>
     (\<forall>tb. table_of db ''schema_migrations'' = Some tb \<longrightarrow>
        tbl_columns tb = stamp_columns \<and> tbl_key tb = [''version''])"

text \<open>A statement whose columns and defaults have the types they declare, and that is not on the stamps.\<close>

definition default_typed :: "column \<Rightarrow> bool" where
  "default_typed c \<longleftrightarrow> (\<forall>v. col_default c = Constant v \<longrightarrow> cell_typed c v)"

fun ddl_ok :: "ddl \<Rightarrow> bool" where
  "ddl_ok (Create_Table t cols key) \<longleftrightarrow>
     distinct (map col_name cols) \<and> set key \<subseteq> set (map col_name cols) \<and>
     (t = ''schema_migrations'' \<longrightarrow> cols = stamp_columns \<and> key = [''version''])"
| "ddl_ok (Create_Index ix t cols) \<longleftrightarrow> True"
| "ddl_ok (Add_Column t c) \<longleftrightarrow> t \<noteq> ''schema_migrations'' \<and> default_typed c"

text \<open>
  How a database grows: tables and indexes stay, a table keeps its columns and its rows, each with the values it had,
  and other than the stamps it gains no row.
\<close>

definition table_grows :: "db_table \<Rightarrow> db_table \<Rightarrow> bool" where
  "table_grows tb tb' \<longleftrightarrow>
     prefix (tbl_columns tb) (tbl_columns tb') \<and> tbl_key tb' = tbl_key tb \<and>
     length (tbl_rows tb) \<le> length (tbl_rows tb') \<and>
     list_all2 prefix (tbl_rows tb) (take (length (tbl_rows tb)) (tbl_rows tb'))"

definition grows :: "database \<Rightarrow> database \<Rightarrow> bool" where
  "grows db db' \<longleftrightarrow>
     (\<forall>t tb. table_of db t = Some tb \<longrightarrow>
        (\<exists>tb'. table_of db' t = Some tb' \<and> table_grows tb tb' \<and>
               (t \<noteq> ''schema_migrations'' \<longrightarrow> length (tbl_rows tb') = length (tbl_rows tb)))) \<and>
     (\<forall>n ix. st_get (db_indexes db) n = Some ix \<longrightarrow> st_get (db_indexes db') n = Some ix)"

lemma list_all2_prefix_refl [simp]: "list_all2 prefix rs rs"
  by (simp add: list_all2_refl)

lemma table_grows_refl [simp]: "table_grows tb tb"
  by (simp add: table_grows_def)

lemma table_grows_trans:
  assumes "table_grows a b" "table_grows b c"
  shows "table_grows a c"
proof -
  have "list_all2 prefix (take (length (tbl_rows a)) (tbl_rows b))
      (take (length (tbl_rows a)) (take (length (tbl_rows b)) (tbl_rows c)))"
    using assms(2) list_all2_takeI unfolding table_grows_def by blast
  then have "list_all2 prefix (take (length (tbl_rows a)) (tbl_rows b)) (take (length (tbl_rows a)) (tbl_rows c))"
    using assms(1) by (simp add: table_grows_def min_def)
  then show ?thesis
    using assms list_all2_trans [of prefix prefix prefix] prefix_order.trans by (fastforce simp: table_grows_def)
qed

lemma grows_refl [simp]: "grows db db"
  by (simp add: grows_def)

lemma grows_trans:
  assumes "grows a b" "grows b c"
  shows "grows a c"
  unfolding grows_def
proof (intro conjI allI impI)
  fix t tb assume "table_of a t = Some tb"
  then obtain tb' where one: "table_of b t = Some tb'" "table_grows tb tb'"
      "t \<noteq> ''schema_migrations'' \<longrightarrow> length (tbl_rows tb') = length (tbl_rows tb)"
    using assms(1) unfolding grows_def by blast
  then obtain tb'' where "table_of c t = Some tb''" "table_grows tb' tb''"
      "t \<noteq> ''schema_migrations'' \<longrightarrow> length (tbl_rows tb'') = length (tbl_rows tb')"
    using assms(2) unfolding grows_def by blast
  then show "\<exists>tb'. table_of c t = Some tb' \<and> table_grows tb tb' \<and>
      (t \<noteq> ''schema_migrations'' \<longrightarrow> length (tbl_rows tb') = length (tbl_rows tb))"
    using one table_grows_trans by auto
next
  fix n ix assume "st_get (db_indexes a) n = Some ix"
  then show "st_get (db_indexes c) n = Some ix"
    using assms unfolding grows_def by blast
qed

lemma grows_table: "grows db db' \<Longrightarrow> table_of db t = Some tb \<Longrightarrow> \<exists>tb'. table_of db' t = Some tb' \<and> table_grows tb tb'"
  unfolding grows_def by blast

lemma table_grows_names: "table_grows tb tb' \<Longrightarrow> set (column_names tb) \<subseteq> set (column_names tb')"
  by (auto simp: table_grows_def column_names_def prefix_def)

section \<open>What one statement does\<close>

lemma add_column_Inr:
  "add_column c tb = Inr tb' \<longleftrightarrow>
     col_name c \<notin> set (column_names tb) \<and>
     (\<exists>v. (col_default c = Constant v \<or> col_default c = No_Default \<and> v = Null_Cell) \<and>
          (col_not_null c \<longrightarrow> v \<noteq> Null_Cell) \<and>
          tb' = tb\<lparr>tbl_columns := tbl_columns tb @ [c], tbl_rows := map (\<lambda>r. r @ [(col_name c, v)]) (tbl_rows tb)\<rparr>)"
  by (auto simp: add_column_def Let_def split: sql_default.splits)

lemma add_column_grows: "add_column c tb = Inr tb' \<Longrightarrow> table_grows tb tb' \<and> length (tbl_rows tb') = length (tbl_rows tb)"
  by (auto simp: add_column_Inr table_grows_def list_all2_conv_all_nth)

lemma row_typed_append: "row_typed cols r \<Longrightarrow> cell_typed c v \<Longrightarrow> row_typed (cols @ [c]) (r @ [(col_name c, v)])"
  by (simp add: row_typed_def list_all2_appendI)

lemma add_column_typed:
  assumes "add_column c tb = Inr tb'" "table_typed tb" "default_typed c"
  shows "table_typed tb'"
proof -
  obtain v where fresh: "col_name c \<notin> set (column_names tb)"
    and v: "col_default c = Constant v \<or> col_default c = No_Default \<and> v = Null_Cell" "col_not_null c \<longrightarrow> v \<noteq> Null_Cell"
    and tb': "tb' = tb\<lparr>tbl_columns := tbl_columns tb @ [c], tbl_rows := map (\<lambda>r. r @ [(col_name c, v)]) (tbl_rows tb)\<rparr>"
    using assms(1) by (auto simp: add_column_Inr)
  have "cell_typed c v"
    using v assms(3) by (auto simp: default_typed_def cell_typed_def)
  then show ?thesis
    using fresh assms(2) row_typed_append by (auto simp: tb' table_typed_def column_names_def)
qed

lemma run_ddl_grows: "run_ddl s db = Inr db' \<Longrightarrow> grows db db'"
  by (cases s) (auto simp: grows_def add_column_grows split: option.splits if_splits sum.splits)

lemma index_ok_grows: "grows db db' \<Longrightarrow> index_ok db ix \<Longrightarrow> index_ok db' ix"
  unfolding index_ok_def using grows_table table_grows_names by (meson order_trans)

lemma db_typed_put:
  assumes "db_typed db" "table_typed tb'" "grows db (db\<lparr>db_tables := st_put t tb' (db_tables db)\<rparr>)"
    "t = ''schema_migrations'' \<Longrightarrow> tbl_columns tb' = stamp_columns \<and> tbl_key tb' = [''version'']"
  shows "db_typed (db\<lparr>db_tables := st_put t tb' (db_tables db)\<rparr>)"
proof -
  have "st_get (db_indexes db) n = Some ix \<Longrightarrow> index_ok (db\<lparr>db_tables := st_put t tb' (db_tables db)\<rparr>) ix" for n ix
    using assms(1,3) index_ok_grows unfolding db_typed_def by blast
  then show ?thesis
    using assms(1,2,4) by (simp add: db_typed_def)
qed

lemma run_ddl_typed:
  assumes run: "run_ddl s db = Inr db'" and ok: "ddl_ok s" and typed: "db_typed db"
  shows "db_typed db'"
proof (cases s)
  case (Create_Table t cols key)
  show ?thesis
  proof (cases "table_of db t")
    case None
    let ?tb = "\<lparr>tbl_columns = cols, tbl_key = key, tbl_rows = []\<rparr>"
    have db': "db' = db\<lparr>db_tables := st_put t ?tb (db_tables db)\<rparr>"
      using run None by (simp add: Create_Table)
    have "table_typed ?tb"
      using ok by (simp add: Create_Table table_typed_def column_names_def)
    then show ?thesis
      unfolding db' using typed run_ddl_grows [OF run] ok unfolding db'
      by (intro db_typed_put) (simp_all add: Create_Table)
  next
    case (Some tb)
    then show ?thesis using run typed by (simp add: Create_Table)
  qed
next
  case (Create_Index ix t cols)
  then show ?thesis
    using run typed by (auto simp: db_typed_def index_ok_def list_all_iff split: option.splits if_splits)
next
  case (Add_Column t c)
  obtain tb tb' where tb: "table_of db t = Some tb" "add_column c tb = Inr tb'"
    and db': "db' = db\<lparr>db_tables := st_put t tb' (db_tables db)\<rparr>"
    using run by (auto simp: Add_Column split: option.splits sum.splits)
  have "table_typed tb'"
    using tb ok typed add_column_typed by (auto simp: Add_Column db_typed_def)
  then show ?thesis
    unfolding db' using typed run_ddl_grows [OF run] ok unfolding db'
    by (intro db_typed_put) (simp_all add: Add_Column)
qed

text \<open>Statements on other tables leave the stamps alone.\<close>

fun ddl_table :: "ddl \<Rightarrow> string" where
  "ddl_table (Create_Table t _ _) = t"
| "ddl_table (Create_Index _ t _) = t"
| "ddl_table (Add_Column t _) = t"

definition off_stamps :: "ddl \<Rightarrow> bool" where
  "off_stamps s \<longleftrightarrow> ddl_ok s \<and> ddl_table s \<noteq> ''schema_migrations''"

text \<open>What every part of a migration does to the database.\<close>

definition advances :: "database \<Rightarrow> database \<Rightarrow> bool" where
  "advances db db' \<longleftrightarrow>
     grows db db' \<and> (db_typed db \<longrightarrow> db_typed db') \<and>
     table_of db' ''schema_migrations'' = table_of db ''schema_migrations''"

lemma advances_refl [simp]: "advances db db"
  by (simp add: advances_def)

lemma advances_trans: "advances a b \<Longrightarrow> advances b c \<Longrightarrow> advances a c"
  using grows_trans by (auto simp: advances_def)

lemma run_ddl_advances: "run_ddl s db = Inr db' \<Longrightarrow> off_stamps s \<Longrightarrow> advances db db'"
  using run_ddl_grows [of s db db'] run_ddl_typed [of s db db']
  by (cases s) (auto simp: advances_def off_stamps_def split: option.splits if_splits sum.splits)

lemma execute_advances: "execute D s db = Inr db' \<Longrightarrow> off_stamps s \<Longrightarrow> advances db db'"
  by (auto simp: execute_def split: option.splits intro: run_ddl_advances)

lemma execute_batch_advances:
  "execute_batch D ss db = Inr db' \<Longrightarrow> list_all off_stamps ss \<Longrightarrow> advances db db'"
  by (induction D ss db rule: execute_batch.induct)
    (auto simp: bind_result_Inr_iff intro: advances_trans execute_advances)

lemma create_indexes_advances:
  "create_indexes D ss db = Inr db' \<Longrightarrow> list_all off_stamps ss \<Longrightarrow> advances db db'"
  by (induction D ss db rule: create_indexes.induct)
    (auto split: sum.splits intro: advances_trans execute_advances)

lemma add_columns_advances:
  "add_columns_idempotent D cs db = Inr db' \<Longrightarrow> list_all (\<lambda>(t, c). off_stamps (Add_Column t c)) cs \<Longrightarrow> advances db db'"
  by (induction D cs db rule: add_columns_idempotent.induct)
    (auto split: sum.splits if_splits intro: advances_trans execute_advances)

section \<open>What has been done stays done\<close>

fun stmt_done :: "ddl \<Rightarrow> database \<Rightarrow> bool" where
  "stmt_done (Create_Table t _ _) db \<longleftrightarrow> table_of db t \<noteq> None"
| "stmt_done (Create_Index ix _ _) db \<longleftrightarrow> st_get (db_indexes db) ix \<noteq> None"
| "stmt_done (Add_Column t c) db \<longleftrightarrow> (\<exists>tb. table_of db t = Some tb \<and> col_name c \<in> set (column_names tb))"

text \<open>What the migration of a version declares.\<close>

definition declared :: "u32 \<Rightarrow> ddl list" where
  "declared v =
     (if v = 1 then SCHEMA_V1
      else if v = 2 then map (\<lambda>(t, c). Add_Column t c) tenant_id_columns
      else if v = 3 then map (\<lambda>(t, c). Add_Column t c) query_columns @ INDEX_ADDITIONS
      else if v = 4 then map (\<lambda>(t, c). Add_Column t c) reservation_columns
      else [])"

definition version_done :: "u32 \<Rightarrow> database \<Rightarrow> bool" where
  "version_done v db \<longleftrightarrow> (\<forall>s \<in> set (declared v). stmt_done s db)"

lemma stmt_done_grows:
  assumes "grows db db'" "stmt_done s db"
  shows "stmt_done s db'"
proof (cases s)
  case (Create_Index ix t cols)
  then show ?thesis using assms unfolding grows_def by auto
next
  case (Create_Table t cols key)
  then show ?thesis using assms grows_table by fastforce
next
  case (Add_Column t c)
  then show ?thesis using assms grows_table table_grows_names by (metis stmt_done.simps(3) subsetD)
qed

lemma version_done_grows: "grows db db' \<Longrightarrow> version_done v db \<Longrightarrow> version_done v db'"
  using stmt_done_grows by (auto simp: version_done_def)

lemma run_ddl_done: "run_ddl s db = Inr db' \<Longrightarrow> stmt_done s db'"
  by (cases s) (auto simp: add_column_Inr column_names_def split: option.splits if_splits sum.splits)

lemma execute_done: "execute D s db = Inr db' \<Longrightarrow> stmt_done s db'"
  by (auto simp: execute_def split: option.splits intro: run_ddl_done)

text \<open>A disk whose own failures are not mistaken for the errors the code tolerates.\<close>

definition honest :: "disk \<Rightarrow> bool" where
  "honest D \<longleftrightarrow> (\<forall>s e. dk_ddl D s = Some e \<longrightarrow> \<not> tolerated e)"

lemma add_column_tolerated:
  assumes "add_column c tb = Inl e" "tolerated e"
  shows "col_name c \<in> set (column_names tb)"
proof (rule ccontr)
  assume "col_name c \<notin> set (column_names tb)"
  then have "e = Sqlite_Failure (Some ''Cannot add a column with non-constant default'') \<or>
      e = Sqlite_Failure (Some ''Cannot add a NOT NULL column with default value NULL'')"
    using assms(1) by (auto simp: add_column_def Let_def split: sql_default.splits if_splits)
  moreover have "\<not> tolerated (Sqlite_Failure (Some ''Cannot add a column with non-constant default''))"
    by code_simp
  moreover have "\<not> tolerated (Sqlite_Failure (Some ''Cannot add a NOT NULL column with default value NULL''))"
    by code_simp
  ultimately show False using assms(2) by metis
qed

lemma execute_add_tolerated:
  assumes "execute D (Add_Column t c) db = Inl e" "tolerated e" "honest D" "table_of db t \<noteq> None"
  shows "stmt_done (Add_Column t c) db"
proof -
  obtain tb where tb: "table_of db t = Some tb" using assms(4) by blast
  have "run_ddl (Add_Column t c) db = Inl e"
    using assms(1-3) by (auto simp: execute_def honest_def split: option.splits)
  then have "add_column c tb = Inl e"
    using tb by (auto split: sum.splits)
  then show ?thesis
    using tb assms(2) add_column_tolerated by auto
qed

lemma execute_batch_done:
  "execute_batch D ss db = Inr db' \<Longrightarrow> list_all off_stamps ss \<Longrightarrow> list_all (\<lambda>s. stmt_done s db') ss"
proof (induction D ss db rule: execute_batch.induct)
  case (2 D s ss db)
  obtain db1 where one: "execute D s db = Inr db1" "execute_batch D ss db1 = Inr db'"
    using 2(2) by (auto simp: bind_result_Inr_iff)
  have "grows db1 db'"
    using execute_batch_advances [OF one(2)] 2(3) by (simp add: advances_def)
  then show ?case
    using 2 one execute_done stmt_done_grows by auto
qed simp

lemma create_indexes_done:
  "create_indexes D ss db = Inr db' \<Longrightarrow> list_all off_stamps ss \<Longrightarrow> list_all (\<lambda>s. stmt_done s db') ss"
proof (induction D ss db rule: create_indexes.induct)
  case (2 D s ss db)
  obtain db1 where one: "execute D s db = Inr db1" "create_indexes D ss db1 = Inr db'"
    using 2(2) by (auto split: sum.splits)
  have "grows db1 db'"
    using create_indexes_advances [OF one(2)] 2(3) by (simp add: advances_def)
  then show ?case
    using 2 one execute_done stmt_done_grows by auto
qed simp

definition columns_ok :: "(string \<times> column) list \<Rightarrow> bool" where
  "columns_ok cs \<longleftrightarrow> list_all (\<lambda>(t, c). off_stamps (Add_Column t c)) cs"

lemma add_columns_done:
  assumes "add_columns_idempotent D cs db = Inr db'" "columns_ok cs" "honest D"
    "list_all (\<lambda>(t, c). table_of db t \<noteq> None) cs"
  shows "list_all (\<lambda>(t, c). stmt_done (Add_Column t c) db') cs"
  using assms
proof (induction cs arbitrary: db)
  case (Cons tc rest)
  obtain t c where tc: "tc = (t, c)" by (cases tc)
  obtain db1 where rest: "add_columns_idempotent D rest db1 = Inr db'"
    and step: "execute D (Add_Column t c) db = Inr db1 \<or>
               db1 = db \<and> (\<exists>e. execute D (Add_Column t c) db = Inl e \<and> tolerated e)"
    using Cons.prems(1) by (auto simp: tc split: sum.splits if_splits)
  have rest_ok: "columns_ok rest" using Cons.prems(2) by (simp add: columns_ok_def)
  have off: "off_stamps (Add_Column t c)" using Cons.prems(2) by (simp add: columns_ok_def tc)
  have grow: "grows db db1"
    using step execute_advances [OF _ off] by (auto simp: advances_def)
  have grow': "grows db1 db'"
    using add_columns_advances [OF rest] rest_ok by (simp add: advances_def columns_ok_def)
  have "stmt_done (Add_Column t c) db1"
    using step
  proof
    assume "execute D (Add_Column t c) db = Inr db1"
    then show ?thesis by (rule execute_done)
  next
    assume "db1 = db \<and> (\<exists>e. execute D (Add_Column t c) db = Inl e \<and> tolerated e)"
    then show ?thesis
      using execute_add_tolerated [of D t c db] Cons.prems(3,4) by (auto simp: tc simp del: stmt_done.simps)
  qed
  then have "stmt_done (Add_Column t c) db'"
    by (rule stmt_done_grows [OF grow'])
  moreover have "list_all (\<lambda>(t, c). table_of db1 t \<noteq> None) rest"
    using Cons.prems(4) grow grows_table by (fastforce simp: list_all_iff tc)
  ultimately show ?case
    using Cons.IH [OF rest rest_ok Cons.prems(3)] by (simp add: tc)
qed simp

lemmas column_kinds =
  text_key_def text_required_def text_or_empty_def text_optional_def int_required_def int_or_def int_optional_def

lemma schema_off_stamps: "list_all off_stamps SCHEMA_V1"
  by (simp add: SCHEMA_V1_def off_stamps_def column_kinds)

lemma indexes_off_stamps: "list_all off_stamps INDEX_ADDITIONS"
  by (simp add: INDEX_ADDITIONS_def off_stamps_def)

lemma columns_all_ok: "columns_ok tenant_id_columns" "columns_ok query_columns" "columns_ok reservation_columns"
  by (simp_all add: columns_ok_def tenant_id_columns_def query_columns_def reservation_columns_def off_stamps_def
      column_kinds default_typed_def cell_typed_def)

lemma altered_tables_created:
  assumes "version_done 1 db" "tc \<in> set (tenant_id_columns @ query_columns @ reservation_columns)"
  shows "table_of db (fst tc) \<noteq> None"
proof -
  have "list_all (\<lambda>tc. list_ex (\<lambda>s. case s of Create_Table t _ _ \<Rightarrow> t = fst tc | _ \<Rightarrow> False) SCHEMA_V1)
      (tenant_id_columns @ query_columns @ reservation_columns)"
    by code_simp
  then obtain s where s: "s \<in> set SCHEMA_V1" "case s of Create_Table t _ _ \<Rightarrow> t = fst tc | _ \<Rightarrow> False"
    using assms(2) by (auto simp: list_all_iff list_ex_iff)
  then have "stmt_done s db"
    using assms(1) by (simp add: version_done_def declared_def)
  then show ?thesis
    using s(2) by (cases s) simp_all
qed

section \<open>A step of the ladder\<close>

text \<open>
  The columns an index needs that no migration adds to a table already there; a database an older handler made has
  them in the tables it has.
\<close>

definition needed :: "string \<Rightarrow> string list" where
  "needed t =
     (if t = ''idempotency'' then [''created_at'']
      else if t = ''webhook_deliveries'' then [''status'', ''next_attempt_at'', ''created_at'']
      else if t = ''webhook_subscribers'' then [''tenant_id'', ''active'']
      else [])"

definition compatible :: "database \<Rightarrow> bool" where
  "compatible db \<longleftrightarrow> (\<forall>t tb. table_of db t = Some tb \<longrightarrow> set (needed t) \<subseteq> set (column_names tb))"

lemma needed_created: "needed t \<noteq> [] \<Longrightarrow> version_done 1 db \<Longrightarrow> table_of db t \<noteq> None"
  by (auto simp: needed_def version_done_def declared_def SCHEMA_V1_def split: if_splits)

lemma compatible_grows:
  assumes "compatible db" "grows db db'" "version_done 1 db"
  shows "compatible db'"
  unfolding compatible_def
proof (intro allI impI)
  fix t tb' assume tb': "table_of db' t = Some tb'"
  show "set (needed t) \<subseteq> set (column_names tb')"
  proof (cases "needed t = []")
    case False
    then obtain tb where tb: "table_of db t = Some tb" using needed_created assms(3) by blast
    then have "table_grows tb tb'" using grows_table [OF assms(2) tb] tb' by auto
    then show ?thesis using assms(1) tb table_grows_names unfolding compatible_def by blast
  qed simp
qed

text \<open>The tables the first migration creates have them.\<close>

fun creates_needed :: "ddl \<Rightarrow> bool" where
  "creates_needed (Create_Table t cols _) \<longleftrightarrow> set (needed t) \<subseteq> set (map col_name cols)"
| "creates_needed (Create_Index _ t cs) \<longleftrightarrow> set cs \<subseteq> set (needed t)"
| "creates_needed (Add_Column _ _) \<longleftrightarrow> False"

lemma schema_creates_needed: "list_all creates_needed SCHEMA_V1"
  by (simp add: SCHEMA_V1_def needed_def column_kinds)

lemma run_ddl_compatible: "run_ddl s db = Inr db' \<Longrightarrow> creates_needed s \<Longrightarrow> compatible db \<Longrightarrow> compatible db'"
  by (cases s) (auto simp: compatible_def subset_iff column_names_def split: option.splits if_splits)

lemma execute_batch_compatible:
  "execute_batch D ss db = Inr db' \<Longrightarrow> list_all creates_needed ss \<Longrightarrow> compatible db \<Longrightarrow> compatible db'"
proof (induction D ss db rule: execute_batch.induct)
  case (2 D s ss db)
  obtain db1 where "execute D s db = Inr db1" "execute_batch D ss db1 = Inr db'"
    using 2(2) by (auto simp: bind_result_Inr_iff)
  then show ?case
    using 2(1,3,4) run_ddl_compatible [of s db db1] by (auto simp: execute_def split: option.splits)
qed simp

lemma migration_cases [consumes 1, case_names v1 v2 v3 v4]:
  assumes "m \<in> set MIGRATIONS"
  obtains "mg_version m = 1" "mg_body m = migration_v1_initial_schema"
    | "mg_version m = 2" "mg_body m = migration_v2_tenant_id_columns"
    | "mg_version m = 3" "mg_body m = migration_v3_query_columns_and_indexes"
    | "mg_version m = 4" "mg_body m = migration_v4_idempotency_reservation_id"
  using assms by (auto simp: MIGRATIONS_def)

lemma columns_ok_advances: "add_columns_idempotent D cs db = Inr db' \<Longrightarrow> columns_ok cs \<Longrightarrow> advances db db'"
  by (simp add: columns_ok_def add_columns_advances)

lemma body_advances:
  assumes "m \<in> set MIGRATIONS" "mg_body m D db = Inr db'"
  shows "advances db db'"
  using assms(1)
proof (cases rule: migration_cases)
  case v1
  then have "execute_batch D SCHEMA_V1 db = Inr db'"
    using assms(2) by (auto simp: migration_v1_initial_schema_def split: sum.splits)
  then show ?thesis by (rule execute_batch_advances [OF _ schema_off_stamps])
next
  case v2
  then show ?thesis
    using assms(2) columns_all_ok columns_ok_advances by (simp add: migration_v2_tenant_id_columns_def)
next
  case v3
  then obtain db1 where "add_columns_idempotent D query_columns db = Inr db1"
    and "create_indexes D INDEX_ADDITIONS db1 = Inr db'"
    using assms(2) by (auto simp: migration_v3_query_columns_and_indexes_def bind_result_Inr_iff)
  then show ?thesis
    using columns_all_ok columns_ok_advances create_indexes_advances indexes_off_stamps advances_trans by blast
next
  case v4
  then show ?thesis
    using assms(2) columns_all_ok columns_ok_advances by (simp add: migration_v4_idempotency_reservation_id_def)
qed

lemma columns_declared:
  "list_all (\<lambda>(t, c). stmt_done (Add_Column t c) db) cs \<Longrightarrow> s \<in> set (map (\<lambda>(t, c). Add_Column t c) cs) \<Longrightarrow> stmt_done s db"
  by (auto simp: list_all_iff)

lemma add_columns_version:
  assumes "add_columns_idempotent D cs db = Inr db'" "columns_ok cs" "honest D" "version_done 1 db"
    "set cs \<subseteq> set (tenant_id_columns @ query_columns @ reservation_columns)"
  shows "\<forall>s \<in> set (map (\<lambda>(t, c). Add_Column t c) cs). stmt_done s db'"
proof -
  have "list_all (\<lambda>(t, c). table_of db t \<noteq> None) cs"
    using altered_tables_created [OF assms(4)] assms(5) by (fastforce simp: list_all_iff)
  then show ?thesis
    using add_columns_done [OF assms(1-3)] columns_declared by blast
qed

lemma body_done:
  assumes "m \<in> set MIGRATIONS" "mg_body m D db = Inr db'" "honest D" "mg_version m \<noteq> 1 \<Longrightarrow> version_done 1 db"
  shows "version_done (mg_version m) db'"
  using assms(1)
proof (cases rule: migration_cases)
  case v1
  then have "execute_batch D SCHEMA_V1 db = Inr db'"
    using assms(2) by (auto simp: migration_v1_initial_schema_def split: sum.splits)
  then show ?thesis
    using v1 execute_batch_done schema_off_stamps by (auto simp: version_done_def declared_def list_all_iff)
next
  case v2
  then have "\<forall>s \<in> set (map (\<lambda>(t, c). Add_Column t c) tenant_id_columns). stmt_done s db'"
    using assms columns_all_ok by (intro add_columns_version) (auto simp: migration_v2_tenant_id_columns_def)
  then show ?thesis using v2 by (simp add: version_done_def declared_def)
next
  case v3
  then obtain db1 where one: "add_columns_idempotent D query_columns db = Inr db1"
    and ixs: "create_indexes D INDEX_ADDITIONS db1 = Inr db'"
    using assms(2) by (auto simp: migration_v3_query_columns_and_indexes_def bind_result_Inr_iff)
  have "\<forall>s \<in> set (map (\<lambda>(t, c). Add_Column t c) query_columns). stmt_done s db1"
    using assms columns_all_ok v3 by (intro add_columns_version [OF one]) auto
  moreover have "grows db1 db'"
    using create_indexes_advances [OF ixs indexes_off_stamps] by (simp add: advances_def)
  ultimately have "\<forall>s \<in> set (map (\<lambda>(t, c). Add_Column t c) query_columns). stmt_done s db'"
    using stmt_done_grows by blast
  moreover have "\<forall>s \<in> set INDEX_ADDITIONS. stmt_done s db'"
    using create_indexes_done [OF ixs indexes_off_stamps] by (simp add: list_all_iff)
  ultimately show ?thesis
    using v3 by (auto simp: version_done_def declared_def simp del: set_map)
next
  case v4
  then have "\<forall>s \<in> set (map (\<lambda>(t, c). Add_Column t c) reservation_columns). stmt_done s db'"
    using assms columns_all_ok by (intro add_columns_version) (auto simp: migration_v4_idempotency_reservation_id_def)
  then show ?thesis using v4 by (simp add: version_done_def declared_def)
qed

text \<open>A version is stamped when a row of \<open>schema_migrations\<close> reads as it.\<close>

definition stamped :: "u32 \<Rightarrow> database \<Rightarrow> bool" where
  "stamped v db \<longleftrightarrow>
     (\<exists>tb r i. table_of db ''schema_migrations'' = Some tb \<and> r \<in> set (tbl_rows tb) \<and>
        version_of r = Some i \<and> word_of_int i = v)"

definition stamps_true :: "database \<Rightarrow> bool" where
  "stamps_true db \<longleftrightarrow> (\<forall>v. stamped v db \<longrightarrow> version_done v db)"

lemma version_of_prefix: "prefix r r' \<Longrightarrow> version_of r = Some i \<Longrightarrow> version_of r' = Some i"
  by (auto simp: version_of_def prefix_def map_add_def split: option.splits sql_cell.splits)

lemma stamped_grows:
  assumes "grows db db'" "stamped v db"
  shows "stamped v db'"
proof -
  obtain tb r i where r: "table_of db ''schema_migrations'' = Some tb" "r \<in> set (tbl_rows tb)"
      "version_of r = Some i" "word_of_int i = v"
    using assms(2) unfolding stamped_def by blast
  obtain tb' where tb': "table_of db' ''schema_migrations'' = Some tb'" "table_grows tb tb'"
    using grows_table [OF assms(1) r(1)] by blast
  obtain r' where "prefix r r'" "r' \<in> set (tbl_rows tb')"
    using tb'(2) r(2) by (auto simp: table_grows_def list_all2_conv_all_nth in_set_conv_nth) (metis nth_mem order_less_le_trans)
  then show ?thesis
    using r tb' version_of_prefix unfolding stamped_def by blast
qed

lemma map_of_filled_row:
  "map_of vals k = Some v \<Longrightarrow> k \<in> set (map col_name cols) \<Longrightarrow> map_of (filled_row D vals cols) k = Some v"
  by (induction cols) (auto simp: filled_row_def)

lemma sql_insert_Some:
  assumes "sql_insert D t vals db = Some db'"
  obtains tb where "table_of db t = Some tb" "\<not> sql_violates tb (filled_row D vals (tbl_columns tb))"
    "\<forall>n v. map_of vals n = Some v \<longrightarrow> map_of (filled_row D vals (tbl_columns tb)) n = Some v"
    "db' = db\<lparr>db_tables := st_put t (tb\<lparr>tbl_rows := tbl_rows tb @ [filled_row D vals (tbl_columns tb)]\<rparr>) (db_tables db)\<rparr>"
proof -
  obtain tb where tb: "table_of db t = Some tb" "\<not> sql_violates tb (filled_row D vals (tbl_columns tb))"
    and names: "list_all (\<lambda>(n, _). n \<in> set (column_names tb)) vals"
    and db': "db' = db\<lparr>db_tables := st_put t (tb\<lparr>tbl_rows := tbl_rows tb @ [filled_row D vals (tbl_columns tb)]\<rparr>) (db_tables db)\<rparr>"
    using assms unfolding sql_insert_def Let_def by (simp only: split: option.splits if_splits) blast+
  have "map_of (filled_row D vals (tbl_columns tb)) n = Some v" if "map_of vals n = Some v" for n v
  proof (rule map_of_filled_row [OF that])
    show "n \<in> set (map col_name (tbl_columns tb))"
      using names map_of_SomeD [OF that] by (auto simp: list_all_iff column_names_def)
  qed
  then show thesis using that tb db' by blast
qed

lemma sql_insert_stamp:
  assumes "sql_insert D ''schema_migrations''
      [(''version'', Int_Cell n), (''name'', Text_Cell nm), (''applied_at'', Text_Cell now)] db = Some db'"
  shows "\<exists>tb r. table_of db ''schema_migrations'' = Some tb \<and> version_of r = Some n \<and>
    db' = db\<lparr>db_tables := st_put ''schema_migrations'' (tb\<lparr>tbl_rows := tbl_rows tb @ [r]\<rparr>) (db_tables db)\<rparr> \<and>
    (tbl_columns tb = stamp_columns \<longrightarrow> row_typed stamp_columns r)"
  using assms
proof (rule sql_insert_Some)
  let ?row = "filled_row D [(''version'', Int_Cell n), (''name'', Text_Cell nm), (''applied_at'', Text_Cell now)]"
  fix tb
  assume tb: "table_of db ''schema_migrations'' = Some tb"
    "db' = db\<lparr>db_tables := st_put ''schema_migrations'' (tb\<lparr>tbl_rows := tbl_rows tb @ [?row (tbl_columns tb)]\<rparr>) (db_tables db)\<rparr>"
    and vals: "\<forall>k v. map_of [(''version'', Int_Cell n), (''name'', Text_Cell nm), (''applied_at'', Text_Cell now)] k = Some v \<longrightarrow>
      map_of (?row (tbl_columns tb)) k = Some v"
  have "version_of (?row (tbl_columns tb)) = Some n"
    using vals by (simp add: version_of_def)
  moreover have "row_typed stamp_columns (?row stamp_columns)"
    by (simp add: stamp_columns_def row_typed_def cell_typed_def column_kinds filled_row_def)
  ultimately show ?thesis
    using tb by (intro exI [of _ tb] exI [of _ "?row (tbl_columns tb)"] conjI impI) simp_all
qed

lemma apply_migration_ok:
  assumes "apply_migration D now m db = Inr db'" "m \<in> set MIGRATIONS"
  shows "grows db db'" "db_typed db \<Longrightarrow> db_typed db'"
    "stamped v db' \<longleftrightarrow> stamped v db \<or> v = mg_version m"
    "(mg_version m \<noteq> 1 \<Longrightarrow> version_done 1 db) \<Longrightarrow> compatible db \<Longrightarrow> compatible db'"
    "honest D \<Longrightarrow> (mg_version m \<noteq> 1 \<Longrightarrow> version_done 1 db) \<Longrightarrow> version_done (mg_version m) db'"
proof -
  obtain db1 where body: "mg_body m D db = Inr db1"
    and ins: "sql_insert D ''schema_migrations'' [(''version'', Int_Cell (uint (mg_version m))),
        (''name'', Text_Cell (mg_name m)), (''applied_at'', Text_Cell now)] db1 = Some db'"
    using assms(1) unfolding apply_migration_def by (auto split: if_splits sum.splits option.splits)
  obtain tb r where tb: "table_of db1 ''schema_migrations'' = Some tb" and r: "version_of r = Some (uint (mg_version m))"
    and db': "db' = db1\<lparr>db_tables := st_put ''schema_migrations'' (tb\<lparr>tbl_rows := tbl_rows tb @ [r]\<rparr>) (db_tables db1)\<rparr>"
    and typed: "tbl_columns tb = stamp_columns \<longrightarrow> row_typed stamp_columns r"
    using sql_insert_stamp [OF ins] by blast
  have adv: "advances db db1" by (rule body_advances [OF assms(2) body])
  have grow: "grows db1 db'"
    using tb by (auto simp: grows_def db' table_grows_def)
  show "grows db db'"
    using adv grow grows_trans by (auto simp: advances_def)
  show "db_typed db'" if "db_typed db"
  proof -
    have one: "db_typed db1" using adv that by (simp add: advances_def)
    then have "tbl_columns tb = stamp_columns" "tbl_key tb = [''version'']" "table_typed tb"
      using tb by (simp_all add: db_typed_def)
    then have "table_typed (tb\<lparr>tbl_rows := tbl_rows tb @ [r]\<rparr>)"
      using typed by (auto simp: table_typed_def column_names_def)
    then show ?thesis
      unfolding db' using one grow \<open>tbl_columns tb = stamp_columns\<close> \<open>tbl_key tb = [''version'']\<close> unfolding db'
      by (intro db_typed_put) simp_all
  qed
  have "table_of db ''schema_migrations'' = Some tb"
    using adv tb by (simp add: advances_def)
  then show "stamped v db' \<longleftrightarrow> stamped v db \<or> v = mg_version m"
    using r by (auto simp: stamped_def db')
  show "compatible db'" if one: "mg_version m \<noteq> 1 \<Longrightarrow> version_done 1 db" and comp: "compatible db"
  proof -
    have "compatible db1"
      using assms(2)
    proof (cases rule: migration_cases)
      case v1
      then show ?thesis
        using body comp execute_batch_compatible schema_creates_needed
        by (fastforce simp: migration_v1_initial_schema_def split: sum.splits)
    qed (use one comp adv compatible_grows in \<open>auto simp: advances_def\<close>)
    then show ?thesis
      by (auto simp: compatible_def db' needed_def)
  qed
  show "version_done (mg_version m) db'" if "honest D" "mg_version m \<noteq> 1 \<Longrightarrow> version_done 1 db"
    using version_done_grows [OF grow] body_done [OF assms(2) body that] by blast
qed

section \<open>The ladder, cut short anywhere\<close>

lemma applied_are_stamped:
  assumes "applied_versions_inner D db = Inr vs"
  shows "v \<in> set vs \<longleftrightarrow> stamped v db"
  using assms
  by (auto simp: applied_versions_inner_def stamped_def list_ex_iff split: if_splits option.splits) force+

lemma run_ladder_keeps:
  "run_ladder D now applied ms db = (r, db') \<Longrightarrow> set ms \<subseteq> set MIGRATIONS \<Longrightarrow>
   grows db db' \<and> (db_typed db \<longrightarrow> db_typed db')"
proof (induction ms arbitrary: db)
  case (Cons m ms)
  show ?case
  proof (cases "mg_version m \<in> set applied")
    case True
    then show ?thesis using Cons by simp
  next
    case False
    show ?thesis
    proof (cases "apply_migration D now m db")
      case (Inl e)
      then show ?thesis using Cons.prems False by auto
    next
      case (Inr db1)
      then have "grows db1 db' \<and> (db_typed db1 \<longrightarrow> db_typed db')"
        using Cons False by simp
      then show ?thesis
        using apply_migration_ok(1,2) [OF Inr] Cons.prems(2) grows_trans by auto
    qed
  qed
qed simp

lemma run_ladder_ok:
  assumes "set ms \<subseteq> set MIGRATIONS" "honest D" "\<forall>v \<in> set applied. stamped v db"
    "stamped 1 db \<or> (\<exists>m rest. ms = m # rest \<and> mg_version m = 1)" "run_ladder D now applied ms db = (r, db')"
    "stamps_true db"
  shows "stamps_true db' \<and> (compatible db \<longrightarrow> compatible db') \<and>
    (r = Inr () \<longrightarrow> (\<forall>m \<in> set ms. stamped (mg_version m) db'))"
  using assms
proof (induction ms arbitrary: db)
  case (Cons m ms)
  have ms: "set ms \<subseteq> set MIGRATIONS" and m: "m \<in> set MIGRATIONS" using Cons.prems(1) by simp_all
  show ?case
  proof (cases "mg_version m \<in> set applied")
    case True
    then have run: "run_ladder D now applied ms db = (r, db')" and st: "stamped (mg_version m) db"
      using Cons.prems(3,5) by simp_all
    have "stamped 1 db \<or> (\<exists>m rest. ms = m # rest \<and> mg_version m = 1)"
      using Cons.prems(4) st by auto
    then have "stamps_true db' \<and> (compatible db \<longrightarrow> compatible db') \<and>
        (r = Inr () \<longrightarrow> (\<forall>m \<in> set ms. stamped (mg_version m) db'))"
      using Cons.IH [OF ms Cons.prems(2,3) _ run Cons.prems(6)] by blast
    then show ?thesis using stamped_grows st run_ladder_keeps [OF run ms] by auto
  next
    case False
    show ?thesis
    proof (cases "apply_migration D now m db")
      case (Inl e)
      then show ?thesis using Cons.prems(5,6) False by auto
    next
      case (Inr db1)
      then have run: "run_ladder D now applied ms db1 = (r, db')" using Cons.prems(5) False by simp
      note ok = apply_migration_ok [OF Inr m]
      have one: "version_done 1 db" if "mg_version m \<noteq> 1"
        using Cons.prems(4,6) that by (auto simp: stamps_true_def)
      have true1: "stamps_true db1"
        using ok(1,3) ok(5) [OF Cons.prems(2) one] Cons.prems(6) version_done_grows
        by (auto simp: stamps_true_def)
      have st: "stamped (mg_version m) db1" and st1: "stamped 1 db1" and app: "\<forall>v \<in> set applied. stamped v db1"
        using Cons.prems(3,4) ok(3) by auto
      have "stamps_true db' \<and> (compatible db1 \<longrightarrow> compatible db') \<and>
          (r = Inr () \<longrightarrow> (\<forall>m \<in> set ms. stamped (mg_version m) db'))"
        using Cons.IH [OF ms Cons.prems(2) app _ run true1] st1 by blast
      then show ?thesis
        using ok(4) [OF one] st stamped_grows run_ladder_keeps [OF run ms] by auto
    qed
  qed
qed auto

lemma create_stamps_grows:
  assumes "execute D create_stamps db = Inr db'"
  shows "grows db db'" "db_typed db \<Longrightarrow> db_typed db'" "stamped v db' \<longleftrightarrow> stamped v db"
    "table_of db' ''schema_migrations'' \<noteq> None"
    "table_of db ''schema_migrations'' \<noteq> None \<Longrightarrow> db' = db"
proof -
  have run: "run_ddl create_stamps db = Inr db'"
    using assms by (auto simp: execute_def split: option.splits)
  show "grows db db'" by (rule run_ddl_grows [OF run])
  show "db_typed db'" if "db_typed db"
    by (rule run_ddl_typed [OF run _ that]) (simp add: create_stamps_def stamp_columns_def column_kinds)
  show "stamped v db' \<longleftrightarrow> stamped v db" "table_of db' ''schema_migrations'' \<noteq> None"
    "table_of db ''schema_migrations'' \<noteq> None \<Longrightarrow> db' = db"
    using run by (auto simp: create_stamps_def stamped_def split: option.splits)
qed

lemma run_migrations_keeps:
  assumes "run_migrations D now db = (r, db')"
  shows "grows db db' \<and> (db_typed db \<longrightarrow> db_typed db')"
proof (cases "execute D create_stamps db")
  case (Inl e)
  then show ?thesis using assms by (auto simp: run_migrations_def)
next
  case (Inr db1)
  have "grows db1 db' \<and> (db_typed db1 \<longrightarrow> db_typed db')"
    using assms Inr run_ladder_keeps [of D now _ MIGRATIONS db1 r db']
    by (auto simp: run_migrations_def split: sum.splits)
  then show ?thesis
    using create_stamps_grows(1,2) [OF Inr] grows_trans by blast
qed

lemma run_migrations_ok:
  assumes "honest D" "stamps_true db" "run_migrations D now db = (r, db')"
  shows "stamps_true db' \<and> (compatible db \<longrightarrow> compatible db') \<and>
    (r = Inr () \<longrightarrow> (\<forall>m \<in> set MIGRATIONS. stamped (mg_version m) db'))"
proof (cases "execute D create_stamps db")
  case (Inl e)
  then show ?thesis using assms by (auto simp: run_migrations_def)
next
  case (Inr db1)
  note one = create_stamps_grows [OF Inr]
  have true1: "stamps_true db1"
    using one(1,3) assms(2) version_done_grows by (auto simp: stamps_true_def)
  have comp: "compatible db \<longrightarrow> compatible db1"
    using Inr run_ddl_compatible [of create_stamps db db1]
    by (auto simp: execute_def create_stamps_def needed_def split: option.splits)
  show ?thesis
  proof (cases "applied_versions_inner D db1")
    case (Inl e)
    then show ?thesis using assms(3) Inr comp true1 by (auto simp: run_migrations_def)
  next
    case applied: (Inr vs)
    have "run_ladder D now vs MIGRATIONS db1 = (r, db')"
      using assms(3) Inr applied by (simp add: run_migrations_def)
    then have "stamps_true db' \<and> (compatible db1 \<longrightarrow> compatible db') \<and>
        (r = Inr () \<longrightarrow> (\<forall>m \<in> set MIGRATIONS. stamped (mg_version m) db'))"
      using assms(1) true1 applied_are_stamped [OF applied]
      by (intro run_ladder_ok [where applied = vs and D = D and now = now]) (auto simp: MIGRATIONS_def)
    then show ?thesis using comp by blast
  qed
qed

lemma run_ladder_skips: "\<forall>m \<in> set ms. mg_version m \<in> set applied \<Longrightarrow> run_ladder D now applied ms db = (Inr (), db)"
  by (induction ms) auto

lemma complete_unchanged:
  assumes "\<forall>m \<in> set MIGRATIONS. stamped (mg_version m) db"
  shows "snd (run_migrations D now db) = db"
proof (cases "execute D create_stamps db")
  case (Inl e)
  then show ?thesis by (simp add: run_migrations_def)
next
  case (Inr db1)
  have "stamped 1 db" using assms by (auto simp: MIGRATIONS_def)
  then have "db1 = db"
    using create_stamps_grows(5) [OF Inr] by (auto simp: stamped_def)
  then show ?thesis
    using Inr assms applied_are_stamped [of D db]
    by (auto simp: run_migrations_def run_ladder_skips split: sum.splits)
qed

lemma found_at_file [simp]: "path \<noteq> '':memory:'' \<Longrightarrow> found_at path db = db"
  by (simp add: found_at_def)

lemma empty_db_ok: "db_typed empty_db" "stamps_true empty_db" "compatible empty_db"
  by (simp_all add: empty_db_def compatible_def db_typed_def stamps_true_def stamped_def)

lemma found_at_ok:
  "db_typed db \<Longrightarrow> db_typed (found_at path db)" "stamps_true db \<Longrightarrow> stamps_true (found_at path db)"
  "compatible db \<Longrightarrow> compatible (found_at path db)"
  using empty_db_ok by (simp_all add: found_at_def)

lemma open_pool_cases:
  assumes "open_pool D now path db = (r, db')"
  obtains "db' = found_at path db" "\<exists>e. r = Inl e"
  | q where "run_migrations D now (found_at path db) = (q, db')" "(\<exists>n. r = Inr n) \<longleftrightarrow> q = Inr ()"
  using assms by (auto simp: open_pool_def migrate_def split: if_splits prod.splits sum.splits)

lemma open_pool_keeps:
  assumes "open_pool D now path db = (r, db')"
  shows "grows (found_at path db) db' \<and> (db_typed db \<longrightarrow> db_typed db')"
  using assms by (cases rule: open_pool_cases) (use run_migrations_keeps found_at_ok(1) in auto)

lemma open_pool_ok:
  assumes "honest D" "stamps_true db" "open_pool D now path db = (r, db')"
  shows "stamps_true db' \<and> (compatible db \<longrightarrow> compatible db') \<and>
    ((\<exists>n. r = Inr n) \<longrightarrow> (\<forall>m \<in> set MIGRATIONS. stamped (mg_version m) db'))"
  using assms(3)
proof (cases rule: open_pool_cases)
  case (2 q)
  then show ?thesis using run_migrations_ok [OF assms(1) found_at_ok(2) [OF assms(2)]] found_at_ok(3) by blast
qed (use found_at_ok(2,3) assms(2) in auto)

text \<open>A sequence of openings of one path, each with the failures it met and the time it ran.\<close>

fun open_all :: "(disk \<times> string) list \<Rightarrow> string \<Rightarrow> database \<Rightarrow> database" where
  "open_all [] path db = db"
| "open_all ((D, now) # rest) path db = open_all rest path (snd (open_pool D now path db))"

lemma open_all_keeps:
  "(path \<noteq> '':memory:'' \<longrightarrow> grows db (open_all os path db)) \<and> (db_typed db \<longrightarrow> db_typed (open_all os path db))"
proof (induction os arbitrary: db)
  case (Cons o1 os)
  obtain D now where o1: "o1 = (D, now)" by (cases o1)
  have "grows (found_at path db) (snd (open_pool D now path db)) \<and> (db_typed db \<longrightarrow> db_typed (snd (open_pool D now path db)))"
    by (rule open_pool_keeps) (rule prod.collapse [symmetric])
  then show ?case
    using Cons [of "snd (open_pool D now path db)"] o1 grows_trans by auto
qed simp

lemma open_all_ok:
  assumes "\<forall>(D, now) \<in> set os. honest D" "stamps_true db"
  shows "stamps_true (open_all os path db) \<and> (compatible db \<longrightarrow> compatible (open_all os path db))"
  using assms
proof (induction os arbitrary: db)
  case (Cons o1 os)
  obtain D now where o1: "o1 = (D, now)" by (cases o1)
  obtain r db1 where r: "open_pool D now path db = (r, db1)" by (cases "open_pool D now path db")
  have "honest D" using Cons.prems(1) o1 by simp
  then have "stamps_true db1 \<and> (compatible db \<longrightarrow> compatible db1)"
    using open_pool_ok [OF _ Cons.prems(2) r] by blast
  then show ?case
    using Cons.IH [of db1] Cons.prems(1) r o1 by auto
qed simp

section \<open>A database without failures is brought up to date\<close>

definition healthy :: "disk \<Rightarrow> bool" where
  "healthy D \<longleftrightarrow>
     \<not> dk_build D \<and> \<not> dk_acquire D \<and> \<not> dk_probe D \<and> \<not> dk_read D \<and> (\<forall>s. dk_ddl D s = None) \<and>
     (\<forall>v. \<not> dk_begin D v \<and> \<not> dk_stamp D v \<and> \<not> dk_commit D v)"

lemma healthy_execute: "healthy D \<Longrightarrow> execute D s db = run_ddl s db"
  by (simp add: healthy_def execute_def)

lemma healthy_honest: "healthy D \<Longrightarrow> honest D"
  by (simp add: healthy_def honest_def)

text \<open>Each index of the first migration is on a table created before it.\<close>

fun in_order :: "string list \<Rightarrow> ddl list \<Rightarrow> bool" where
  "in_order T [] \<longleftrightarrow> True"
| "in_order T (Create_Table t _ _ # ss) \<longleftrightarrow> in_order (t # T) ss"
| "in_order T (Create_Index _ t _ # ss) \<longleftrightarrow> t \<in> set T \<and> in_order T ss"
| "in_order T (Add_Column _ _ # ss) \<longleftrightarrow> False"

lemma grows_exists: "grows db db' \<Longrightarrow> table_of db t \<noteq> None \<Longrightarrow> table_of db' t \<noteq> None"
  using grows_table by fastforce

lemma batch_succeeds:
  assumes "in_order T ss" "healthy D" "list_all creates_needed ss" "compatible db" "\<forall>t \<in> set T. table_of db t \<noteq> None"
  shows "\<exists>db'. execute_batch D ss db = Inr db'"
  using assms
proof (induction T ss arbitrary: db rule: in_order.induct)
  case (2 T t cols key ss)
  obtain db1 where run: "run_ddl (Create_Table t cols key) db = Inr db1"
    by (cases "table_of db t") auto
  have "compatible db1" "\<forall>t' \<in> set (t # T). table_of db1 t' \<noteq> None"
    using run_ddl_compatible [OF run] run_ddl_done [OF run] grows_exists [OF run_ddl_grows [OF run]] 2(4,5,6)
    by (simp_all del: run_ddl.simps)
  then have "\<exists>db'. execute_batch D ss db1 = Inr db'"
    using 2(1) [of db1] 2(2-4) by simp
  then show ?case
    using run healthy_execute [OF 2(3)] by simp
next
  case (3 T ix t cs ss)
  obtain tb where tb: "table_of db t = Some tb" using 3(2,6) by auto
  have "set cs \<subseteq> set (column_names tb)"
    using 3(4,5) tb by (auto simp: compatible_def)
  then obtain db1 where run: "run_ddl (Create_Index ix t cs) db = Inr db1"
    using tb by (cases "st_get (db_indexes db) ix") (auto simp: list_all_iff subset_iff)
  have "compatible db1" "\<forall>t' \<in> set T. table_of db1 t' \<noteq> None"
    using run_ddl_compatible [OF run] grows_exists [OF run_ddl_grows [OF run]] 3(4,5,6)
    by (simp_all del: run_ddl.simps)
  then have "\<exists>db'. execute_batch D ss db1 = Inr db'"
    using 3(1) [of db1] 3(2-4) by simp
  then show ?case
    using run healthy_execute [OF 3(3)] by simp
qed simp_all

lemma tolerated_duplicate: "tolerated (Sqlite_Failure (Some (''duplicate column name: '' @ n)))"
proof -
  have "sublist ''duplicate column name'' (''duplicate column name'' @ '': '' @ n)"
    by (rule prefix_imp_sublist) simp
  then show ?thesis by (simp add: tolerated_def)
qed

lemma tolerated_no_table: "tolerated (Sqlite_Failure (Some (''no such table: '' @ t)))"
  by (simp add: tolerated_def)

definition defaulted :: "column \<Rightarrow> bool" where
  "defaulted c \<longleftrightarrow> (\<exists>v. col_default c = Constant v \<and> v \<noteq> Null_Cell)"

lemma run_add_succeeds:
  "defaulted c \<Longrightarrow> (\<exists>db'. run_ddl (Add_Column t c) db = Inr db') \<or>
     (\<exists>e. run_ddl (Add_Column t c) db = Inl e \<and> tolerated e)"
  using tolerated_duplicate [of "col_name c"] tolerated_no_table [of t]
  by (auto simp: defaulted_def add_column_def simp del: append_Cons split: option.split)

lemma add_columns_succeed:
  "healthy D \<Longrightarrow> list_all (\<lambda>(t, c). defaulted c) cs \<Longrightarrow> \<exists>db'. add_columns_idempotent D cs db = Inr db'"
proof (induction D cs db rule: add_columns_idempotent.induct)
  case (2 D t c rest db)
  have "defaulted c" using 2(4) by simp
  from run_add_succeeds [OF this, of t db] show ?case
    using 2 healthy_execute [OF 2(3)] by (auto simp del: run_ddl.simps)
qed simp

lemma create_indexes_succeed:
  "healthy D \<Longrightarrow> \<forall>s \<in> set ss. \<exists>ix t cs. s = Create_Index ix t cs \<and> index_ok db (t, cs) \<Longrightarrow>
   \<exists>db'. create_indexes D ss db = Inr db'"
proof (induction D ss db rule: create_indexes.induct)
  case (2 D s ss db)
  obtain ix t cs where s: "s = Create_Index ix t cs" and ok: "index_ok db (t, cs)" using 2(3) by auto
  then obtain db1 where run: "run_ddl s db = Inr db1"
    by (cases "st_get (db_indexes db) ix") (auto simp: index_ok_def list_all_iff subset_iff)
  have "\<forall>s \<in> set ss. \<exists>ix t cs. s = Create_Index ix t cs \<and> index_ok db1 (t, cs)"
    using 2(3) index_ok_grows [OF run_ddl_grows [OF run]] by (meson list.set_intros(2))
  then show ?case
    using 2(1) [of db1] 2(2) run healthy_execute [OF 2(2)] by simp
qed simp

lemma columns_defaulted:
  "list_all (\<lambda>(t, c). defaulted c) tenant_id_columns" "list_all (\<lambda>(t, c). defaulted c) query_columns"
  "list_all (\<lambda>(t, c). defaulted c) reservation_columns"
  by (simp_all add: tenant_id_columns_def query_columns_def reservation_columns_def defaulted_def column_kinds)

text \<open>Every column an index of the third migration needs is added by the second or the third, or needed at the start.\<close>

lemma index_columns_supplied:
  assumes "Create_Index ix t cs \<in> set INDEX_ADDITIONS" "c \<in> set cs"
  shows "(\<exists>col. (t, col) \<in> set (tenant_id_columns @ query_columns) \<and> col_name col = c) \<or> c \<in> set (needed t)"
proof -
  have "list_all (\<lambda>s. case s of Create_Index _ t cs \<Rightarrow>
      list_all (\<lambda>c. list_ex (\<lambda>(t', col). t' = t \<and> col_name col = c) (tenant_id_columns @ query_columns) \<or>
        c \<in> set (needed t)) cs | _ \<Rightarrow> True) INDEX_ADDITIONS"
    by code_simp
  then have "list_ex (\<lambda>(t', col). t' = t \<and> col_name col = c) (tenant_id_columns @ query_columns) \<or> c \<in> set (needed t)"
    using assms unfolding list_all_iff by fastforce
  then show ?thesis unfolding list_ex_iff by blast
qed

lemma indexes_are_indexes: "s \<in> set INDEX_ADDITIONS \<Longrightarrow> \<exists>ix t cs. s = Create_Index ix t cs"
  by (auto simp: INDEX_ADDITIONS_def)

lemma v3_indexes_ok:
  assumes "compatible db" "version_done 1 db" "version_done 2 db"
    "\<forall>s \<in> set (map (\<lambda>(t, c). Add_Column t c) query_columns). stmt_done s db" "Create_Index ix t cs \<in> set INDEX_ADDITIONS"
  shows "index_ok db (t, cs)"
proof -
  have "list_all (\<lambda>s. case s of Create_Index _ t _ \<Rightarrow>
      list_ex (\<lambda>s'. case s' of Create_Table t' _ _ \<Rightarrow> t' = t | _ \<Rightarrow> False) SCHEMA_V1 | _ \<Rightarrow> True) INDEX_ADDITIONS"
    by code_simp
  then obtain s' where s': "s' \<in> set SCHEMA_V1" "case s' of Create_Table t' _ _ \<Rightarrow> t' = t | _ \<Rightarrow> False"
    using assms(5) unfolding list_all_iff list_ex_iff by fastforce
  have "stmt_done s' db" using assms(2) s'(1) by (simp add: version_done_def declared_def)
  then obtain tb where tb: "table_of db t = Some tb" using s'(2) by (cases s') auto
  have "c \<in> set (column_names tb)" if c: "c \<in> set cs" for c
    using index_columns_supplied [OF assms(5) c]
  proof
    assume "\<exists>col. (t, col) \<in> set (tenant_id_columns @ query_columns) \<and> col_name col = c"
    then obtain col where col: "(t, col) \<in> set (tenant_id_columns @ query_columns)" "col_name col = c" by blast
    then have "stmt_done (Add_Column t col) db"
      using assms(3,4) by (auto simp: version_done_def declared_def simp del: stmt_done.simps)
    then show ?thesis using tb col(2) by simp
  next
    assume "c \<in> set (needed t)"
    then show ?thesis using assms(1) tb by (auto simp: compatible_def)
  qed
  then show ?thesis using tb by (auto simp: index_ok_def)
qed

lemma body_succeeds:
  assumes "m \<in> set MIGRATIONS" "healthy D" "compatible db" "\<forall>m' \<in> set MIGRATIONS. mg_version m' < mg_version m \<longrightarrow> version_done (mg_version m') db"
  shows "\<exists>db'. mg_body m D db = Inr db'"
  using assms(1)
proof (cases rule: migration_cases)
  case v1
  have "in_order [] SCHEMA_V1" by code_simp
  then show ?thesis
    using v1 batch_succeeds [of "[]" SCHEMA_V1 D db] assms(2,3) schema_creates_needed
    by (auto simp: migration_v1_initial_schema_def)
next
  case v2
  then show ?thesis using add_columns_succeed assms(2) columns_defaulted by (simp add: migration_v2_tenant_id_columns_def)
next
  case v4
  then show ?thesis
    using add_columns_succeed assms(2) columns_defaulted by (simp add: migration_v4_idempotency_reservation_id_def)
next
  case v3
  have lower: "version_done 1 db" "version_done 2 db"
    using assms(4) v3 by (auto simp: MIGRATIONS_def)
  obtain db1 where one: "add_columns_idempotent D query_columns db = Inr db1"
    using add_columns_succeed assms(2) columns_defaulted by blast
  have grow: "grows db db1"
    using columns_ok_advances [OF one] columns_all_ok by (simp add: advances_def)
  have cols: "\<forall>s \<in> set (map (\<lambda>(t, c). Add_Column t c) query_columns). stmt_done s db1"
    using columns_all_ok healthy_honest [OF assms(2)] lower by (intro add_columns_version [OF one]) auto
  have "compatible db1" by (rule compatible_grows [OF assms(3) grow lower(1)])
  then have "\<forall>s \<in> set INDEX_ADDITIONS. \<exists>ix t cs. s = Create_Index ix t cs \<and> index_ok db1 (t, cs)"
    using v3_indexes_ok cols lower version_done_grows [OF grow] indexes_are_indexes by metis
  then obtain db' where "create_indexes D INDEX_ADDITIONS db1 = Inr db'"
    using create_indexes_succeed [OF assms(2)] by blast
  then show ?thesis
    using v3 one by (simp add: migration_v3_query_columns_and_indexes_def)
qed

lemma stamp_row_typed:
  assumes "row_typed stamp_columns r"
  shows "version_of r \<noteq> None"
proof -
  obtain v rest where "r = (''version'', v) # rest" and v: "cell_typed (int_required ''version'') v"
    using assms by (auto simp: row_typed_def stamp_columns_def list_all2_Cons1 int_required_def)
  then show ?thesis
    by (cases v) (simp_all add: version_of_def cell_typed_def int_required_def)
qed

lemma stamp_succeeds:
  assumes "db_typed db" "table_of db ''schema_migrations'' \<noteq> None" "\<not> stamped v db"
  shows "\<exists>db'. sql_insert D ''schema_migrations''
    [(''version'', Int_Cell (uint v)), (''name'', Text_Cell nm), (''applied_at'', Text_Cell now)] db = Some db'"
proof -
  obtain tb where tb: "table_of db ''schema_migrations'' = Some tb" using assms(2) by blast
  have cols: "tbl_columns tb = stamp_columns" "tbl_key tb = [''version'']"
    using assms(1) tb by (simp_all add: db_typed_def)
  have "map_of r' ''version'' \<noteq> Some (Int_Cell (uint v))" if "r' \<in> set (tbl_rows tb)" for r'
  proof
    assume "map_of r' ''version'' = Some (Int_Cell (uint v))"
    then have "version_of r' = Some (uint v)" by (simp add: version_of_def)
    moreover have "word_of_int (uint v) = v" by simp
    ultimately show False using assms(3) tb that unfolding stamped_def by blast
  qed
  then show ?thesis
    using tb cols
    by (simp add: sql_insert_def column_names_def stamp_columns_def column_kinds sql_violates_def list_ex_iff filled_row_def)
qed

lemma applied_succeeds:
  assumes "healthy D" "db_typed db"
  shows "\<exists>vs. applied_versions_inner D db = Inr vs"
proof (cases "table_of db ''schema_migrations''")
  case (Some tb)
  then have "table_typed tb" "tbl_columns tb = stamp_columns"
    using assms(2) by (simp_all add: db_typed_def)
  then have "version_of r \<noteq> None" if "r \<in> set (tbl_rows tb)" for r
    using stamp_row_typed that by (simp add: table_typed_def)
  then show ?thesis
    using Some assms(1) by (auto simp: applied_versions_inner_def healthy_def list_ex_iff)
qed (use assms(1) in \<open>simp add: applied_versions_inner_def healthy_def\<close>)

lemma apply_migration_succeeds:
  assumes "m \<in> set MIGRATIONS" "healthy D" "compatible db" "db_typed db" "table_of db ''schema_migrations'' \<noteq> None"
    "\<forall>m' \<in> set MIGRATIONS. mg_version m' < mg_version m \<longrightarrow> version_done (mg_version m') db"
    "\<not> stamped (mg_version m) db"
  shows "\<exists>db'. apply_migration D now m db = Inr db'"
proof -
  obtain db1 where body: "mg_body m D db = Inr db1"
    using body_succeeds [OF assms(1-3,6)] by blast
  have adv: "advances db db1" by (rule body_advances [OF assms(1) body])
  then have "db_typed db1" "table_of db1 ''schema_migrations'' \<noteq> None" "\<not> stamped (mg_version m) db1"
    using assms(4,5,7) by (simp_all add: advances_def stamped_def)
  then obtain db2 where "sql_insert D ''schema_migrations'' [(''version'', Int_Cell (uint (mg_version m))),
      (''name'', Text_Cell (mg_name m)), (''applied_at'', Text_Cell now)] db1 = Some db2"
    using stamp_succeeds by blast
  then show ?thesis
    using body assms(2) by (simp add: apply_migration_def healthy_def)
qed

lemma ladder_split:
  assumes "MIGRATIONS = before @ m # ms"
  shows "\<forall>m' \<in> set ms. mg_version m' \<noteq> mg_version m"
    "\<forall>m' \<in> set MIGRATIONS. mg_version m' < mg_version m \<longrightarrow> m' \<in> set before"
proof -
  have "sorted_wrt (<) (map mg_version MIGRATIONS)"
    by (simp add: MIGRATIONS_def)
  then have after: "\<forall>m' \<in> set ms. mg_version m < mg_version m'"
    unfolding assms by (simp add: sorted_wrt_append)
  then show "\<forall>m' \<in> set ms. mg_version m' \<noteq> mg_version m" by auto
  show "\<forall>m' \<in> set MIGRATIONS. mg_version m' < mg_version m \<longrightarrow> m' \<in> set before"
    unfolding assms using after order.asym by fastforce
qed

lemma run_ladder_succeeds:
  assumes "MIGRATIONS = before @ ms" "healthy D" "compatible db" "db_typed db" "stamps_true db"
    "table_of db ''schema_migrations'' \<noteq> None" "\<forall>m \<in> set before. stamped (mg_version m) db"
    "\<forall>m \<in> set ms. stamped (mg_version m) db \<longrightarrow> mg_version m \<in> set applied" "\<forall>v \<in> set applied. stamped v db"
  shows "fst (run_ladder D now applied ms db) = Inr ()"
  using assms
proof (induction ms arbitrary: before db)
  case (Cons m ms)
  have m: "m \<in> set MIGRATIONS"
    unfolding Cons.prems(1) by simp
  have split: "MIGRATIONS = (before @ [m]) @ ms"
    using Cons.prems(1) by simp
  note dist = ladder_split(1) [OF Cons.prems(1)] and low = ladder_split(2) [OF Cons.prems(1)]
  show ?case
  proof (cases "mg_version m \<in> set applied")
    case True
    then have st: "\<forall>m \<in> set (before @ [m]). stamped (mg_version m) db"
      using Cons.prems(7,9) by auto
    have "\<forall>m \<in> set ms. stamped (mg_version m) db \<longrightarrow> mg_version m \<in> set applied"
      using Cons.prems(8) by simp
    then have "fst (run_ladder D now applied ms db) = Inr ()"
      by (rule Cons.IH [OF split Cons.prems(2-6) st _ Cons.prems(9)])
    then show ?thesis using True by simp
  next
    case False
    then have "\<not> stamped (mg_version m) db" using Cons.prems(8) by auto
    moreover have "\<forall>m' \<in> set MIGRATIONS. mg_version m' < mg_version m \<longrightarrow> version_done (mg_version m') db"
      using low Cons.prems(5,7) by (auto simp: stamps_true_def)
    ultimately obtain db1 where db1: "apply_migration D now m db = Inr db1"
      using apply_migration_succeeds [OF m Cons.prems(2-4,6)] by blast
    note ok = apply_migration_ok [OF db1 m]
    have one: "version_done 1 db" if "mg_version m \<noteq> 1"
    proof (cases before)
      case Nil
      then have "mg_version m = mg_version (hd MIGRATIONS)" unfolding Cons.prems(1) by simp
      then show ?thesis using that by (simp add: MIGRATIONS_def)
    next
      case before: (Cons b bs)
      then have "mg_version b = mg_version (hd MIGRATIONS)" unfolding Cons.prems(1) by simp
      then show ?thesis using before Cons.prems(5,7) by (simp add: MIGRATIONS_def stamps_true_def)
    qed
    have "stamps_true db1"
      using ok(1,3) ok(5) [OF healthy_honest [OF Cons.prems(2)] one] Cons.prems(5) version_done_grows
      by (auto simp: stamps_true_def)
    moreover have "\<forall>m \<in> set (before @ [m]). stamped (mg_version m) db1" "\<forall>v \<in> set applied. stamped v db1"
      using ok(3) Cons.prems(7,9) by auto
    moreover have "\<forall>m \<in> set ms. stamped (mg_version m) db1 \<longrightarrow> mg_version m \<in> set applied"
      using ok(3) Cons.prems(8) dist by auto
    ultimately have "fst (run_ladder D now applied ms db1) = Inr ()"
      using Cons.IH [OF split Cons.prems(2) ok(4) [OF one Cons.prems(3)] ok(2) [OF Cons.prems(4)]]
        grows_exists [OF ok(1) Cons.prems(6)] by blast
    then show ?thesis using False db1 by simp
  qed
qed simp

lemma run_migrations_succeeds:
  assumes "healthy D" "compatible db" "db_typed db" "stamps_true db"
  shows "fst (run_migrations D now db) = Inr ()"
proof -
  obtain db1 where db1: "execute D create_stamps db = Inr db1"
    using healthy_execute [OF assms(1)]
    by (cases "table_of db ''schema_migrations''") (auto simp: create_stamps_def)
  note one = create_stamps_grows [OF db1]
  obtain vs where vs: "applied_versions_inner D db1 = Inr vs"
    using applied_succeeds [OF assms(1) one(2)] assms(3) by blast
  have "compatible db1"
    using db1 assms(2) run_ddl_compatible [of create_stamps db db1]
    by (auto simp: execute_def create_stamps_def needed_def split: option.splits)
  moreover have "stamps_true db1"
    using one(1,3) assms(4) version_done_grows by (auto simp: stamps_true_def)
  ultimately have "fst (run_ladder D now vs MIGRATIONS db1) = Inr ()"
    using one(2,4) assms(1,3) applied_are_stamped [OF vs]
    by (intro run_ladder_succeeds [where before = "[]"]) auto
  then show ?thesis using db1 vs by (simp add: run_migrations_def)
qed

lemma open_pool_succeeds:
  assumes "healthy D" "compatible db" "db_typed db" "stamps_true db"
  shows "\<exists>n db'. open_pool D now path db = (Inr n, db')"
  using run_migrations_succeeds [OF assms(1) found_at_ok(3) [OF assms(2)] found_at_ok(1) [OF assms(3)]
    found_at_ok(2) [OF assms(4)], of now path] assms(1)
  by (cases "run_migrations D now (found_at path db)") (auto simp: open_pool_def migrate_def healthy_def)

lemma open_pool_unchanged:
  assumes "\<forall>m \<in> set MIGRATIONS. stamped (mg_version m) db" "path \<noteq> '':memory:''"
  shows "snd (open_pool D now path db) = db"
proof -
  obtain r db' where r: "open_pool D now path db = (r, db')" by (cases "open_pool D now path db")
  then show ?thesis
  proof (cases rule: open_pool_cases)
    case (2 q)
    then show ?thesis using r complete_unchanged [OF assms(1), of D now] assms(2) by simp
  qed (use r assms(2) in simp)
qed

section \<open>The file, before and after its openings\<close>

text \<open>
  C34. Opening the state database any number of times, whatever call to the database fails at each, keeps it typed:
  every row of every table has exactly one value of its type for each column, every index is on columns that exist,
  and the stamps are readable. In a file no table, index, row or value is lost: each row keeps the values it had, and no
  table but the stamps gains a row. (A database in memory starts empty at each opening.)
\<close>

theorem openings_keep_types:
  assumes "db_typed db"
  shows "db_typed (open_all os path db) \<and> (path \<noteq> '':memory:'' \<longrightarrow> grows db (open_all os path db))"
  using assms open_all_keeps by blast

text \<open>
  C31. From a database whose stamps are true (a new file, one without stamps, or one of an older handler), and whose
  older tables have the columns no migration adds: after any number of openings cut short by failures, an opening
  without failures succeeds; then every migration is stamped and all it declares is there, and no later opening of it
  as a file, whatever it meets, changes anything. This holds of a file, and of a database in memory, which is new at each
  opening.
\<close>

theorem healthy_opening_completes:
  assumes "db_typed db" "stamps_true db" "compatible db" "\<forall>(D, now) \<in> set os. honest D" "healthy D"
  shows "\<exists>n db'. open_pool D now path (open_all os path db) = (Inr n, db') \<and>
    (\<forall>m \<in> set MIGRATIONS. stamped (mg_version m) db' \<and> version_done (mg_version m) db') \<and>
    (\<exists>vs. applied_versions D db' = Inr vs \<and> set (map mg_version MIGRATIONS) \<subseteq> set vs) \<and>
    (\<forall>D' now' path'. path' \<noteq> '':memory:'' \<longrightarrow> snd (open_pool D' now' path' db') = db')"
proof -
  let ?db = "open_all os path db"
  have pre: "db_typed ?db" "stamps_true ?db" "compatible ?db"
    using open_all_keeps [of path db os] open_all_ok [OF assms(4,2), of path] assms(1,3) by blast+
  obtain n db' where run: "open_pool D now path ?db = (Inr n, db')"
    using open_pool_succeeds [OF assms(5) pre(3,1,2)] by blast
  have ok: "stamps_true db'" "\<forall>m \<in> set MIGRATIONS. stamped (mg_version m) db'"
    using open_pool_ok [OF healthy_honest [OF assms(5)] pre(2) run] by blast+
  obtain vs where vs: "applied_versions_inner D db' = Inr vs"
    using applied_succeeds [OF assms(5)] open_pool_keeps [OF run] pre(1) by blast
  then have "applied_versions D db' = Inr vs"
    using assms(5) by (simp add: applied_versions_def healthy_def)
  moreover have "set (map mg_version MIGRATIONS) \<subseteq> set vs"
    using ok(2) applied_are_stamped [OF vs] by auto
  moreover have "\<forall>m \<in> set MIGRATIONS. version_done (mg_version m) db'"
    using ok by (simp add: stamps_true_def)
  ultimately show ?thesis
    using run ok(2) open_pool_unchanged by blast
qed

text \<open>
  A file an older handler left: deliveries without a tenant, and no stamps. The first opening fails to commit the
  third migration, the second meets no failure.
\<close>

definition no_failures :: disk where
  "no_failures =
     \<lparr>dk_build = False, dk_acquire = False, dk_ddl = (\<lambda>_. None), dk_probe = False, dk_read = False,
      dk_begin = (\<lambda>_. False), dk_stamp = (\<lambda>_. False), dk_commit = (\<lambda>_. False), dk_text_now = ''2026-01-01 00:00:00''\<rparr>"

definition no_commit_of_v3 :: disk where
  "no_commit_of_v3 = no_failures\<lparr>dk_commit := (\<lambda>v. v = 3)\<rparr>"

definition legacy_db :: database where
  "legacy_db =
     \<lparr>db_tables = [(''webhook_deliveries'',
        \<lparr>tbl_columns = [text_key ''id'', text_required ''status'', text_required ''next_attempt_at'', text_required ''created_at''],
         tbl_key = [''id''],
         tbl_rows = [[(''id'', Text_Cell ''legacy_1''), (''status'', Text_Cell ''pending''),
           (''next_attempt_at'', Text_Cell ''2026-01-01T00:00:00Z''), (''created_at'', Text_Cell ''2026-01-01T00:00:00Z'')]]\<rparr>)],
      db_indexes = []\<rparr>"

lemma no_failures_healthy: "healthy no_failures" "honest no_commit_of_v3"
  by (simp_all add: healthy_def honest_def no_failures_def no_commit_of_v3_def)

lemma legacy_db_ok: "db_typed legacy_db" "stamps_true legacy_db" "compatible legacy_db"
  by (simp_all add: db_typed_def legacy_db_def st_get_def table_typed_def column_names_def row_typed_def cell_typed_def
      column_kinds stamps_true_def stamped_def compatible_def needed_def)

theorem openings_keep_types_witness:
  "db_typed (open_all [(no_commit_of_v3, ''t1''), (no_failures, ''t2'')] ''icp.db'' legacy_db) \<and>
   grows legacy_db (open_all [(no_commit_of_v3, ''t1''), (no_failures, ''t2'')] ''icp.db'' legacy_db)"
  using openings_keep_types [OF legacy_db_ok(1), of "[(no_commit_of_v3, ''t1''), (no_failures, ''t2'')]" "''icp.db''"] by simp

theorem healthy_opening_completes_witness:
  "\<exists>n db'. open_pool no_failures ''t2'' ''icp.db'' (open_all [(no_commit_of_v3, ''t1'')] ''icp.db'' legacy_db) = (Inr n, db') \<and>
    (\<forall>m \<in> set MIGRATIONS. stamped (mg_version m) db' \<and> version_done (mg_version m) db') \<and>
    (\<exists>vs. applied_versions no_failures db' = Inr vs \<and> set (map mg_version MIGRATIONS) \<subseteq> set vs) \<and>
    (\<forall>D' now' path'. path' \<noteq> '':memory:'' \<longrightarrow> snd (open_pool D' now' path' db') = db')"
  by (rule healthy_opening_completes [OF legacy_db_ok])
    (simp_all add: no_failures_healthy)

end
