(* ===== verification/Startup.thy ===== *)
theory Startup
  imports Config Resolver Server Lifecycle State_Db
begin

text \<open>
  The start of the handler (\<open>build_app_state\<close> and \<open>serve\<close> in \<open>src/app.rs\<close>): what it builds from its configuration,
  when it refuses to, and which background loops run. Opening the commerce engine, connecting to Redis, loading a signing
  key and decoding the key table are parameters. The theorem joins the checks of the configuration with the pipeline: what
  a handler that started in production never does.
\<close>

section \<open>Building the state\<close>

record boot =
  bo_files :: file_system
  bo_parse_url :: "string \<Rightarrow> parsed_url option"
  bo_open_engine :: "string \<Rightarrow> string + engine"
  bo_signer :: "string \<Rightarrow> string \<Rightarrow> string + receipt_signer"
    \<comment> \<open>\<open>kid\<close>, PEM\<close>
  bo_generate :: "string \<Rightarrow> receipt_signer"
  bo_disk :: disk
  bo_file :: "string \<Rightarrow> database"
    \<comment> \<open>what the state file holds; for \<open>:memory:\<close>, nothing\<close>
  bo_now :: string
  bo_connect :: "string \<Rightarrow> string \<Rightarrow> string + unit"
    \<comment> \<open>URL, prefix of the keys\<close>
  bo_keys_json :: "string \<Rightarrow> string + api_key_info list"
  bo_read :: "string \<Rightarrow> string + string"

definition load_api_keys :: "boot \<Rightarrow> runtime_config \<Rightarrow> string + api_keys" where
  "load_api_keys B c =
     (case rc_api_keys_json c of
        Some raw \<Rightarrow> bind_result (bo_keys_json B raw) key_store_try_new
      | None \<Rightarrow>
     (case rc_api_keys_file c of
        Some path \<Rightarrow> bind_result (bo_read B path) (\<lambda>raw. bind_result (bo_keys_json B raw) key_store_try_new)
      | None \<Rightarrow> if rc_enable_demo_keys c then Inr key_store_demo else Inr []))"

text \<open>A limiter over Redis, where a URL is configured; a failure to connect is fatal in production only.\<close>

definition redis_per_minute :: "boot \<Rightarrow> string \<Rightarrow> string \<Rightarrow> u32 \<Rightarrow> string + redis_rate_limiter" where
  "redis_per_minute B url key_prefix capacity =
     bind_result (bo_connect B url key_prefix) (\<lambda>_.
       Inr \<lparr>rr_default_capacity = capacity, rr_window = secs 60, rr_prefix = key_prefix\<rparr>)"

definition connect_limiter :: "boot \<Rightarrow> runtime_config \<Rightarrow> string \<Rightarrow> string \<Rightarrow> u32 \<Rightarrow> string + redis_rate_limiter option" where
  "connect_limiter B c what key_prefix capacity =
     (case rc_redis_url c of
        None \<Rightarrow> Inr None
      | Some url \<Rightarrow>
          (case redis_per_minute B url key_prefix capacity of
             Inr limiter \<Rightarrow> Inr (Some limiter)
           | Inl err \<Rightarrow>
               if is_production (config.truncate c) then Inl (''connect REDIS_URL for '' @ what @ '' rate limiting: '' @ err)
               else Inr None))"

definition open_engine :: "boot \<Rightarrow> runtime_config \<Rightarrow> string + engine option" where
  "open_engine B c =
     (if rc_commerce_enabled c then
        (case bo_open_engine B (rc_commerce_db_path c) of
           Inr engine \<Rightarrow> Inr (Some engine)
         | Inl err \<Rightarrow>
             if is_production (config.truncate c) then
               Inl (''failed to open iCommerce engine at `'' @ rc_commerce_db_path c @ ''`: '' @ err)
             else Inr None)
      else Inr None)"

definition load_signer :: "boot \<Rightarrow> runtime_config \<Rightarrow> string + receipt_signer" where
  "load_signer B c =
     (case rc_signing_key_pem c of
        Some pem \<Rightarrow> (case bo_signer B (rc_signing_kid c) pem of
            Inl e \<Rightarrow> Inl (''load ICP receipt signing key: '' @ e) | Inr signer \<Rightarrow> Inr signer)
      | None \<Rightarrow> Inr (bo_generate B (rc_signing_kid c)))"

text \<open>What the state holds besides the stores, which start as the tables of the database file.\<close>

record app_state =
  as_config :: runtime_config
  as_engine :: "engine option"
  as_signer :: receipt_signer
  as_limiter :: "redis_rate_limiter option"
  as_pre_auth_limiter :: "redis_rate_limiter option"
  as_keys :: api_keys
  as_state :: database

definition check_webhook_url :: "boot \<Rightarrow> runtime_config \<Rightarrow> string + unit" where
  "check_webhook_url B c =
     (case cf_webhook_url c of
        None \<Rightarrow> Inr ()
      | Some url \<Rightarrow> (case validate_destination_url (bo_parse_url B) url (rc_allow_insecure_urls c) of
          Inl e \<Rightarrow> Inl (''ICP_WEBHOOK_URL: '' @ e) | Inr _ \<Rightarrow> Inr ()))"

definition open_state :: "boot \<Rightarrow> runtime_config \<Rightarrow> string + database" where
  "open_state B c =
     (case open_pool (bo_disk B) (bo_now B) (rc_state_db_path c) (bo_file B (rc_state_db_path c)) of
        (Inl e, _) \<Rightarrow> Inl (''open ICP state DB at `'' @ rc_state_db_path c @ ''`: '' @ open_context e)
      | (Inr _, db) \<Rightarrow> Inr db)"

definition build_app_state :: "boot \<Rightarrow> runtime_config \<Rightarrow> string + app_state" where
  "build_app_state B c =
     bind_result (validate_runtime (bo_files B) c) (\<lambda>_.
     bind_result (check_webhook_url B c) (\<lambda>_.
     bind_result (open_engine B c) (\<lambda>engine.
     bind_result (load_signer B c) (\<lambda>signer.
     bind_result (open_state B c) (\<lambda>db.
     bind_result (connect_limiter B c ''tenant'' ''icp:rate_limit:tenant'' (rc_rate_limit_per_minute c)) (\<lambda>limiter.
     bind_result (connect_limiter B c ''pre-auth'' ''icp:rate_limit:pre_auth'' (rc_pre_auth_rate_limit_per_minute c))
       (\<lambda>pre_auth.
     bind_result (load_api_keys B c) (\<lambda>keys.
       Inr \<lparr>as_config = c, as_engine = engine, as_signer = signer, as_limiter = limiter,
         as_pre_auth_limiter = pre_auth, as_keys = keys, as_state = db\<rparr>))))))))"

text \<open>
  The probes of \<open>handlers/ops.rs\<close>: \<open>/health\<close> reports the migrations applied beside those expected, \<open>/ready\<close> whether the
  commerce engine is mounted. \<open>bd_version\<close>, \<open>bd_git_sha\<close> and \<open>bd_built_at\<close> are fixed when the program is built.
\<close>

record build_info =
  bd_version :: string
  bd_git_sha :: "string option"
  bd_built_at :: "string option"

record health_body =
  hb_status :: string
  hb_service :: string
  hb_version :: string
  hb_icp_version :: string
  hb_git_sha :: string
  hb_built_at :: string
  hb_applied :: "u32 list"
  hb_expected :: "u32 list"

definition health :: "build_info \<Rightarrow> disk \<Rightarrow> app_state \<Rightarrow> health_body" where
  "health I D S =
     \<lparr>hb_status = ''healthy'', hb_service = ''stateset-icp-handler'', hb_version = bd_version I,
      hb_icp_version = icp_version_const,
      hb_git_sha = (case bd_git_sha I of Some v \<Rightarrow> v | None \<Rightarrow> ''unknown''),
      hb_built_at = (case bd_built_at I of Some v \<Rightarrow> v | None \<Rightarrow> ''unknown''),
      hb_applied = (case applied_versions D (as_state S) of Inr vs \<Rightarrow> vs | Inl _ \<Rightarrow> []),
      hb_expected = map mg_version MIGRATIONS\<rparr>"

record ready_body =
  rb_status :: string
  rb_engine :: string

definition ready :: "app_state \<Rightarrow> nat \<times> ready_body" where
  "ready S =
     (200, if as_engine S \<noteq> None then \<lparr>rb_status = ''ready'', rb_engine = ''available''\<rparr>
           else \<lparr>rb_status = ''degraded'', rb_engine = ''unavailable''\<rparr>)"

section \<open>Serving\<close>

text \<open>\<open>build_cors\<close>: any origin, or those of the list that are header values.\<close>

datatype cors = AnyOrigin | Origins "string list"

definition build_cors :: "(string \<Rightarrow> bool) \<Rightarrow> string list \<Rightarrow> cors" where
  "build_cors header_ok origins =
     (if list_ex (\<lambda>origin. origin = ''*'') origins then AnyOrigin else Origins (filter header_ok origins))"

text \<open>The loops that \<open>serve\<close> spawns, with their period in seconds.\<close>

datatype background_task = SubscriptionLoop nat | WebhookLoop | IdempotencySweeper nat | ExpirySweeper nat

definition background_tasks :: "runtime_config \<Rightarrow> background_task list" where
  "background_tasks c =
     (if rc_subscription_scheduler_enabled c then [SubscriptionLoop (max 1 (rc_subscription_scheduler_interval_secs c))] else [])
     @ [WebhookLoop]
     @ (if 0 < rc_idempotency_sweeper_interval_secs c then [IdempotencySweeper (rc_idempotency_sweeper_interval_secs c)] else [])
     @ (if 0 < rc_expiry_sweeper_interval_secs c then [ExpirySweeper (rc_expiry_sweeper_interval_secs c)] else [])"

text \<open>The parts of the state that the environment of a call carries: its own readings of the clock, its identifiers and
  what the parameters answer are free, the rest is the state's.\<close>

definition runs_for :: "app_state \<Rightarrow> exec_env \<Rightarrow> gateway \<Rightarrow> bool" where
  "runs_for S X G \<longleftrightarrow>
     e_cfg (xe_env X) = config.truncate (as_config S) \<and> e_engine (xe_env X) = as_engine S \<and>
     e_signer (xe_env X) = as_signer S \<and>
     (xe_distributed X = None \<longleftrightarrow> as_limiter S = None) \<and>
     (xe_distributed_pre_auth X = None \<longleftrightarrow> as_pre_auth_limiter S = None) \<and>
     gw_keys G = as_keys S \<and> gw_trust_proxy_headers G = rc_trust_proxy_headers (as_config S) \<and>
     gw_require_icp_version G = rc_require_icp_version (as_config S) \<and>
     gw_require_request_id G = rc_require_request_id (as_config S) \<and>
     gw_require_idempotency_key G = rc_require_idempotency_key (as_config S)"

section \<open>What a production start guarantees\<close>

lemma loaded_keys_valid: "load_api_keys B c = Inr keys \<Longrightarrow> \<exists>ks. key_store_try_new ks = Inr keys"
proof -
  have "key_store_try_new [] = Inr []"
    by (simp add: key_store_try_new_def validate_api_keys_def key_store_new_def)
  then show "load_api_keys B c = Inr keys \<Longrightarrow> \<exists>ks. key_store_try_new ks = Inr keys"
    using demo_key_valid
    by (auto simp: load_api_keys_def bind_result_def split: option.splits sum.splits if_splits)
qed

lemma built_state:
  assumes "build_app_state B c = Inr S"
  shows "validate_runtime (bo_files B) c = Inr () \<and> as_config S = c \<and> open_engine B c = Inr (as_engine S) \<and>
    load_signer B c = Inr (as_signer S) \<and> load_api_keys B c = Inr (as_keys S) \<and>
    open_state B c = Inr (as_state S) \<and>
    connect_limiter B c ''tenant'' ''icp:rate_limit:tenant'' (rc_rate_limit_per_minute c) = Inr (as_limiter S) \<and>
    connect_limiter B c ''pre-auth'' ''icp:rate_limit:pre_auth'' (rc_pre_auth_rate_limit_per_minute c) = Inr (as_pre_auth_limiter S)"
  using assms unfolding build_app_state_def bind_result_Inr_iff by auto

text \<open>
  A handler that has started runs on a complete schema: \<open>/health\<close> shows, from a database without failures, every
  expected migration among those applied.
\<close>

lemma started_schema_complete:
  assumes "build_app_state B c = Inr S" "honest (bo_disk B)" "stamps_true (bo_file B (rc_state_db_path c))"
    "db_typed (bo_file B (rc_state_db_path c))" "healthy D"
  shows "set (hb_expected (health I D S)) \<subseteq> set (hb_applied (health I D S))"
    "\<forall>m \<in> set MIGRATIONS. version_done (mg_version m) (as_state S)"
proof -
  have "open_state B c = Inr (as_state S)"
    using built_state [OF assms(1)] by blast
  then obtain n where opened: "open_pool (bo_disk B) (bo_now B) (rc_state_db_path c) (bo_file B (rc_state_db_path c)) =
      (Inr n, as_state S)"
    unfolding open_state_def by (auto split: prod.splits sum.splits)
  have ok: "stamps_true (as_state S)" "\<forall>m \<in> set MIGRATIONS. stamped (mg_version m) (as_state S)"
    using open_pool_ok [OF assms(2,3) opened] by blast+
  then show "\<forall>m \<in> set MIGRATIONS. version_done (mg_version m) (as_state S)"
    by (simp add: stamps_true_def)
  have "db_typed (as_state S)"
    using open_pool_keeps [OF opened] assms(4) by blast
  then obtain vs where vs: "applied_versions_inner D (as_state S) = Inr vs"
    using applied_succeeds [OF assms(5)] by blast
  then show "set (hb_expected (health I D S)) \<subseteq> set (hb_applied (health I D S))"
    using ok(2) applied_are_stamped [OF vs] assms(5) by (auto simp: health_def applied_versions_def healthy_def)
qed

text \<open>The engine is open, the signing key is the configured one, the limits are shared between instances, and only
  HTTPS destinations are called.\<close>

lemma production_state:
  assumes "build_app_state B c = Inr S" "is_production (config.truncate c)"
  shows "production_ready c \<and> as_config S = c \<and> (\<exists>engine. as_engine S = Some engine) \<and>
    (\<exists>pem. rc_signing_key_pem c = Some pem \<and> bo_signer B (rc_signing_kid c) pem = Inr (as_signer S)) \<and>
    (0 < rc_rate_limit_per_minute c \<longrightarrow> as_limiter S \<noteq> None) \<and>
    (0 < rc_pre_auth_rate_limit_per_minute c \<longrightarrow> as_pre_auth_limiter S \<noteq> None) \<and>
    (\<exists>ks. key_store_try_new ks = Inr (as_keys S))"
proof -
  note built = built_state [OF assms(1)]
  have ready: "production_ready c" using validated_production built assms(2) by blast
  have "open_engine B c \<noteq> Inr None"
    using ready assms(2) by (auto simp: open_engine_def production_ready_def split: sum.splits)
  then have "\<exists>engine. as_engine S = Some engine"
    using built by (cases "as_engine S") auto
  moreover obtain pem where "rc_signing_key_pem c = Some pem" using ready by (auto simp: production_ready_def)
  moreover have "bo_signer B (rc_signing_kid c) pem = Inr (as_signer S)" if "rc_signing_key_pem c = Some pem"
    using that built by (simp add: load_signer_def split: sum.splits)
  moreover have "limiter \<noteq> None" if "rc_redis_url c \<noteq> None" "connect_limiter B c what key_prefix n = Inr limiter"
    for what key_prefix n limiter
    using that assms(2) by (auto simp: connect_limiter_def split: sum.splits)
  moreover have "rc_redis_url c \<noteq> None" if "0 < rc_rate_limit_per_minute c \<or> 0 < rc_pre_auth_rate_limit_per_minute c"
    using that ready by (auto simp: production_ready_def)
  ultimately show ?thesis
    using built ready loaded_keys_valid by blast
qed

text \<open>
  C26. In production no request to the intent endpoint changes a store within a scope without a mandate: from the start
  of the handler on, if a request changes anything, it presented an unexpired key of the validated table and
  a mandate that evaluates for the scope, the estimated amount, the tenant and the ledger at that time, whose subject is
  the agent that both the header and the envelope name and the key permits, and which carries an EdDSA signature
  by a key that is current for its issuer.
\<close>

theorem production_intents_mandated:
  assumes "build_app_state B c = Inr S" "is_production (config.truncate c)" "runs_for S X G"
    and "cr_resolve (e_crypto (xe_env X)) = principal_keys L False now now' (resolutions hist [])"
    and "icp_ok (sv_icp sv)" "submit_intent X G hs envelope sv = (r, sv')" "sv_icp sv' \<noteq> sv_icp sv"
    and "parse_intent (en_intent envelope) = Inr i" "scope i = Some sc"
  shows "\<exists>ks k agent jws ev h p s sig key. key_store_try_new ks = Inr (gw_keys G) \<and> k \<in> set ks \<and>
    hs ''authorization'' = Some (''Bearer '' @ ak_key k) \<and> \<not> is_expired_at k (gw_now G) \<and>
    hs ''icp-agent-id'' = Some agent \<and> en_agent_id envelope = agent \<and> permits_agent k agent \<and>
    hs ''icp-mandate'' = Some jws \<and> md_sub (ev_payload ev) = agent \<and>
    evaluate (e_chrono (xe_env X)) (e_crypto (xe_env X)) (\<lambda>jti. Inr (mem_usage (ic_ledger (sv_icp sv)) jti)) True jws sc
      (estimate_intent_amount_minor envelope) (e_now (xe_env X) 3) (ak_tenant_id k)
      (cx_jurisdiction (en_context envelope)) = Inr ev \<and>
    jws = h @ ''.'' @ p @ ''.'' @ s \<and> cr_b64_decode (e_crypto (xe_env X)) s = Some sig \<and> length sig = 64 \<and>
    cr_verify (e_crypto (xe_env X)) (vk_key key) (h @ ''.'' @ p) sig \<and> key_current L now hist (md_iss (ev_payload ev)) key"
proof -
  note production = production_state [OF assms(1,2)]
  obtain ks where ks: "key_store_try_new ks = Inr (gw_keys G)"
    using production assms(3) by (auto simp: runs_for_def)
  have strict: "cf_require_mandate (e_cfg (xe_env X))" "cf_verify_mandate_signatures (e_cfg (xe_env X))"
    using production assms(3) by (auto simp: runs_for_def production_ready_def config.defs)
  obtain k where k: "k \<in> set ks" "hs ''authorization'' = Some (''Bearer '' @ ak_key k)" "\<not> is_expired_at k (gw_now G)"
      "hs ''icp-agent-id'' = Some (en_agent_id envelope)" "permits_agent k (en_agent_id envelope)"
    using endpoint_admits_only_tenants [OF assms(5) ks assms(6)] assms(7) by blast
  obtain tenant agent where run: "authenticate G hs = Inr (tenant, agent)"
      "sv_icp sv' = snd (handle_intent (xe_env X) (submit_input G hs envelope tenant agent) (sv_icp sv))"
    using submit_intent_icp [OF assms(6)] assms(7) by blast
  let ?inp = "submit_input G hs envelope tenant agent"
  have resolved: "resolve_tenant hs (gw_keys G) (gw_now G) = Inr tenant" "resolve_agent hs = Inr agent"
    using run(1) by (auto simp: authenticate_def bind_result_def split: sum.splits)
  have "resolve_tenant hs (gw_keys G) (gw_now G) = Inr k"
    using resolve_valid_keys [OF ks] k(1-3) by blast
  then have same: "tenant = k" "ag_raw agent = en_agent_id envelope"
    using resolved k(4) by (auto simp: resolve_agent_def parse_agent_def split: option.splits)
  have input: "in_envelope ?inp = envelope" "in_mandate_jws ?inp = hs ''icp-mandate''" "in_tenant_id ?inp = ak_tenant_id k"
    "in_agent_raw ?inp = en_agent_id envelope" "\<not> in_skip_mandate_check ?inp"
    by (simp_all add: submit_input_def for_icp_def same)
  obtain jws ev where mandate: "hs ''icp-mandate'' = Some jws" "md_sub (ev_payload ev) = en_agent_id envelope"
      "evaluate (e_chrono (xe_env X)) (e_crypto (xe_env X)) (\<lambda>jti. Inr (mem_usage (ic_ledger (sv_icp sv)) jti)) True jws sc
        (estimate_intent_amount_minor envelope) (e_now (xe_env X) 3) (ak_tenant_id k)
        (cx_jurisdiction (en_context envelope)) = Inr ev"
    using scoped_intent_needs_mandate [of ?inp i sc "xe_env X" "sv_icp sv", OF _ assms(9) _ _ surjective_pairing] assms(7,8)
      run(2) strict input by auto
  have "verify_signature (e_crypto (xe_env X)) jws (md_iss (ev_payload ev)) = Inr ()"
    using mandate(3) by (auto simp: evaluate_iff)
  from verified_key_current [OF this assms(4)] show ?thesis
    using ks k mandate by blast
qed

section \<open>A production handler to look at\<close>

text \<open>A return under a signed mandate; the document of the issuer is in the cache and out of reach.\<close>

definition prod_config :: runtime_config where
  "prod_config = for_test\<lparr>cf_require_mandate := True, cf_verify_mandate_signatures := True,
     cf_public_base_url := ''https://shop.example'', cf_deployment_env := ''production'',
     cf_payment_execution_mode := ''external_required'', rc_require_icp_version := True, rc_require_request_id := True,
     rc_require_idempotency_key := True, rc_signing_key_pem := Some ''pem'', rc_allow_insecure_urls := False,
     rc_cors_allow_origins := [], rc_api_keys_json := Some ''keys'', rc_enable_demo_keys := False,
     rc_commerce_enabled := True, rc_commerce_db_path := ''commerce.db'', rc_state_db_path := ''icp-state.db'',
     rc_rate_limit_per_minute := 0, rc_pre_auth_rate_limit_per_minute := 0, rc_trust_proxy_headers := False\<rparr>"

definition prod_engine :: engine where
  "prod_engine = \<lparr>eg_discount = \<lambda>_ _ _ _. Some 0, eg_persist = \<lambda>_ _ _ _. Inr None\<rparr>"

definition prod_boot :: boot where
  "prod_boot = \<lparr>bo_files = \<lparr>fs_is_dir = \<lambda>_. False, fs_parent = \<lambda>_. Some [], fs_exists = \<lambda>_. True\<rparr>,
     bo_parse_url = \<lambda>_. None, bo_open_engine = \<lambda>_. Inr prod_engine, bo_signer = \<lambda>_ _. Inr demo_signer,
     bo_generate = \<lambda>_. demo_signer, bo_disk = no_failures, bo_file = \<lambda>_. \<lparr>db_tables = [], db_indexes = []\<rparr>, bo_now = ''t1'', bo_connect = \<lambda>_ _. Inl ''down'',
     bo_keys_json = \<lambda>_. Inr [demo_api_key], bo_read = \<lambda>_. Inl ''none''\<rparr>"

definition prod_state :: app_state where
  "prod_state = \<lparr>as_config = prod_config, as_engine = Some prod_engine, as_signer = demo_signer, as_limiter = None,
     as_pre_auth_limiter = None, as_keys = key_store_demo,
     as_state = snd (open_pool no_failures ''t1'' ''icp-state.db'' \<lparr>db_tables = [], db_indexes = []\<rparr>)\<rparr>"

lemma prod_is_production: "is_production (config.truncate prod_config)"
  by (simp add: is_production_def prod_config_def config.defs eq_ignore_ascii_case_def)

lemma prod_starts: "build_app_state prod_boot prod_config = Inr prod_state"
proof -
  have "production_issues (bo_files prod_boot) prod_config = []"
    by (simp add: production_issues_def prod_config_def for_test_def prod_boot_def validate_sqlite_file_path_def
        default_ttl_hours_def)
  then have "validate_runtime (bo_files prod_boot) prod_config = Inr ()"
    by (simp add: validate_runtime_def validate_payment_mode_def require_https_def prod_config_def for_test_def)
  moreover have "open_state prod_boot prod_config = Inr (as_state prod_state)"
  proof -
    have "compatible \<lparr>db_tables = [], db_indexes = []\<rparr>" "db_typed \<lparr>db_tables = [], db_indexes = []\<rparr>"
        "stamps_true \<lparr>db_tables = [], db_indexes = []\<rparr>"
      by (simp_all add: compatible_def db_typed_def stamps_true_def stamped_def)
    from open_pool_succeeds [OF no_failures_healthy(1) this, of "''t1''" "''icp-state.db''"] show ?thesis
      by (auto simp: open_state_def prod_boot_def prod_config_def prod_state_def)
  qed
  ultimately show ?thesis
    using demo_key_valid
    by (simp add: build_app_state_def check_webhook_url_def open_engine_def load_signer_def
        connect_limiter_def load_api_keys_def prod_config_def for_test_def prod_boot_def prod_state_def)
qed

definition prod_payload :: mandate_payload where
  "prod_payload = demo_payload\<lparr>md_iss := demo_did, md_icp := (md_icp demo_payload)\<lparr>mt_scope := [''return'']\<rparr>\<rparr>"

definition prod_crypto :: crypto where
  "prod_crypto = web_crypto\<lparr>cr_payload_json := \<lambda>_. Inr prod_payload\<rparr>"

definition prod_env :: env where
  "prod_env = demo_env\<lparr>e_cfg := config.truncate prod_config, e_crypto := prod_crypto, e_engine := Some prod_engine,
     e_sig_lib := demo_sig_lib\<lparr>sl_claims_to_jcs := \<lambda>_. Inr ''c''\<rparr>\<rparr>"

definition prod_exec :: "intent_response_body \<Rightarrow> exec_env" where
  "prod_exec b = (demo_exec b)\<lparr>xe_env := prod_env\<rparr>"

definition prod_gateway :: gateway where
  "prod_gateway = demo_gateway\<lparr>gw_require_request_id := True, gw_require_idempotency_key := True\<rparr>"

definition prod_headers :: headers where
  "prod_headers = demo_headers(''icp-mandate'' \<mapsto> demo_jws, ''icp-request-id'' \<mapsto> ''req_1'', ''icp-idempotency-key'' \<mapsto> ''k1'')"

definition prod_envelope :: intent_envelope where
  "prod_envelope = \<lparr>en_intent = ''intent.return'', en_intent_id = None, en_transaction_id = Some ''txn_1'',
     en_agent_id = ''agent'', en_mandate_jti = None, en_params = JNull,
     en_context = intent_context_default\<lparr>cx_jurisdiction := Some ''US-CA''\<rparr>\<rparr>"

lemma prod_runs: "runs_for prod_state (prod_exec b) prod_gateway"
  by (simp add: runs_for_def prod_state_def prod_exec_def prod_env_def demo_env_def demo_exec_def prod_gateway_def
      demo_gateway_def prod_config_def for_test_def)

lemma prod_mandate:
  "\<exists>ev. evaluate chrono_demo prod_crypto (\<lambda>j. Inr (mem_usage [] j)) True demo_jws ''return'' 0 7 ''merchant_demo'' (Some ''US-CA'') = Inr ev \<and>
     md_sub (ev_payload ev) = ''agent''"
proof -
  obtain usage w where demo: "check_validity chrono_demo demo_payload 7 = Inr ()"
      "terms_allow (md_icp demo_payload) ''buy'' 60 ''shop'' (Some ''US-CA'')"
      "mem_usage [] (md_jti demo_payload) = usage" "budget_window chrono_demo (mb_period (mt_budget (md_icp demo_payload))) = Inr w"
      "60 \<le> sat_sub (mb_amount_minor (mt_budget (md_icp demo_payload))) (effective_spent usage 7 w)"
    using demo_evaluates [of True] unfolding evaluate_iff
    by (auto simp: decode_unverified_def demo_split demo_crypto_def check_terms_iff)
  have "decode_unverified prod_crypto demo_jws = Inr prod_payload"
    by (simp add: decode_unverified_def demo_split prod_crypto_def web_crypto_def demo_crypto_def)
  moreover have "check_validity chrono_demo prod_payload 7 = Inr ()"
    using demo(1) by (simp add: check_validity_iff prod_payload_def)
  moreover have "check_terms (md_icp prod_payload) ''return'' 0 ''merchant_demo'' (Some ''US-CA'') = Inr ()"
    using demo(2) by (simp add: check_terms_iff terms_allow_def prod_payload_def demo_payload_def)
  moreover have "verify_signature prod_crypto demo_jws demo_did = Inr ()"
    unfolding verify_signature_iff using demo_principal
    by (intro exI conjI) (rule demo_split, (simp add: prod_crypto_def web_crypto_def demo_crypto_def)+)
  ultimately show ?thesis
    using demo unfolding evaluate_iff
    by (auto simp: prod_payload_def) (simp add: demo_payload_def)
qed

definition prod_input :: intent_input where
  "prod_input = submit_input prod_gateway prod_headers prod_envelope demo_api_key (parse_agent ''agent'')"

lemma prod_input_fields:
  "en_intent (in_envelope prod_input) = ''intent.return''" "en_transaction_id (in_envelope prod_input) = Some ''txn_1''"
  "en_agent_id (in_envelope prod_input) = ''agent''" "estimate_intent_amount_minor (in_envelope prod_input) = 0"
  "cx_jurisdiction (en_context (in_envelope prod_input)) = Some ''US-CA''" "in_mandate_jws prod_input = Some demo_jws"
  "in_tenant_id prod_input = ''merchant_demo''" "in_agent_raw prod_input = ''agent''" "\<not> in_skip_mandate_check prod_input"
  by (simp_all add: prod_input_def submit_input_def for_icp_def prod_headers_def prod_envelope_def demo_api_key_def
      parse_agent_def estimate_intent_amount_minor_def json_get_def)

lemma prod_returns: "\<exists>body s. handle_intent prod_env prod_input compat_state = (Inr body, s) \<and> ic_bus s \<noteq> []"
proof -
  obtain ev where ev: "evaluate chrono_demo prod_crypto (\<lambda>j. Inr (mem_usage [] j)) True demo_jws ''return'' 0 7 ''merchant_demo''
      (Some ''US-CA'') = Inr ev" "md_sub (ev_payload ev) = ''agent''"
    using prod_mandate by blast
  have env: "e_chrono prod_env = chrono_demo" "e_crypto prod_env = prod_crypto" "e_now prod_env n = 7"
    "cf_require_mandate (e_cfg prod_env)" "cf_verify_mandate_signatures (e_cfg prod_env)" for n
    by (simp_all add: prod_env_def demo_env_def prod_config_def for_test_def config.defs)
  have empty: "ic_ledger compat_state = []" "ic_subscribers compat_state = []"
    "st_get (ic_txns compat_state) ''txn_1'' = Some (demo_txn\<lparr>txn_tenant_id := ''merchant_demo''\<rparr>)"
    by (simp_all add: compat_state_def demo_state_def st_get_def)
  have publish: "ends (publish_outcome prod_env prod_input i mandate out) s (\<lambda>_ s. ic_bus s \<noteq> []) (\<lambda>_ _. False)" for i mandate out s
    by (simp add: publish_outcome_def issue_receipt_def enqueue_webhook_def emit_def wp Let_def sign_receipt_def
        prod_env_def demo_env_def demo_sig_lib_def demo_signer_def demo_header_def)
  have "ends (do_return prod_env prod_input) compat_state (\<lambda>_ _. True) (\<lambda>_ _. False)"
    by (simp add: do_return_def wp prod_input_fields empty)
  then have "ends (handle_intent prod_env prod_input) compat_state (\<lambda>_ s. ic_bus s \<noteq> []) (\<lambda>_ _. False)"
    using ev
    by (auto simp: handle_intent_def wp parses prod_input_fields env empty intro: ends_mono publish)
  then show ?thesis by (auto simp: ends_def split: prod.splits sum.splits)
qed

lemma prod_submits:
  "\<exists>reply sv'. submit_intent (prod_exec b) prod_gateway prod_headers prod_envelope compat_service = (reply, sv') \<and>
     sv_icp sv' \<noteq> compat_state"
proof -
  obtain body s where run: "handle_intent prod_env prod_input compat_state = (Inr body, s)" "ic_bus s \<noteq> []"
    using prod_returns by blast
  have moved: "s \<noteq> compat_state" using run(2) by (auto simp: compat_state_def demo_state_def)
  have same: "prod_headers ''authorization'' = demo_headers ''authorization''" "prod_headers ''icp-agent-id'' = Some ''agent''"
    "prod_headers ''icp-version'' = Some ''2026-04-21''" "prod_headers ''icp-request-id'' = Some ''req_1''"
    "prod_headers ''icp-idempotency-key'' = Some ''k1''"
    by (simp_all add: prod_headers_def demo_headers_def)
  have tenant: "resolve_tenant prod_headers (gw_keys prod_gateway) (gw_now prod_gateway) = Inr demo_api_key"
    using demo_resolves same(1) by (simp add: resolve_tenant_def prod_gateway_def)
  have auth: "authenticate prod_gateway prod_headers = Inr (demo_api_key, parse_agent ''agent'')"
    using tenant
    by (simp add: authenticate_def resolve_agent_def same ensure_agent_allowed_def permits_agent_def demo_api_key_def)
  have version: "version_error (prod_exec b) prod_gateway prod_headers = Inr ()"
    by (simp add: version_error_def same prod_exec_def prod_env_def prod_config_def for_test_def config.defs icp_version_const_def)
  have pre: "\<exists>x y z. check_pre_auth_rate_limit (prod_exec b) ip compat_service = (Inr (Allowed x y z), compat_service)" for ip
    by (simp add: check_pre_auth_rate_limit_def check_rate_limit_def prod_exec_def demo_exec_def compat_service_def
        demo_service_def rl_check_def per_minute_def)
  obtain x y z sv1 where limit: "check_tenant_rate_limit (prod_exec b) demo_api_key compat_service = (Inr (Allowed x y z), sv1)"
    by (simp add: check_tenant_rate_limit_def check_rate_limit_def prod_exec_def demo_exec_def compat_service_def demo_service_def
        rl_check_def per_minute_def demo_api_key_def check_at_def bucket_step_def Let_def since_def secs_def)
  have sv1: "sv_icp sv1 = compat_state" "sv_idempotency sv1 = idem_in_memory"
    using limits_keep(1) [OF limit] by (simp_all add: compat_service_def demo_service_def)
  have lease: "idempotency_lease prod_env = Some (secs 60)"
    by (simp add: idempotency_lease_def prod_env_def demo_env_def prod_config_def for_test_def config.defs chrono_demo_def
        wrap_i64_def)
  have "effective_key prod_input (Some ''k1'') = Some ''k1''" "enforce_tenant_limit (prod_exec b) prod_input sv1 = (Inr (), sv1)"
    by (simp_all add: effective_key_def enforce_tenant_limit_def prod_input_def submit_input_def for_icp_def)
  then obtain ex sv2 where "handle_intent_idempotent (prod_exec b) prod_input (Some ''k1'') sv1 = (Inr ex, sv2)" "sv_icp sv2 = s"
    using run(1) sv1 lease
    by (auto simp: handle_intent_idempotent_def execute_keyed_def Let_def prod_exec_def demo_exec_def
        idem_in_memory_def idem_reserve_def mem_reserve_def execute_won_def)
  then have "\<exists>reply. submit_admitted (prod_exec b) prod_gateway prod_headers prod_envelope demo_api_key (parse_agent ''agent'') rls sv1 =
      (reply, sv2)" for rls
    by (simp add: submit_admitted_def required_headers_def same prod_input_def)
  then have "\<exists>reply. submit_intent (prod_exec b) prod_gateway prod_headers prod_envelope compat_service = (reply, sv2)"
    using pre [of "client_ip_for_rate_limit prod_headers (gw_trust_proxy_headers prod_gateway)"]
    by (auto simp: submit_intent_def auth version limit)
  then show ?thesis using \<open>sv_icp sv2 = s\<close> moved by blast
qed

theorem production_intents_mandated_witness:
  "\<forall>b. \<exists>reply sv' jws p s h sig key. submit_intent (prod_exec b) prod_gateway prod_headers prod_envelope compat_service = (reply, sv') \<and>
     sv_icp sv' \<noteq> compat_state \<and> prod_headers ''icp-mandate'' = Some jws \<and> jws = h @ ''.'' @ p @ ''.'' @ s \<and>
     cr_verify prod_crypto (vk_key (key :: verifying_key)) (h @ ''.'' @ p) sig \<and> length sig = 64"
proof
  fix b
  obtain reply sv' where run: "submit_intent (prod_exec b) prod_gateway prod_headers prod_envelope compat_service = (reply, sv')"
      "sv_icp sv' \<noteq> compat_state"
    using prod_submits by blast
  have start: "sv_icp sv' \<noteq> sv_icp compat_service" using run(2) by (simp add: compat_service_def)
  have resolver: "cr_resolve (e_crypto (xe_env (prod_exec b))) =
      principal_keys (demo_lib False) False (secs 300) (secs 300) (resolutions demo_history [])"
    by (simp add: prod_exec_def prod_env_def prod_crypto_def web_crypto_def)
  have "parse_intent (en_intent prod_envelope) = Inr IReturn" "scope IReturn = Some ''return''"
    by (simp_all add: prod_envelope_def parses)
  note mandated = production_intents_mandated [OF prod_starts prod_is_production prod_runs resolver compat_state_ok run(1) start this]
  obtain h p sg sig jws and key :: verifying_key where mandate: "prod_headers ''icp-mandate'' = Some jws" "jws = h @ ''.'' @ p @ ''.'' @ sg"
      "cr_verify (e_crypto (xe_env (prod_exec b))) (vk_key key) (h @ ''.'' @ p) sig" "length sig = 64"
    using mandated by blast
  have crypto: "e_crypto (xe_env (prod_exec b)) = prod_crypto" by (simp add: prod_exec_def prod_env_def)
  show "\<exists>reply sv' jws p s h sig key. submit_intent (prod_exec b) prod_gateway prod_headers prod_envelope compat_service = (reply, sv') \<and>
     sv_icp sv' \<noteq> compat_state \<and> prod_headers ''icp-mandate'' = Some jws \<and> jws = h @ ''.'' @ p @ ''.'' @ s \<and>
     cr_verify prod_crypto (vk_key (key :: verifying_key)) (h @ ''.'' @ p) sig \<and> length sig = 64"
    using run mandate unfolding crypto by blast
qed

end
