(* ===== verification/Discovery.thy ===== *)
theory Discovery
  imports Config Server
begin

text \<open>
  What the handler says about itself and where it listens: the discovery documents (\<open>src/discovery.rs\<close>,
  \<open>src/handlers/discovery.rs\<close>, the UCP profile of \<open>src/compat/ucp.rs\<close>), the route table (\<open>build_router\<close> in \<open>src/app.rs\<close>)
  and the event stream (\<open>src/handlers/events.rs\<close>, \<open>src/events.rs\<close>). The lemmas compare what is advertised with what is
  routed and served.
\<close>

section \<open>The discovery document\<close>

record discovery_document =
  dd_icp_version :: string
  dd_handler_id :: string
  dd_service_name :: string
  dd_supported_versions :: "string list"
  dd_conformance :: json
  dd_transports :: json
  dd_intents :: "string list"
  dd_currencies :: "string list"
  dd_jurisdictions :: "string list"
  dd_payment_methods :: "json list"
  dd_signing_keys :: "json list"
  dd_profile_url :: string
  dd_compatibility :: json
  dd_extensions :: "json list"

text \<open>\<open>ReceiptSigner::jwk\<close>; the first argument encodes the bytes of a verifying key.\<close>

definition jwk :: "(string \<Rightarrow> string) \<Rightarrow> receipt_signer \<Rightarrow> json" where
  "jwk b64 signer =
     JObj [(''kty'', JStr ''OKP''), (''crv'', JStr ''Ed25519''), (''kid'', JStr (sn_kid signer)), (''alg'', JStr ''EdDSA''),
       (''use'', JStr ''sig''), (''x'', JStr (b64 (sn_verifying_key signer)))]"

definition advertised_intents :: "string list" where
  "advertised_intents = map wire_name (filter is_implemented core_intents)"

definition missing_full :: "string list \<Rightarrow> string list" where
  "missing_full intents = filter (\<lambda>name. name \<notin> set intents) [''intent.negotiate'', ''intent.confirm_receipt'']"

definition conformance_of :: "string list \<Rightarrow> json" where
  "conformance_of intents =
     JObj [(''tier'', JStr (if missing_full intents = [] then ''icp-full'' else ''icp-core'')),
       (''missing_intents'', JArr (map JStr (missing_full intents)))]"

definition json_if :: "bool \<Rightarrow> json \<Rightarrow> json" where
  "json_if b v = (if b then v else JNull)"

definition transports_of :: "runtime_config \<Rightarrow> json" where
  "transports_of c =
     (let http = cf_public_base_url c in
      JObj [(''http'', JStr http),
        (''grpc'', JStr (''grpc://'' @ rc_grpc_host c @ '':'' @ show_nat (rc_grpc_port c))),
        (''sse_events'', JStr (http @ ''/icp/v1/events:stream'')),
        (''mcp'', json_if (rc_mcp_enabled c) (JStr (http @ ''/mcp''))),
        (''a2a'', json_if (rc_a2a_enabled c) (JStr (http @ ''/a2a/v1'')))])"

definition compatibility_of :: "runtime_config \<Rightarrow> json" where
  "compatibility_of c =
     (let http = cf_public_base_url c in
      JObj [(''acp'', json_if (rc_acp_compat_enabled c)
               (JObj [(''version'', JStr ''2025-09-29''), (''base_url'', JStr http)])),
        (''ucp'', json_if (rc_ucp_compat_enabled c)
               (JObj [(''version'', JStr ''2026-01-11''), (''base_url'', JStr (http @ ''/ucp''))])),
        (''mcp'', json_if (rc_mcp_enabled c) (JObj [(''tools_url'', JStr (http @ ''/mcp''))])),
        (''a2a'', json_if (rc_a2a_enabled c) (JObj [(''agent_card_url'', JStr (http @ ''/.well-known/agent.json''))]))])"

definition payment_methods :: "json list" where
  "payment_methods =
     [JObj [(''id'', JStr ''card''), (''brands'', JArr (map JStr [''visa'', ''mastercard'', ''amex'']))],
      JObj [(''id'', JStr ''stablecoin''), (''assets'', JArr (map JStr [''USDC'', ''ssUSD''])),
        (''chains'', JArr (map JStr [''base'', ''set'', ''solana'']))],
      JObj [(''id'', JStr ''delegated_vault''), (''spec'', JStr ''acp.delegated_payment'')],
      JObj [(''id'', JStr ''a2a''), (''spec'', JStr ''icp.a2a_pay'')]]"

definition build :: "(string \<Rightarrow> string) \<Rightarrow> runtime_config \<Rightarrow> receipt_signer \<Rightarrow> discovery_document" where
  "build b64 c signer =
     \<lparr>dd_icp_version = cf_icp_version c, dd_handler_id = rc_handler_id c, dd_service_name = rc_service_name c,
      dd_supported_versions = [cf_icp_version c], dd_conformance = conformance_of advertised_intents,
      dd_transports = transports_of c, dd_intents = advertised_intents,
      dd_currencies = [''USD'', ''EUR'', ''GBP'', ''USDC'', ''ssUSD''],
      dd_jurisdictions = [''US'', ''CA'', ''GB'', ''DE'', ''FR''],
      dd_payment_methods = payment_methods, dd_signing_keys = [jwk b64 signer],
      dd_profile_url = cf_public_base_url c @ ''/.well-known/icp/profile.json'',
      dd_compatibility = compatibility_of c, dd_extensions = []\<rparr>"

definition discovery_handler :: "(string \<Rightarrow> string) \<Rightarrow> runtime_config \<Rightarrow> receipt_signer \<Rightarrow> discovery_document" where
  "discovery_handler b64 c signer = build b64 c signer"

definition jwks_handler :: "(string \<Rightarrow> string) \<Rightarrow> receipt_signer \<Rightarrow> json" where
  "jwks_handler b64 signer = JObj [(''keys'', JArr [jwk b64 signer])]"

text \<open>\<open>GET /.well-known/ucp\<close>.\<close>

definition ucp_discovery :: "runtime_config \<Rightarrow> json" where
  "ucp_discovery c =
     (let base = cf_public_base_url c in
      JObj [(''ucp'', JObj
          [(''profile'', JStr ''https://spec.ucp.dev/profile/shopping/2026-01-11''), (''version'', JStr ''2026-01-11''),
           (''capabilities'', JArr [JObj [(''name'', JStr ''dev.ucp.shopping''), (''version'', JStr ''2026-01-11'')]]),
           (''services'', JObj [(''dev.ucp.shopping'', JObj
              [(''version'', JStr ''2026-01-11''), (''spec'', JStr ''https://spec.ucp.dev/shopping''),
               (''rest'', JObj [(''endpoint'', JStr (base @ ''/checkout-sessions''))]),
               (''intents'', JArr (map JStr [''intent.quote'', ''intent.authorize'', ''intent.buy'', ''intent.track'',
                  ''intent.return'']))])])]),
        (''compat'', JObj [(''icp_base_url'', JStr base), (''acp_base_url'', JStr base)])])"

section \<open>The routes\<close>

datatype http_method = GET | POST | PUT | PATCH | DELETE

text \<open>A route: method, path (from a colon on, a segment stands for any text that is not empty), and the handler.\<close>

type_synonym route = "http_method \<times> string \<times> string"

definition core_routes :: "route list" where
  "core_routes =
    [(GET, ''/'', ''ops::root_handler''),
     (GET, ''/health'', ''ops::health''),
     (GET, ''/ready'', ''ops::ready''),
     (GET, ''/metrics'', ''ops::metrics_handler''),
     (GET, ''/openapi.json'', ''openapi::openapi_json''),
     (GET, ''/docs'', ''openapi::docs_html''),
     (GET, ''/.well-known/icp'', ''discovery::discovery_handler''),
     (GET, ''/.well-known/icp/jwks.json'', ''discovery::jwks_handler''),
     (POST, ''/icp/v1/intents'', ''intents::submit_intent''),
     (GET, ''/icp/v1/transactions'', ''queries::list_transactions''),
     (GET, ''/icp/v1/transactions/:id'', ''queries::get_transaction''),
     (GET, ''/icp/v1/subscriptions'', ''queries::list_subscriptions''),
     (GET, ''/icp/v1/subscriptions/:id'', ''queries::get_subscription''),
     (GET, ''/icp/v1/peer_quotes'', ''queries::list_peer_quotes''),
     (GET, ''/icp/v1/peer_quotes/:id'', ''queries::get_peer_quote''),
     (GET, ''/icp/v1/receipts'', ''queries::list_receipts''),
     (GET, ''/icp/v1/receipts/:jti'', ''queries::get_receipt''),
     (GET, ''/icp/v1/mandates/:jti/usage'', ''queries::get_mandate_usage''),
     (GET, ''/icp/v1/events:stream'', ''events::sse_events''),
     (GET, ''/icp/v1/webhook_deliveries'', ''webhook_admin::list_webhook_deliveries''),
     (GET, ''/icp/v1/webhook_deliveries/:id'', ''webhook_admin::get_webhook_delivery''),
     (POST, ''/icp/v1/webhook_deliveries/:id/retry'', ''webhook_admin::retry_webhook_delivery''),
     (POST, ''/icp/v1/webhook_subscribers'', ''webhook_admin::create_webhook_subscriber''),
     (GET, ''/icp/v1/webhook_subscribers'', ''webhook_admin::list_webhook_subscribers''),
     (GET, ''/icp/v1/webhook_subscribers/:id'', ''webhook_admin::get_webhook_subscriber''),
     (PATCH, ''/icp/v1/webhook_subscribers/:id'', ''webhook_admin::update_webhook_subscriber''),
     (DELETE, ''/icp/v1/webhook_subscribers/:id'', ''webhook_admin::delete_webhook_subscriber''),
     (POST, ''/icp/v1/webhook_subscribers/:id/disable'', ''webhook_admin::disable_webhook_subscriber''),
     (POST, ''/icp/v1/webhook_subscribers/:id/enable'', ''webhook_admin::enable_webhook_subscriber'')]"

definition acp_routes :: "route list" where
  "acp_routes =
    [(POST, ''/checkout_sessions'', ''acp::create_session''),
     (GET, ''/checkout_sessions/:id'', ''acp::get_session''),
     (POST, ''/checkout_sessions/:id'', ''acp::update_session''),
     (POST, ''/checkout_sessions/:id/complete'', ''acp::complete_session''),
     (POST, ''/checkout_sessions/:id/cancel'', ''acp::cancel_session'')]"

definition ucp_routes :: "route list" where
  "ucp_routes =
    [(GET, ''/.well-known/ucp'', ''ucp::discovery''),
     (POST, ''/checkout-sessions'', ''ucp::create_checkout''),
     (GET, ''/checkout-sessions/:id'', ''ucp::get_checkout''),
     (PUT, ''/checkout-sessions/:id'', ''ucp::update_checkout''),
     (POST, ''/checkout-sessions/:id/complete'', ''ucp::complete_checkout''),
     (POST, ''/checkout-sessions/:id/cancel'', ''ucp::cancel_checkout'')]"

definition build_router :: "runtime_config \<Rightarrow> route list" where
  "build_router c =
     core_routes @ (if rc_acp_compat_enabled c then acp_routes else [])
       @ (if rc_ucp_compat_enabled c then ucp_routes else [])
       @ (if rc_mcp_enabled c then [(POST, ''/mcp'', ''mcp::handle'')] else [])"

text \<open>How the router matches a path, segment by segment, and its tables of both.\<close>

definition segment_matches :: "string \<Rightarrow> string \<Rightarrow> bool" where
  "segment_matches p s \<longleftrightarrow>
     (case split_once CHR '':'' p of None \<Rightarrow> s = p | Some (lit, _) \<Rightarrow> strict_prefix lit s)"

definition path_matches :: "string \<Rightarrow> string \<Rightarrow> bool" where
  "path_matches pattern path \<longleftrightarrow> list_all2 segment_matches (split_on CHR ''/'' pattern) (split_on CHR ''/'' path)"

definition handlers_of :: "runtime_config \<Rightarrow> http_method \<Rightarrow> string \<Rightarrow> string list" where
  "handlers_of c meth path = map (\<lambda>(_, _, h). h) (filter (\<lambda>(m, p, _). m = meth \<and> path_matches p path) (build_router c))"

definition routed :: "runtime_config \<Rightarrow> string \<Rightarrow> bool" where
  "routed c path \<longleftrightarrow> list_ex (\<lambda>(_, p, _). path_matches p path) (build_router c)"

section \<open>The event stream\<close>

text \<open>
  The bus is a broadcast channel; a receiver that lags loses events, which the stream skips (\<open>None\<close>). An event
  goes to the client when it belongs to the tenant in the state at the time it is received.
\<close>

record sse_event =
  se_id :: string
  se_event :: string
  se_data :: string

definition sse_item :: "(event \<Rightarrow> string option) \<Rightarrow> string \<Rightarrow> icp \<times> event option \<Rightarrow> sse_event option" where
  "sse_item to_json tenant_id received =
     (case snd received of
        None \<Rightarrow> None
      | Some ev \<Rightarrow>
          if \<not> event_belongs_to_tenant (fst received) ev tenant_id then None
          else Some \<lparr>se_id = et_id ev, se_event = et_type ev,
                 se_data = (case to_json ev of Some d \<Rightarrow> d | None \<Rightarrow> '''')\<rparr>)"

definition sse_events ::
  "(event \<Rightarrow> string option) \<Rightarrow> gateway \<Rightarrow> headers \<Rightarrow> (icp \<times> event option) list \<Rightarrow> sse_event list result" where
  "sse_events to_json G hs received =
     bind_result (resolve_tenant hs (gw_keys G) (gw_now G)) (\<lambda>tenant.
       Inr (List.map_filter (sse_item to_json (ak_tenant_id tenant)) received))"

section \<open>What is advertised, and what is served\<close>

text \<open>The document lists every intent, each under the name that parses to it, and claims the full tier.\<close>

lemma discovery_intents_live:
  "set (dd_intents (build b64 c signer)) = {wire_name i |i. is_implemented i}"
  "w \<in> set (dd_intents (build b64 c signer)) \<Longrightarrow> \<exists>i. parse_intent w = Inr i \<and> is_implemented i"
  "dd_conformance (build b64 c signer) = JObj [(''tier'', JStr ''icp-full''), (''missing_intents'', JArr [])]"
proof -
  show 1: "set (dd_intents (build b64 c signer)) = {wire_name i |i. is_implemented i}"
    using core_intents_complete(1) by (auto simp: build_def advertised_intents_def)
  show "\<exists>i. parse_intent w = Inr i \<and> is_implemented i" if w: "w \<in> set (dd_intents (build b64 c signer))"
  proof -
    obtain i where "w = wire_name i" using w unfolding 1 by blast
    moreover obtain n where "wire_name i = ''intent.'' @ n"
      by (cases i) simp_all
    ultimately have "parse_intent w = Inr i"
      using intent_of_name_iff [of n i] trim_wire_name [of i]
      by (simp add: parse_intent_def strip_prefix_def)
    then show ?thesis using all_implemented by blast
  qed
  have "missing_full advertised_intents = []" by code_simp
  then show "dd_conformance (build b64 c signer) = JObj [(''tier'', JStr ''icp-full''), (''missing_intents'', JArr [])]"
    by (simp add: build_def conformance_of_def)
qed

text \<open>The keys of the document and of the key set are the one receipts are signed with.\<close>

lemma discovery_keys: "jwks_handler b64 signer = JObj [(''keys'', JArr (dd_signing_keys (build b64 c signer)))]"
  by (simp add: jwks_handler_def build_def)

text \<open>No two routes of one method match the same path, whichever facades are on.\<close>

definition segments_overlap :: "string \<Rightarrow> string \<Rightarrow> bool" where
  "segments_overlap p q \<longleftrightarrow>
     (case (split_once CHR '':'' p, split_once CHR '':'' q) of
        (None, None) \<Rightarrow> p = q
      | (Some (l, _), None) \<Rightarrow> prefix l q
      | (None, Some (l, _)) \<Rightarrow> prefix l p
      | (Some (l, _), Some (l', _)) \<Rightarrow> prefix l l' \<or> prefix l' l)"

definition routes_apart :: "http_method \<times> string list \<Rightarrow> http_method \<times> string list \<Rightarrow> bool" where
  "routes_apart r r' \<longleftrightarrow> fst r = fst r' \<longrightarrow> \<not> list_all2 segments_overlap (snd r) (snd r')"

definition route_key :: "route \<Rightarrow> http_method \<times> string list" where
  "route_key r = (fst r, split_on CHR ''/'' (fst (snd r)))"

definition all_routes :: "route list" where
  "all_routes = core_routes @ acp_routes @ ucp_routes @ [(POST, ''/mcp'', ''mcp::handle'')]"

lemma segments_overlapI: "segment_matches p s \<Longrightarrow> segment_matches q s \<Longrightarrow> segments_overlap p q"
  by (auto simp: segment_matches_def segments_overlap_def strict_prefix_def dest: prefix_same_cases
      split: option.splits)

lemma path_overlapI:
  "list_all2 segment_matches ps ss \<Longrightarrow> list_all2 segment_matches qs ss \<Longrightarrow> list_all2 segments_overlap ps qs"
  using segments_overlapI unfolding list_all2_conv_all_nth by metis

lemma all_routes_apart: "sorted_wrt routes_apart (map route_key all_routes)"
  by code_simp

lemma build_router_apart: "sorted_wrt routes_apart (map route_key (build_router c))"
  using all_routes_apart by (auto simp: build_router_def all_routes_def sorted_wrt_append)

lemma filter_at_most_one:
  "sorted_wrt (\<lambda>x y. \<not> (P x \<and> P y)) xs \<Longrightarrow> length (filter P xs) \<le> 1"
proof (induction xs)
  case (Cons x xs)
  then show ?case
  proof (cases "P x")
    case True
    then have "filter P xs = []" using Cons.prems by (auto simp: filter_empty_conv)
    then show ?thesis by simp
  qed auto
qed simp

lemma routes_unambiguous: "length (handlers_of c meth path) \<le> 1"
proof -
  let ?P = "\<lambda>r :: route. case r of (m, p, _) \<Rightarrow> m = meth \<and> path_matches p path"
  have "sorted_wrt (\<lambda>r r'. \<not> (?P r \<and> ?P r')) (build_router c)"
    using build_router_apart [of c] unfolding sorted_wrt_map
    by (rule sorted_wrt_mono_rel [rotated])
      (auto simp: routes_apart_def route_key_def path_matches_def dest: path_overlapI)
  from filter_at_most_one [OF this] show ?thesis
    by (simp add: handlers_of_def)
qed

text \<open>
  The stream and the keys are where the document says; MCP and the ACP and UCP sessions are routed exactly when they
  are advertised. The paths advertised for A2A, the profile and the base of UCP have no route under any configuration.
\<close>

lemma advertised_routed:
  "routed c ''/icp/v1/events:stream''" "routed c ''/.well-known/icp/jwks.json''"
  "routed c ''/mcp'' \<longleftrightarrow> rc_mcp_enabled c"
  "routed c ''/checkout_sessions'' \<longleftrightarrow> rc_acp_compat_enabled c"
  "routed c ''/checkout-sessions'' \<longleftrightarrow> rc_ucp_compat_enabled c"
  by (auto simp: routed_def build_router_def core_routes_def acp_routes_def ucp_routes_def path_matches_def
      segment_matches_def)

lemma advertised_unrouted:
  "\<not> routed c ''/a2a/v1''" "\<not> routed c ''/.well-known/agent.json''" "\<not> routed c ''/.well-known/icp/profile.json''"
  "\<not> routed c ''/ucp''" "\<not> routed c ''/ucp/checkout-sessions''"
  by (auto simp: routed_def build_router_def core_routes_def acp_routes_def ucp_routes_def path_matches_def
      segment_matches_def)

text \<open>The stream shows the events of the tenant of the key, in order, and fails without an unexpired key.\<close>

lemma sse_events_of_tenant:
  assumes "key_store_try_new ks = Inr (gw_keys G)" "sse_events to_json G hs received = Inr out"
  shows "\<exists>k \<in> set ks. hs ''authorization'' = Some (''Bearer '' @ ak_key k) \<and> \<not> is_expired_at k (gw_now G) \<and>
    map se_id out = [et_id ev. (s, Some ev) \<leftarrow> received, event_belongs_to_tenant s ev (ak_tenant_id k)]"
proof -
  obtain k where k: "resolve_tenant hs (gw_keys G) (gw_now G) = Inr k"
    and out: "out = List.map_filter (sse_item to_json (ak_tenant_id k)) received"
    using assms(2) by (auto simp: sse_events_def bind_result_Inr_iff)
  have "map se_id (List.map_filter (sse_item to_json (ak_tenant_id k)) xs) =
      [et_id ev. (s, Some ev) \<leftarrow> xs, event_belongs_to_tenant s ev (ak_tenant_id k)]" for xs
    by (induction xs) (auto simp: map_filter_simps sse_item_def split: option.splits)
  then show ?thesis
    using resolve_valid_keys [OF assms(1)] k out by auto
qed

end
