(* ===== verification/Commerce.thy ===== *)
theory Commerce
  imports Service_State
begin

text \<open>
  The adapter to the embedded commerce engine (\<open>src/commerce.rs\<close>): how a basket becomes a promotions request and a
  paid transaction an order. The engine and the decimal library are parameters; what the adapter asks of them, in which
  order, and what it makes of each answer is the model. The lemmas give the discount its bounds and say what an order
  consists of, and that every line of it is in the catalogue afterwards.
\<close>

section \<open>Decimals and the engine\<close>

text \<open>\<open>rust_decimal\<close>: \<open>dc_mul\<close> is the plain product, \<open>None\<close> where it panics.\<close>

record 'd decimal_lib =
  dc_of_int :: "int \<Rightarrow> 'd"
  dc_div :: "'d \<Rightarrow> 'd \<Rightarrow> 'd"
  dc_mul :: "'d \<Rightarrow> 'd \<Rightarrow> 'd option"
  dc_checked_mul :: "'d \<Rightarrow> 'd \<Rightarrow> 'd option"
  dc_checked_add :: "'d \<Rightarrow> 'd \<Rightarrow> 'd option"
  dc_round :: "'d \<Rightarrow> 'd"
  dc_to_i64 :: "'d \<Rightarrow> i64 option"
  dc_is_negative :: "'d \<Rightarrow> bool"

record 'd promotion_line_item =
  pl_id :: string
  pl_sku :: string
  pl_quantity :: int
  pl_unit_price :: 'd
  pl_line_total :: 'd

record 'd apply_promotions_request =
  pr_coupon_codes :: "string list"
  pr_line_items :: "'d promotion_line_item list"
  pr_subtotal :: 'd
  pr_shipping_amount :: 'd
  pr_shipping_country :: "string option"
  pr_shipping_state :: "string option"
  pr_currency :: string

record create_customer =
  cc_email :: string
  cc_first_name :: string
  cc_last_name :: string
  cc_phone :: "string option"

record 'd create_product =
  cp_name :: string
  cp_description :: string
  cp_variant_sku :: string
  cp_variant_name :: string
  cp_variant_price :: 'd

record 'd create_order_item =
  ci_product_id :: string
  ci_sku :: string
  ci_name :: string
  ci_quantity :: int
  ci_unit_price :: 'd

record 'd create_order =
  co_customer_id :: string
  co_items :: "'d create_order_item list"
  co_currency :: "string option"

text \<open>The calls to the engine, in its state \<open>'e\<close>; an error is its message.\<close>

record ('e, 'd) commerce_lib =
  cl_decimal :: "'d decimal_lib"
  cl_parse_currency :: "string \<Rightarrow> string option"
  cl_apply_promotions :: "'d apply_promotions_request \<Rightarrow> 'e \<Rightarrow> (string + 'd) \<times> 'e"
  cl_create_customer :: "create_customer \<Rightarrow> 'e \<Rightarrow> (string + string) \<times> 'e"
  cl_variant_by_sku :: "string \<Rightarrow> 'e \<Rightarrow> string + string option"
  cl_create_product :: "'d create_product \<Rightarrow> 'e \<Rightarrow> (string + string) \<times> 'e"
  cl_create_order :: "'d create_order \<Rightarrow> 'e \<Rightarrow> (string + string \<times> string) \<times> 'e"

definition is_postgres_url :: "string \<Rightarrow> bool" where
  "is_postgres_url s \<longleftrightarrow> prefix ''postgres://'' s \<or> prefix ''postgresql://'' s"

text \<open>\<open>postgres\<close> is the cargo feature; \<open>local\<close> and \<open>remote\<close> open the engine on a file and on a server.\<close>

definition open_commerce :: "bool \<Rightarrow> (string \<Rightarrow> string + 'e) \<Rightarrow> (string \<Rightarrow> string + 'e) \<Rightarrow> string \<Rightarrow> 'e result" where
  "open_commerce postgres remote local path =
     (if is_postgres_url path then
        if postgres then (case remote path of Inl e \<Rightarrow> Inl (EngineUnavailable e) | Inr c \<Rightarrow> Inr c)
        else Inl (EngineUnavailable ''postgres feature not enabled for iCommerce'')
      else case local path of Inl e \<Rightarrow> Inl (EngineUnavailable e) | Inr c \<Rightarrow> Inr c)"

section \<open>Discounts\<close>

definition i32_max :: int where
  "i32_max = 2147483647"

definition minor_to_decimal :: "'d decimal_lib \<Rightarrow> i64 \<Rightarrow> string \<Rightarrow> 'd" where
  "minor_to_decimal D amount currency =
     dc_div D (dc_of_int D amount) (dc_of_int D (max (minor_unit_scale currency) 1))"

definition decimal_to_minor :: "'d decimal_lib \<Rightarrow> 'd \<Rightarrow> string \<Rightarrow> i64 option" where
  "decimal_to_minor D amount currency =
     (case dc_mul D amount (dc_of_int D (minor_unit_scale currency)) of
        None \<Rightarrow> None
      | Some product \<Rightarrow>
          let scaled = dc_round D product in
          Some (case dc_to_i64 D scaled of
                  Some v \<Rightarrow> v | None \<Rightarrow> if dc_is_negative D scaled then i64_min else i64_max))"

text \<open>The loop over the items; \<open>None\<close> where a product or sum does not fit and there is no discount.\<close>

fun promotion_lines ::
  "'d decimal_lib \<Rightarrow> string \<Rightarrow> nat \<Rightarrow> request_item list \<Rightarrow> 'd \<Rightarrow> 'd promotion_line_item list
    \<Rightarrow> ('d promotion_line_item list \<times> 'd) option" where
  "promotion_lines D currency idx [] subtotal done_lines = Some (done_lines, subtotal)"
| "promotion_lines D currency idx (item # items) subtotal done_lines =
     (let unit_minor = (case ri_unit_price_hint item of Some m \<Rightarrow> amount_minor m | None \<Rightarrow> 1000);
          unit_price = minor_to_decimal D unit_minor currency;
          qty = max (ri_quantity item) 0 in
      case dc_checked_mul D unit_price (dc_of_int D qty) of
        None \<Rightarrow> None
      | Some line_total \<Rightarrow>
          (case dc_checked_add D subtotal line_total of
             None \<Rightarrow> None
           | Some subtotal' \<Rightarrow>
               promotion_lines D currency (Suc idx) items subtotal'
                 (done_lines @ [\<lparr>pl_id = ''li_'' @ pad_nat 6 idx, pl_sku = ri_sku item, pl_quantity = min qty i32_max,
                    pl_unit_price = unit_price, pl_line_total = line_total\<rparr>])))"

text \<open>The discount, or \<open>None\<close> where the conversion of the engine's answer panics.\<close>

definition compute_discount_minor ::
  "('e, 'd) commerce_lib \<Rightarrow> request_item list \<Rightarrow> string \<Rightarrow> address option \<Rightarrow> string list \<Rightarrow> 'e \<Rightarrow> i64 option \<times> 'e" where
  "compute_discount_minor L items currency ship_to coupon_codes e =
     (let D = cl_decimal L in
      case cl_parse_currency L currency of
        None \<Rightarrow> (Some 0, e)
      | Some code \<Rightarrow>
          (case promotion_lines D currency 0 items (dc_of_int D 0) [] of
             None \<Rightarrow> (Some 0, e)
           | Some (lines, subtotal) \<Rightarrow>
               (case cl_apply_promotions L
                       \<lparr>pr_coupon_codes = coupon_codes, pr_line_items = lines, pr_subtotal = subtotal,
                        pr_shipping_amount = dc_of_int D 0, pr_shipping_country = Option.bind ship_to ad_country,
                        pr_shipping_state = Option.bind ship_to ad_state, pr_currency = code\<rparr> e of
                  (Inl _, e') \<Rightarrow> (Some 0, e')
                | (Inr total_discount, e') \<Rightarrow>
                    (map_option (\<lambda>v. max v 0) (decimal_to_minor D total_discount currency), e'))))"

section \<open>Orders\<close>

definition non_empty :: "string option \<Rightarrow> string option" where
  "non_empty s = (case map_option trim s of Some t \<Rightarrow> if t = [] then None else Some t | None \<Rightarrow> None)"

definition local_part :: "string \<Rightarrow> string option" where
  "local_part email =
     (case split_once CHR ''@'' email of Some (l, _) \<Rightarrow> if l = [] then None else Some l | None \<Rightarrow> None)"

definition customer_of :: "buyer \<Rightarrow> string \<Rightarrow> create_customer" where
  "customer_of buyer email =
     \<lparr>cc_email = email,
      cc_first_name = (case non_empty (by_first_name buyer) of
          Some n \<Rightarrow> n | None \<Rightarrow> (case local_part email of Some l \<Rightarrow> l | None \<Rightarrow> ''ICP Buyer'')),
      cc_last_name = (case by_last_name buyer of Some n \<Rightarrow> n | None \<Rightarrow> ''''),
      cc_phone = by_phone_number buyer\<rparr>"

definition ensure_product_for_sku ::
  "('e, 'd) commerce_lib \<Rightarrow> string \<Rightarrow> string \<Rightarrow> 'd \<Rightarrow> 'e \<Rightarrow> string result \<times> 'e" where
  "ensure_product_for_sku L sku name unit_price e =
     (case cl_variant_by_sku L sku e of
        Inr (Some product_id) \<Rightarrow> (Inr product_id, e)
      | Inl err \<Rightarrow> (Inl (EngineUnavailable (''products.get_variant_by_sku('' @ sku @ ''): '' @ err)), e)
      | Inr None \<Rightarrow>
          (let display_name = (case non_empty (Some name) of Some n \<Rightarrow> n | None \<Rightarrow> sku) in
           case cl_create_product L
                  \<lparr>cp_name = display_name, cp_description = ''Auto-created by ICP handler for SKU '' @ sku,
                   cp_variant_sku = sku, cp_variant_name = display_name, cp_variant_price = unit_price\<rparr> e of
             (Inl err, e') \<Rightarrow> (Inl (EngineUnavailable (''products.create('' @ sku @ ''): '' @ err)), e')
           | (Inr product_id, e') \<Rightarrow> (Inr product_id, e')))"

definition order_item_of :: "'d decimal_lib \<Rightarrow> string \<Rightarrow> line_item \<Rightarrow> string \<Rightarrow> 'd create_order_item" where
  "order_item_of D currency li product_id =
     \<lparr>ci_product_id = product_id, ci_sku = li_sku li, ci_name = li_name li,
      ci_quantity = max 1 (min (li_quantity li) i32_max),
      ci_unit_price = minor_to_decimal D (amount_minor (li_unit_price li)) currency\<rparr>"

fun resolve_items ::
  "('e, 'd) commerce_lib \<Rightarrow> string \<Rightarrow> line_item list \<Rightarrow> 'e \<Rightarrow> 'd create_order_item list result \<times> 'e" where
  "resolve_items L currency [] e = (Inr [], e)"
| "resolve_items L currency (li # lis) e =
     (case ensure_product_for_sku L (li_sku li) (li_name li)
             (minor_to_decimal (cl_decimal L) (amount_minor (li_unit_price li)) currency) e of
        (Inl err, e1) \<Rightarrow> (Inl err, e1)
      | (Inr product_id, e1) \<Rightarrow>
          (case resolve_items L currency lis e1 of
             (Inl err, e2) \<Rightarrow> (Inl err, e2)
           | (Inr items, e2) \<Rightarrow> (Inr (order_item_of (cl_decimal L) currency li product_id # items), e2)))"

definition persist_order ::
  "('e, 'd) commerce_lib \<Rightarrow> buyer \<Rightarrow> string \<Rightarrow> line_item list \<Rightarrow> totals \<Rightarrow> 'e \<Rightarrow> persisted_order option result \<times> 'e" where
  "persist_order L buyer currency line_items tots e =
     (case by_email buyer of
        None \<Rightarrow> (Inr None, e)
      | Some email \<Rightarrow>
      if email = [] then (Inr None, e)
      else case cl_create_customer L (customer_of buyer email) e of
        (Inl err, e1) \<Rightarrow> (Inl (EngineUnavailable (''customer.create: '' @ err)), e1)
      | (Inr customer_id, e1) \<Rightarrow>
      (case resolve_items L currency line_items e1 of
         (Inl err, e2) \<Rightarrow> (Inl err, e2)
       | (Inr items, e2) \<Rightarrow>
       (case cl_create_order L \<lparr>co_customer_id = customer_id, co_items = items,
                co_currency = cl_parse_currency L currency\<rparr> e2 of
          (Inl err, e3) \<Rightarrow> (Inl (EngineUnavailable (''orders.create: '' @ err)), e3)
        | (Inr (oid, number), e3) \<Rightarrow>
            (Inr (Some \<lparr>po_id = oid, po_order_number = number,
               po_total = (case to_total tots of Some m \<Rightarrow> m | None \<Rightarrow> money_new 0 currency)\<rparr>), e3))))"

section \<open>The engine of the handlers\<close>

text \<open>What the intent handlers see of the adapter, with the engine behind it in state \<open>e\<close>.\<close>

definition engine_of :: "('e, 'd) commerce_lib \<Rightarrow> 'e \<Rightarrow> engine" where
  "engine_of L e =
     \<lparr>eg_discount = \<lambda>items currency ship_to codes. fst (compute_discount_minor L items currency ship_to codes e),
      eg_persist = \<lambda>buyer currency lis tots. fst (persist_order L buyer currency lis tots e)\<rparr>"

text \<open>
  When a quote's discount panics: the engine knows the currency, the basket fits, promotions apply, and the product of
  the total discount and the scale of the currency, which unlike those of the basket is not checked, does not fit.
\<close>

lemma engine_discount_panics:
  "eg_discount (engine_of L e) items currency ship_to codes = None \<longleftrightarrow>
     (\<exists>code lines subtotal d e'. cl_parse_currency L currency = Some code \<and>
        promotion_lines (cl_decimal L) currency 0 items (dc_of_int (cl_decimal L) 0) [] = Some (lines, subtotal) \<and>
        cl_apply_promotions L
          \<lparr>pr_coupon_codes = codes, pr_line_items = lines, pr_subtotal = subtotal,
           pr_shipping_amount = dc_of_int (cl_decimal L) 0, pr_shipping_country = Option.bind ship_to ad_country,
           pr_shipping_state = Option.bind ship_to ad_state, pr_currency = code\<rparr> e = (Inr d, e') \<and>
        dc_mul (cl_decimal L) d (dc_of_int (cl_decimal L) (minor_unit_scale currency)) = None)"
  by (auto simp: engine_of_def compute_discount_minor_def decimal_to_minor_def Let_def
      split: option.splits prod.splits sum.splits)

section \<open>What the adapter promises\<close>

text \<open>
  A discount is never negative, and within \<open>i64\<close> where the decimal library converts within it; a basket that does
  not fit, or a currency the engine does not know, gets none and does not reach the engine.
\<close>

lemma discount_bounded:
  assumes "compute_discount_minor L items currency ship_to codes e = (Some d, e')"
    and "\<forall>x v. dc_to_i64 (cl_decimal L) x = Some v \<longrightarrow> in_i64 v"
  shows "0 \<le> d \<and> d \<le> i64_max"
proof -
  have "v \<le> i64_max" if "decimal_to_minor (cl_decimal L) x currency = Some v" for x v
    using that assms(2)
    by (auto simp: decimal_to_minor_def Let_def in_i64_def i64_min_def i64_max_def split: option.splits if_splits)
  then show ?thesis
    using assms(1)
    by (auto simp: compute_discount_minor_def Let_def i64_max_def split: option.splits prod.splits sum.splits)
qed

lemma discount_skips_engine:
  assumes "cl_parse_currency L currency = None \<or>
    promotion_lines (cl_decimal L) currency 0 items (dc_of_int (cl_decimal L) 0) [] = None"
  shows "compute_discount_minor L items currency ship_to codes e = (Some 0, e)"
  using assms by (auto simp: compute_discount_minor_def Let_def split: option.splits)

lemma promotion_lines_items:
  "promotion_lines D currency idx items subtotal acc = Some (lines, total) \<Longrightarrow>
   map pl_sku lines = map pl_sku acc @ map ri_sku items \<and>
   (list_all (\<lambda>l. 0 \<le> pl_quantity l \<and> pl_quantity l \<le> i32_max) acc \<longrightarrow>
    list_all (\<lambda>l. 0 \<le> pl_quantity l \<and> pl_quantity l \<le> i32_max) lines)"
proof (induction D currency idx items subtotal acc rule: promotion_lines.induct)
  case (2 D currency idx item items subtotal acc)
  then show ?case
    by (auto simp: Let_def i32_max_def split: option.splits)
qed simp

text \<open>No order, and no call to the engine, without an email address.\<close>

lemma persist_needs_email:
  "by_email buyer = None \<or> by_email buyer = Some [] \<Longrightarrow> persist_order L buyer currency lis tots e = (Inr None, e)"
  by (auto simp: persist_order_def)

lemma customer_named: "cc_email c \<noteq> [] \<Longrightarrow> c = customer_of buyer email \<Longrightarrow> cc_first_name c \<noteq> []"
  by (auto simp: customer_of_def non_empty_def local_part_def split: option.splits if_splits)

text \<open>The laws of a catalogue: a product is found by the SKU of its variant, and nothing is forgotten.\<close>

definition catalog_laws :: "('e, 'd) commerce_lib \<Rightarrow> bool" where
  "catalog_laws L \<longleftrightarrow>
     (\<forall>p e pid e'. cl_create_product L p e = (Inr pid, e') \<longrightarrow> cl_variant_by_sku L (cp_variant_sku p) e' = Inr (Some pid)) \<and>
     (\<forall>p e r e' sku pid. cl_create_product L p e = (r, e') \<longrightarrow> cl_variant_by_sku L sku e = Inr (Some pid) \<longrightarrow>
        sku \<noteq> cp_variant_sku p \<longrightarrow> cl_variant_by_sku L sku e' = Inr (Some pid)) \<and>
     (\<forall>o1 e r e' sku pid. cl_create_order L o1 e = (r, e') \<longrightarrow> cl_variant_by_sku L sku e = Inr (Some pid) \<longrightarrow>
        cl_variant_by_sku L sku e' = Inr (Some pid))"

lemma ensure_product_known:
  assumes "catalog_laws L" "ensure_product_for_sku L sku name price e = (Inr pid, e')"
  shows "cl_variant_by_sku L sku e' = Inr (Some pid)"
    "cl_variant_by_sku L sku' e = Inr (Some pid') \<Longrightarrow> cl_variant_by_sku L sku' e' = Inr (Some pid')"
proof -
  show "cl_variant_by_sku L sku e' = Inr (Some pid)"
    using assms by (fastforce simp: ensure_product_for_sku_def catalog_laws_def Let_def
        split: sum.splits option.splits prod.splits)
  show "cl_variant_by_sku L sku' e' = Inr (Some pid')" if "cl_variant_by_sku L sku' e = Inr (Some pid')"
  proof (cases "cl_variant_by_sku L sku e = Inr None")
    case True
    then have "sku' \<noteq> sku" using that by auto
    then show ?thesis
      using that True assms by (fastforce simp: ensure_product_for_sku_def catalog_laws_def Let_def
          split: sum.splits prod.splits)
  next
    case False
    then have "e' = e"
      using assms(2) by (auto simp: ensure_product_for_sku_def split: sum.splits option.splits)
    then show ?thesis using that by simp
  qed
qed

lemma resolve_items_known:
  assumes "catalog_laws L"
  shows "resolve_items L currency lis e = (Inr items, e') \<Longrightarrow>
    list_all2 (\<lambda>li it. it = order_item_of (cl_decimal L) currency li (ci_product_id it) \<and>
      cl_variant_by_sku L (li_sku li) e' = Inr (Some (ci_product_id it))) lis items \<and>
    (\<forall>sku pid. cl_variant_by_sku L sku e = Inr (Some pid) \<longrightarrow> cl_variant_by_sku L sku e' = Inr (Some pid))"
proof (induction lis arbitrary: e items)
  case (Cons li lis)
  obtain pid e1 where one: "ensure_product_for_sku L (li_sku li) (li_name li)
      (minor_to_decimal (cl_decimal L) (amount_minor (li_unit_price li)) currency) e = (Inr pid, e1)"
    using Cons.prems by (auto split: prod.splits sum.splits)
  obtain rest where rest: "resolve_items L currency lis e1 = (Inr rest, e')"
    and items: "items = order_item_of (cl_decimal L) currency li pid # rest"
    using Cons.prems one by (auto split: prod.splits sum.splits)
  have "ci_product_id (order_item_of (cl_decimal L) currency li pid) = pid"
    by (simp add: order_item_of_def)
  then show ?case
    using Cons.IH [OF rest] ensure_product_known [OF assms one] by (auto simp: items)
qed simp

text \<open>
  An order that is created has one item per line, in order, with a quantity of at least one and the product the
  catalogue gives for the SKU; all of them are in the catalogue afterwards, so a second order creates no product.
\<close>

lemma persisted_order:
  assumes "catalog_laws L" "persist_order L buyer currency lis tots e = (Inr (Some po), e')"
  shows "\<exists>email cid e1 items e2. by_email buyer = Some email \<and> email \<noteq> [] \<and>
    cl_create_customer L (customer_of buyer email) e = (Inr cid, e1) \<and>
    cl_create_order L \<lparr>co_customer_id = cid, co_items = items, co_currency = cl_parse_currency L currency\<rparr> e2 =
      (Inr (po_id po, po_order_number po), e') \<and>
    list_all2 (\<lambda>li it. it = order_item_of (cl_decimal L) currency li (ci_product_id it) \<and>
      cl_variant_by_sku L (li_sku li) e' = Inr (Some (ci_product_id it))) lis items"
proof -
  obtain email cid e1 items e2 where parts: "by_email buyer = Some email" "email \<noteq> []"
      "cl_create_customer L (customer_of buyer email) e = (Inr cid, e1)"
    and res: "resolve_items L currency lis e1 = (Inr items, e2)"
    and ord: "cl_create_order L \<lparr>co_customer_id = cid, co_items = items, co_currency = cl_parse_currency L currency\<rparr> e2 =
      (Inr (po_id po, po_order_number po), e')"
    using assms(2) unfolding persist_order_def by (auto split: option.splits if_splits prod.splits sum.splits)
  have "cl_variant_by_sku L sku e' = Inr (Some pid)" if "cl_variant_by_sku L sku e2 = Inr (Some pid)" for sku pid
    using assms(1) ord that unfolding catalog_laws_def by blast
  then have "list_all2 (\<lambda>li it. it = order_item_of (cl_decimal L) currency li (ci_product_id it) \<and>
      cl_variant_by_sku L (li_sku li) e' = Inr (Some (ci_product_id it))) lis items"
    using resolve_items_known [OF assms(1) res] by (auto elim: list_all2_mono)
  then show ?thesis using parts ord by blast
qed

lemma resolve_items_repeat:
  assumes "list_all2 (\<lambda>li it. it = order_item_of (cl_decimal L) currency li (ci_product_id it) \<and>
      cl_variant_by_sku L (li_sku li) e = Inr (Some (ci_product_id it))) lis items"
  shows "resolve_items L currency lis e = (Inr items, e)"
  using assms by (induction rule: list_all2_induct) (auto simp: ensure_product_for_sku_def)

end
