(* ===== verification/Webhook_Tables.thy ===== *)
theory Webhook_Tables
  imports Webhook State_Db
begin

text \<open>
  The tables of the webhook outbox and of the subscribers (\<open>src/webhook/outbox.rs\<close>, \<open>src/webhook/subscribers.rs\<close>) on the
  database of \<open>State_Db\<close>: what the statements write into a row, how a row is read back, and that what was written
  through the schema of the migrations reads back as it was.
\<close>

section \<open>Reading cells\<close>

definition text_cell :: "sql_row \<Rightarrow> string \<Rightarrow> string option" where
  "text_cell r c = (case map_of r c of Some (Text_Cell s) \<Rightarrow> Some s | _ \<Rightarrow> None)"

definition int_cell :: "sql_row \<Rightarrow> string \<Rightarrow> int option" where
  "int_cell r c = (case map_of r c of Some (Int_Cell i) \<Rightarrow> Some i | _ \<Rightarrow> None)"

text \<open>Reading an \<open>Option\<close>: \<open>Some None\<close> for \<open>NULL\<close>, \<open>None\<close> where the read fails.\<close>

definition opt_text_cell :: "sql_row \<Rightarrow> string \<Rightarrow> string option option" where
  "opt_text_cell r c =
     (case map_of r c of Some Null_Cell \<Rightarrow> Some None | Some (Text_Cell s) \<Rightarrow> Some (Some s) | _ \<Rightarrow> None)"

definition opt_int_cell :: "sql_row \<Rightarrow> string \<Rightarrow> int option option" where
  "opt_int_cell r c =
     (case map_of r c of Some Null_Cell \<Rightarrow> Some None | Some (Int_Cell i) \<Rightarrow> Some (Some i) | _ \<Rightarrow> None)"

definition opt_text :: "string option \<Rightarrow> sql_cell" where
  "opt_text v = (case v of Some s \<Rightarrow> Text_Cell s | None \<Rightarrow> Null_Cell)"

definition opt_int :: "int option \<Rightarrow> sql_cell" where
  "opt_int v = (case v of Some i \<Rightarrow> Int_Cell i | None \<Rightarrow> Null_Cell)"

text \<open>The text of an instant; one that does not parse reads as the clock.\<close>

definition parse_dt :: "chrono \<Rightarrow> time \<Rightarrow> string \<Rightarrow> time" where
  "parse_dt C now s = (case ch_parse_rfc3339 C s of Some t \<Rightarrow> t | None \<Rightarrow> now)"

section \<open>Deliveries\<close>

record delivery_row =
  rw_id :: string
  rw_event_id :: string
  rw_event_type :: string
  rw_url :: string
  rw_payload_json :: string
  rw_status :: string
  rw_attempts :: int
  rw_max_attempts :: int
  rw_next_attempt_at :: string
  rw_last_status_code :: "int option"
  rw_last_error :: "string option"
  rw_created_at :: string
  rw_updated_at :: string
  rw_delivered_at :: "string option"
  rw_tenant_id :: string

definition delivery_params :: "chrono \<Rightarrow> webhook_delivery \<Rightarrow> sql_row" where
  "delivery_params C d =
     [(''id'', Text_Cell (dl_id d)), (''event_id'', Text_Cell (dl_event_id d)),
      (''event_type'', Text_Cell (dl_event_type d)), (''url'', Text_Cell (dl_url d)),
      (''payload_json'', Text_Cell (dl_payload_json d)),
      (''status'', Text_Cell (delivery_status_wire_name (dl_status d))),
      (''attempts'', Int_Cell (uint (dl_attempts d))), (''max_attempts'', Int_Cell (uint (dl_max_attempts d))),
      (''next_attempt_at'', Text_Cell (ch_to_rfc3339 C (dl_next_attempt_at d))),
      (''last_status_code'', opt_int (map_option int (dl_last_status_code d))),
      (''last_error'', opt_text (dl_last_error d)),
      (''created_at'', Text_Cell (ch_to_rfc3339 C (dl_created_at d))),
      (''updated_at'', Text_Cell (ch_to_rfc3339 C (dl_updated_at d))),
      (''delivered_at'', opt_text (map_option (ch_to_rfc3339 C) (dl_delivered_at d))),
      (''tenant_id'', Text_Cell (dl_tenant_id d))]"

text \<open>\<open>DeliveryRow::from_row\<close>: any column of another type fails the read, the tenant aside.\<close>

definition delivery_row_of :: "sql_row \<Rightarrow> delivery_row option" where
  "delivery_row_of r =
     Option.bind (text_cell r ''id'') (\<lambda>i.
     Option.bind (text_cell r ''event_id'') (\<lambda>event_id.
     Option.bind (text_cell r ''event_type'') (\<lambda>event_type.
     Option.bind (text_cell r ''url'') (\<lambda>url.
     Option.bind (text_cell r ''payload_json'') (\<lambda>payload.
     Option.bind (text_cell r ''status'') (\<lambda>status.
     Option.bind (int_cell r ''attempts'') (\<lambda>attempts.
     Option.bind (int_cell r ''max_attempts'') (\<lambda>max_attempts.
     Option.bind (text_cell r ''next_attempt_at'') (\<lambda>next_at.
     Option.bind (opt_int_cell r ''last_status_code'') (\<lambda>code.
     Option.bind (opt_text_cell r ''last_error'') (\<lambda>err.
     Option.bind (text_cell r ''created_at'') (\<lambda>created.
     Option.bind (text_cell r ''updated_at'') (\<lambda>updated.
     Option.bind (opt_text_cell r ''delivered_at'') (\<lambda>delivered.
       Some \<lparr>rw_id = i, rw_event_id = event_id, rw_event_type = event_type, rw_url = url, rw_payload_json = payload,
         rw_status = status, rw_attempts = attempts, rw_max_attempts = max_attempts, rw_next_attempt_at = next_at,
         rw_last_status_code = code, rw_last_error = err, rw_created_at = created, rw_updated_at = updated,
         rw_delivered_at = delivered,
         rw_tenant_id = (case text_cell r ''tenant_id'' of Some t \<Rightarrow> t | None \<Rightarrow> '''')\<rparr>))))))))))))))"

text \<open>\<open>WebhookDelivery::from_row\<close>: negative counts read as zero, a code out of \<open>u16\<close> as none.\<close>

definition delivery_of_row :: "chrono \<Rightarrow> time \<Rightarrow> delivery_row \<Rightarrow> webhook_delivery" where
  "delivery_of_row C now r =
     \<lparr>dl_id = rw_id r, dl_event_id = rw_event_id r, dl_event_type = rw_event_type r, dl_url = rw_url r,
      dl_payload_json = rw_payload_json r, dl_status = delivery_status_parse (rw_status r),
      dl_attempts = word_of_int (max (rw_attempts r) 0), dl_max_attempts = word_of_int (max (rw_max_attempts r) 0),
      dl_next_attempt_at = parse_dt C now (rw_next_attempt_at r),
      dl_last_status_code = (case rw_last_status_code r of
          Some c \<Rightarrow> if 0 \<le> c \<and> c < 65536 then Some (nat c) else None | None \<Rightarrow> None),
      dl_last_error = rw_last_error r, dl_created_at = parse_dt C now (rw_created_at r),
      dl_updated_at = parse_dt C now (rw_updated_at r),
      dl_delivered_at = map_option (parse_dt C now) (rw_delivered_at r), dl_tenant_id = rw_tenant_id r\<rparr>"

text \<open>\<open>INSERT .. ON CONFLICT(id) DO NOTHING\<close>, and the row of an id; an error is logged and changes nothing.\<close>

definition outbox_enqueue :: "disk \<Rightarrow> chrono \<Rightarrow> webhook_delivery \<Rightarrow> database \<Rightarrow> database" where
  "outbox_enqueue D C d db =
     (if dk_acquire D then db
      else case sql_insert D ''webhook_deliveries'' (delivery_params C d) db of None \<Rightarrow> db | Some db' \<Rightarrow> db')"

definition select_by_id :: "string \<Rightarrow> string \<Rightarrow> database \<Rightarrow> sql_row option" where
  "select_by_id t i db =
     (case table_of db t of None \<Rightarrow> None | Some tb \<Rightarrow> find (\<lambda>r. map_of r ''id'' = Some (Text_Cell i)) (tbl_rows tb))"

definition outbox_get :: "disk \<Rightarrow> chrono \<Rightarrow> time \<Rightarrow> string \<Rightarrow> database \<Rightarrow> webhook_delivery option" where
  "outbox_get D C now i db =
     (if dk_acquire D \<or> dk_read D then None
      else map_option (delivery_of_row C now) (Option.bind (select_by_id ''webhook_deliveries'' i db) delivery_row_of))"

definition outbox_len :: "disk \<Rightarrow> database \<Rightarrow> nat" where
  "outbox_len D db =
     (if dk_acquire D \<or> dk_read D then 0
      else case table_of db ''webhook_deliveries'' of None \<Rightarrow> 0 | Some tb \<Rightarrow> length (tbl_rows tb))"

section \<open>Subscribers\<close>

definition subscriber_params :: "chrono \<Rightarrow> webhook_subscriber \<Rightarrow> sql_row" where
  "subscriber_params C s =
     [(''id'', Text_Cell (ws_id s)), (''tenant_id'', Text_Cell (ws_tenant_id s)), (''url'', Text_Cell (ws_url s)),
      (''secret'', Text_Cell (case ws_secret s of Some sec \<Rightarrow> sec | None \<Rightarrow> '''')),
      (''active'', Int_Cell (if ws_active s then 1 else 0)),
      (''created_at'', Text_Cell (ch_to_rfc3339 C (ws_created_at s))),
      (''updated_at'', Text_Cell (ch_to_rfc3339 C (ws_updated_at s)))]"

text \<open>An empty secret reads as none.\<close>

definition row_to_subscriber :: "chrono \<Rightarrow> time \<Rightarrow> sql_row \<Rightarrow> webhook_subscriber option" where
  "row_to_subscriber C now r =
     Option.bind (text_cell r ''id'') (\<lambda>i.
     Option.bind (text_cell r ''tenant_id'') (\<lambda>tenant.
     Option.bind (text_cell r ''url'') (\<lambda>url.
     Option.bind (text_cell r ''secret'') (\<lambda>secret.
     Option.bind (int_cell r ''active'') (\<lambda>active.
     Option.bind (text_cell r ''created_at'') (\<lambda>created.
     Option.bind (text_cell r ''updated_at'') (\<lambda>updated.
       Some \<lparr>ws_id = i, ws_tenant_id = tenant, ws_url = url, ws_secret = (if secret = [] then None else Some secret),
         ws_active = (active \<noteq> 0), ws_created_at = parse_dt C now created,
         ws_updated_at = parse_dt C now updated\<rparr>)))))))"

definition subscriber_insert :: "disk \<Rightarrow> chrono \<Rightarrow> webhook_subscriber \<Rightarrow> database \<Rightarrow> database" where
  "subscriber_insert D C s db =
     (if dk_acquire D then db
      else case sql_insert D ''webhook_subscribers'' (subscriber_params C s) db of None \<Rightarrow> db | Some db' \<Rightarrow> db')"

definition subscriber_get :: "disk \<Rightarrow> chrono \<Rightarrow> time \<Rightarrow> string \<Rightarrow> database \<Rightarrow> webhook_subscriber option" where
  "subscriber_get D C now i db =
     (if dk_acquire D \<or> dk_read D then None
      else Option.bind (select_by_id ''webhook_subscribers'' i db) (row_to_subscriber C now))"

definition subscriber_len :: "disk \<Rightarrow> database \<Rightarrow> nat" where
  "subscriber_len D db =
     (if dk_acquire D \<or> dk_read D then 0
      else case table_of db ''webhook_subscribers'' of None \<Rightarrow> 0 | Some tb \<Rightarrow> length (tbl_rows tb))"

section \<open>What is written is read\<close>

lemma status_parse_wire: "delivery_status_parse (delivery_status_wire_name st) = st"
  by (cases st) (simp_all add: delivery_status_parse_def delivery_status_names_def)

text \<open>A row that has the values of the parameters, whatever columns the table has besides.\<close>

definition carries :: "sql_row \<Rightarrow> sql_row \<Rightarrow> bool" where
  "carries r vals \<longleftrightarrow> (\<forall>n v. map_of vals n = Some v \<longrightarrow> map_of r n = Some v)"

lemma carriesD: "carries r vals \<Longrightarrow> map_of vals n = Some v \<Longrightarrow> map_of r n = Some v"
  by (simp add: carries_def)

lemma delivery_row_roundtrip:
  assumes "carries r (delivery_params C d)" "rfc3339_roundtrip C" "\<forall>c. dl_last_status_code d = Some c \<longrightarrow> c < 65536"
  shows "map_option (delivery_of_row C now) (delivery_row_of r) = Some d"
proof -
  have parse: "parse_dt C now (ch_to_rfc3339 C t) = t" for t
    using assms(2) by (simp add: parse_dt_def rfc3339_roundtrip_def)
  note cell = carriesD [OF assms(1)]
  have "text_cell r ''id'' = Some (dl_id d)" "text_cell r ''event_id'' = Some (dl_event_id d)"
    "text_cell r ''event_type'' = Some (dl_event_type d)" "text_cell r ''url'' = Some (dl_url d)"
    "text_cell r ''payload_json'' = Some (dl_payload_json d)"
    "text_cell r ''status'' = Some (delivery_status_wire_name (dl_status d))"
    "int_cell r ''attempts'' = Some (uint (dl_attempts d))" "int_cell r ''max_attempts'' = Some (uint (dl_max_attempts d))"
    "text_cell r ''next_attempt_at'' = Some (ch_to_rfc3339 C (dl_next_attempt_at d))"
    "text_cell r ''created_at'' = Some (ch_to_rfc3339 C (dl_created_at d))"
    "text_cell r ''updated_at'' = Some (ch_to_rfc3339 C (dl_updated_at d))"
    "text_cell r ''tenant_id'' = Some (dl_tenant_id d)"
    by (simp_all add: text_cell_def int_cell_def cell delivery_params_def)
  moreover have "opt_int_cell r ''last_status_code'' = Some (map_option int (dl_last_status_code d))"
    by (simp add: opt_int_cell_def cell delivery_params_def opt_int_def split: option.split)
  moreover have "opt_text_cell r ''last_error'' = Some (dl_last_error d)"
    by (simp add: opt_text_cell_def cell delivery_params_def opt_text_def split: option.split)
  moreover have "opt_text_cell r ''delivered_at'' = Some (map_option (ch_to_rfc3339 C) (dl_delivered_at d))"
    by (simp add: opt_text_cell_def cell delivery_params_def opt_text_def split: option.split)
  ultimately show ?thesis
    using assms(3)
    by (cases d) (auto simp: delivery_row_of_def delivery_of_row_def parse status_parse_wire option.map_comp comp_def
        option.map_ident split: option.split)
qed

lemma subscriber_row_roundtrip:
  assumes "carries r (subscriber_params C s)" "rfc3339_roundtrip C" "ws_secret s \<noteq> Some []"
  shows "row_to_subscriber C now r = Some s"
proof -
  have parse: "parse_dt C now (ch_to_rfc3339 C t) = t" for t
    using assms(2) by (simp add: parse_dt_def rfc3339_roundtrip_def)
  note cell = carriesD [OF assms(1)]
  have "text_cell r ''id'' = Some (ws_id s)" "text_cell r ''tenant_id'' = Some (ws_tenant_id s)"
    "text_cell r ''url'' = Some (ws_url s)"
    "text_cell r ''secret'' = Some (case ws_secret s of Some sec \<Rightarrow> sec | None \<Rightarrow> '''')"
    "int_cell r ''active'' = Some (if ws_active s then 1 else 0)"
    "text_cell r ''created_at'' = Some (ch_to_rfc3339 C (ws_created_at s))"
    "text_cell r ''updated_at'' = Some (ch_to_rfc3339 C (ws_updated_at s))"
    by (simp_all add: text_cell_def int_cell_def cell subscriber_params_def)
  then show ?thesis
    using assms(3) by (cases s) (auto simp: row_to_subscriber_def parse split: option.splits)
qed

text \<open>What an insertion leaves: the rows that were there, and one that carries the parameters.\<close>

lemma sql_insert_carries:
  assumes "sql_insert D t vals db = Some db'"
  shows "\<exists>tb r. table_of db t = Some tb \<and> carries r vals \<and> \<not> sql_violates tb r \<and>
    db' = db\<lparr>db_tables := st_put t (tb\<lparr>tbl_rows := tbl_rows tb @ [r]\<rparr>) (db_tables db)\<rparr>"
  using assms by (rule sql_insert_Some) (unfold carries_def, blast)

lemma find_snoc: "find P xs = None \<Longrightarrow> P y \<Longrightarrow> find P (xs @ [y]) = Some y"
  by (induction xs) (auto split: if_splits)

lemma inserted_selected:
  assumes "sql_insert D t vals db = Some db'" "map_of vals ''id'' = Some (Text_Cell i)" "select_by_id t i db = None"
  shows "\<exists>r. select_by_id t i db' = Some r \<and> carries r vals"
proof -
  obtain tb r where tb: "table_of db t = Some tb" and r: "carries r vals"
    and db': "db' = db\<lparr>db_tables := st_put t (tb\<lparr>tbl_rows := tbl_rows tb @ [r]\<rparr>) (db_tables db)\<rparr>"
    using sql_insert_carries [OF assms(1)] by blast
  have "find (\<lambda>r. map_of r ''id'' = Some (Text_Cell i)) (tbl_rows tb @ [r]) = Some r"
    using assms(3) tb carriesD [OF r assms(2)] by (intro find_snoc) (simp_all add: select_by_id_def)
  then show ?thesis using r by (simp add: select_by_id_def db')
qed

text \<open>
  A delivery that is enqueued and not yet in the table is read back as it is; one whose id is there already leaves the
  table alone (the key is the id). A subscriber likewise; with an empty secret it would read back without one.
\<close>

lemma enqueued_delivery_read:
  assumes "sql_insert D ''webhook_deliveries'' (delivery_params C d) db \<noteq> None" "\<not> dk_acquire D" "\<not> dk_read D"
    "select_by_id ''webhook_deliveries'' (dl_id d) db = None" "rfc3339_roundtrip C"
    "\<forall>c. dl_last_status_code d = Some c \<longrightarrow> c < 65536"
  shows "outbox_get D C now (dl_id d) (outbox_enqueue D C d db) = Some d"
proof -
  obtain db' where db': "sql_insert D ''webhook_deliveries'' (delivery_params C d) db = Some db'" using assms(1) by blast
  have "map_of (delivery_params C d) ''id'' = Some (Text_Cell (dl_id d))" by (simp add: delivery_params_def)
  then obtain r where r: "select_by_id ''webhook_deliveries'' (dl_id d) db' = Some r" "carries r (delivery_params C d)"
    using inserted_selected [OF db' _ assms(4)] by blast
  then show ?thesis
    using delivery_row_roundtrip [OF r(2) assms(5,6)] db' assms(2,3) by (simp add: outbox_get_def outbox_enqueue_def)
qed

lemma enqueue_conflict:
  assumes "table_of db ''webhook_deliveries'' = Some tb" "tbl_key tb = [''id'']"
    "select_by_id ''webhook_deliveries'' (dl_id d) db \<noteq> None"
  shows "outbox_enqueue D C d db = db"
proof -
  have False if "sql_insert D ''webhook_deliveries'' (delivery_params C d) db = Some db'" for db'
  proof -
    note ins = that
    obtain r where r: "carries r (delivery_params C d)" and ok: "\<not> sql_violates tb r"
      using sql_insert_carries [OF ins] assms(1) by auto
    obtain r' where "r' \<in> set (tbl_rows tb)" "map_of r' ''id'' = Some (Text_Cell (dl_id d))"
      using assms(1,3) by (auto simp: select_by_id_def find_Some_iff) (metis nth_mem)
    moreover have "map_of r ''id'' = Some (Text_Cell (dl_id d))"
      using carriesD [OF r] by (simp add: delivery_params_def)
    ultimately show False
      using ok assms(2) by (auto simp: sql_violates_def list_ex_iff)
  qed
  then show ?thesis by (cases "sql_insert D ''webhook_deliveries'' (delivery_params C d) db") (auto simp: outbox_enqueue_def)
qed

lemma inserted_subscriber_read:
  assumes "sql_insert D ''webhook_subscribers'' (subscriber_params C s) db \<noteq> None" "\<not> dk_acquire D" "\<not> dk_read D"
    "select_by_id ''webhook_subscribers'' (ws_id s) db = None" "rfc3339_roundtrip C" "ws_secret s \<noteq> Some []"
  shows "subscriber_get D C now (ws_id s) (subscriber_insert D C s db) = Some s"
proof -
  obtain db' where db': "sql_insert D ''webhook_subscribers'' (subscriber_params C s) db = Some db'" using assms(1) by blast
  have "map_of (subscriber_params C s) ''id'' = Some (Text_Cell (ws_id s))" by (simp add: subscriber_params_def)
  then obtain r where r: "select_by_id ''webhook_subscribers'' (ws_id s) db' = Some r" "carries r (subscriber_params C s)"
    using inserted_selected [OF db' _ assms(4)] by blast
  then show ?thesis
    using subscriber_row_roundtrip [OF r(2) assms(5,6)] db' assms(2,3)
    by (simp add: subscriber_get_def subscriber_insert_def)
qed

end
