(* ===== verification/Spec2Isabelle.thy ===== *)
theory Spec2Isabelle
  imports Startup Discovery Commerce Webhook_Tables
begin

text \<open>
  The ICP handler (\<open>src/src/\<close>): a server that carries out the commerce intents of agents for the
  tenants (merchants) that hold its API keys, within signed mandates of the principals the agents act
  for. A request passes the rate limiters and the key check, is executed at most once per idempotency
  key, is admitted by its mandate, runs one intent handler over the document stores, and is answered
  with a signed receipt, an event and webhook deliveries. Background ticks renew subscriptions and close
  stale offers.

  \<^bold>\<open>Theories and the code they model.\<close>
  \<^item> \<open>Prelude\<close>: results, bounded integers, strings and white space, association lists as stores, the
    third-party time library \<open>chrono\<close> as a record of parameters with its documented laws.
  \<^item> \<open>Errors\<close> (\<open>errors.rs\<close>), \<open>Models\<close> (\<open>models.rs\<close>, types of \<open>agent.rs\<close>), \<open>Intent\<close> (\<open>intent.rs\<close>),
    \<open>Pricing\<close> (free functions of \<open>service/helpers.rs\<close>).
  \<^item> \<open>Ledger\<close>, \<open>Mandate\<close> (\<open>mandate.rs\<close>): what was spent under a mandate, on both backends; decoding,
    signature and evaluation of a mandate.
  \<^item> \<open>Receipts\<close> (\<open>signing.rs\<close>, \<open>receipts.rs\<close>), \<open>Webhook\<close> (\<open>webhook/\<close>): signed receipts; the outbox, its
    worker, retention, and the subscriber registry.
  \<^item> \<open>Service_State\<close> (\<open>service/mod.rs\<close>, methods of \<open>service/helpers.rs\<close>): the state record \<open>icp\<close> of the
    pipeline, and what the handlers share. A handler is a function from the state to an error or
    a value, and the state; \<open>Fail\<close> is an error of the API, \<open>Panic\<close> a panic of the process.
  \<^item> \<open>Tenant_Spec\<close>: the abstract specification of the pipeline, the step relation of what a call for one
    tenant may do.
  \<^item> \<open>Checkout\<close> (\<open>service/catalog.rs\<close>, \<open>purchase.rs\<close>, \<open>orders.rs\<close>), \<open>Negotiate\<close>, \<open>Subscriptions\<close>,
    \<open>Peer_Commerce\<close> (\<open>service/negotiate.rs\<close>, \<open>subscriptions.rs\<close>, \<open>a2a.rs\<close>): the handlers of the intents, each
    proved to be a sequence of steps of the specification.
  \<^item> \<open>Service\<close> (\<open>handle_intent\<close> in \<open>service/mod.rs\<close>): the dispatcher, composed of all of the above.
  \<^item> \<open>Idempotency\<close> (\<open>idempotency.rs\<close>), \<open>Access\<close> (\<open>rate_limit.rs\<close>, \<open>agent.rs\<close>, \<open>auth.rs\<close>, \<open>handlers/mod.rs\<close>): the
    reservation cache on both backends; the limiters, API keys and agent identifiers.
  \<^item> \<open>Execution\<close> (\<open>handle_intent_idempotent\<close>, \<open>handlers/intents.rs\<close>): the idempotent execution and the
    endpoint, over the dispatcher, the cache and the access checks.
  \<^item> \<open>State_Store\<close> (\<open>state_store.rs\<close>): the document stores on the map and on the SQLite table.
  \<^item> \<open>Lifecycle\<close> (\<open>service/lifecycle.rs\<close>): the ticks that \<open>scheduler.rs\<close> calls on a timer.
  \<^item> \<open>Destination\<close> (\<open>webhook/url.rs\<close>, \<open>webhook/signing.rs\<close>, \<open>send_one\<close> in \<open>webhook/worker.rs\<close>): where a webhook may go,
    how it is signed, and one attempt.
  \<^item> \<open>Tenant_Api\<close> (\<open>handlers/queries.rs\<close>, \<open>handlers/webhook_admin.rs\<close>): the query and administration endpoints,
    over the in-memory stores.
  \<^item> \<open>Compat\<close>, \<open>Acp\<close>, \<open>Ucp\<close>, \<open>Facades\<close> (\<open>compat/acp.rs\<close>, \<open>compat/ucp.rs\<close>, routes of \<open>app.rs\<close>): two foreign checkout
    protocols as intents of the tenant of the key; the locale \<open>facade\<close> is the contract both are shown to keep.
  \<^item> \<open>Mcp\<close> (\<open>mcp.rs\<close>, \<open>bin/icp_mcp_stdio.rs\<close>), \<open>Grpc\<close> (\<open>grpc.rs\<close>): the other two transports. \<open>Server\<close> (routes of
    \<open>app.rs\<close>): a request on any entry point, and the server as a sequence of requests.
  \<^item> \<open>Resolver\<close> (\<open>resolver.rs\<close>): the keys of a principal from its DID, \<open>did:key\<close> and \<open>did:web\<close> with its cache; the locale
    \<open>did_method\<close> is the contract of a method, interpreted on both.
  \<^item> \<open>State_Db\<close> (\<open>state_db.rs\<close>): the database of the handler's state, its schema migrations and its opening, on tables
    with columns, keys, indexes and rows. \<open>Webhook_Tables\<close> (\<open>webhook/outbox.rs\<close>, \<open>webhook/subscribers.rs\<close>): the rows of the
    outbox and of the subscribers in it.
  \<^item> \<open>Config\<close> (\<open>config.rs\<close>), \<open>Startup\<close> (\<open>build_app_state\<close> and \<open>serve\<close> in \<open>app.rs\<close>, \<open>handlers/ops.rs\<close>): the configuration and its
    checks, what a start builds of it, the background loops, the probes.
  \<^item> \<open>Discovery\<close> (\<open>discovery.rs\<close>, \<open>handlers/discovery.rs\<close>, \<open>handlers/events.rs\<close>, \<open>build_router\<close> in \<open>app.rs\<close>): the discovery
    documents, the route table, the event stream. \<open>Commerce\<close> (\<open>commerce.rs\<close>): the adapter to the commerce
    engine; \<open>engine_of\<close> makes it the engine record of the pipeline, whose discount may panic.

  \<^bold>\<open>State.\<close> A \<open>HashMap\<close> and a table are association lists with distinct keys (\<open>st_ok\<close>), \<open>st_get\<close> and \<open>st_put\<close>
  being \<open>get\<close> and \<open>insert\<close> (or an upsert); the order of the entries is the order of iteration, which no
  property depends on. \<open>i64\<close> values are integers with the saturating and wrapping operations written out,
  \<open>u32\<close> counters are words, \<open>usize\<close> lengths are bounded by \<open>usize_max\<close>, instants and durations are integers of
  the finest unit of \<open>chrono\<close>. Instants are ideal where the code adds a configured or constant duration
  to the clock; where a client chooses the duration (trial, period, life time) the overflow is modelled.
  Double-precision arithmetic of negotiation is rational with the rounding of IEEE 754 written out.
  A failing database call is a boolean of a record of failures, which the properties quantify over.

  \<^bold>\<open>Parameters.\<close> Code outside the repository is an argument: \<open>chrono\<close>, base64, Ed25519, SHA-256 and \<open>serde_json\<close>
  codecs, Base58, DNS, one exchange of an HTTP client, the commerce engine and its decimal library, Redis, the file system. The
  pipeline takes the resolver of DIDs as a parameter too; \<open>Startup\<close> instantiates it with \<open>Resolver\<close>. The redirects
  that the client of the resolver follows are a recursion of \<open>Resolver\<close> with the client's limit of ten; that it looks
  the host up again after the check of the address is left to the parameter, so nothing is claimed of the address it
  connects to. The order in which SQLite visits the rows of a query without ORDER BY is an arbitrary permutation.
  The laws a property needs are hypotheses of it (round trips of codecs, order of time stamps,
  correctness of a signature), each true of the demonstration instance its witness uses. The clock
  and the UUIDs a call draws are functions of the environment; freshness of the ids is a hypothesis where
  needed.

  \<^bold>\<open>What the groups of lemmas show.\<close>
  \<^item> Data: the catalogue and its parser (C1), pricing (C2), estimates and discounts.
  \<^item> Mandates: no budget is overdrawn (C5); the backends give the same answers over sequences of spends of which
    none exceeds its budget by itself, up to unavailability (C6; \<open>oversized_request_diverges\<close> shows what such a
    request does); acceptance is authentic and exactly characterised, and agrees with the spend gate (C7, C9).
  \<^item> Webhooks: attempts are bounded, a pass settles what is due, nothing is lost, a failing
    receiver ends as dead letter (C10 to C13). Receipts verify (C14).
  \<^item> Intents: the effect of each quote, purchase, negotiation, subscription and peer payment, and that
    it happens once (C15 to C18, C20 to C22). A quote panics exactly where the engine's discount does
    (\<open>engine_discount_panics\<close> says when).
  \<^item> Endpoints: queries and administration see and change the rows of one tenant only (C3; the list of
    receipts shows only the tenant's own, but not all of them, \<open>older_receipts_hidden\<close>); the facades act for the
    tenant of the key only (C19) and take a payment once, as long as nobody replaces the paid session (C4).
  \<^item> Dispatcher: refinement of the specification, final states, mandates, panics, receipts, events and the fan-out (C23,
    C25, C27 to C30). It panics on the period overflow of a mandate, and on a quote whose discount does. Server: no
    sequence of requests without a key of a tenant, on any transport, touches its transactions, subscriptions, peer
    quotes and webhook registrations (C24). What C4, C24 and C25 except is what the code does not guarantee: a search,
    describe or quote replaces the transaction it names, whatever its owner and state
    (\<open>search_overwrites_foreign_transaction\<close>).
  \<^item> Idempotency: one holder per key, the table refines the map (C8, C32); limits (C33); replay within the
    life time of an answer while the reads of the cache do not fail (C35), failed attempts (C36).
  \<^item> Principals: a verified mandate is signed by a key current for its issuer: fetched over HTTPS from the host of its
    DID, or from where redirects of that host led, which nothing checks (C37, \<open>redirect_unchecked\<close>). Start: in production, from the
    configuration to the store, no scoped intent is carried out without a key and a signed mandate (C26).
  \<^item> State database: openings cut short are completed by the next, a complete file is left alone (C31); rows of
    a file keep their values and types (C34). Each opening of \<open>:memory:\<close> starts from an empty database.
  \<^item> Stores: the tables refine the maps with their index columns, queries up to the order of the rows (C38). Ticks: renewals and
    expiries (C39, C40).

  \<^bold>\<open>Bounds.\<close> The wait for another holder of a key is a recursion on the remaining polls (\<open>max_polls\<close> of the
  source), so every execution ends. All other loops run over lists. The snapshot of a tick is a list as long
  as the store, which fits \<open>usize\<close>.

  \<^bold>\<open>Not modelled.\<close> The locks of \<open>operation_locks\<close>: a handler runs as one step, so interleavings within it
  are out of scope; concurrent executions are modelled where the code itself arbitrates them, in the
  idempotency cache and the ledger. The background ticks take no lock in the source. Also left out, as
  code without state or decisions of its own: the metrics (counters that nothing reads back), the OpenAPI document, the
  middleware (one response header), the layers of the router, the listeners, and the conformance client, a test program
  that talks to the server from outside. The pipeline runs over the in-memory stores; the tables are related to
  them by the refinements C6, C32 and C38, store by store, and not inside a run of the pipeline. Of the
  outbox the table operations other than insertion and lookup are modelled on the map only.
\<close>

end
